(* ===== verification/PyPrelude.thy ===== *)
theory PyPrelude
  imports Complex_Main "HOL-Library.List_Lexorder" "HOL-Library.Char_ord"
begin

text \<open>
  The shared vocabulary of the development: Python values as they reach the modelled code
  (JSON-shaped data), exceptions as values, dictionaries with insertion order, the string
  methods the sources call, and the generic lemmas about them that every component uses.

  \<^item> A Python \<^verbatim>\<open>str\<close> is a \<^typ>\<open>string\<close> whose characters are the code points 0 to 255.
    \<^verbatim>\<open>len\<close> counts characters; whitespace and letter case follow Unicode on that range.
  \<^item> A finite \<^verbatim>\<open>float\<close> is the rational number it denotes (the two zeros are one value), so
    comparisons between \<^verbatim>\<open>int\<close> and \<^verbatim>\<open>float\<close> are exact, as they are in Python.
  \<^item> A \<^verbatim>\<open>dict\<close> with string keys is an association list in insertion order. The constructors
    do not force distinct keys: \<open>wf_py\<close> says when a value is one Python can hold.
  \<^item> A raised exception is \<open>Inl\<close>, a returned value is \<open>Inr\<close>; \<open>Interrupted\<close> is what \<^verbatim>\<open>except Exception\<close> does
    not catch, the end of the process included.
  Values are immutable here, so the defensive \<^verbatim>\<open>deepcopy\<close> of the sources is the identity.
\<close>

section \<open>Values and exceptions\<close>

datatype pyflt = Fin rat | PosInf | NegInf | NotANum

datatype pyval =
    PNone
  | PBool bool
  | PInt int
  | PFloat pyflt
  | PStr string
  | PList "pyval list"
  | PDict "(string \<times> pyval) list"

datatype pyexc =
    ValueError string
  | KeyError string
  | TypeError
  | AttributeError
  | IndexError
  | OverflowError
  | StopIteration
  | OSError
  | Interrupted

type_synonym pydict = "(string \<times> pyval) list"
type_synonym 'a res = "pyexc + 'a"

named_theorems py_simps \<open>reading and writing Python values\<close>
named_theorems res_simps \<open>sequencing of computations that may raise\<close>

section \<open>Sequencing\<close>

definition rbind :: "'e + 'a \<Rightarrow> ('a \<Rightarrow> 'e + 'b) \<Rightarrow> 'e + 'b" where
  "rbind m f = (case m of Inl e \<Rightarrow> Inl e | Inr x \<Rightarrow> f x)"

definition ensure :: "bool \<Rightarrow> pyexc \<Rightarrow> unit res" where
  "ensure c e = (if c then Inr () else Inl e)"

fun each :: "('a \<Rightarrow> 'e + unit) \<Rightarrow> 'a list \<Rightarrow> 'e + unit" where
  "each f [] = Inr ()"
| "each f (x # xs) = rbind (f x) (\<lambda>_. each f xs)"

fun fold_res :: "('a \<Rightarrow> 's \<Rightarrow> 'e + 's) \<Rightarrow> 'a list \<Rightarrow> 's \<Rightarrow> 'e + 's" where
  "fold_res f [] s = Inr s"
| "fold_res f (x # xs) s = rbind (f x s) (fold_res f xs)"

fun map_res :: "('a \<Rightarrow> 'e + 'b) \<Rightarrow> 'a list \<Rightarrow> 'e + 'b list" where
  "map_res f [] = Inr []"
| "map_res f (x # xs) = rbind (f x) (\<lambda>y. rbind (map_res f xs) (\<lambda>ys. Inr (y # ys)))"

definition is_ok :: "'e + 'a \<Rightarrow> bool" where
  "is_ok r = (case r of Inl _ \<Rightarrow> False | Inr _ \<Rightarrow> True)"

lemma rbind_Inl [simp, res_simps]: "rbind (Inl e) f = Inl e"
  by (simp add: rbind_def)

lemma rbind_Inr [simp, res_simps]: "rbind (Inr x) f = f x"
  by (simp add: rbind_def)

lemma rbind_eq_Inr_iff [res_simps]:
  "rbind m f = Inr y \<longleftrightarrow> (\<exists>x. m = Inr x \<and> f x = Inr y)"
  by (cases m) simp_all

lemma rbind_eq_Inl_iff [res_simps]:
  "rbind m f = Inl e \<longleftrightarrow> m = Inl e \<or> (\<exists>x. m = Inr x \<and> f x = Inl e)"
  by (cases m) auto

lemma rbind_InrE [elim]:
  assumes "rbind m f = Inr y"
  obtains x where "m = Inr x" and "f x = Inr y"
  using assms by (auto simp: rbind_eq_Inr_iff)

lemma rbind_assoc: "rbind (rbind m f) g = rbind m (\<lambda>x. rbind (f x) g)"
  by (cases m) simp_all

lemma rbind_cong [fundef_cong]:
  "m = m' \<Longrightarrow> (\<And>x. m' = Inr x \<Longrightarrow> f x = f' x) \<Longrightarrow> rbind m f = rbind m' f'"
  by (cases m') simp_all

lemma ensure_eq_Inr_iff [simp, res_simps]: "ensure c e = Inr u \<longleftrightarrow> c"
  by (simp add: ensure_def)

lemma ensure_eq_Inl_iff [simp, res_simps]: "ensure c e = Inl e' \<longleftrightarrow> \<not> c \<and> e' = e"
  by (auto simp: ensure_def)

lemma ensure_simps [simp]: "ensure True e = Inr ()" "ensure False e = Inl e"
  by (simp_all add: ensure_def)

lemma each_eq_Inr_iff [res_simps]: "each f xs = Inr u \<longleftrightarrow> (\<forall>x \<in> set xs. f x = Inr ())"
  by (induction xs) (auto simp: rbind_eq_Inr_iff)

lemma map_res_set: "map_res f xs = Inr ys \<Longrightarrow> y \<in> set ys \<Longrightarrow> \<exists>x \<in> set xs. f x = Inr y"
  by (induction xs arbitrary: ys) (auto simp: rbind_eq_Inr_iff)

lemma fold_res_append:
  "fold_res f (xs @ ys) s = rbind (fold_res f xs s) (fold_res f ys)"
proof (induction xs arbitrary: s)
  case (Cons x xs)
  have "fold_res f (xs @ ys) = (\<lambda>s. rbind (fold_res f xs s) (fold_res f ys))"
    using Cons.IH by blast
  then show ?case by (simp add: rbind_assoc)
qed simp

lemma fold_res_invariant:
  assumes "P s" and "fold_res f xs s = Inr s'"
    and "\<And>x s s'. x \<in> set xs \<Longrightarrow> P s \<Longrightarrow> f x s = Inr s' \<Longrightarrow> P s'"
  shows "P s'"
  using assms
proof (induction xs arbitrary: s)
  case Nil
  then show ?case by simp
next
  case (Cons x xs)
  from Cons.prems(2) obtain s1 where s1: "f x s = Inr s1" "fold_res f xs s1 = Inr s'"
    by (auto simp: rbind_eq_Inr_iff)
  have "P s1"
    using Cons.prems(3)[of x s s1] Cons.prems(1) s1(1) by simp
  then show ?case
    using Cons.IH[OF _ s1(2)] Cons.prems(3) by (meson list.set_intros(2))
qed

lemma is_ok_iff: "is_ok r \<longleftrightarrow> (\<exists>x. r = Inr x)"
  by (cases r) (simp_all add: is_ok_def)

lemma fold_res_cong [fundef_cong]:
  "xs = ys \<Longrightarrow> s = t \<Longrightarrow> (\<And>x u. x \<in> set ys \<Longrightarrow> f x u = g x u) \<Longrightarrow> fold_res f xs s = fold_res g ys t"
proof (induction ys arbitrary: xs s t)
  case (Cons y ys)
  have "fold_res f ys u = fold_res g ys u" for u by (rule Cons.IH) (simp_all add: Cons.prems)
  then show ?case using Cons.prems by (auto intro!: rbind_cong)
qed simp

lemma fold_res_at:
  "fold_res f xs s = Inr s' \<Longrightarrow> i < length xs \<Longrightarrow>
    \<exists>u w. fold_res f (take i xs) s = Inr u \<and> f (xs ! i) u = Inr w"
proof (induction xs arbitrary: s i)
  case (Cons x xs)
  then obtain s1 where s1: "f x s = Inr s1" "fold_res f xs s1 = Inr s'"
    by (auto simp: rbind_eq_Inr_iff)
  show ?case
  proof (cases i)
    case 0
    with s1(1) show ?thesis by simp
  next
    case (Suc j)
    with Cons.IH[OF s1(2), of j] Cons.prems(2) s1(1) show ?thesis by simp
  qed
qed simp

lemma ex_unit: "(\<exists>u::unit. P u) \<longleftrightarrow> P ()"
  by auto

lemmas checks_iff = rbind_eq_Inr_iff ensure_eq_Inr_iff ex_unit

text \<open>
  \<open>ens P r\<close>: if the computation returns, its value satisfies \<open>P\<close>. Its rules follow the
  shape of a definition, so that the simplifier computes the condition of a whole function.
\<close>

definition ens :: "('a \<Rightarrow> bool) \<Rightarrow> 'e + 'a \<Rightarrow> bool" where
  "ens P r = (\<forall>x. r = Inr x \<longrightarrow> P x)"

lemma ens_simps [simp]:
  "ens P (Inl e)" "ens P (Inr x) = P x" "ens P (rbind m f) = ens (\<lambda>x. ens P (f x)) m"
  "ens P (if c then r1 else r2) = ((c \<longrightarrow> ens P r1) \<and> (\<not> c \<longrightarrow> ens P r2))"
  "ens (\<lambda>x. True) r"
  by (auto simp: ens_def rbind_eq_Inr_iff)

lemma ensD: "ens P r \<Longrightarrow> r = Inr x \<Longrightarrow> P x"
  by (simp add: ens_def)

lemma ensI: "(\<And>x. r = Inr x \<Longrightarrow> P x) \<Longrightarrow> ens P r"
  by (simp add: ens_def)

lemma ens_mono: "ens P r \<Longrightarrow> (\<And>x. P x \<Longrightarrow> Q x) \<Longrightarrow> ens Q r"
  by (simp add: ens_def)

section \<open>Type tests, truth and equality\<close>

fun is_dict :: "pyval \<Rightarrow> bool" where
  "is_dict (PDict _) = True" | "is_dict _ = False"

fun is_list :: "pyval \<Rightarrow> bool" where
  "is_list (PList _) = True" | "is_list _ = False"

fun is_str :: "pyval \<Rightarrow> bool" where
  "is_str (PStr _) = True" | "is_str _ = False"

text \<open>\<^verbatim>\<open>type(x) is bool\<close>, and \<^verbatim>\<open>type(x) is int\<close> (which a bool does not satisfy).\<close>

fun is_bool :: "pyval \<Rightarrow> bool" where
  "is_bool (PBool _) = True" | "is_bool _ = False"

fun is_int :: "pyval \<Rightarrow> bool" where
  "is_int (PInt _) = True" | "is_int _ = False"

fun is_float :: "pyval \<Rightarrow> bool" where
  "is_float (PFloat _) = True" | "is_float _ = False"

lemma is_type_iff:
  "is_dict v \<longleftrightarrow> (\<exists>d. v = PDict d)" "is_list v \<longleftrightarrow> (\<exists>xs. v = PList xs)"
  "is_str v \<longleftrightarrow> (\<exists>s. v = PStr s)" "is_bool v \<longleftrightarrow> (\<exists>b. v = PBool b)"
  "is_int v \<longleftrightarrow> (\<exists>i. v = PInt i)" "is_float v \<longleftrightarrow> (\<exists>x. v = PFloat x)"
  by (cases v; simp)+

text \<open>\<^verbatim>\<open>bool(x)\<close>: what \<^verbatim>\<open>if x\<close>, \<^verbatim>\<open>x or y\<close> and \<^verbatim>\<open>not x\<close> look at.\<close>

fun truthy :: "pyval \<Rightarrow> bool" where
  "truthy PNone = False"
| "truthy (PBool b) = b"
| "truthy (PInt i) = (i \<noteq> 0)"
| "truthy (PFloat x) = (x \<noteq> Fin 0)"
| "truthy (PStr s) = (s \<noteq> [])"
| "truthy (PList xs) = (xs \<noteq> [])"
| "truthy (PDict d) = (d \<noteq> [])"

definition py_or :: "pyval \<Rightarrow> pyval \<Rightarrow> pyval" where
  "py_or a b = (if truthy a then a else b)"

text \<open>Only lists and dictionaries are unhashable among these values; a set test raises on them.\<close>

definition hashable :: "pyval \<Rightarrow> bool" where
  "hashable v = (\<not> is_list v \<and> \<not> is_dict v)"

fun num_of :: "pyval \<Rightarrow> pyflt option" where
  "num_of (PBool b) = Some (Fin (if b then 1 else 0))"
| "num_of (PInt i) = Some (Fin (of_int i))"
| "num_of (PFloat x) = Some x"
| "num_of _ = None"

fun flt_eq :: "pyflt \<Rightarrow> pyflt \<Rightarrow> bool" where
  "flt_eq NotANum _ = False"
| "flt_eq _ NotANum = False"
| "flt_eq x y = (x = y)"

fun flt_less :: "pyflt \<Rightarrow> pyflt \<Rightarrow> bool" where
  "flt_less (Fin a) (Fin b) = (a < b)"
| "flt_less NegInf (Fin _) = True"
| "flt_less NegInf PosInf = True"
| "flt_less (Fin _) PosInf = True"
| "flt_less _ _ = False"

definition flt_le :: "pyflt \<Rightarrow> pyflt \<Rightarrow> bool" where
  "flt_le x y = (flt_less x y \<or> flt_eq x y)"

fun isfinite_flt :: "pyflt \<Rightarrow> bool" where
  "isfinite_flt (Fin _) = True" | "isfinite_flt _ = False"

text \<open>
  \<^verbatim>\<open>a == b\<close>. Numbers compare by value across \<^verbatim>\<open>bool\<close>, \<^verbatim>\<open>int\<close> and \<^verbatim>\<open>float\<close>; dictionaries
  compare without regard to order.
\<close>

fun py_eq :: "pyval \<Rightarrow> pyval \<Rightarrow> bool"
  and py_eq_list :: "pyval list \<Rightarrow> pyval list \<Rightarrow> bool"
  and py_eq_items :: "(string \<times> pyval) list \<Rightarrow> (string \<times> pyval) list \<Rightarrow> bool"
where
  "py_eq (PStr a) b = (b = PStr a)"
| "py_eq PNone b = (b = PNone)"
| "py_eq (PList xs) b = (case b of PList ys \<Rightarrow> py_eq_list xs ys | _ \<Rightarrow> False)"
| "py_eq (PDict d) b =
     (case b of PDict e \<Rightarrow> length d = length e \<and> py_eq_items d e | _ \<Rightarrow> False)"
| "py_eq (PBool a) b =
     (case num_of b of Some y \<Rightarrow> flt_eq (Fin (if a then 1 else 0)) y | None \<Rightarrow> False)"
| "py_eq (PInt a) b = (case num_of b of Some y \<Rightarrow> flt_eq (Fin (of_int a)) y | None \<Rightarrow> False)"
| "py_eq (PFloat a) b = (case num_of b of Some y \<Rightarrow> flt_eq a y | None \<Rightarrow> False)"
| "py_eq_list [] ys = (ys = [])"
| "py_eq_list (x # xs) ys = (case ys of [] \<Rightarrow> False | y # zs \<Rightarrow> py_eq x y \<and> py_eq_list xs zs)"
| "py_eq_items [] e = True"
| "py_eq_items ((k, v) # d) e =
     (case map_of e k of None \<Rightarrow> False | Some w \<Rightarrow> py_eq v w \<and> py_eq_items d e)"

text \<open>Membership in a list, by \<^verbatim>\<open>==\<close>.\<close>

definition py_in :: "pyval \<Rightarrow> pyval list \<Rightarrow> bool" where
  "py_in v xs = list_ex (\<lambda>x. py_eq v x) xs"

text \<open>Membership of a value in a set of string constants: raises on an unhashable value.\<close>

definition in_names :: "pyval \<Rightarrow> string list \<Rightarrow> bool res" where
  "in_names v names =
     (if hashable v then Inr (case v of PStr s \<Rightarrow> s \<in> set names | _ \<Rightarrow> False)
      else Inl TypeError)"

lemma hashable_simps [simp]:
  "hashable (PStr s)" "hashable PNone" "hashable (PBool b)" "hashable (PInt i)"
  "hashable (PFloat x)" "\<not> hashable (PList xs)" "\<not> hashable (PDict d)"
  by (simp_all add: hashable_def)

lemma in_names_True_iff [res_simps]:
  "in_names v names = Inr True \<longleftrightarrow> (\<exists>s. v = PStr s \<and> s \<in> set names)"
  by (cases v) (simp_all add: in_names_def)

lemma in_names_PStr [simp]: "in_names (PStr s) names = Inr (s \<in> set names)"
  by (simp add: in_names_def)

section \<open>Dictionaries\<close>

fun dput :: "string \<Rightarrow> pyval \<Rightarrow> pydict \<Rightarrow> pydict" where
  "dput k v [] = [(k, v)]"
| "dput k v ((k', w) # d) = (if k' = k then (k, v) # d else (k', w) # dput k v d)"

definition dict_get :: "pydict \<Rightarrow> string \<Rightarrow> pyval" where
  "dict_get d k = (case map_of d k of None \<Rightarrow> PNone | Some v \<Rightarrow> v)"

text \<open>
  \<^verbatim>\<open>v.get(k)\<close>, \<^verbatim>\<open>k in v\<close>, the keys of \<open>v\<close> and \<^verbatim>\<open>{**v, k: x}\<close> for a value known to be a
  dictionary. The sources test \<^verbatim>\<open>isinstance(v, dict)\<close> first; where they do not, the model
  uses \<open>get_or_raise\<close> and \<open>item\<close>.
\<close>

fun pget :: "pyval \<Rightarrow> string \<Rightarrow> pyval" where
  "pget (PDict d) k = dict_get d k"
| "pget _ k = PNone"

fun pkeys :: "pyval \<Rightarrow> string list" where
  "pkeys (PDict d) = map fst d"
| "pkeys _ = []"

definition phas :: "pyval \<Rightarrow> string \<Rightarrow> bool" where
  "phas v k = (k \<in> set (pkeys v))"

fun pset :: "string \<Rightarrow> pyval \<Rightarrow> pyval \<Rightarrow> pyval" where
  "pset k x (PDict d) = PDict (dput k x d)"
| "pset k x v = v"

fun plist :: "pyval \<Rightarrow> pyval list" where
  "plist (PList xs) = xs"
| "plist _ = []"

fun pitems :: "pyval \<Rightarrow> (string \<times> pyval) list" where
  "pitems (PDict d) = d"
| "pitems _ = []"

text \<open>The elements of \<^verbatim>\<open>for x in v\<close>: of a dictionary its keys, of a string its characters.\<close>

definition py_iter :: "pyval \<Rightarrow> pyval list res" where
  "py_iter v = (case v of PList xs \<Rightarrow> Inr xs | PDict d \<Rightarrow> Inr (map (\<lambda>kv. PStr (fst kv)) d)
     | PStr s \<Rightarrow> Inr (map (\<lambda>c. PStr [c]) s) | _ \<Rightarrow> Inl TypeError)"

lemma py_iter_PList [simp]: "py_iter (PList xs) = Inr xs"
  by (simp add: py_iter_def)

definition keys_are :: "pyval \<Rightarrow> string list \<Rightarrow> bool" where
  "keys_are v ks = (set (pkeys v) = set ks)"

definition keys_within :: "pyval \<Rightarrow> string list \<Rightarrow> bool" where
  "keys_within v ks = (set (pkeys v) \<subseteq> set ks)"

definition keys_include :: "pyval \<Rightarrow> string list \<Rightarrow> bool" where
  "keys_include v ks = (set ks \<subseteq> set (pkeys v))"

definition keys_meet :: "pyval \<Rightarrow> string list \<Rightarrow> bool" where
  "keys_meet v ks = list_ex (phas v) ks"

definition item :: "pyval \<Rightarrow> string \<Rightarrow> pyval res" where
  "item v k = (case v of
       PDict d \<Rightarrow> (case map_of d k of None \<Rightarrow> Inl (KeyError k) | Some x \<Rightarrow> Inr x)
     | _ \<Rightarrow> Inl TypeError)"

definition get_or_raise :: "pyval \<Rightarrow> string \<Rightarrow> pyval res" where
  "get_or_raise v k = (case v of PDict d \<Rightarrow> Inr (dict_get d k) | _ \<Rightarrow> Inl AttributeError)"

definition pget_default :: "pyval \<Rightarrow> string \<Rightarrow> pyval \<Rightarrow> pyval" where
  "pget_default v k x = (if phas v k then pget v k else x)"

text \<open>Values Python can hold: the keys of every dictionary are distinct.\<close>

fun wf_py :: "pyval \<Rightarrow> bool" where
  "wf_py (PList xs) = list_all wf_py xs"
| "wf_py (PDict d) = (distinct (map fst d) \<and> list_all (\<lambda>kv. wf_py (snd kv)) d)"
| "wf_py _ = True"

lemma map_of_dput [simp, py_simps]: "map_of (dput k v d) k' = (if k' = k then Some v else map_of d k')"
  by (induction k v d rule: dput.induct) auto

lemma keys_dput [simp, py_simps]: "set (map fst (dput k v d)) = insert k (set (map fst d))"
  by (induction k v d rule: dput.induct) auto

lemma fst_image_dput [simp]: "fst ` set (dput k v d) = insert k (fst ` set d)"
  using keys_dput[of k v d] by simp

lemma distinct_dput [simp]: "distinct (map fst (dput k v d)) \<longleftrightarrow> distinct (map fst d)"
proof (induction k v d rule: dput.induct)
  case (2 k v k' w d)
  then show ?case by auto
qed simp

lemma dict_get_dput [simp, py_simps]:
  "dict_get (dput k v d) k' = (if k' = k then v else dict_get d k')"
  by (simp add: dict_get_def)

lemma pget_pset [simp, py_simps]:
  "is_dict w \<Longrightarrow> pget (pset k x w) k' = (if k' = k then x else pget w k')"
  by (cases w) simp_all

lemma is_dict_pset [simp, py_simps]: "is_dict (pset k x w) = is_dict w"
  by (cases w) simp_all

lemma phas_pset [simp, py_simps]: "is_dict w \<Longrightarrow> phas (pset k x w) k' \<longleftrightarrow> k' = k \<or> phas w k'"
  by (cases w) (auto simp: phas_def)

lemma wf_dput: "list_all (\<lambda>kv. wf_py (snd kv)) d \<Longrightarrow> wf_py x \<Longrightarrow>
    list_all (\<lambda>kv. wf_py (snd kv)) (dput k x d)"
  by (induction k x d rule: dput.induct) auto

lemma wf_pset [intro]: "wf_py w \<Longrightarrow> wf_py x \<Longrightarrow> wf_py (pset k x w)"
  by (cases w) (auto simp: wf_dput)

lemma wf_map_of: "list_all (\<lambda>kv. wf_py (snd kv)) d \<Longrightarrow> map_of d k = Some x \<Longrightarrow> wf_py x"
  by (induction d) (auto split: if_splits)

lemma wf_pget [intro]: "wf_py v \<Longrightarrow> wf_py (pget v k)"
  by (cases v) (auto simp: dict_get_def wf_map_of split: option.split)

lemma map_of_None_pget: "k \<notin> set (map fst d) \<Longrightarrow> dict_get d k = PNone"
  by (simp add: dict_get_def map_of_eq_None_iff[THEN iffD2])

lemma not_phas_pget: "\<not> phas v k \<Longrightarrow> pget v k = PNone"
  by (cases v) (simp_all add: phas_def map_of_None_pget)

lemma pset_not_dict [simp]: "\<not> is_dict w \<Longrightarrow> pset k x w = w"
  by (cases w) simp_all

lemma item_eq_Inr_iff [res_simps]: "item v k = Inr x \<longleftrightarrow> phas v k \<and> pget v k = x"
proof (cases v)
  case (PDict d)
  show ?thesis
  proof (cases "map_of d k")
    case None
    then have "k \<notin> set (map fst d)" by (simp add: map_of_eq_None_iff)
    with None show ?thesis using PDict by (simp add: item_def phas_def)
  next
    case (Some w)
    then have "k \<in> fst ` set d" by (metis image_eqI fst_conv map_of_SomeD)
    with Some show ?thesis using PDict by (simp add: item_def phas_def dict_get_def)
  qed
qed (simp_all add: item_def phas_def)

lemma item_phas: "phas v k \<Longrightarrow> item v k = Inr (pget v k)"
  by (simp add: item_eq_Inr_iff)

lemma phas_is_dict: "phas v k \<Longrightarrow> is_dict v"
  by (cases v) (simp_all add: phas_def)

lemma keys_are_phas: "keys_are v ks \<Longrightarrow> phas v k \<longleftrightarrow> k \<in> set ks"
  by (simp add: keys_are_def phas_def)

lemma pget_default_phas [simp]: "phas v k \<Longrightarrow> pget_default v k x = pget v k"
  by (simp add: pget_default_def)

lemma pitems_pget: "phas v k \<Longrightarrow> (k, pget v k) \<in> set (pitems v)"
proof (cases v)
  case (PDict d)
  show "phas v k \<Longrightarrow> ?thesis"
    using PDict by (cases "map_of d k") (auto simp: phas_def map_of_eq_None_iff dict_get_def dest: map_of_SomeD)
qed (simp_all add: phas_def)

end
