(* ===== verification/PyText.thy ===== *)
theory PyText
  imports PyPrelude "HOL-Library.Word"
begin

text \<open>
  The string methods, number formatting, JSON encoding and SHA-256 digest of the Python
  standard library, as far as the modelled code uses them. Strings hold code points 0 to 255.
  The micro sign folds to itself here: Python folds it to a code point outside this range to
  which no other character of the range folds, so comparisons of folded strings agree.
\<close>

section \<open>Characters\<close>

definition cp :: "char \<Rightarrow> nat" where
  "cp c = of_char c"

definition is_space :: "char \<Rightarrow> bool" where
  "is_space c = (let n = cp c in
     9 \<le> n \<and> n \<le> 13 \<or> 28 \<le> n \<and> n \<le> 32 \<or> n = 133 \<or> n = 160)"

definition is_upper :: "char \<Rightarrow> bool" where
  "is_upper c = (let n = cp c in 65 \<le> n \<and> n \<le> 90 \<or> 192 \<le> n \<and> n \<le> 222 \<and> n \<noteq> 215)"

definition lower_char :: "char \<Rightarrow> char" where
  "lower_char c = (if is_upper c then char_of (cp c + 32) else c)"

definition py_lower :: "string \<Rightarrow> string" where
  "py_lower s = map lower_char s"

text \<open>Case folding maps the sharp s to two letters.\<close>

definition fold_char :: "char \<Rightarrow> string" where
  "fold_char c = (if cp c = 223 then ''ss'' else [lower_char c])"

definition casefold :: "string \<Rightarrow> string" where
  "casefold s = concat (map fold_char s)"

definition lstrip :: "string \<Rightarrow> string" where
  "lstrip s = dropWhile is_space s"

definition strip :: "string \<Rightarrow> string" where
  "strip s = rev (dropWhile is_space (rev (dropWhile is_space s)))"

definition blank :: "string \<Rightarrow> bool" where
  "blank s = (strip s = [])"

lemma blank_iff: "blank s \<longleftrightarrow> list_all is_space s"
proof -
  have "dropWhile is_space (rev (dropWhile is_space s)) = [] \<longleftrightarrow>
      (\<forall>c \<in> set (dropWhile is_space s). is_space c)"
    by (simp add: dropWhile_eq_Nil_conv)
  also have "\<dots> \<longleftrightarrow> (\<forall>c \<in> set s. is_space c)"
    by (metis dropWhile_eq_Nil_conv empty_iff empty_set set_dropWhileD
        hd_dropWhile list.set_sel(1))
  finally show ?thesis
    by (simp add: blank_def strip_def list_all_iff)
qed

lemma strip_Nil [simp]: "strip [] = []"
  by (simp add: strip_def)

lemma dropWhile_idem [simp]: "dropWhile P (dropWhile P xs) = dropWhile P xs"
  by (induction xs) auto

lemma dropWhile_hd_not: "xs = [] \<or> \<not> P (hd xs) \<Longrightarrow> dropWhile P xs = xs"
  by (cases xs) auto

lemma dropWhile_rev_stable:
  assumes "u = [] \<or> \<not> P (hd u)"
  shows "dropWhile P (rev (dropWhile P (rev u))) = rev (dropWhile P (rev u))"
proof -
  define v where "v = dropWhile P (rev u)"
  obtain zs where "rev u = zs @ v"
    using takeWhile_dropWhile_id[of P "rev u"] unfolding v_def by metis
  then have u: "u = rev v @ rev zs"
    by (metis rev_append rev_rev_ident)
  have "rev v = [] \<or> \<not> P (hd (rev v))"
    using assms u by (cases "rev v") auto
  then show ?thesis by (simp add: dropWhile_hd_not v_def)
qed

lemma strip_strip [simp]: "strip (strip s) = strip s"
proof -
  have "dropWhile is_space s = [] \<or> \<not> is_space (hd (dropWhile is_space s))"
    using hd_dropWhile by blast
  then show ?thesis
    by (simp add: strip_def dropWhile_rev_stable)
qed

text \<open>\<^verbatim>\<open>s.split()\<close> without arguments, and \<^verbatim>\<open>" ".join(xs)\<close>.\<close>

function words :: "string \<Rightarrow> string list" where
  "words s = (case lstrip s of [] \<Rightarrow> []
     | c # cs \<Rightarrow> takeWhile (\<lambda>x. \<not> is_space x) (c # cs)
                 # words (dropWhile (\<lambda>x. \<not> is_space x) cs))"
  by pat_completeness auto
termination
proof (relation "measure length")
  show "wf (measure (length :: string \<Rightarrow> nat))" by simp
next
  fix s c cs
  assume "lstrip s = c # cs"
  then have "length (c # cs) \<le> length s"
    by (metis length_dropWhile_le lstrip_def)
  moreover have "length (dropWhile (\<lambda>x. \<not> is_space x) cs) \<le> length cs"
    by (rule length_dropWhile_le)
  ultimately show "(dropWhile (\<lambda>x. \<not> is_space x) cs, s) \<in> measure length" by simp
qed

declare words.simps [simp del]

fun join :: "string \<Rightarrow> string list \<Rightarrow> string" where
  "join sep [] = []"
| "join sep [x] = x"
| "join sep (x # xs) = x @ sep @ join sep xs"

definition starts_with :: "string \<Rightarrow> string \<Rightarrow> bool" where
  "starts_with p s = (take (length p) s = p)"

definition ends_with :: "string \<Rightarrow> string \<Rightarrow> bool" where
  "ends_with p s = (length p \<le> length s \<and> drop (length s - length p) s = p)"

text \<open>\<^verbatim>\<open>t in s\<close>, \<^verbatim>\<open>s.count(t)\<close> and \<^verbatim>\<open>s.replace(t, u)\<close>, for a non-empty \<open>t\<close>.\<close>

fun occurs :: "string \<Rightarrow> string \<Rightarrow> bool" where
  "occurs t [] = (t = [])"
| "occurs t (c # cs) = (starts_with t (c # cs) \<or> occurs t cs)"

function count_sub :: "string \<Rightarrow> string \<Rightarrow> nat" where
  "count_sub t s = (if t = [] \<or> s = [] then 0
     else if starts_with t s then Suc (count_sub t (drop (length t) s))
     else count_sub t (tl s))"
  by pat_completeness auto
termination
  by (relation "measure (\<lambda>(t, s). length s)") (auto simp: neq_Nil_conv)

function replace_sub :: "string \<Rightarrow> string \<Rightarrow> string \<Rightarrow> string" where
  "replace_sub t u s = (if t = [] \<or> s = [] then s
     else if starts_with t s then u @ replace_sub t u (drop (length t) s)
     else hd s # replace_sub t u (tl s))"
  by pat_completeness auto
termination
  by (relation "measure (\<lambda>(t, u, s). length s)") (auto simp: neq_Nil_conv)

declare count_sub.simps [simp del] replace_sub.simps [simp del]

section \<open>The regular expressions of the sources\<close>

definition is_digit :: "char \<Rightarrow> bool" where
  "is_digit c = (48 \<le> cp c \<and> cp c \<le> 57)"

definition is_alnum :: "char \<Rightarrow> bool" where
  "is_alnum c = (is_digit c \<or> 65 \<le> cp c \<and> cp c \<le> 90 \<or> 97 \<le> cp c \<and> cp c \<le> 122)"

definition is_low_alnum :: "char \<Rightarrow> bool" where
  "is_low_alnum c = (is_digit c \<or> 97 \<le> cp c \<and> cp c \<le> 122)"

definition is_word_dash :: "char \<Rightarrow> bool" where
  "is_word_dash c = (is_alnum c \<or> cp c = 95 \<or> cp c = 45)"

definition is_hex :: "char \<Rightarrow> bool" where
  "is_hex c = (is_digit c \<or> 97 \<le> cp c \<and> cp c \<le> 102)"

text \<open>\<^verbatim>\<open>[A-Za-z0-9][A-Za-z0-9_-]{0,n}\<close>, the whole string.\<close>

definition identifier_re :: "nat \<Rightarrow> string \<Rightarrow> bool" where
  "identifier_re n s = (case s of [] \<Rightarrow> False
     | c # cs \<Rightarrow> is_alnum c \<and> length cs \<le> n \<and> list_all is_word_dash cs)"

text \<open>\<^verbatim>\<open>[0-9a-f]{n}\<close>, the whole string.\<close>

definition hex_re :: "nat \<Rightarrow> string \<Rightarrow> bool" where
  "hex_re n s = (length s = n \<and> list_all is_hex s)"

section \<open>Numbers as text\<close>

definition digit_char :: "nat \<Rightarrow> char" where
  "digit_char n = char_of (48 + n)"

fun nat_text :: "nat \<Rightarrow> string" where
  "nat_text n = (if n < 10 then [digit_char n] else nat_text (n div 10) @ [digit_char (n mod 10)])"

declare nat_text.simps [simp del]

definition int_text :: "int \<Rightarrow> string" where
  "int_text i = (if i < 0 then ''-'' @ nat_text (nat (- i)) else nat_text (nat i))"

definition hex_char :: "nat \<Rightarrow> char" where
  "hex_char n = (if n < 10 then char_of (48 + n) else char_of (87 + n))"

definition hex2 :: "nat \<Rightarrow> string" where
  "hex2 n = [hex_char (n div 16 mod 16), hex_char (n mod 16)]"

text \<open>
  The shortest decimal text of a finite binary64 value: \<open>near64\<close> rounds a rational to the
  nearest binary64 value, ties to even; \<open>shortest\<close> tries 1 to 17 digits and keeps the
  closest decimal that reads back as the same value.
\<close>

function bits :: "int \<Rightarrow> nat" where
  "bits n = (if n \<le> 0 then 0 else Suc (bits (n div 2)))"
  by pat_completeness auto
termination
  by (relation "measure nat") auto

declare bits.simps [simp del]

definition pow_rat :: "rat \<Rightarrow> int \<Rightarrow> rat" where
  "pow_rat b e = (if 0 \<le> e then b ^ nat e else 1 / b ^ nat (- e))"

definition floor_log :: "rat \<Rightarrow> int \<Rightarrow> rat \<Rightarrow> int" where
  "floor_log b guess q = (if pow_rat b guess \<le> q
     then (if pow_rat b (guess + 1) \<le> q then guess + 1 else guess) else guess - 1)"

definition exp2_of :: "rat \<Rightarrow> int" where
  "exp2_of q = (let (n, d) = quotient_of q in
     floor_log 2 (int (bits n) - int (bits d)) q)"

definition half_even :: "rat \<Rightarrow> int" where
  "half_even q = (let f = floor q; r = q - of_int f in
     if r < 1/2 then f else if 1/2 < r then f + 1 else if even f then f else f + 1)"

definition near64 :: "rat \<Rightarrow> rat" where
  "near64 q = (if q = 0 then 0 else
     let a = \<bar>q\<bar>; u = max (exp2_of a - 52) (-1074);
         m = of_int (half_even (a / pow_rat 2 u)) * pow_rat 2 u
     in if q < 0 then - m else m)"

text \<open>The exponent of ten of a positive value: an estimate from its exponent of two, corrected.\<close>

definition exp10_of :: "rat \<Rightarrow> int" where
  "exp10_of q = (let e = floor (rat_of_int (exp2_of q) * 30103 / 100000) in
     if pow_rat 10 (e + 1) \<le> q then e + 1 else if pow_rat 10 e \<le> q then e else e - 1)"

definition decimal_candidates :: "rat \<Rightarrow> nat \<Rightarrow> (int \<times> int) list" where
  "decimal_candidates q n = (let s = exp10_of q - int n + 1; t = q / pow_rat 10 s;
       lo = floor t; hi = ceiling t
     in (if t - of_int lo \<le> of_int hi - t then [(lo, s), (hi, s)] else [(hi, s), (lo, s)]))"

fun shortest :: "rat \<Rightarrow> nat \<Rightarrow> nat \<Rightarrow> int \<times> int" where
  "shortest q n 0 = hd (decimal_candidates q n)"
| "shortest q n (Suc k) =
     (case filter (\<lambda>(m, s). near64 (of_int m * pow_rat 10 s) = q) (decimal_candidates q n) of
        [] \<Rightarrow> shortest q (Suc n) k
      | c # _ \<Rightarrow> c)"

fun drop_zeros :: "string \<Rightarrow> string" where
  "drop_zeros s = rev (dropWhile (\<lambda>c. c = CHR ''0'') (rev s))"

definition decimal_text :: "string \<Rightarrow> int \<Rightarrow> string" where
  "decimal_text ds point =
     (if point \<le> -4 \<or> 16 < point then
        (let e = point - 1; t = nat_text (nat \<bar>e\<bar>) in
           take 1 ds @ (if length ds = 1 then [] else ''.'' @ drop 1 ds) @ ''e''
             @ (if e < 0 then ''-'' else ''+'') @ (if length t < 2 then ''0'' @ t else t))
      else if point \<le> 0 then ''0.'' @ replicate (nat (- point)) (CHR ''0'') @ ds
      else if int (length ds) \<le> point
        then ds @ replicate (nat point - length ds) (CHR ''0'') @ ''.0''
      else take (nat point) ds @ ''.'' @ drop (nat point) ds)"

definition rat_text :: "rat \<Rightarrow> string" where
  "rat_text q = (if q = 0 then ''0.0'' else
     let (m, s) = shortest \<bar>q\<bar> 1 16; ds = nat_text (nat m) in
     (if q < 0 then ''-'' else []) @ decimal_text (drop_zeros ds) (int (length ds) + s))"

fun flt_text :: "pyflt \<Rightarrow> string" where
  "flt_text (Fin q) = rat_text q"
| "flt_text PosInf = ''inf''"
| "flt_text NegInf = ''-inf''"
| "flt_text NotANum = ''nan''"

section \<open>Text as a number\<close>

fun digits_value :: "nat \<Rightarrow> string \<Rightarrow> nat" where
  "digits_value acc [] = acc"
| "digits_value acc (c # cs) =
     (if is_digit c then digits_value (10 * acc + (cp c - 48)) cs else digits_value acc cs)"

text \<open>Decimal digits with single underscores between them.\<close>

fun digits_ok :: "string \<Rightarrow> bool" where
  "digits_ok [] = False"
| "digits_ok [c] = is_digit c"
| "digits_ok (c # d # cs) =
     (is_digit c \<and> (if cp d = 95 then digits_ok cs else digits_ok (d # cs)))"

text \<open>\<^verbatim>\<open>int(s)\<close> on a string; a numeral of more than 4300 digits is refused.\<close>

definition parse_int :: "string \<Rightarrow> int res" where
  "parse_int s = (let t = strip s;
       (neg, ds) = (case t of c # cs \<Rightarrow> if cp c = 45 then (True, cs)
                      else if cp c = 43 then (False, cs) else (False, t) | [] \<Rightarrow> (False, t))
     in if digits_ok ds \<and> length (filter is_digit ds) \<le> 4300
        then Inr (if neg then - int (digits_value 0 ds) else int (digits_value 0 ds))
        else Inl (ValueError ''invalid literal for int()''))"

definition py_int :: "pyval \<Rightarrow> int res" where
  "py_int v = (case v of
       PBool b \<Rightarrow> Inr (if b then 1 else 0)
     | PInt i \<Rightarrow> Inr i
     | PFloat (Fin q) \<Rightarrow> Inr (if q < 0 then - floor (- q) else floor q)
     | PFloat NotANum \<Rightarrow> Inl (ValueError ''cannot convert float NaN to integer'')
     | PFloat _ \<Rightarrow> Inl OverflowError
     | PStr s \<Rightarrow> parse_int s
     | _ \<Rightarrow> Inl TypeError)"

end
