(* ===== verification/PyJson.thy ===== *)
theory PyJson
  imports PyText "HOL-Library.Multiset"
begin

text \<open>
  \<^verbatim>\<open>str()\<close> and \<^verbatim>\<open>repr()\<close> of a value, \<^verbatim>\<open>json.dumps\<close> with its options, the copy a value becomes
  when it is dumped with sorted keys and loaded again, and the SHA-256 digest the sources
  take of that text. The digest is computed as FIPS 180-4 states it, on 32-bit words.
\<close>

unbundle bit_operations_syntax

section \<open>Text of a value\<close>

definition bool_text :: "bool \<Rightarrow> string" where
  "bool_text b = (if b then ''True'' else ''False'')"

definition repr_char :: "char \<Rightarrow> char \<Rightarrow> string" where
  "repr_char q c = (let n = cp c in
     if c = q \<or> n = 92 then [CHR 0x5C, c]
     else if n = 9 then [CHR 0x5C, CHR ''t''] else if n = 10 then [CHR 0x5C, CHR ''n'']
     else if n = 13 then [CHR 0x5C, CHR ''r'']
     else if n < 32 \<or> 127 \<le> n \<and> n \<le> 160 \<or> n = 173 then [CHR 0x5C, CHR ''x''] @ hex2 n
     else [c])"

definition str_repr :: "string \<Rightarrow> string" where
  "str_repr s = (let q = (if CHR 0x27 \<in> set s \<and> CHR 0x22 \<notin> set s then CHR 0x22 else CHR 0x27)
     in [q] @ concat (map (repr_char q) s) @ [q])"

fun py_repr :: "pyval \<Rightarrow> string" where
  "py_repr PNone = ''None''"
| "py_repr (PBool b) = bool_text b"
| "py_repr (PInt i) = int_text i"
| "py_repr (PFloat x) = flt_text x"
| "py_repr (PStr s) = str_repr s"
| "py_repr (PList xs) = ''['' @ join '', '' (map py_repr xs) @ '']''"
| "py_repr (PDict d) =
     ''{'' @ join '', '' (map (\<lambda>kv. str_repr (fst kv) @ '': '' @ py_repr (snd kv)) d) @ ''}''"

definition py_str :: "pyval \<Rightarrow> string" where
  "py_str v = (case v of PStr s \<Rightarrow> s | _ \<Rightarrow> py_repr v)"

text \<open>\<^verbatim>\<open>str(v or "")\<close>, which the sources use to read an optional text.\<close>

definition text_or_empty :: "pyval \<Rightarrow> string" where
  "text_or_empty v = (if truthy v then py_str v else [])"

lemma py_str_PStr [simp]: "py_str (PStr s) = s"
  by (simp add: py_str_def)

lemma text_or_empty_simps [simp]:
  "text_or_empty (PStr s) = s" "text_or_empty PNone = []"
  by (simp_all add: text_or_empty_def)

section \<open>JSON\<close>

definition json_char :: "char \<Rightarrow> string" where
  "json_char c = (let n = cp c in
     if n = 34 \<or> n = 92 then [CHR 0x5C, c]
     else if n = 8 then [CHR 0x5C, CHR ''b''] else if n = 9 then [CHR 0x5C, CHR ''t'']
     else if n = 10 then [CHR 0x5C, CHR ''n''] else if n = 12 then [CHR 0x5C, CHR ''f'']
     else if n = 13 then [CHR 0x5C, CHR ''r'']
     else if n < 32 then [CHR 0x5C, CHR ''u''] @ ''00'' @ hex2 n
     else [c])"

definition json_str :: "string \<Rightarrow> string" where
  "json_str s = [CHR 0x22] @ concat (map json_char s) @ [CHR 0x22]"

fun json_num :: "pyflt \<Rightarrow> string" where
  "json_num (Fin q) = rat_text q"
| "json_num PosInf = ''Infinity''"
| "json_num NegInf = ''-Infinity''"
| "json_num NotANum = ''NaN''"

text \<open>\<^verbatim>\<open>json.dumps(v, ensure_ascii=False, separators=(item_sep, key_sep))\<close>.\<close>

fun json_text :: "string \<Rightarrow> string \<Rightarrow> pyval \<Rightarrow> string" where
  "json_text si sk PNone = ''null''"
| "json_text si sk (PBool b) = (if b then ''true'' else ''false'')"
| "json_text si sk (PInt i) = int_text i"
| "json_text si sk (PFloat x) = json_num x"
| "json_text si sk (PStr s) = json_str s"
| "json_text si sk (PList xs) = ''['' @ join si (map (json_text si sk) xs) @ '']''"
| "json_text si sk (PDict d) =
     ''{'' @ join si (map (\<lambda>kv. json_str (fst kv) @ sk @ json_text si sk (snd kv)) d) @ ''}''"

fun all_finite :: "pyval \<Rightarrow> bool" where
  "all_finite (PFloat x) = isfinite_flt x"
| "all_finite (PList xs) = list_all all_finite xs"
| "all_finite (PDict d) = list_all (\<lambda>kv. all_finite (snd kv)) d"
| "all_finite _ = True"

text \<open>
  \<^verbatim>\<open>sort_keys=True\<close>: every dictionary listed by key. For a finite value this is also what
  \<^verbatim>\<open>json.loads\<close> returns on the dumped text.
\<close>

fun canon :: "pyval \<Rightarrow> pyval" where
  "canon (PList xs) = PList (map canon xs)"
| "canon (PDict d) = PDict (sort_key fst (map (\<lambda>kv. (fst kv, canon (snd kv))) d))"
| "canon v = v"

definition compact_json :: "pyval \<Rightarrow> string" where
  "compact_json v = json_text '','' '':'' (canon v)"

text \<open>The same with \<^verbatim>\<open>allow_nan=False\<close>.\<close>

definition strict_json :: "pyval \<Rightarrow> string res" where
  "strict_json v = (if all_finite v then Inr (compact_json v)
     else Inl (ValueError ''Out of range float values are not JSON compliant''))"

definition utf8_char :: "char \<Rightarrow> nat list" where
  "utf8_char c = (let n = cp c in if n < 128 then [n] else [192 + n div 64, 128 + n mod 64])"

definition utf8 :: "string \<Rightarrow> nat list" where
  "utf8 s = concat (map utf8_char s)"

section \<open>SHA-256\<close>

type_synonym word32 = "32 word"

definition sha_k :: "word32 list" where
  "sha_k = [1116352408, 1899447441, 3049323471, 3921009573, 961987163, 1508970993, 2453635748,
     2870763221, 3624381080, 310598401, 607225278, 1426881987, 1925078388, 2162078206,
     2614888103, 3248222580, 3835390401, 4022224774, 264347078, 604807628, 770255983,
     1249150122, 1555081692, 1996064986, 2554220882, 2821834349, 2952996808, 3210313671,
     3336571891, 3584528711, 113926993, 338241895, 666307205, 773529912, 1294757372,
     1396182291, 1695183700, 1986661051, 2177026350, 2456956037, 2730485921, 2820302411,
     3259730800, 3345764771, 3516065817, 3600352804, 4094571909, 275423344, 430227734,
     506948616, 659060556, 883997877, 958139571, 1322822218, 1537002063, 1747873779,
     1955562222, 2024104815, 2227730452, 2361852424, 2428436474, 2756734187, 3204031479,
     3329325298]"

definition sha_init :: "word32 list" where
  "sha_init = [1779033703, 3144134277, 1013904242, 2773480762, 1359893119, 2600822924, 528734635,
     1541459225]"

fun be_bytes :: "nat \<Rightarrow> nat \<Rightarrow> nat list" where
  "be_bytes 0 n = []"
| "be_bytes (Suc k) n = be_bytes k (n div 256) @ [n mod 256]"

definition sha_pad :: "nat list \<Rightarrow> nat list" where
  "sha_pad bs = bs @ [128] @ replicate (nat ((55 - int (length bs)) mod 64)) 0
     @ be_bytes 8 (8 * length bs)"

fun be_words :: "nat list \<Rightarrow> word32 list" where
  "be_words (a # b # c # d # bs) =
     word_of_nat (((a * 256 + b) * 256 + c) * 256 + d) # be_words bs"
| "be_words _ = []"

text \<open>The message schedule, latest word first.\<close>

fun sha_extend :: "nat \<Rightarrow> word32 list \<Rightarrow> word32 list" where
  "sha_extend 0 ws = ws"
| "sha_extend (Suc k) ws =
     (let x = ws ! 14; y = ws ! 1;
          s0 = word_rotr 7 x XOR word_rotr 18 x XOR drop_bit 3 x;
          s1 = word_rotr 17 y XOR word_rotr 19 y XOR drop_bit 10 y
      in sha_extend k ((s1 + ws ! 6 + s0 + ws ! 15) # ws))"

fun sha_round :: "word32 \<times> word32 \<Rightarrow> word32 list \<Rightarrow> word32 list" where
  "sha_round (k, w) [a, b, c, d, e, f, g, h] =
     (let t1 = h + (word_rotr 6 e XOR word_rotr 11 e XOR word_rotr 25 e)
                 + ((e AND f) XOR (NOT e AND g)) + k + w;
          t2 = (word_rotr 2 a XOR word_rotr 13 a XOR word_rotr 22 a)
                 + ((a AND b) XOR (a AND c) XOR (b AND c))
      in [t1 + t2, a, b, c, d + t1, e, f, g])"
| "sha_round _ st = st"

definition sha_block :: "word32 list \<Rightarrow> word32 list \<Rightarrow> word32 list" where
  "sha_block ws st = map2 (+) st (fold sha_round (zip sha_k (rev (sha_extend 48 (rev ws)))) st)"

function sha_blocks :: "word32 list \<Rightarrow> word32 list \<Rightarrow> word32 list" where
  "sha_blocks ws st = (if ws = [] then st else sha_blocks (drop 16 ws) (sha_block (take 16 ws) st))"
  by pat_completeness auto
termination
  by (relation "measure (\<lambda>(ws, st). length ws)") auto

declare sha_blocks.simps [simp del]

definition hex_word :: "word32 \<Rightarrow> string" where
  "hex_word w = concat (map hex2 (be_bytes 4 (unat w)))"

definition sha256_hex :: "nat list \<Rightarrow> string" where
  "sha256_hex bs = concat (map hex_word (sha_blocks (be_words (sha_pad bs)) sha_init))"

section \<open>Facts about canonical copies and digests\<close>

lemma map_of_filter_fst: "map_of d k = map_of (filter (\<lambda>kv. fst kv = k) d) k"
  by (induction d) auto

lemma map_of_sort_key [simp]: "map_of (sort_key fst d) k = map_of d k"
  by (metis map_of_filter_fst sort_key_stable)

lemma map_of_map_snd: "map_of (map (\<lambda>kv. (fst kv, f (snd kv))) d) k = map_option f (map_of d k)"
  by (induction d) auto

lemma dict_get_canon [simp]: "pget (canon v) k = canon (pget v k)"
  by (cases v) (simp_all add: dict_get_def map_of_map_snd split: option.split)

lemma pkeys_canon [simp]: "set (pkeys (canon v)) = set (pkeys v)"
  by (cases v) (auto simp: image_image)

lemma keys_are_canon [simp]: "keys_are (canon v) ks = keys_are v ks"
  by (simp add: keys_are_def)

lemma phas_canon [simp]: "phas (canon v) k = phas v k"
  by (simp add: phas_def)

lemma canon_is_type [simp]:
  "is_dict (canon v) = is_dict v" "is_list (canon v) = is_list v" "is_str (canon v) = is_str v"
  "is_int (canon v) = is_int v" "is_bool (canon v) = is_bool v"
  by (cases v; simp)+

lemma canon_eq_atom [simp]:
  "canon v = PStr s \<longleftrightarrow> v = PStr s" "canon v = PInt i \<longleftrightarrow> v = PInt i"
  "canon v = PBool b \<longleftrightarrow> v = PBool b" "canon v = PNone \<longleftrightarrow> v = PNone"
  by (cases v; simp)+

lemma sort_key_idem [simp]: "sort_key f (sort_key f xs) = sort_key f xs"
  by (simp add: sort_key_id_if_sorted)

lemma canon_canon [simp]: "canon (canon v) = canon v"
proof (induction v rule: canon.induct)
  case (1 xs)
  then show ?case by simp
next
  case (2 d)
  let ?g = "map (\<lambda>kv. (fst kv, canon (snd kv)))"
  let ?s = "sort_key fst (?g d)"
  have "(fst kv, canon (snd kv)) = kv" if "kv \<in> set ?s" for kv
  proof -
    from that obtain kw where "kw \<in> set d" "kv = (fst kw, canon (snd kw))" by auto
    with 2 show ?thesis by (simp add: snds.simps)
  qed
  then have "?g ?s = ?s"
    by (rule map_idI)
  then show ?case by (simp only: canon.simps sort_key_idem)
qed simp_all

lemma all_finite_canon [simp]: "all_finite (canon v) = all_finite v"
  by (induction v rule: canon.induct) (auto simp: list_all_iff)

lemma compact_json_canon [simp]: "compact_json (canon v) = compact_json v"
  by (simp add: compact_json_def)

lemma strict_json_canon [simp]: "strict_json (canon v) = strict_json v"
  by (simp add: strict_json_def)

lemma wf_canon [simp]: "wf_py v \<Longrightarrow> wf_py (canon v)"
proof (induction v rule: canon.induct)
  case (1 xs)
  then show ?case by (simp add: list_all_iff)
next
  case (2 d)
  let ?e = "map (\<lambda>kv. (fst kv, canon (snd kv))) d"
  have "distinct (map fst ?e)"
    using "2.prems" by (simp add: comp_def)
  then have "distinct (map fst (sort_key fst ?e))"
    by (subst mset_eq_imp_distinct_iff[of _ "map fst ?e"]) (simp_all only: mset_map mset_sort)
  with 2 show ?case by (auto simp: list_all_iff)
qed simp_all

lemma flt_eq_refl [simp]: "isfinite_flt x \<Longrightarrow> flt_eq x x"
  by (cases x) simp_all

lemma py_eq_items_iff:
  "py_eq_items d e \<longleftrightarrow> (\<forall>(k, v) \<in> set d. \<exists>w. map_of e k = Some w \<and> py_eq v w)"
  by (induction d) (auto split: option.splits)

lemma py_eq_refl [simp]: "wf_py v \<Longrightarrow> all_finite v \<Longrightarrow> py_eq v v"
proof (induction v)
  case (PList xs)
  have "py_eq_list ys ys" if "set ys \<subseteq> set xs" for ys
    using that PList by (induction ys) (auto simp: list_all_iff)
  then show ?case by simp
next
  case (PDict d)
  then show ?case
    by (fastforce simp: py_eq_items_iff list_all_iff)
qed simp_all

lemma hex_char_hex: "n < 16 \<Longrightarrow> is_hex (hex_char n)"
  by (auto simp: hex_char_def is_hex_def is_digit_def cp_def of_char_of)

lemma hex2_hex: "list_all is_hex (hex2 n)" "length (hex2 n) = 2"
  by (simp_all add: hex2_def hex_char_hex)

lemma be_bytes_length [simp]: "length (be_bytes k n) = k"
  by (induction k arbitrary: n) simp_all

lemma hex2s_hex: "list_all is_hex (concat (map hex2 ns))" "length (concat (map hex2 ns)) = 2 * length ns"
  by (induction ns) (simp_all add: hex2_hex)

lemma hex_words_hex:
  "list_all is_hex (concat (map hex_word ws))" "length (concat (map hex_word ws)) = 8 * length ws"
  by (induction ws) (simp_all add: hex_word_def hex2s_hex)

lemma sha_round_length: "length st = 8 \<Longrightarrow> length (sha_round kw st) = 8"
  by (induction kw st rule: sha_round.induct) (simp_all add: Let_def)

lemma sha_rounds_length: "length st = 8 \<Longrightarrow> length (fold sha_round kws st) = 8"
  by (induction kws arbitrary: st) (simp_all add: sha_round_length)

lemma sha_blocks_length: "length st = 8 \<Longrightarrow> length (sha_blocks ws st) = 8"
proof (induction ws st rule: sha_blocks.induct)
  case (1 ws st)
  then show ?case
    by (subst sha_blocks.simps) (simp add: sha_block_def sha_rounds_length)
qed

lemma sha256_hex_re: "hex_re 64 (sha256_hex bs)"
proof -
  have "length (sha_blocks (be_words (sha_pad bs)) sha_init) = 8"
    by (rule sha_blocks_length) (simp add: sha_init_def)
  then show ?thesis
    unfolding hex_re_def sha256_hex_def by (simp only: hex_words_hex) simp
qed

end
