(* ===== verification/PyChecks.thy ===== *)
theory PyChecks
  imports PyJson
begin

text \<open>
  The small tests the validators of the repository repeat on JSON-shaped values: a bounded
  non-empty text, a value among constants, a finite number in a range, a list of distinct
  entries, an exact set of keys, a bounded JSON copy; and the float arithmetic of the
  probability sums, each operation rounded to binary64 as Python does it.
\<close>

section \<open>A check that returns a copy it accepts again, unchanged\<close>

locale idempotent_check =
  fixes check :: "'a \<Rightarrow> 'e + 'a" and copy :: "'a \<Rightarrow> 'a"
  assumes check_copy: "check v = Inr w \<Longrightarrow> w = copy v"
    and copy_idem: "copy (copy v) = copy v"
    and check_again: "is_ok (check v) \<Longrightarrow> is_ok (check (copy v))"
begin

lemma check_idem: "check v = Inr w \<Longrightarrow> check w = Inr w"
  using check_copy check_again copy_idem unfolding is_ok_iff by metis

lemma check_fixed: "check v = Inr w \<Longrightarrow> copy w = w"
  using check_copy copy_idem by metis

end

section \<open>Text\<close>

definition str_ok :: "(string \<Rightarrow> bool) \<Rightarrow> pyval \<Rightarrow> bool" where
  "str_ok p v = (case v of PStr s \<Rightarrow> p s | _ \<Rightarrow> False)"

text \<open>\<^verbatim>\<open>type(v) is str and v.strip() and len(v) <= n\<close>.\<close>

definition text_upto :: "nat \<Rightarrow> pyval \<Rightarrow> bool" where
  "text_upto n v = str_ok (\<lambda>s. \<not> blank s \<and> length s \<le> n) v"

text \<open>\<^verbatim>\<open>v in (s1, ..., sn)\<close>, a tuple of string constants.\<close>

definition one_of :: "pyval \<Rightarrow> string list \<Rightarrow> bool" where
  "one_of v names = str_ok (\<lambda>s. s \<in> set names) v"

lemma str_ok_iff: "str_ok p v \<longleftrightarrow> (\<exists>s. v = PStr s \<and> p s)"
  by (cases v) (simp_all add: str_ok_def)

lemma str_ok_PStr [simp]: "str_ok p (PStr s) = p s"
  by (simp add: str_ok_def)

lemma one_of_iff: "one_of v names \<longleftrightarrow> (\<exists>s \<in> set names. v = PStr s)"
  by (auto simp: one_of_def str_ok_iff)

lemma str_ok_canon [simp]: "str_ok p (canon v) = str_ok p v"
  by (cases v) (simp_all add: str_ok_def)

lemma text_upto_canon [simp]: "text_upto n (canon v) = text_upto n v"
  by (simp add: text_upto_def)

lemma one_of_canon [simp]: "one_of (canon v) names = one_of v names"
  by (simp add: one_of_def)

lemma pget_pset_other: "k' \<noteq> k \<Longrightarrow> pget (pset k x w) k' = pget w k'"
  by (cases "is_dict w") simp_all

section \<open>Numbers\<close>

text \<open>
  The finite values of \<^verbatim>\<open>int\<close> and \<^verbatim>\<open>float\<close>, without \<^verbatim>\<open>bool\<close>; a range test on them is exact.
\<close>

fun num_rat :: "pyval \<Rightarrow> rat" where
  "num_rat (PInt i) = of_int i"
| "num_rat (PFloat (Fin q)) = q"
| "num_rat _ = 0"

fun is_num :: "pyval \<Rightarrow> bool" where
  "is_num (PInt i) = True"
| "is_num (PFloat (Fin q)) = True"
| "is_num _ = False"

definition num_between :: "rat \<Rightarrow> rat \<Rightarrow> pyval \<Rightarrow> bool" where
  "num_between low high v = (is_num v \<and> low \<le> num_rat v \<and> num_rat v \<le> high)"

text \<open>
  \<^verbatim>\<open>math.isfinite\<close> converts an integer to a float first, which raises from the first integer
  that rounds to \<open>2 ^ 1024\<close>.
\<close>

definition float_range :: "int \<Rightarrow> bool" where
  "float_range i = (\<bar>i\<bar> < 2 ^ 1024 - 2 ^ 970)"

fun isfinite_num :: "pyval \<Rightarrow> bool res" where
  "isfinite_num (PInt i) = (if float_range i then Inr True else Inl OverflowError)"
| "isfinite_num (PFloat x) = Inr (isfinite_flt x)"
| "isfinite_num v = Inr False"

text \<open>\<^verbatim>\<open>math.isclose(a, b, abs_tol=t, rel_tol=0)\<close> and \<^verbatim>\<open>math.fsum\<close>.\<close>

definition is_close_abs :: "rat \<Rightarrow> rat \<Rightarrow> rat \<Rightarrow> bool" where
  "is_close_abs a b t = (a = b \<or> near64 \<bar>near64 (b - a)\<bar> \<le> near64 t)"

definition fsum :: "rat list \<Rightarrow> rat" where
  "fsum qs = near64 (foldr (+) qs 0)"

lemma is_num_canon [simp]: "is_num (canon v) = is_num v" "num_rat (canon v) = num_rat v"
  by (cases v; simp)+

lemma num_between_canon [simp]: "num_between low high (canon v) = num_between low high v"
  by (simp add: num_between_def)

lemma near64_1: "near64 1 = 1"
  by code_simp

lemma near64_0 [simp]: "near64 0 = 0"
  by (simp add: near64_def)

section \<open>Finite values\<close>

text \<open>A dictionary with known keys is finite when the values under them are.\<close>

lemma all_finite_by_keys:
  assumes "wf_py v" and "is_dict v" and "keys_within v ks" and "list_all (\<lambda>k. all_finite (pget v k)) ks"
  shows "all_finite v"
proof -
  obtain d where v: "v = PDict d" using assms(2) by (auto simp: is_type_iff)
  have "all_finite x" if "(k, x) \<in> set d" for k x
  proof -
    have "k \<in> set ks" using that assms(3) v by (force simp: keys_within_def)
    moreover have "pget v k = x"
      using that assms(1) v by (simp add: dict_get_def map_of_is_SomeI)
    ultimately show ?thesis using assms(4) by (auto simp: list_all_iff)
  qed
  then show ?thesis by (auto simp: v list_all_iff)
qed

lemma wf_plist: "wf_py v \<Longrightarrow> x \<in> set (plist v) \<Longrightarrow> wf_py x"
  by (cases v) (auto simp: list_all_iff)

lemma keys_are_within: "keys_are v ks \<Longrightarrow> keys_within v ks"
  by (simp add: keys_are_def keys_within_def)

lemma all_finite_str: "is_str v \<Longrightarrow> all_finite v"
  by (cases v) simp_all

lemma all_finite_num: "num_between low high v \<Longrightarrow> all_finite v"
  by (cases v rule: is_num.cases) (simp_all add: num_between_def)

lemma text_upto_str: "text_upto n v \<Longrightarrow> is_str v"
  by (auto simp: text_upto_def str_ok_iff)

lemma all_finite_pget: "all_finite v \<Longrightarrow> all_finite (pget v k)"
proof (cases v)
  case (PDict d)
  assume "all_finite v"
  then have "\<forall>kv \<in> set d. all_finite (snd kv)" by (simp add: PDict list_all_iff)
  then show ?thesis
    by (cases "map_of d k") (force simp: PDict dict_get_def dest: map_of_SomeD)+
qed simp_all

section \<open>Distinct entries\<close>

text \<open>\<^verbatim>\<open>len(set(xs)) == len(xs)\<close> for hashable entries, compared by value.\<close>

fun py_distinct :: "pyval list \<Rightarrow> bool" where
  "py_distinct [] = True"
| "py_distinct (x # xs) = (\<not> py_in x xs \<and> py_distinct xs)"

section \<open>JSON copies of bounded size\<close>

text \<open>
  \<^verbatim>\<open>encoded = json.dumps(v, ..., allow_nan=False)\<close>, a bound on its UTF-8 length, and
  \<^verbatim>\<open>json.loads(encoded)\<close>.
\<close>

definition bounded_copy :: "int \<Rightarrow> pyexc \<Rightarrow> pyval \<Rightarrow> pyval res" where
  "bounded_copy limit too_large v =
     rbind (strict_json v) (\<lambda>encoded.
     if limit < int (length (utf8 encoded)) then Inl too_large else Inr (canon v))"

lemma bounded_copy_canon [simp]: "bounded_copy n e (canon v) = bounded_copy n e v"
  by (cases "strict_json v") (simp_all add: bounded_copy_def)

lemma bounded_copy_eq: "bounded_copy n e v = Inr w \<Longrightarrow> w = canon v"
  by (auto simp: bounded_copy_def rbind_eq_Inr_iff split: if_splits)

section \<open>The size of a JSON text\<close>

fun json_bound :: "pyval \<Rightarrow> nat" where
  "json_bound PNone = 4"
| "json_bound (PBool b) = 5"
| "json_bound (PInt i) = length (int_text i)"
| "json_bound (PFloat x) = length (json_num x)"
| "json_bound (PStr s) = 6 * length s + 2"
| "json_bound (PList xs) = 2 + sum_list (map (\<lambda>x. json_bound x + 1) xs)"
| "json_bound (PDict d) = 2 + sum_list (map (\<lambda>kv. 6 * length (fst kv) + 4 + json_bound (snd kv)) d)"

lemma utf8_length: "length (utf8 s) \<le> 2 * length s"
  by (induction s) (auto simp: utf8_def utf8_char_def Let_def)

lemma json_char_length: "length (json_char c) \<le> 6"
  by (simp add: json_char_def Let_def hex2_hex)

lemma json_str_length: "length (json_str s) \<le> 6 * length s + 2"
proof -
  have "length (concat (map json_char s)) \<le> 6 * length s"
  proof (induction s)
    case (Cons c s)
    with json_char_length[of c] show ?case by simp
  qed simp
  then show ?thesis by (simp add: json_str_def)
qed

lemma join_length: "length (join [c] xs) \<le> sum_list (map (\<lambda>x. length x + 1) xs)"
  by (induction "[c]" xs rule: join.induct) simp_all

lemma json_text_length: "length (json_text '','' '':'' v) \<le> json_bound v"
proof (induction v)
  case (PList xs)
  then have "sum_list (map (\<lambda>x. length (json_text '','' '':'' x) + 1) xs) \<le> sum_list (map (\<lambda>x. json_bound x + 1) xs)"
    by (intro sum_list_mono) simp
  with join_length[of "CHR '',''" "map (json_text '','' '':'') xs"] show ?case by (simp add: comp_def)
next
  case (PDict d)
  let ?t = "\<lambda>kv. json_str (fst kv) @ '':'' @ json_text '','' '':'' (snd kv)"
  have "length (?t kv) + 1 \<le> 6 * length (fst kv) + 4 + json_bound (snd kv)" if "kv \<in> set d" for kv
    using PDict[of kv "snd kv"] that json_str_length[of "fst kv"] by (cases kv) fastforce
  then have "sum_list (map (\<lambda>kv. length (?t kv) + 1) d) \<le> sum_list (map (\<lambda>kv. 6 * length (fst kv) + 4 + json_bound (snd kv)) d)"
    by (intro sum_list_mono) simp
  with join_length[of "CHR '',''" "map ?t d"] show ?case by (simp add: comp_def)
next
  case (PStr s)
  show ?case using json_str_length[of s] by simp
qed simp_all

lemma sum_list_sort [simp]: "sum_list (map f (sort_key g xs)) = (sum_list (map f xs) :: nat)"
  by (metis mset_map mset_sort sum_mset_sum_list)

lemma json_bound_canon [simp]: "json_bound (canon v) = json_bound v"
proof (induction v rule: canon.induct)
  case (1 xs)
  then show ?case by (simp add: comp_def cong: map_cong)
next
  case (2 d)
  then show ?case by (simp add: comp_def snds.simps cong: map_cong)
qed simp_all

lemma bounded_copy_ok:
  assumes "all_finite v" and "2 * int (json_bound v) \<le> limit"
  shows "bounded_copy limit e v = Inr (canon v)"
proof -
  have "int (length (utf8 (compact_json v))) \<le> limit"
    using utf8_length[of "compact_json v"] json_text_length[of "canon v"] assms(2) by (simp add: compact_json_def)
  with assms(1) show ?thesis by (simp add: bounded_copy_def strict_json_def)
qed

section \<open>Floats\<close>

text \<open>Rounding to binary64: from \<open>2 ^ 1024\<close> on the result is infinite.\<close>

definition float_top :: rat where
  "float_top = 179769313486231590772930519078902473361797697894230657273430081157732675805500963132708477322407536021120113879871393357658789768814416622492847430639474124377767893424865485276302219601246094119453082952085005768838150682342462881473913110540827237163350510684586298239947245938479716304835356329624224137216"

definition round_flt :: "rat \<Rightarrow> pyflt" where
  "round_flt q = (let m = near64 q in
     if float_top \<le> m then PosInf else if m \<le> - float_top then NegInf else Fin m)"

fun flt_add :: "pyflt \<Rightarrow> pyflt \<Rightarrow> pyflt" where
  "flt_add (Fin a) (Fin b) = round_flt (a + b)"
| "flt_add NotANum y = NotANum"
| "flt_add x NotANum = NotANum"
| "flt_add PosInf NegInf = NotANum"
| "flt_add NegInf PosInf = NotANum"
| "flt_add PosInf y = PosInf"
| "flt_add NegInf y = NegInf"
| "flt_add x PosInf = PosInf"
| "flt_add x NegInf = NegInf"

fun flt_half :: "pyflt \<Rightarrow> pyflt" where
  "flt_half (Fin a) = round_flt (a / 2)"
| "flt_half x = x"

text \<open>\<^verbatim>\<open>float(s)\<close>: an optional sign, then a decimal numeral with exponent, an infinity or a NaN.\<close>

definition cut_at :: "char \<Rightarrow> string \<Rightarrow> string \<times> string" where
  "cut_at c s = (takeWhile (\<lambda>x. x \<noteq> c) s, drop 1 (dropWhile (\<lambda>x. x \<noteq> c) s))"

definition unsigned_part :: "string \<Rightarrow> bool \<times> string" where
  "unsigned_part s = (case s of c # cs \<Rightarrow> if cp c = 45 then (True, cs) else if cp c = 43 then (False, cs) else (False, s)
     | [] \<Rightarrow> (False, s))"

definition digit_count :: "string \<Rightarrow> nat" where
  "digit_count s = length (filter is_digit s)"

definition decimal_value :: "string \<Rightarrow> rat option" where
  "decimal_value s = (let (m, e) = cut_at (CHR ''e'') s; (whole, part) = cut_at (CHR ''.'') m;
       (eneg, edigits) = unsigned_part e in
     if (whole = [] \<or> digits_ok whole) \<and> (part = [] \<or> digits_ok part) \<and> \<not> (whole = [] \<and> part = [])
        \<and> (CHR ''e'' \<in> set s \<longrightarrow> digits_ok edigits)
     then Some ((of_nat (digits_value 0 whole) + of_nat (digits_value 0 part) / 10 ^ digit_count part)
        * pow_rat 10 (if eneg then - int (digits_value 0 edigits) else int (digits_value 0 edigits)))
     else None)"

definition parse_float :: "string \<Rightarrow> pyflt res" where
  "parse_float s = (let (neg, t) = unsigned_part (py_lower (strip s)) in
     if t = ''inf'' \<or> t = ''infinity'' then Inr (if neg then NegInf else PosInf)
     else if t = ''nan'' then Inr NotANum
     else case decimal_value t of
         Some q \<Rightarrow> Inr (round_flt (if neg then - q else q))
       | None \<Rightarrow> Inl (ValueError ''could not convert string to float''))"

definition py_float :: "pyval \<Rightarrow> pyflt res" where
  "py_float v = (case v of
       PBool b \<Rightarrow> Inr (Fin (if b then 1 else 0))
     | PInt i \<Rightarrow> if float_range i then Inr (Fin (near64 (of_int i))) else Inl OverflowError
     | PFloat x \<Rightarrow> Inr x
     | PStr s \<Rightarrow> parse_float s
     | _ \<Rightarrow> Inl TypeError)"

end
