(* ===== verification/ActionGate.thy ===== *)
theory ActionGate
  imports PyChecks
begin

text \<open>
  The decisions taken before an input is sent: \<^verbatim>\<open>app/gate/actions.py\<close> (what kind of action a
  template is), \<^verbatim>\<open>candidates.py\<close> (is the click point still on the intended candidate),
  \<^verbatim>\<open>danger.py\<close> (is a final submission in view), \<^verbatim>\<open>form_policy.py\<close>, \<^verbatim>\<open>window.py\<close> and
  \<^verbatim>\<open>ocr.py\<close>. Strings hold code points up to 255, so the terms the sources list in Chinese never
  occur in them and are left out of the term lists.
\<close>

section \<open>Reading numbers and text\<close>

text \<open>\<^verbatim>\<open>try: ... except (TypeError, ValueError): return None\<close>.\<close>

definition try_none :: "'a res \<Rightarrow> 'a option res" where
  "try_none r = (case r of Inr x \<Rightarrow> Inr (Some x)
     | Inl (ValueError _) \<Rightarrow> Inr None | Inl TypeError \<Rightarrow> Inr None | Inl e \<Rightarrow> Inl e)"

text \<open>\<^verbatim>\<open>v.get(a) if v.get(a) is not None else v.get(b)\<close>.\<close>

definition get_alt :: "pyval \<Rightarrow> string \<Rightarrow> string \<Rightarrow> pyval" where
  "get_alt v a b = (if pget v a \<noteq> PNone then pget v a else pget v b)"

definition as_dict :: "pyval \<Rightarrow> pyval" where
  "as_dict v = (if is_dict v then v else PDict [])"

definition lower_text :: "pyval \<Rightarrow> string" where
  "lower_text v = py_lower (strip (text_or_empty v))"

definition one_line :: "string \<Rightarrow> string" where
  "one_line s = join '' '' (words s)"

definition occurs_any :: "string list \<Rightarrow> string \<Rightarrow> bool" where
  "occurs_any terms s = list_ex (\<lambda>t. occurs t s) terms"

definition starts_any :: "string list \<Rightarrow> string \<Rightarrow> bool" where
  "starts_any prefixes s = list_ex (\<lambda>p. starts_with p s) prefixes"

section \<open>Kinds of actions\<close>

definition ACTION_TAXONOMY_KINDS :: "string list" where
  "ACTION_TAXONOMY_KINDS = [''open_detail'', ''open_apply_flow'', ''fill_field'', ''continue_next_step'',
     ''final_submit'', ''send'', ''confirm'', ''payment'']"

definition normalize_low_level_action_type :: "pyval \<Rightarrow> string" where
  "normalize_low_level_action_type value = (let raw = lower_text value in
     if raw \<in> {''type'', ''type_text'', ''text_input'', ''fill'', ''safe_fill'', ''press''} then ''input''
     else if raw \<in> {''wheel'', ''scroll_container''} then ''scroll'' else raw)"

definition looks_like_input_action :: "string \<Rightarrow> pyval \<Rightarrow> bool" where
  "looks_like_input_action action_id template =
     (occurs_any [''input'', ''type'', ''fill'', ''search'', ''enter_text''] action_id
      \<or> occurs_any [''input'', ''type'', ''fill'', ''search'']
          (py_lower (text_or_empty (pget template ''learned_skill_ref'')))
      \<or> list_ex (\<lambda>k. is_dict (pget template k))
          [''input_target'', ''text_input_target'', ''field_target'', ''input_policy''])"

definition looks_like_click_action :: "string \<Rightarrow> pyval \<Rightarrow> bool" where
  "looks_like_click_action action_id template =
     (starts_any [''open_'', ''click_'', ''select_'', ''choose_''] action_id
      \<or> occurs_any [''card'', ''button'', ''link'', ''apply_entry''] action_id
      \<or> occurs_any [''open_card'', ''click'', ''select'']
          (py_lower (text_or_empty (pget template ''learned_skill_ref''))))"

definition looks_like_final_submit :: "string \<Rightarrow> bool" where
  "looks_like_final_submit t = occurs_any [''submit application'', ''send application'', ''complete application'',
     ''confirm application'', ''payment'', ''pay now'', ''purchase'', ''final_submit''] (casefold t)"

definition infer_low_level_action_type :: "string \<Rightarrow> pyval \<Rightarrow> string" where
  "infer_low_level_action_type action_template_id template =
     (let action_id = py_lower (strip action_template_id); tpl = as_dict template;
          declared = normalize_low_level_action_type (py_or (pget tpl ''low_level_action_type'')
            (py_or (pget tpl ''action_type'') (py_or (pget tpl ''kind'') (pget tpl ''operation''))))
      in if declared \<in> {''click'', ''scroll'', ''input'', ''observe'', ''verify''} then declared
         else if looks_like_click_action action_id tpl then ''click''
         else if looks_like_input_action action_id tpl then ''input''
         else if is_dict (pget tpl ''scroll_target'') \<or> action_id = ''read_detail'' \<or> action_id = ''load_more_results''
         then ''scroll'' else ''click'')"

definition infer_action_kind :: "string \<Rightarrow> pyval \<Rightarrow> string" where
  "infer_action_kind action_template_id template =
     (let action_id = py_lower (strip action_template_id) in
      if starts_with ''read_'' action_id then ''read'' else infer_low_level_action_type action_id template)"

definition taxonomy_text :: "string \<Rightarrow> pyval \<Rightarrow> pyval \<Rightarrow> string" where
  "taxonomy_text action_id label tpl = casefold (join '' '' (map text_or_empty
     [PStr action_id, label, pget tpl ''label'', pget tpl ''goal_template'', pget tpl ''learned_skill_ref'',
      pget tpl ''skill_ref'']))"

definition taxonomy_kind :: "string \<Rightarrow> pyval \<Rightarrow> string \<Rightarrow> string \<Rightarrow> string \<times> string" where
  "taxonomy_kind action_id tpl declared t =
     (if declared \<in> set ACTION_TAXONOMY_KINDS then (declared, ''declared_action_taxonomy'')
      else if looks_like_final_submit t then (''final_submit'', ''final_submit_terms'')
      else if occurs ''quick apply'' t \<or> occurs ''apply_entry'' action_id \<or> occurs ''open apply'' t
      then (''open_apply_flow'', ''apply_entry_is_flow_open'')
      else if starts_with ''open_'' action_id
         \<or> occurs_any [''open job'', ''open detail'', ''job card'', ''search result''] t
      then (''open_detail'', ''open_detail_terms'')
      else if occurs_any [''continue'', ''next step''] t then (''continue_next_step'', ''continue_terms'')
      else if looks_like_input_action action_id tpl then (''fill_field'', ''input_terms'')
      else (infer_action_kind action_id tpl, ''low_level_fallback''))"

definition classify_action_taxonomy :: "string \<Rightarrow> pyval \<Rightarrow> pyval \<Rightarrow> pyval" where
  "classify_action_taxonomy action_template_id template label =
     (let action_id = py_lower (strip action_template_id); tpl = as_dict template;
          declared = lower_text (py_or (pget tpl ''action_taxonomy'') (pget tpl ''semantic_action_type''));
          (kind, reason) = taxonomy_kind action_id tpl declared (taxonomy_text action_id label tpl)
      in PDict [(''contract_version'', PStr ''action_taxonomy_v1''), (''kind'', PStr kind), (''reason'', PStr reason),
           (''final_submit'', PBool (kind \<in> {''final_submit'', ''send'', ''confirm'', ''payment''})),
           (''open_apply_flow'', PBool (kind = ''open_apply_flow''))])"

section \<open>Candidates at the click point\<close>

type_synonym box = "int \<times> int \<times> int \<times> int"
type_synonym point = "int \<times> int"

definition viewport_of :: "pyval \<Rightarrow> (int \<times> int) option res" where
  "viewport_of value = (if \<not> is_dict value then Inr None else
     rbind (try_none (rbind (py_int (pget value ''width'')) (\<lambda>w.
       rbind (py_int (pget value ''height'')) (\<lambda>h. Inr (w, h))))) (\<lambda>dims.
     Inr (case dims of Some (w, h) \<Rightarrow> if w \<le> 0 \<or> h \<le> 0 then None else Some (w, h) | None \<Rightarrow> None)))"

definition bbox_of :: "pyval \<Rightarrow> box option res" where
  "bbox_of value = (if \<not> is_dict value then Inr None else
     rbind (try_none (rbind (py_int (pget value ''x'')) (\<lambda>x. rbind (py_int (pget value ''y'')) (\<lambda>y.
       rbind (py_int (get_alt value ''w'' ''width'')) (\<lambda>w.
       rbind (py_int (get_alt value ''h'' ''height'')) (\<lambda>h. Inr (x, y, w, h))))))) (\<lambda>b.
     Inr (case b of Some (x, y, w, h) \<Rightarrow> if w \<le> 0 \<or> h \<le> 0 then None else Some (x, y, w, h) | None \<Rightarrow> None)))"

definition point_of :: "pyval \<Rightarrow> point option res" where
  "point_of value = (if \<not> is_dict value then Inr None else
     try_none (rbind (py_int (pget value ''x'')) (\<lambda>x. rbind (py_int (pget value ''y'')) (\<lambda>y. Inr (x, y)))))"

fun point_inside_bbox :: "point \<Rightarrow> box \<Rightarrow> bool" where
  "point_inside_bbox (px, py) (x, y, w, h) = (x \<le> px \<and> px \<le> x + w \<and> y \<le> py \<and> py \<le> y + h)"

fun box_value :: "box \<Rightarrow> pyval" where
  "box_value (x, y, w, h) = PDict [(''x'', PInt x), (''y'', PInt y), (''w'', PInt w), (''h'', PInt h)]"

definition size_value :: "(int \<times> int) option \<Rightarrow> pyval" where
  "size_value dims = (case dims of None \<Rightarrow> PNone
     | Some (w, h) \<Rightarrow> PDict [(''width'', PInt w), (''height'', PInt h)])"

definition build_candidate_freshness :: "pyval \<Rightarrow> pyval \<Rightarrow> string \<Rightarrow> string \<Rightarrow> pyval res" where
  "build_candidate_freshness capture_id viewport_size source freshness =
     rbind (viewport_of viewport_size) (\<lambda>dims.
     Inr (PDict [(''contract_version'', PStr ''action_candidate_freshness_v1''), (''capture_id'', capture_id),
       (''viewport_size'', size_value dims), (''source'', PStr source), (''freshness'', PStr freshness)]))"

definition attach_candidate_freshness :: "pyval \<Rightarrow> pyval \<Rightarrow> pyval \<Rightarrow> string \<Rightarrow> string \<Rightarrow> pyval res" where
  "attach_candidate_freshness candidate capture_id viewport_size source freshness =
     rbind (build_candidate_freshness capture_id viewport_size source freshness) (\<lambda>built.
     Inr (pset ''candidate_freshness'' built candidate))"

definition freshness_reasons ::
  "pyval \<Rightarrow> box option \<Rightarrow> point option \<Rightarrow> pyval \<Rightarrow> bool \<Rightarrow> bool \<Rightarrow> string list" where
  "freshness_reasons freshness bbox point current_capture_id stale_viewport current =
     (if list_ex (\<lambda>k. \<not> truthy (pget freshness k)) [''capture_id'', ''viewport_size'', ''source'', ''freshness'']
        then [''candidate_freshness_missing_fields''] else [])
     @ (if bbox = None then [''candidate_bbox_missing''] else [])
     @ (if point = None then [''candidate_click_point_missing''] else [])
     @ (case (bbox, point) of (Some b, Some p) \<Rightarrow>
          if point_inside_bbox p b then [] else [''candidate_click_point_outside_bbox''] | _ \<Rightarrow> [])
     @ (if truthy current_capture_id \<and> truthy (pget freshness ''capture_id'')
           \<and> \<not> py_eq (pget freshness ''capture_id'') current_capture_id
        then [''candidate_capture_id_stale''] else [])
     @ (if stale_viewport then [''candidate_viewport_size_stale''] else [])
     @ (if current then [] else [''candidate_not_current''])"

definition validate_action_candidate_freshness :: "pyval \<Rightarrow> pyval \<Rightarrow> pyval \<Rightarrow> pyval res" where
  "validate_action_candidate_freshness candidate current_capture_id current_viewport_size =
     (let freshness = as_dict (pget candidate ''candidate_freshness'') in
     rbind (bbox_of (py_or (pget candidate ''bbox'') (pget candidate ''card_bbox''))) (\<lambda>bbox.
     rbind (point_of (py_or (pget candidate ''click_point'') (pget candidate ''point''))) (\<lambda>point.
     rbind (if truthy current_viewport_size \<and> truthy (pget freshness ''viewport_size'')
        then rbind (viewport_of current_viewport_size) (\<lambda>dims.
          Inr (\<not> py_eq (pget freshness ''viewport_size'') (size_value dims)))
        else Inr False) (\<lambda>stale_viewport.
     rbind (in_names (pget freshness ''freshness'') [''current_capture'', ''reviewed_current_capture'']) (\<lambda>current.
     let reasons = freshness_reasons freshness bbox point current_capture_id stale_viewport current in
     Inr (PDict [(''contract_version'', PStr ''action_candidate_freshness_decision_v1''),
       (''allowed'', PBool (reasons = [])),
       (''reasons'', PList (map PStr (if reasons = [] then [''candidate_freshness_current''] else reasons))),
       (''candidate_freshness'', if truthy freshness then freshness else PNone)]))))))"

definition normalise_action_label :: "pyval \<Rightarrow> string" where
  "normalise_action_label value = (if value = PNone then [] else one_line (py_lower (strip (py_str value))))"

definition resolved_click :: "pyval \<Rightarrow> pyval" where
  "resolved_click decision = as_dict (pget decision ''resolved_click_point'')"

definition candidate_target_text :: "pyval \<Rightarrow> string" where
  "candidate_target_text decision = normalise_action_label (py_or (pget (resolved_click decision) ''target_text'')
     (py_or (pget decision ''target_text'') (pget decision ''label'')))"

definition candidate_decision_bbox :: "pyval \<Rightarrow> box option res" where
  "candidate_decision_bbox decision =
     rbind (bbox_of (pget (resolved_click decision) ''bbox'')) (\<lambda>b.
     if b \<noteq> None then Inr b else bbox_of (pget decision ''bbox''))"

definition label_forbidden :: "string \<Rightarrow> string list \<Rightarrow> string list \<Rightarrow> bool" where
  "label_forbidden label forbidden prefixes =
     (label \<noteq> [] \<and> (label \<in> set forbidden \<or> starts_any prefixes label))"

text \<open>The candidates whose box covers the point, with their label and box.\<close>

fun covering :: "point \<Rightarrow> pyval list \<Rightarrow> (pyval \<times> string \<times> box) list res" where
  "covering p [] = Inr []"
| "covering p (decision # decisions) =
     (if \<not> is_dict decision then covering p decisions
      else rbind (candidate_decision_bbox decision) (\<lambda>bbox.
        rbind (covering p decisions) (\<lambda>found.
        Inr (case bbox of
            Some b \<Rightarrow> if point_inside_bbox p b then (decision, candidate_target_text decision, b) # found else found
          | None \<Rightarrow> found))))"

definition overlap_value :: "pyval \<times> string \<times> box \<Rightarrow> pyval" where
  "overlap_value c = (case c of (decision, label, b) \<Rightarrow>
     PDict [(''candidate_id'', pget decision ''candidate_id''), (''label'', PStr label), (''bbox'', box_value b)])"

definition target_refused :: "string \<Rightarrow> pydict \<Rightarrow> pyval" where
  "target_refused reason more = PDict ([(''contract_version'', PStr ''action_candidate_target_decision_v1''),
     (''allowed'', PBool False), (''reason'', PStr reason)] @ more)"

definition labels_of :: "string list \<Rightarrow> string list" where
  "labels_of labels = filter (\<lambda>l. l \<noteq> []) (map (\<lambda>l. normalise_action_label (PStr l)) labels)"

definition selected_decision :: "pyval \<Rightarrow> pyval list \<Rightarrow> pyval option" where
  "selected_decision selected_id decisions = find (\<lambda>d. is_dict d \<and> truthy selected_id
     \<and> py_eq (pget d ''candidate_id'') selected_id) decisions"

definition target_decision ::
  "pyval \<Rightarrow> string \<Rightarrow> (pyval \<times> string \<times> box) list \<Rightarrow> string list \<Rightarrow> string list \<Rightarrow> string list \<Rightarrow> pyval" where
  "target_decision selected_id selected_label found allowed forbidden prefixes =
     (let here = filter (\<lambda>(d, label, b). label \<in> set allowed) found;
          mutating = filter (\<lambda>(d, label, b). label \<notin> set allowed \<and> label_forbidden label forbidden prefixes) found;
          selected = [(''selected_candidate_id'', selected_id), (''selected_candidate_label'', PStr selected_label)]
      in if mutating \<noteq> [] then target_refused ''profile_mutation_candidate_at_click_point''
           (selected @ [(''overlapping_forbidden_candidates'', PList (map overlap_value mutating))])
         else if selected_label \<notin> set allowed \<and> here = [] then
           target_refused ''continue_candidate_label_not_allowed'' selected
         else PDict ([(''contract_version'', PStr ''action_candidate_target_decision_v1''), (''allowed'', PBool True),
             (''reason'', PStr (if selected_label \<in> set allowed then ''continue_candidate_label_allowed''
                else ''visible_continue_candidate_at_click_point''))]
           @ selected @ [(''overlapping_allowed_candidates'', PList (map overlap_value here))]))"

definition validate_action_candidate_target_at_point ::
  "pyval \<Rightarrow> pyval \<Rightarrow> string list \<Rightarrow> string list \<Rightarrow> string list \<Rightarrow> pyval res" where
  "validate_action_candidate_target_at_point point pre_click_decision allowed_labels forbidden_labels prefixes =
     rbind (point_of point) (\<lambda>normalized.
     case normalized of None \<Rightarrow> Inr (target_refused ''missing_selected_click_point'' [])
     | Some p \<Rightarrow>
       if \<not> is_dict pre_click_decision then Inr (target_refused ''missing_pre_click_decision'' [])
       else let selected_id = pget pre_click_decision ''selected_candidate_id'';
                decisions = pget pre_click_decision ''candidate_decisions'' in
         if \<not> is_list decisions then Inr (target_refused ''missing_candidate_decisions'' [])
         else case selected_decision selected_id (plist decisions) of
             None \<Rightarrow> Inr (target_refused ''missing_selected_candidate_decision'' [])
           | Some selected \<Rightarrow>
               rbind (covering p (plist decisions)) (\<lambda>found.
               Inr (target_decision selected_id (candidate_target_text selected) found
                 (labels_of allowed_labels) (labels_of forbidden_labels) (labels_of prefixes))))"


section \<open>Form answers\<close>

definition has_answer_evidence :: "pyval \<Rightarrow> bool res" where
  "has_answer_evidence decision =
     (if truthy (pget decision ''evidence_refs'') \<and> truthy (pget decision ''value_reference'')
         \<and> truthy (pget decision ''value_hash'')
      then rbind (py_int (py_or (pget decision ''value_length'') (PInt 0))) (\<lambda>n. Inr (0 < n))
      else Inr False)"

definition form_reason :: "pyval \<Rightarrow> pyval \<Rightarrow> string \<Rightarrow> (bool \<times> string) res" where
  "form_reason question decision policy =
     (if pget question ''disabled'' = PBool True then Inr (False, ''field_disabled'')
      else if text_or_empty (pget question ''risk'') = ''final_submit'' \<or> policy = ''final_submit''
      then Inr (False, ''final_submit_forbidden'')
      else if policy \<in> {''auto_fill'', ''derived_with_evidence''} then
        rbind (has_answer_evidence decision) (\<lambda>evidence.
        Inr (if evidence then (True, ''answer_policy_and_evidence_valid'') else (False, ''answer_evidence_missing'')))
      else if policy = ''blocked_sensitive'' then Inr (False, ''sensitive_field_blocked'')
      else if policy = ''unsupported'' then Inr (False, ''unsupported_field'')
      else Inr (False, ''policy_requires_review''))"

definition evaluate_form_action_policy :: "pyval \<Rightarrow> pyval \<Rightarrow> pyval res" where
  "evaluate_form_action_policy question decision =
     (let q = as_dict question; d = as_dict decision;
          policy = py_str (py_or (pget d ''policy'') (PStr ''needs_user_review'')) in
      rbind (form_reason q d policy) (\<lambda>(allowed, reason).
      Inr (PDict [(''contract_version'', PStr ''form_action_gate_decision_v1''),
        (''question_id'', py_or (pget q ''question_id'') (pget d ''question_id'')), (''policy'', PStr policy),
        (''policy_allowed'', PBool allowed), (''reason'', PStr reason),
        (''unsafe_prevented'', PBool (\<not> allowed \<and> policy \<in> {''blocked_sensitive'', ''final_submit''})),
        (''execution_authorized'', PBool False), (''requires_current_grounding'', PBool True),
        (''requires_action_gate'', PBool True), (''fill_attempted'', PBool False),
        (''submit_attempted'', PBool False), (''artifact_is_authorization'', PBool False)])))"

section \<open>The bound window\<close>

definition normalize_window_token :: "pyval \<Rightarrow> string" where
  "normalize_window_token value = filter is_low_alnum (casefold (text_or_empty value))"

definition window_aliases :: "(string \<times> string list \<times> string list) list" where
  "window_aliases = [(''edge'', [''msedgeexe''], []), (''msedge'', [''msedgeexe''], []),
     (''browser'', [''msedgeexe'', ''chromeexe'', ''firefoxexe''], []), (''chrome'', [''chromeexe''], []),
     (''notepad'', [''notepadexe''], [''notepad'']), (''qq'', [''qqexe''], [''qq'']),
     (''mousetester'', [''msedgeexe'', ''chromeexe''], [''mousetester'']),
     (''mousetesterweb'', [''msedgeexe'', ''chromeexe''], [''mousetester''])]"

definition window_decision :: "bool \<Rightarrow> string \<Rightarrow> pydict \<Rightarrow> pyval" where
  "window_decision valid reason more = PDict ([(''contract_version'', PStr ''bound_window_match_decision_v1''),
     (''valid'', PBool valid), (''reason'', PStr reason)] @ more)"

definition validate_bound_window_for_app :: "pyval \<Rightarrow> pyval \<Rightarrow> pyval" where
  "validate_bound_window_for_app expected_app_name bound_window =
     (let expected = normalize_window_token expected_app_name;
          process = normalize_window_token (pget bound_window ''process_name'');
          title = normalize_window_token (pget bound_window ''title'');
          actual = [(''actual_process_name'', pget bound_window ''process_name''),
            (''actual_title'', pget bound_window ''title''), (''bound_window'', bound_window)] in
      if expected = [] then window_decision True ''no_app_name_requested'' [(''bound_window'', bound_window)]
      else case map_of window_aliases expected of
          Some (processes, title_tokens) \<Rightarrow>
            let valid = (process \<in> set processes \<or> occurs_any title_tokens title) in
            window_decision valid (if valid then ''matched_app_alias'' else ''process_name_mismatch'')
              ([(''expected_app_name'', expected_app_name), (''allowed_processes'', PList (map PStr (sort processes)))] @ actual)
        | None \<Rightarrow> window_decision True
            (if occurs expected process \<or> occurs expected title then ''matched_process_or_title''
             else ''unmapped_app_name_not_enforced'')
            ([(''expected_app_name'', expected_app_name)] @ actual))"

section \<open>Short OCR tokens\<close>

function alnum_runs :: "string \<Rightarrow> string list" where
  "alnum_runs s = (case dropWhile (\<lambda>c. \<not> is_alnum c) s of [] \<Rightarrow> []
     | c # cs \<Rightarrow> takeWhile is_alnum (c # cs) # alnum_runs (dropWhile is_alnum cs))"
  by pat_completeness auto
termination
proof (relation "measure length")
  fix s :: string and c cs
  assume "dropWhile (\<lambda>c. \<not> is_alnum c) s = c # cs"
  then have "length (c # cs) \<le> length s" by (metis length_dropWhile_le)
  moreover have "length (dropWhile is_alnum cs) \<le> length cs" by (rule length_dropWhile_le)
  ultimately show "(dropWhile is_alnum cs, s) \<in> measure length" by simp
qed simp

declare alnum_runs.simps [simp del]

definition short_acronym_like :: "string \<Rightarrow> bool" where
  "short_acronym_like token = (1 \<le> length token \<and> length token \<le> 4
     \<and> list_ex (\<lambda>c. 97 \<le> cp c \<and> cp c \<le> 122) token)"

definition acronym_char :: "char \<Rightarrow> char" where
  "acronym_char c = (if c = CHR ''1'' \<or> c = CHR ''l'' then CHR ''i'' else if c = CHR ''0'' then CHR ''o'' else c)"

definition canonical_token :: "bool \<Rightarrow> string \<Rightarrow> string" where
  "canonical_token fix_acronym token = (let cleaned = casefold token in
     if fix_acronym \<and> short_acronym_like cleaned then map acronym_char cleaned else cleaned)"

definition acronym_context :: "pyval \<Rightarrow> bool" where
  "acronym_context context = (text_or_empty context \<in> {''company_name'', ''acronym'', ''already_matched_acronym''})"

definition canonicalize_short_ocr_token :: "pyval \<Rightarrow> pyval \<Rightarrow> pyval" where
  "canonicalize_short_ocr_token value context =
     (let raw = strip (text_or_empty value); tokens = alnum_runs raw; f = canonical_token (acronym_context context) in
      PDict [(''contract_version'', PStr ''ocr_canonicalization_v1''), (''raw'', PStr raw),
        (''canonical'', PStr (concat (map f tokens))), (''context'', context),
        (''changed'', PBool (list_ex (\<lambda>t. f t \<noteq> casefold t) tokens)), (''policy'', PStr ''short_acronym_only'')])"

definition ocr_contextual_match :: "pyval \<Rightarrow> pyval \<Rightarrow> pyval \<Rightarrow> bool" where
  "ocr_contextual_match expected observed context =
     (let e = pget (canonicalize_short_ocr_token expected context) ''canonical'';
          a = pget (canonicalize_short_ocr_token observed context) ''canonical''
      in truthy e \<and> truthy a \<and> e = a)"

section \<open>A final submission in view\<close>

definition final_submit_terms :: "string list" where
  "final_submit_terms = [''complete your application'', ''submit your application'', ''send your application'',
     ''complete application'', ''confirm application'', ''submit application'', ''finish application'',
     ''review and submit'', ''send application'', ''apply now'', ''complete'', ''confirm'', ''submit'']"

text \<open>
  \<^verbatim>\<open>(?<![a-z0-9])term(?![a-z0-9])\<close> anywhere in the text; the flag says that the preceding
  character allows a match here. The list above is in the order of the sort by length; the source
  sorts a set, so the order of the two terms of 18 characters is open there.
\<close>

fun bounded_occurs :: "bool \<Rightarrow> string \<Rightarrow> string \<Rightarrow> bool" where
  "bounded_occurs here t [] = False"
| "bounded_occurs here t (c # cs) =
     (here \<and> starts_with t (c # cs)
        \<and> (case drop (length t) (c # cs) of [] \<Rightarrow> True | d # _ \<Rightarrow> \<not> is_low_alnum d)
      \<or> bounded_occurs (\<not> is_low_alnum c) t cs)"

definition matched_terms :: "string \<Rightarrow> string list" where
  "matched_terms t = filter (\<lambda>term. bounded_occurs True term (casefold t)) final_submit_terms"

definition final_submit_terms_in_text :: "string \<Rightarrow> string list" where
  "final_submit_terms_in_text t = (let matched = matched_terms t in
     filter (\<lambda>term. \<not> list_ex (\<lambda>other. other \<noteq> term \<and> occurs term other) matched) matched)"

definition clean_text :: "pyval \<Rightarrow> string" where
  "clean_text value = one_line (text_or_empty value)"

definition joined_fields :: "pyval \<Rightarrow> string \<Rightarrow> string list \<Rightarrow> string" where
  "joined_fields entry t keys = casefold (join '' '' (t # map (\<lambda>k. text_or_empty (pget entry k)) keys))"

definition is_search_submit :: "pyval \<Rightarrow> string \<Rightarrow> bool" where
  "is_search_submit entry t = (let key = joined_fields entry t [''id'', ''role''] in
     occurs ''submit search'' key
     \<or> occurs ''search'' key \<and> casefold (clean_text (PStr t)) \<in> {''submit'', ''submit search''})"

definition is_generic_generated_submit_button :: "pyval \<Rightarrow> string \<Rightarrow> bool" where
  "is_generic_generated_submit_button entry t =
     (casefold (clean_text (PStr t)) = ''submit button'' \<and> occurs ''submit-button'' (joined_fields entry t [''id'']))"

definition is_apply_entry_context :: "pyval \<Rightarrow> bool" where
  "is_apply_entry_context surface_context = (casefold (text_or_empty surface_context)
     \<in> {''apply_entry'', ''application_entry'', ''job_detail_apply_entry'', ''open_apply_flow''})"

definition review_and_submit_is_final :: "pyval \<Rightarrow> pyval \<Rightarrow> bool" where
  "review_and_submit_is_final entry surface_context =
     (casefold (text_or_empty surface_context)
        \<in> {''final_review_submit'', ''final_submit_visible'', ''final_review_submit_visible''}
      \<or> occurs_any [''final_submit'', ''final-submit''] (casefold (join '' ''
          (map (\<lambda>k. text_or_empty (pget entry k))
            [''id'', ''semantic_action'', ''danger_level'', ''action_type'', ''taxonomy'']))))"

definition is_negative_text :: "string \<Rightarrow> bool" where
  "is_negative_text t = occurs_any [''do not'', ''don't'', ''never'', ''must not'', ''should not'', ''not click'',
     ''forbidden''] (casefold t)"

definition is_final_submit_action_like :: "pyval \<Rightarrow> string \<Rightarrow> bool" where
  "is_final_submit_action_like entry t =
     (casefold (text_or_empty (pget entry ''collection'')) = ''available_actions''
      \<or> occurs_any [''button'', ''link'', ''action'', ''menuitem'', ''submit''] (casefold (text_or_empty (pget entry ''role'')))
      \<or> length (clean_text (PStr t)) \<le> 40 \<and> length (words (clean_text (PStr t))) \<le> 5)"

definition center_inside :: "pyval \<Rightarrow> pyval \<Rightarrow> bool res" where
  "center_inside bbox container =
     rbind (try_none (
       rbind (py_float (pget bbox ''x'')) (\<lambda>x. rbind (py_float (pget bbox ''y'')) (\<lambda>y.
       rbind (py_float (get_alt bbox ''w'' ''width'')) (\<lambda>w. rbind (py_float (get_alt bbox ''h'' ''height'')) (\<lambda>h.
       rbind (py_float (pget container ''x'')) (\<lambda>bx. rbind (py_float (pget container ''y'')) (\<lambda>by'.
       rbind (py_float (get_alt container ''w'' ''width'')) (\<lambda>bw.
       rbind (py_float (get_alt container ''h'' ''height'')) (\<lambda>bh.
       let cx = flt_add x (flt_half w); cy = flt_add y (flt_half h) in
       Inr (flt_le bx cx \<and> flt_le cx (flt_add bx bw) \<and> flt_le by' cy \<and> flt_le cy (flt_add by' bh))))))))))))
     (\<lambda>r. Inr (case r of Some inside \<Rightarrow> inside | None \<Rightarrow> False))"

definition item_in_active_scope :: "pyval \<Rightarrow> pyval \<Rightarrow> bool \<Rightarrow> bool res" where
  "item_in_active_scope entry active_container active_flow_started =
     (if \<not> active_flow_started then Inr False
      else if \<not> truthy active_container then Inr True
      else if \<not> is_dict (pget entry ''bbox'') \<or> \<not> truthy (pget entry ''bbox'') then Inr False
      else center_inside (pget entry ''bbox'') active_container)"

definition entry_text :: "pyval \<Rightarrow> string" where
  "entry_text entry = py_str (py_or (pget entry ''text'') (py_or (pget entry ''label'') (PStr [])))"

definition submit_terms :: "pyval \<Rightarrow> pyval \<Rightarrow> string list" where
  "submit_terms entry surface_context = (let terms = final_submit_terms_in_text (entry_text entry) in
     if ''review and submit'' \<in> set terms \<and> \<not> review_and_submit_is_final entry surface_context
     then filter (\<lambda>t. t \<noteq> ''review and submit'') terms else terms)"

text \<open>The chain of \<^verbatim>\<open>continue\<close> statements: whether an entry in scope counts.\<close>

definition is_final_submit :: "pyval \<Rightarrow> pyval \<Rightarrow> bool" where
  "is_final_submit entry surface_context = (let t = entry_text entry in
     submit_terms entry surface_context \<noteq> []
     \<and> \<not> (is_apply_entry_context surface_context \<and> casefold (clean_text (PStr t)) = ''apply now'')
     \<and> \<not> is_search_submit entry t \<and> \<not> is_generic_generated_submit_button entry t
     \<and> \<not> is_negative_text t \<and> is_final_submit_action_like entry t)"

definition matched_entry :: "pyval \<Rightarrow> pyval \<Rightarrow> pyval" where
  "matched_entry surface_context entry = PDict [(''collection'', pget entry ''collection''), (''id'', pget entry ''id''),
     (''text'', PStr (entry_text entry)), (''role'', pget entry ''role''), (''bbox'', pget entry ''bbox''),
     (''matched_terms'', PList (map PStr (submit_terms entry surface_context)))]"

fun in_scope :: "pyval \<Rightarrow> bool \<Rightarrow> pyval list \<Rightarrow> pyval list res" where
  "in_scope container started [] = Inr []"
| "in_scope container started (entry # entries) =
     rbind (item_in_active_scope entry container started) (\<lambda>inside.
     rbind (in_scope container started entries) (\<lambda>scoped. Inr (if inside then entry # scoped else scoped)))"

definition scoped_final_submit_visible_blocker ::
  "pyval list \<Rightarrow> pyval \<Rightarrow> bool \<Rightarrow> pyval \<Rightarrow> pyval res" where
  "scoped_final_submit_visible_blocker entries active_container active_flow_started surface_context =
     rbind (in_scope active_container active_flow_started entries) (\<lambda>scoped.
     let matched = filter (\<lambda>e. is_final_submit e surface_context) scoped in
     Inr (PDict [(''contract_version'', PStr ''scoped_final_submit_guard_v1''), (''enabled'', PBool True),
       (''active_flow_started'', PBool active_flow_started),
       (''active_container'', if truthy active_container then active_container else PNone),
       (''surface_context'', surface_context), (''blocked'', PBool (matched \<noteq> [])),
       (''matched_terms'', PList (map PStr (sort (remdups (concat (map (\<lambda>e. submit_terms e surface_context) matched)))))),
       (''matched_items'', PList (take 20 (map (matched_entry surface_context) matched))),
       (''reason'', PStr (if matched \<noteq> [] then ''final_submit_visible_stop_before_submission''
          else ''no_scoped_final_submit_visible''))]))"


section \<open>Terms in a text\<close>

text \<open>The pattern as a statement: the term stands in the text, with no letter or digit against it.\<close>

definition stands_in :: "string \<Rightarrow> string \<Rightarrow> bool" where
  "stands_in t s = (\<exists>pre post. s = pre @ t @ post \<and> (pre = [] \<or> \<not> is_low_alnum (last pre))
     \<and> (post = [] \<or> \<not> is_low_alnum (hd post)))"

lemma starts_with_iff: "starts_with t s \<longleftrightarrow> (\<exists>post. s = t @ post)"
  unfolding starts_with_def by (metis append_eq_conv_conj append_take_drop_id)

lemma occurs_iff: "occurs t s \<longleftrightarrow> (\<exists>pre post. s = pre @ t @ post)"
proof (induction s)
  case Nil
  show ?case by (simp add: starts_with_def)
next
  case (Cons c cs)
  show ?case
  proof
    assume "occurs t (c # cs)"
    then consider "starts_with t (c # cs)" | "occurs t cs" by auto
    then show "\<exists>pre post. c # cs = pre @ t @ post"
    proof cases
      case 1 then show ?thesis unfolding starts_with_iff by (metis append_Nil)
    next
      case 2 then show ?thesis using Cons.IH by (metis append_Cons)
    qed
  next
    assume "\<exists>pre post. c # cs = pre @ t @ post"
    then obtain pre post where e: "c # cs = pre @ t @ post" by blast
    show "occurs t (c # cs)"
    proof (cases pre)
      case Nil
      with e have "starts_with t (c # cs)" by (auto simp: starts_with_iff)
      then show ?thesis by simp
    next
      case (Cons d ds) with e Cons.IH show ?thesis by auto
    qed
  qed
qed

lemma case_hd: "(case xs of [] \<Rightarrow> True | x # _ \<Rightarrow> P x) \<longleftrightarrow> xs = [] \<or> P (hd xs)"
  by (cases xs) simp_all

lemma ex_list_cases: "(\<exists>xs. P xs) \<longleftrightarrow> P [] \<or> (\<exists>x xs. P (x # xs))"
  by (metis list.exhaust)

lemma bounded_occurs_at:
  "t \<noteq> [] \<Longrightarrow> bounded_occurs here t s \<longleftrightarrow> (\<exists>pre post. s = pre @ t @ post
     \<and> (if pre = [] then here else \<not> is_low_alnum (last pre)) \<and> (post = [] \<or> \<not> is_low_alnum (hd post)))"
proof (induction s arbitrary: here)
  case Nil
  then show ?case by simp
next
  case (Cons c cs)
  let ?at = "\<lambda>here s pre post. s = pre @ t @ post \<and> (if pre = [] then here else \<not> is_low_alnum (last pre))
    \<and> (post = [] \<or> \<not> is_low_alnum (hd post))"
  have first: "starts_with t (c # cs) \<and> (case drop (length t) (c # cs) of [] \<Rightarrow> True | d # _ \<Rightarrow> \<not> is_low_alnum d)
      \<longleftrightarrow> (\<exists>post. c # cs = t @ post \<and> (post = [] \<or> \<not> is_low_alnum (hd post)))"
  proof -
    have "\<And>post. c # cs = t @ post \<Longrightarrow> drop (length t) (c # cs) = post" by simp
    then show ?thesis unfolding starts_with_iff case_hd by metis
  qed
  have later: "(\<exists>d pre post. ?at here (c # cs) (d # pre) post) \<longleftrightarrow> bounded_occurs (\<not> is_low_alnum c) t cs"
    unfolding Cons.IH[OF Cons.prems] by auto
  have "(\<exists>pre post. ?at here (c # cs) pre post) \<longleftrightarrow>
      (\<exists>post. ?at here (c # cs) [] post) \<or> (\<exists>d pre post. ?at here (c # cs) (d # pre) post)"
    by (rule ex_list_cases)
  then show ?case using first later by simp blast
qed

lemma bounded_occurs_iff: "t \<noteq> [] \<Longrightarrow> bounded_occurs True t s \<longleftrightarrow> stands_in t s"
  unfolding bounded_occurs_at stands_in_def by metis

lemma terms_nonempty: "t \<in> set final_submit_terms \<Longrightarrow> t \<noteq> []"
  by (auto simp: final_submit_terms_def)

lemma matched_terms_iff: "t \<in> set (matched_terms s) \<longleftrightarrow> t \<in> set final_submit_terms \<and> stands_in t (casefold s)"
  using terms_nonempty by (auto simp: matched_terms_def bounded_occurs_iff)

lemma occurs_trans: "occurs a b \<Longrightarrow> occurs b c \<Longrightarrow> occurs a c"
  unfolding occurs_iff by (metis append.assoc)

lemma occurs_length: "occurs a b \<Longrightarrow> a \<noteq> b \<Longrightarrow> length a < length b"
  unfolding occurs_iff by auto

text \<open>Dropping the terms inside another matched term loses no text: a maximal one stays.\<close>

lemma maximal_term:
  assumes "t \<in> set (matched_terms s)"
  shows "\<exists>u \<in> set (final_submit_terms_in_text s). occurs t u"
proof -
  let ?P = "\<lambda>u. u \<in> set (matched_terms s) \<and> occurs t u"
  have self: "?P t" using assms by (auto simp: occurs_iff intro: exI[of _ "[]"])
  obtain u where u: "?P u" "\<And>v. ?P v \<Longrightarrow> length v \<le> length u"
    using ex_has_greatest_nat[of ?P t length "Max (length ` set (matched_terms s)) + 1"] self
    by (metis List.finite_set Max_ge finite_imageI image_eqI less_Suc_eq_le Suc_eq_plus1 le_SucI)
  have "u \<in> set (final_submit_terms_in_text s)"
  proof -
    have "\<not> (v \<noteq> u \<and> occurs u v)" if "v \<in> set (matched_terms s)" for v
    proof
      assume v: "v \<noteq> u \<and> occurs u v"
      then have "occurs t v" using u(1) occurs_trans by blast
      then show False using u(2)[of v] that v occurs_length[of u v] by force
    qed
    then show ?thesis
      using u(1) unfolding final_submit_terms_in_text_def Let_def list_ex_iff by simp
  qed
  with u show ?thesis by blast
qed


definition review_excuses :: "pyval \<Rightarrow> pyval \<Rightarrow> string \<Rightarrow> bool" where
  "review_excuses entry surface_context t =
     (stands_in ''review and submit'' (casefold (entry_text entry))
      \<and> \<not> review_and_submit_is_final entry surface_context \<and> occurs t ''review and submit'')"

definition excused :: "pyval \<Rightarrow> pyval \<Rightarrow> bool" where
  "excused entry surface_context = (let t = entry_text entry in
     is_apply_entry_context surface_context \<and> casefold (clean_text (PStr t)) = ''apply now''
     \<or> is_search_submit entry t \<or> is_generic_generated_submit_button entry t \<or> is_negative_text t)"

lemma review_term: "''review and submit'' \<in> set final_submit_terms"
  by (simp add: final_submit_terms_def)

lemma final_term_matched: "t \<in> set (final_submit_terms_in_text s) \<Longrightarrow> t \<in> set (matched_terms s)"
  by (simp add: final_submit_terms_in_text_def Let_def)

lemma final_term_maximal:
  assumes t: "t \<in> set (final_submit_terms_in_text s)" and u: "u \<in> set (matched_terms s)" and o: "occurs t u"
  shows "t = u"
proof (rule ccontr)
  assume "t \<noteq> u"
  with u o have "list_ex (\<lambda>other. other \<noteq> t \<and> occurs t other) (matched_terms s)"
    unfolding list_ex_iff by (intro bexI[of _ u] conjI) auto
  with t show False by (simp add: final_submit_terms_in_text_def Let_def)
qed

lemma submit_terms_nonempty:
  "submit_terms e ctx \<noteq> [] \<longleftrightarrow> (\<exists>t \<in> set final_submit_terms.
     stands_in t (casefold (entry_text e)) \<and> \<not> review_excuses e ctx t)"
  (is "?L \<longleftrightarrow> ?R")
proof
  assume ?L
  then obtain t where t: "t \<in> set (submit_terms e ctx)" by (meson list.set_sel(1))
  then have f: "t \<in> set (final_submit_terms_in_text (entry_text e))"
    by (auto simp: submit_terms_def Let_def split: if_splits)
  then have m: "t \<in> set (matched_terms (entry_text e))" by (rule final_term_matched)
  have "\<not> review_excuses e ctx t"
  proof
    assume r: "review_excuses e ctx t"
    then have rm: "''review and submit'' \<in> set (matched_terms (entry_text e))"
      unfolding matched_terms_iff review_excuses_def using review_term by blast
    have "t = ''review and submit''"
      using final_term_maximal[OF f rm] r unfolding review_excuses_def by (elim conjE) simp
    then show False
      using t f r unfolding submit_terms_def Let_def review_excuses_def
        by (simp only: set_filter if_True simp_thms mem_Collect_eq)
  qed
  with m show ?R unfolding matched_terms_iff by blast
next
  assume ?R
  then obtain t where t: "t \<in> set (matched_terms (entry_text e))" "\<not> review_excuses e ctx t"
    unfolding matched_terms_iff by blast
  obtain u where u: "u \<in> set (final_submit_terms_in_text (entry_text e))" "occurs t u"
    using maximal_term[OF t(1)] by blast
  show ?L
  proof (cases "u = ''review and submit'' \<and> \<not> review_and_submit_is_final e ctx")
    case True
    then have "stands_in ''review and submit'' (casefold (entry_text e))"
      using final_term_matched[OF u(1)] unfolding matched_terms_iff by blast
    with t(2) True u(2) show ?thesis unfolding review_excuses_def by blast
  next
    case False
    then have "u \<in> set (submit_terms e ctx)"
      using u(1) unfolding submit_terms_def Let_def by (auto split: if_splits)
    then show ?thesis by force
  qed
qed

lemma final_submit_iff:
  "is_final_submit e ctx \<longleftrightarrow> (\<exists>t \<in> set final_submit_terms. stands_in t (casefold (entry_text e)) \<and> \<not> review_excuses e ctx t)
     \<and> \<not> excused e ctx \<and> is_final_submit_action_like e (entry_text e)"
  unfolding is_final_submit_def Let_def excused_def submit_terms_nonempty by blast

lemma in_scope_iff:
  "in_scope c s es = Inr scoped \<Longrightarrow> set scoped = {e \<in> set es. item_in_active_scope e c s = Inr True}"
proof (induction es arbitrary: scoped)
  case (Cons e es)
  then obtain b rest where "item_in_active_scope e c s = Inr b" "in_scope c s es = Inr rest"
      "scoped = (if b then e # rest else rest)"
    by (simp only: in_scope.simps rbind_eq_Inr_iff sum.inject) blast
  then have "set scoped = (if item_in_active_scope e c s = Inr True then insert e (set rest) else set rest)"
    by (cases b) simp_all
  moreover have "set rest = {e \<in> set es. item_in_active_scope e c s = Inr True}" by (rule Cons.IH) fact
  ultimately show ?case by (simp only: list.set) (simp, blast)
qed simp

text \<open>the submission guard blocks exactly when some entry inside the active flow shows a final submit
  term, standing as a word, on something action-like, outside the listed exceptions.\<close>

theorem submission_guard_blocks:
  assumes "scoped_final_submit_visible_blocker entries container started ctx = Inr r"
  shows "pget r ''blocked'' = PBool (\<exists>e \<in> set entries. item_in_active_scope e container started = Inr True
     \<and> (\<exists>t \<in> set final_submit_terms. stands_in t (casefold (entry_text e)) \<and> \<not> review_excuses e ctx t)
     \<and> \<not> excused e ctx \<and> is_final_submit_action_like e (entry_text e))"
proof -
  obtain scoped where s: "in_scope container started entries = Inr scoped"
    and r: "pget r ''blocked'' = PBool (filter (\<lambda>e. is_final_submit e ctx) scoped \<noteq> [])"
    using assms unfolding scoped_final_submit_visible_blocker_def rbind_eq_Inr_iff Let_def
    by (auto simp: dict_get_def)
  have "filter (\<lambda>e. is_final_submit e ctx) scoped \<noteq> [] \<longleftrightarrow>
      (\<exists>e \<in> set entries. item_in_active_scope e container started = Inr True \<and> is_final_submit e ctx)"
    unfolding filter_empty_conv in_scope_iff[OF s] by blast
  then show ?thesis unfolding r final_submit_iff by simp
qed


section \<open>What an allowed click target guarantees\<close>

lemma covering_iff:
  "covering p ds = Inr found \<Longrightarrow> set found = {(d, candidate_target_text d, b) | d b.
     d \<in> set ds \<and> is_dict d \<and> candidate_decision_bbox d = Inr (Some b) \<and> point_inside_bbox p b}"
proof (induction ds arbitrary: found)
  case (Cons d ds)
  show ?case
  proof (cases "is_dict d")
    case False
    with Cons.prems have "covering p ds = Inr found" by simp
    from Cons.IH[OF this] False show ?thesis by auto
  next
    case True
    then have "rbind (candidate_decision_bbox d) (\<lambda>bbox. rbind (covering p ds) (\<lambda>found. Inr (case bbox of
        Some b \<Rightarrow> if point_inside_bbox p b then (d, candidate_target_text d, b) # found else found
      | None \<Rightarrow> found))) = Inr found" using Cons.prems by simp
    then obtain bbox rest where b: "candidate_decision_bbox d = Inr bbox" and r: "covering p ds = Inr rest"
      and f: "found = (case bbox of
          Some b \<Rightarrow> if point_inside_bbox p b then (d, candidate_target_text d, b) # rest else rest
        | None \<Rightarrow> rest)"
      by (simp only: rbind_eq_Inr_iff sum.inject) blast
    show ?thesis
    proof (cases bbox)
      case None
      then show ?thesis using b f Cons.IH[OF r] by auto
    next
      case (Some x)
      then show ?thesis using b f True Cons.IH[OF r] by auto
    qed
  qed
qed simp

lemma target_decision_allowed:
  "pget (target_decision i label found allowed forbidden prefixes) ''allowed'' = PBool True \<longleftrightarrow>
    (\<forall>(d, l, b) \<in> set found. l \<in> set allowed \<or> \<not> label_forbidden l forbidden prefixes)
    \<and> (label \<in> set allowed \<or> (\<exists>(d, l, b) \<in> set found. l \<in> set allowed))"
proof -
  let ?here = "filter (\<lambda>(d, label, b). label \<in> set allowed) found"
  let ?bad = "filter (\<lambda>(d, label, b). label \<notin> set allowed \<and> label_forbidden label forbidden prefixes) found"
  have bad: "?bad = [] \<longleftrightarrow> (\<forall>(d, l, b) \<in> set found. l \<in> set allowed \<or> \<not> label_forbidden l forbidden prefixes)"
    unfolding filter_empty_conv by fastforce
  have here: "?here = [] \<longleftrightarrow> \<not> (\<exists>(d, l, b) \<in> set found. l \<in> set allowed)"
    unfolding filter_empty_conv by fastforce
  show ?thesis
    unfolding bad[symmetric] target_decision_def Let_def target_refused_def
    using here by (simp add: dict_get_def)
qed


lemma selected_decision_Some:
  "selected_decision i ds = Some d \<Longrightarrow> d \<in> set ds \<and> is_dict d \<and> py_eq (pget d ''candidate_id'') i"
  by (auto simp: selected_decision_def find_Some_iff in_set_conv_nth)

lemma target_run:
  assumes "validate_action_candidate_target_at_point point pre allowed forbidden prefixes = Inr r"
    and "pget r ''allowed'' = PBool True"
  obtains p selected found where "point_of point = Inr (Some p)"
    and "selected_decision (pget pre ''selected_candidate_id'') (plist (pget pre ''candidate_decisions'')) = Some selected"
    and "covering p (plist (pget pre ''candidate_decisions'')) = Inr found"
    and "r = target_decision (pget pre ''selected_candidate_id'') (candidate_target_text selected) found
      (labels_of allowed) (labels_of forbidden) (labels_of prefixes)"
proof -
  have refused: "pget (target_refused reason []) ''allowed'' \<noteq> PBool True" for reason
    by (simp add: target_refused_def dict_get_def)
  obtain n where n: "point_of point = Inr n"
    using assms(1) unfolding validate_action_candidate_target_at_point_def rbind_eq_Inr_iff by blast
  note run = assms(1)[unfolded validate_action_candidate_target_at_point_def n rbind_Inr Let_def]
  obtain p where p: "n = Some p" using run refused assms(2) by (cases n) auto
  have "is_dict pre" using run refused assms(2) p by (cases "is_dict pre") auto
  moreover have "is_list (pget pre ''candidate_decisions'')"
    using run refused assms(2) p calculation by (cases "is_list (pget pre ''candidate_decisions'')") auto
  moreover obtain selected where
    "selected_decision (pget pre ''selected_candidate_id'') (plist (pget pre ''candidate_decisions'')) = Some selected"
    using run refused assms(2) p calculation
    by (cases "selected_decision (pget pre ''selected_candidate_id'') (plist (pget pre ''candidate_decisions''))") auto
  ultimately show ?thesis
    using that[of p selected] run p n by (auto simp: rbind_eq_Inr_iff)
qed

text \<open>C32: when the click target check allows a point, no candidate there carries a forbidden label (unless
  the label is also allowed), and the selected candidate, or one at the point, carries an allowed label.\<close>

theorem click_target_is_allowed:
  assumes "validate_action_candidate_target_at_point point pre allowed forbidden prefixes = Inr r"
    and "pget r ''allowed'' = PBool True"
  shows "\<exists>p. point_of point = Inr (Some p)
    \<and> (\<forall>d \<in> set (plist (pget pre ''candidate_decisions'')). \<forall>b.
         is_dict d \<and> candidate_decision_bbox d = Inr (Some b) \<and> point_inside_bbox p b
         \<longrightarrow> candidate_target_text d \<in> set (labels_of allowed)
           \<or> \<not> label_forbidden (candidate_target_text d) (labels_of forbidden) (labels_of prefixes))
    \<and> (\<exists>d \<in> set (plist (pget pre ''candidate_decisions'')).
         is_dict d \<and> candidate_target_text d \<in> set (labels_of allowed)
         \<and> (py_eq (pget d ''candidate_id'') (pget pre ''selected_candidate_id'')
           \<or> (\<exists>b. candidate_decision_bbox d = Inr (Some b) \<and> point_inside_bbox p b)))"
  using assms
proof (rule target_run)
  fix p selected found
  assume p: "point_of point = Inr (Some p)"
    and s: "selected_decision (pget pre ''selected_candidate_id'') (plist (pget pre ''candidate_decisions'')) = Some selected"
    and f: "covering p (plist (pget pre ''candidate_decisions'')) = Inr found"
    and r: "r = target_decision (pget pre ''selected_candidate_id'') (candidate_target_text selected) found
      (labels_of allowed) (labels_of forbidden) (labels_of prefixes)"
  note found = assms(2)[unfolded r target_decision_allowed covering_iff[OF f]]
  show ?thesis
  proof (intro exI[of _ p] conjI p ballI allI impI)
    fix d b
    assume "d \<in> set (plist (pget pre ''candidate_decisions''))"
      and "is_dict d \<and> candidate_decision_bbox d = Inr (Some b) \<and> point_inside_bbox p b"
    then show "candidate_target_text d \<in> set (labels_of allowed)
        \<or> \<not> label_forbidden (candidate_target_text d) (labels_of forbidden) (labels_of prefixes)"
      using found[THEN conjunct1] by fast
  next
    from found[THEN conjunct2] consider "candidate_target_text selected \<in> set (labels_of allowed)"
      | d b where "d \<in> set (plist (pget pre ''candidate_decisions''))" "is_dict d"
          "candidate_decision_bbox d = Inr (Some b)" "point_inside_bbox p b"
          "candidate_target_text d \<in> set (labels_of allowed)"
      by fast
    then show "\<exists>d \<in> set (plist (pget pre ''candidate_decisions'')).
        is_dict d \<and> candidate_target_text d \<in> set (labels_of allowed)
        \<and> (py_eq (pget d ''candidate_id'') (pget pre ''selected_candidate_id'')
          \<or> (\<exists>b. candidate_decision_bbox d = Inr (Some b) \<and> point_inside_bbox p b))"
    proof cases
      case 1
      note sel = selected_decision_Some[OF s]
      show ?thesis
        by (rule bexI[OF _ sel[THEN conjunct1]])
          (intro conjI disjI1 1 sel[THEN conjunct2, THEN conjunct1] sel[THEN conjunct2, THEN conjunct2])
    next
      case 2
      show ?thesis
        by (rule bexI[OF _ 2(1)], rule conjI[OF 2(2)], rule conjI[OF 2(5)], rule disjI2,
          rule exI[of _ b], rule conjI[OF 2(3,4)])
    qed
  qed
qed

section \<open>Samples\<close>

definition sample_button :: pyval where
  "sample_button = PDict [(''text'', PStr ''Submit application''), (''role'', PStr ''button'')]"

lemma sample_guard: "is_ok (scoped_final_submit_visible_blocker [sample_button] PNone True PNone)"
  by (simp only: scoped_final_submit_visible_blocker_def in_scope.simps item_in_active_scope_def truthy.simps
      not_False_eq_True not_True_eq_False if_True if_False rbind_Inr Let_def is_ok_def sum.case)

theorem submission_guard_blocks_witness:
  "pget (projr (scoped_final_submit_visible_blocker [sample_button] PNone True PNone)) ''blocked'' = PBool True"
proof -
  obtain r where r: "scoped_final_submit_visible_blocker [sample_button] PNone True PNone = Inr r"
    using sample_guard by (auto simp: is_ok_iff)
  let ?t = "''submit application''"
  have scope: "item_in_active_scope sample_button PNone True = Inr True" by code_simp
  have "casefold (entry_text sample_button) = ?t" by code_simp
  then have stands: "stands_in ?t (casefold (entry_text sample_button))" unfolding stands_in_def by force
  have "?t \<in> set final_submit_terms" by code_simp
  moreover have "\<not> review_excuses sample_button PNone ?t"
  proof -
    have "\<not> occurs ?t ''review and submit''" by code_simp
    then show ?thesis unfolding review_excuses_def by blast
  qed
  moreover have "\<not> excused sample_button PNone" by code_simp
  moreover have "is_final_submit_action_like sample_button (entry_text sample_button)" by code_simp
  ultimately have "\<exists>e \<in> set [sample_button]. item_in_active_scope e PNone True = Inr True
     \<and> (\<exists>t \<in> set final_submit_terms. stands_in t (casefold (entry_text e)) \<and> \<not> review_excuses e PNone t)
     \<and> \<not> excused e PNone \<and> is_final_submit_action_like e (entry_text e)"
    using scope stands by (metis list.set_intros(1))
  with submission_guard_blocks[OF r] r show ?thesis by (simp only: sum.sel)
qed

definition sample_decisions :: pyval where
  "sample_decisions = PDict [(''selected_candidate_id'', PStr ''c1''), (''candidate_decisions'', PList
     [PDict [(''candidate_id'', PStr ''c1''), (''label'', PStr '' Continue ''), (''bbox'', PDict
       [(''x'', PInt 10), (''y'', PInt 10), (''w'', PInt 80), (''h'', PInt 20)])]])]"

definition sample_target :: pyval where
  "sample_target = projr (validate_action_candidate_target_at_point (PDict [(''x'', PInt 20), (''y'', PInt 15)])
     sample_decisions [''Continue''] [''Edit''] [''delete''])"

lemma sample_target_run:
  "is_ok (validate_action_candidate_target_at_point (PDict [(''x'', PInt 20), (''y'', PInt 15)])
     sample_decisions [''Continue''] [''Edit''] [''delete''])" "pget sample_target ''allowed'' = PBool True"
  by code_simp+

theorem click_target_is_allowed_witness:
  "pget sample_target ''allowed'' = PBool True
   \<and> (\<exists>p. point_of (PDict [(''x'', PInt 20), (''y'', PInt 15)]) = Inr (Some p))"
proof -
  have "validate_action_candidate_target_at_point (PDict [(''x'', PInt 20), (''y'', PInt 15)])
     sample_decisions [''Continue''] [''Edit''] [''delete''] = Inr sample_target"
    using sample_target_run(1) unfolding sample_target_def is_ok_iff by auto
  from click_target_is_allowed[OF this sample_target_run(2)] show ?thesis
    using sample_target_run(2) by blast
qed

end
