(* ===== verification/Machines.thy ===== *)
theory Machines
  imports PyPrelude
begin

text \<open>
  The interfaces of the stateful components. A component offers operations that either
  raise or return the next state; a run applies a list of them and stops at the first
  exception. What every operation keeps, every run keeps: that is proved here once and
  interpreted for each component on its own step function.
\<close>

section \<open>Machines with an invariant\<close>

locale machine =
  fixes step :: "'op \<Rightarrow> 's \<Rightarrow> 's res"
    and inv :: "'s \<Rightarrow> bool"
  assumes step_inv: "inv s \<Longrightarrow> step e s = Inr s' \<Longrightarrow> inv s'"
begin

lemma run_inv: "inv s \<Longrightarrow> fold_res step es s = Inr s' \<Longrightarrow> inv s'"
  by (rule fold_res_invariant[where P = inv]) (auto intro: step_inv)

lemma run_split_inv:
  assumes "inv s" and "fold_res step (es @ fs) s = Inr s'"
  shows "\<exists>t. fold_res step es s = Inr t \<and> inv t \<and> fold_res step fs t = Inr s'"
  using assms run_inv by (auto simp: fold_res_append rbind_eq_Inr_iff)

end

section \<open>Machines that only make progress\<close>

locale progressing_machine = machine step inv
  for step :: "'op \<Rightarrow> 's \<Rightarrow> 's res" and inv :: "'s \<Rightarrow> bool" +
  fixes reaches :: "'s \<Rightarrow> 's \<Rightarrow> bool"
  assumes reaches_refl: "inv s \<Longrightarrow> reaches s s"
    and reaches_trans: "reaches s t \<Longrightarrow> reaches t u \<Longrightarrow> reaches s u"
    and step_reaches: "inv s \<Longrightarrow> step e s = Inr s' \<Longrightarrow> reaches s s'"
begin

lemma run_reaches: "inv s \<Longrightarrow> fold_res step es s = Inr s' \<Longrightarrow> reaches s s'"
proof (induction es arbitrary: s)
  case Nil
  then show ?case by (simp add: reaches_refl)
next
  case (Cons e es)
  from Cons.prems(2) obtain t where t: "step e s = Inr t" "fold_res step es t = Inr s'"
    by (auto simp: rbind_eq_Inr_iff)
  from step_inv[OF Cons.prems(1) t(1)] Cons.IH t(2) have "reaches t s'" by blast
  with step_reaches[OF Cons.prems(1) t(1)] show ?case by (rule reaches_trans)
qed

end

section \<open>Machines whose history only grows\<close>

locale logged_machine = machine step inv
  for step :: "'op \<Rightarrow> 's \<Rightarrow> 's res" and inv :: "'s \<Rightarrow> bool" +
  fixes log :: "'s \<Rightarrow> 'l list"
  assumes step_log: "inv s \<Longrightarrow> step e s = Inr s' \<Longrightarrow> \<exists>new. log s' = log s @ new"

sublocale logged_machine \<subseteq> growing: progressing_machine step inv "\<lambda>s s'. \<exists>new. log s' = log s @ new"
  using step_log by unfold_locales auto

context logged_machine
begin

lemma run_log: "inv s \<Longrightarrow> fold_res step es s = Inr s' \<Longrightarrow> \<exists>new. log s' = log s @ new"
  by (rule growing.run_reaches)

lemma run_log_nth:
  assumes "inv s" and "fold_res step es s = Inr s'" and "i < length (log s)"
  shows "log s' ! i = log s ! i"
  using run_log[OF assms(1,2)] assms(3) by (auto simp: nth_append)

end

section \<open>Machines with final states\<close>

locale stopping_machine = machine step inv
  for step :: "'op \<Rightarrow> 's \<Rightarrow> 's res" and inv :: "'s \<Rightarrow> bool" +
  fixes stopped :: "'s \<Rightarrow> bool"
  assumes stopped_step: "inv s \<Longrightarrow> stopped s \<Longrightarrow> \<not> is_ok (step e s)"
begin

lemma stopped_run: "inv s \<Longrightarrow> stopped s \<Longrightarrow> fold_res step es s = Inr s' \<Longrightarrow> es = [] \<and> s' = s"
  using stopped_step by (cases es) (auto simp: rbind_eq_Inr_iff is_ok_iff)

lemma run_before_stop:
  assumes "inv s" and "fold_res step (es @ e # fs) s = Inr s'"
    and "fold_res step es s = Inr t"
  shows "\<not> stopped t"
proof
  assume "stopped t"
  moreover have "inv t" using assms(1,3) by (rule run_inv)
  moreover have "\<exists>u. step e t = Inr u"
    using assms(2,3) by (auto simp: fold_res_append rbind_eq_Inr_iff)
  ultimately show False using stopped_step by (auto simp: is_ok_iff)
qed

end

end
