(* ===== verification/ContinuousSession.thy ===== *)
theory ContinuousSession
  imports PyJson Machines
begin

text \<open>
  The continuous task session of \<^verbatim>\<open>app/agent/continuous_task_session.py\<close>: the dictionary that
  carries one task over observation, learning, decision, operation and verification. Each
  function of the module is one definition over the session value; it validates a copy of
  the session first and returns the changed copy or the exception. \<open>cs_step\<close> gathers the
  public operations, so that a run is a list of them.
\<close>

section \<open>Helpers\<close>

definition session_contract :: string where
  "session_contract = ''continuous_task_session_v1''"

definition final_actions :: "string list" where
  "final_actions = [''final_submit'', ''submit'', ''send'', ''complete'', ''confirm'', ''payment'']"

definition required_text :: "pyval \<Rightarrow> string \<Rightarrow> string res" where
  "required_text v field_name = (let text = strip (text_or_empty v) in
     if text = [] then Inl (ValueError (field_name @ '' is required'')) else Inr text)"

definition validated_evidence :: "pyval \<Rightarrow> pyval res" where
  "validated_evidence evidence =
     (if \<not> is_dict evidence then Inl (ValueError ''continuous task session evidence is required'')
      else rbind (required_text (pget evidence ''capture_id'') ''capture_id'') (\<lambda>capture_id.
        rbind (required_text (pget evidence ''screenshot_sha256'') ''screenshot_sha256'') (\<lambda>sha.
        rbind (required_text (pget evidence ''trace_path'') ''trace_path'') (\<lambda>trace_path.
        let validated = [(''capture_id'', PStr capture_id), (''screenshot_sha256'', PStr sha),
                         (''trace_path'', PStr trace_path)];
            screenshot_path = strip (text_or_empty (pget evidence ''screenshot_path''))
        in Inr (PDict (if screenshot_path \<noteq> []
             then dput ''screenshot_path'' (PStr screenshot_path) validated else validated))))))"

definition append_event :: "pyval \<Rightarrow> string \<Rightarrow> pyval \<Rightarrow> pyval res" where
  "append_event session event_type details =
     (let events = (if phas session ''events'' then pget session ''events'' else PList []) in
      case events of
        PList xs \<Rightarrow> Inr (pset ''events'' (PList (xs @ [PDict
            [(''sequence'', PInt (int (length xs) + 1)), (''event_type'', PStr event_type),
             (''details'', details)]])) session)
      | _ \<Rightarrow> Inl AttributeError)"

definition safe_stop :: "pyval \<Rightarrow> string \<Rightarrow> string list \<Rightarrow> pyval res" where
  "safe_stop session reason forbidden =
     (let s1 = pset ''status'' (PStr ''safe_stop'') session;
          s2 = pset ''stop_reason'' (PStr reason) s1;
          s3 = pset ''forbidden_next_actions'' (PList (map PStr forbidden)) s2
      in rbind (item s3 ''safety'') (\<lambda>safety.
           if \<not> is_dict safety then Inl TypeError
           else append_event (pset ''safety'' (pset ''final_submit_executed'' (PBool False) safety) s3)
             ''safe_stop''
             (PDict [(''reason'', PStr reason),
                     (''forbidden_next_actions'', PList (map PStr forbidden)),
                     (''final_submit_executed'', PBool False)])))"

definition invalidate_form_step_context :: "pyval \<Rightarrow> string \<Rightarrow> pyval res" where
  "invalidate_form_step_context session invalidated_by =
     (let previous = pget session ''current_form_step_context'';
          s1 = pset ''current_form_step_context'' (PDict
             [(''capture_id'', PNone), (''inventory_fingerprint'', PNone),
              (''grounding_fingerprint'', PNone), (''valid'', PBool False),
              (''invalidated_by'', PStr invalidated_by)]) session;
          s2 = pset ''current_observation_evidence'' PNone s1
      in append_event s2 ''form_step_context_invalidated'' (PDict
           [(''invalidated_by'', PStr invalidated_by),
            (''previous_capture_id'', if is_dict previous then pget previous ''capture_id'' else PNone),
            (''capture_invalidated'', PBool True), (''inventory_invalidated'', PBool True),
            (''grounding_invalidated'', PBool True)]))"

definition set_default :: "string \<Rightarrow> pyval \<Rightarrow> pyval" where
  "set_default k v = (if phas v k then v else pset k PNone v)"

definition validated_session :: "pyval \<Rightarrow> pyval res" where
  "validated_session session =
     (if \<not> is_dict session \<or> pget session ''contract_version'' \<noteq> PStr session_contract
        then Inl (ValueError ''invalid continuous task session'')
      else if pget session ''status'' = PStr ''safe_stop''
        then Inl (ValueError ''continuous task session already stopped'')
      else Inr (set_default ''pending_agent_decision'' (set_default ''current_form_step_context''
             (set_default ''current_read_state'' (set_default ''current_observation_evidence'' session)))))"

text \<open>\<^verbatim>\<open>v if isinstance(v, dict) else None\<close>, as the functions read optional records.\<close>

definition dict_or_none :: "pyval \<Rightarrow> pyval" where
  "dict_or_none v = (if is_dict v then v else PNone)"

section \<open>Creation and observation\<close>

definition create_continuous_task_session :: "pyval \<Rightarrow> pyval \<Rightarrow> pyval res" where
  "create_continuous_task_session session_id workflow_id =
     rbind (required_text session_id ''session_id'') (\<lambda>session_id.
     rbind (required_text workflow_id ''workflow_id'') (\<lambda>workflow_id.
     Inr (PDict
       [(''contract_version'', PStr session_contract),
        (''session_id'', PStr session_id),
        (''workflow_id'', PStr workflow_id),
        (''status'', PStr ''ready_for_observation''),
        (''current_interface_id'', PNone),
        (''current_surface_type'', PNone),
        (''current_memory_object_sha256'', PNone),
        (''current_observation_evidence'', PNone),
        (''current_read_state'', PNone),
        (''current_form_step_context'', PNone),
        (''pending_agent_decision'', PNone),
        (''pending_learning'', PNone),
        (''pending_apply_confirmation'', PNone),
        (''stop_reason'', PNone),
        (''forbidden_next_actions'', PList []),
        (''events'', PList []),
        (''safety'', PDict
          [(''final_submit_forbidden'', PBool True),
           (''final_submit_executed'', PBool False),
           (''historical_coordinates_forbidden'', PBool True),
           (''current_capture_required'', PBool True),
           (''gate_required'', PBool True)])])))"

text \<open>The end of \<^verbatim>\<open>observe_interface\<close>: pause for learning, or await the agent's decision.\<close>

definition observe_finish :: "pyval \<Rightarrow> bool \<Rightarrow> pyval \<Rightarrow> string \<Rightarrow> string \<Rightarrow> pyval \<Rightarrow> pyval res" where
  "observe_finish current learning_required memory_sha interface_id surface_type evidence =
     (if learning_required \<and> \<not> truthy memory_sha then
        rbind (item evidence ''capture_id'') (\<lambda>capture.
        Inr (pset ''pending_learning'' (PDict
              [(''interface_id'', PStr interface_id), (''surface_type'', PStr surface_type),
               (''source_capture_id'', capture),
               (''required_result'', PStr ''reviewed_interface_memory_publish'')])
             (pset ''status'' (PStr ''paused_for_learning'') current)))
      else Inr (pset ''pending_learning'' PNone
             (pset ''status'' (PStr ''ready_for_agent_decision'') current)))"

definition observe_destination ::
    "pyval \<Rightarrow> pyval \<Rightarrow> bool \<Rightarrow> pyval \<Rightarrow> string \<Rightarrow> string \<Rightarrow> pyval \<Rightarrow> pyval res" where
  "observe_destination current pending_decision learning_required memory_sha interface_id surface_type evidence =
     (let expected = strip (text_or_empty (pget pending_decision ''expected_target_interface_id'')) in
      if expected \<noteq> [] \<and> interface_id \<noteq> expected then
        rbind (append_event (pset ''pending_agent_decision'' PNone current)
          ''destination_observation_rejected'' (PDict
            [(''expected_interface_id'', PStr expected), (''actual_interface_id'', PStr interface_id),
             (''evidence'', evidence)])) (\<lambda>c.
        safe_stop c ''destination_interface_mismatch'' [''click'', ''scroll'', ''input'', ''final_submit''])
      else
        rbind (append_event (pset ''pending_agent_decision'' PNone current)
          ''destination_observation_verified'' (PDict
            [(''expected_interface_id'', if expected \<noteq> [] then PStr expected else PNone),
             (''actual_interface_id'', PStr interface_id), (''evidence'', evidence)])) (\<lambda>c.
        observe_finish c learning_required memory_sha interface_id surface_type evidence))"

definition observe_interface ::
    "pyval \<Rightarrow> pyval \<Rightarrow> pyval \<Rightarrow> pyval \<Rightarrow> pyval \<Rightarrow> bool \<Rightarrow> pyval \<Rightarrow> pyval res" where
  "observe_interface session interface_id surface_type memory_sha evidence learning_required knowledge_source =
     rbind (validated_session session) (\<lambda>current.
     let previous_status = pget current ''status'';
         pending_decision = dict_or_none (pget current ''pending_agent_decision'')
     in
     rbind (required_text interface_id ''interface_id'') (\<lambda>interface_id.
     rbind (required_text surface_type ''surface_type'') (\<lambda>surface_type.
     rbind (validated_evidence evidence) (\<lambda>evidence.
     let c1 = pset ''current_interface_id'' (PStr interface_id) current;
         c2 = pset ''current_surface_type'' (PStr surface_type) c1;
         c3 = pset ''current_memory_object_sha256'' memory_sha c2;
         c4 = pset ''current_observation_evidence'' evidence c3;
         c5 = pset ''current_read_state'' PNone c4;
         c6 = pset ''current_form_step_context'' PNone c5;
         c7 = pset ''pending_agent_decision'' PNone c6;
         c8 = pset ''pending_apply_confirmation'' PNone c7
     in
     rbind (required_text knowledge_source ''knowledge_source'') (\<lambda>knowledge_source.
     rbind (append_event c8 ''interface_observed'' (PDict
        [(''interface_id'', PStr interface_id), (''surface_type'', PStr surface_type),
         (''memory_available'', PBool (truthy memory_sha)),
         (''learning_required'', PBool learning_required),
         (''knowledge_source'', PStr knowledge_source), (''evidence'', evidence)])) (\<lambda>current.
     if surface_type \<in> {''external_ats'', ''external_ats_login'', ''login_required_external_ats''} then
       safe_stop current ''external_ats_not_supported''
         [''continue_next_step'', ''fill_field'', ''final_submit'']
     else if surface_type = ''final_submit_visible'' then
       safe_stop current ''final_submit_visible'' [''final_submit'', ''send'', ''complete'', ''confirm'']
     else if previous_status = PStr ''waiting_for_destination_observation'' then
       observe_destination current pending_decision learning_required memory_sha interface_id surface_type evidence
     else observe_finish current learning_required memory_sha interface_id surface_type evidence))))))"

definition refresh_current_observation :: "pyval \<Rightarrow> pyval \<Rightarrow> pyval \<Rightarrow> pyval \<Rightarrow> pyval res" where
  "refresh_current_observation session interface_id surface_type evidence =
     rbind (validated_session session) (\<lambda>current.
     if pget current ''status'' \<noteq> PStr ''ready_for_agent_decision''
       then Inl (ValueError ''continuous session is not ready for observation refresh'') else
     rbind (required_text interface_id ''interface_id'') (\<lambda>interface_id.
     if pget current ''current_interface_id'' \<noteq> PStr interface_id
       then Inl (ValueError ''observation refresh cannot change the current interface'') else
     rbind (required_text surface_type ''surface_type'') (\<lambda>surface_type.
     rbind (validated_evidence evidence) (\<lambda>evidence.
     let c1 = pset ''current_surface_type'' (PStr surface_type) current;
         c2 = pset ''current_observation_evidence'' evidence c1;
         c3 = pset ''current_form_step_context'' PNone c2;
         c4 = pset ''pending_agent_decision'' PNone c3
     in append_event c4 ''observation_refreshed'' (PDict
          [(''interface_id'', PStr interface_id), (''surface_type'', PStr surface_type),
           (''evidence'', evidence),
           (''read_state_preserved'', PBool (pget current ''current_read_state'' \<noteq> PNone))])))))"

definition resume_after_learning :: "pyval \<Rightarrow> pyval \<Rightarrow> pyval \<Rightarrow> pyval res" where
  "resume_after_learning session interface_id memory_sha =
     rbind (validated_session session) (\<lambda>current.
     if pget current ''status'' \<noteq> PStr ''paused_for_learning''
       then Inl (ValueError ''continuous session is not paused for learning'') else
     let pending = pget current ''pending_learning'' in
     if \<not> py_eq (pget pending ''interface_id'') interface_id
       then Inl (ValueError ''learned interface does not match pending learning state'') else
     rbind (required_text memory_sha ''memory_object_sha256'') (\<lambda>sha.
     let c1 = pset ''current_memory_object_sha256'' (PStr sha) current;
         c2 = pset ''pending_learning'' PNone c1;
         c3 = pset ''status'' (PStr ''ready_for_agent_decision'') c2
     in append_event c3 ''learning_completed'' (PDict
          [(''interface_id'', interface_id), (''memory_object_sha256'', memory_sha),
           (''reviewed_memory_required'', PBool True)])))"

definition bind_form_step_context :: "pyval \<Rightarrow> pyval \<Rightarrow> pyval \<Rightarrow> pyval \<Rightarrow> pyval res" where
  "bind_form_step_context session capture_id inventory_fingerprint grounding_fingerprint =
     rbind (validated_session session) (\<lambda>current.
     if pget current ''status'' \<noteq> PStr ''ready_for_agent_decision''
       then Inl (ValueError ''continuous session is not ready for form step binding'') else
     let observed = pget current ''current_observation_evidence'' in
     rbind (required_text capture_id ''capture_id'') (\<lambda>capture_id.
     if \<not> is_dict observed \<or> pget observed ''capture_id'' \<noteq> PStr capture_id
       then Inl (ValueError ''form step context does not use the current capture'') else
     rbind (required_text inventory_fingerprint ''inventory_fingerprint'') (\<lambda>inventory.
     rbind (required_text grounding_fingerprint ''grounding_fingerprint'') (\<lambda>grounding.
     let c1 = pset ''current_form_step_context'' (PDict
           [(''capture_id'', PStr capture_id), (''inventory_fingerprint'', PStr inventory),
            (''grounding_fingerprint'', PStr grounding), (''valid'', PBool True),
            (''invalidated_by'', PNone)]) current
     in append_event c1 ''form_step_context_bound'' (PDict
          [(''capture_id'', PStr capture_id), (''inventory_fingerprint'', PStr inventory),
           (''grounding_fingerprint'', PStr grounding),
           (''artifact_is_authorization'', PBool False)])))))"

section \<open>Decisions\<close>

definition form_actions :: "string list" where
  "form_actions = [''fill_field'', ''select_option'', ''upload_file'', ''continue_next_step'']"

definition record_form_workflow_turn :: "pyval \<Rightarrow> pyval \<Rightarrow> pyval res" where
  "record_form_workflow_turn session decision =
     rbind (validated_session session) (\<lambda>current.
     if pget current ''status'' \<noteq> PStr ''ready_for_agent_decision''
       then Inl (ValueError ''continuous session is not ready for a form workflow turn'') else
     if \<not> is_dict decision \<or> pget decision ''contract_version'' \<noteq> PStr ''form_workflow_turn_decision_v1''
       then Inl (ValueError ''invalid form workflow turn decision'') else
     rbind (required_text (py_or (pget decision ''action_type'') (pget decision ''semantic_action''))
              ''action_type'') (\<lambda>action_text.
     let action_type = casefold action_text in
     if action_type \<in> set final_actions then Inl (ValueError ''final submit action is forbidden'') else
     let observed = pget current ''current_observation_evidence'';
         context = pget current ''current_form_step_context''
     in
     rbind (required_text (pget decision ''capture_id'') ''capture_id'') (\<lambda>capture_id.
     if \<not> is_dict observed \<or> pget observed ''capture_id'' \<noteq> PStr capture_id
        \<or> \<not> is_dict context \<or> pget context ''valid'' \<noteq> PBool True
        \<or> pget context ''capture_id'' \<noteq> PStr capture_id
       then Inl (ValueError ''form workflow turn does not use current bound evidence'') else
     if action_type = ''safe_stop'' then
       safe_stop current (py_str (py_or (pget decision ''reason'') (PStr ''form_workflow_safe_stop'')))
         [''click'', ''input'', ''continue_next_step'', ''final_submit'']
     else if action_type = ''request_user_review'' then
       append_event (pset ''pending_agent_decision'' PNone
           (pset ''status'' (PStr ''needs_human_review'') current))
         ''form_user_review_requested'' (PDict
           [(''question_id'', pget decision ''question_id''), (''reason'', pget decision ''reason''),
            (''action_executed'', PBool False)])
     else if action_type \<notin> set form_actions then
       Inl (ValueError ''unsupported form workflow action'')
     else if \<not> py_eq (pget decision ''operation_count'') (PInt 1) \<or> \<not> is_dict (pget decision ''operation'')
       then Inl (ValueError ''form workflow turn must contain exactly one operation'')
     else append_event (pset ''status'' (PStr ''ready_for_operation'')
           (pset ''pending_agent_decision'' decision current))
         ''form_workflow_turn_recorded'' (PDict
           [(''action_type'', PStr action_type), (''question_id'', pget decision ''question_id''),
            (''capture_id'', PStr capture_id), (''artifact_is_authorization'', PBool False),
            (''current_capture_required'', PBool True), (''gate_required'', PBool True)]))))"

text \<open>\<^verbatim>\<open>read_state\<close> of a \<^verbatim>\<open>stop_reading\<close> decision: \<^verbatim>\<open>deepcopy(current.get(...) or {})\<close>, updated.\<close>

definition stop_reading_state :: "pyval \<Rightarrow> pyval res" where
  "stop_reading_state old = (let v = py_or old (PDict []) in
     if is_dict v then Inr (pset ''completion'' (PStr ''bounded_stop'')
                              (pset ''status'' (PStr ''reading_stopped'') v))
     else Inl TypeError)"

definition record_agent_decision :: "pyval \<Rightarrow> pyval \<Rightarrow> pyval res" where
  "record_agent_decision session decision_plan =
     rbind (validated_session session) (\<lambda>current.
     if pget current ''status'' \<noteq> PStr ''ready_for_agent_decision''
       then Inl (ValueError ''continuous session is not ready for an Agent decision'') else
     if \<not> is_dict decision_plan
        \<or> pget decision_plan ''contract_version'' \<noteq> PStr ''navigation_reading_decision_plan_v1''
       then Inl (ValueError ''invalid navigation reading decision plan'') else
     rbind (required_text (pget decision_plan ''interface_id'') ''interface_id'') (\<lambda>interface_id.
     if pget current ''current_interface_id'' \<noteq> PStr interface_id
       then Inl (ValueError ''Agent decision interface does not match current interface'') else
     rbind (required_text (pget decision_plan ''semantic_action'') ''semantic_action'') (\<lambda>action_text.
     let semantic_action = casefold action_text in
     if semantic_action \<in> set final_actions then Inl (ValueError ''final submit action is forbidden'') else
     rbind (validated_evidence (pget decision_plan ''freshness'')) (\<lambda>freshness.
     let observed = pget current ''current_observation_evidence'' in
     if \<not> is_dict observed \<or> \<not> py_eq (pget freshness ''capture_id'') (pget observed ''capture_id'')
       then Inl (ValueError ''Agent decision does not use the current capture'') else
     if semantic_action = ''safe_stop'' then
       safe_stop current (py_str (py_or (pget decision_plan ''choice_id'') (PStr ''agent_requested_safe_stop'')))
         [''click'', ''scroll'', ''input'', ''final_submit'']
     else if semantic_action = ''stop_reading'' then
       rbind (stop_reading_state (pget current ''current_read_state'')) (\<lambda>read_state.
       append_event (pset ''pending_agent_decision'' PNone
           (pset ''status'' (PStr ''ready_for_agent_decision'')
             (pset ''current_read_state'' read_state current)))
         ''reading_stopped'' (PDict
           [(''decision_plan'', decision_plan), (''task_continues'', PBool True),
            (''final_submit_executed'', PBool False)]))
     else append_event (pset ''status'' (PStr ''ready_for_operation'')
           (pset ''pending_agent_decision'' decision_plan current))
         ''agent_decision_recorded'' (PDict
           [(''decision_plan'', decision_plan), (''artifact_is_authorization'', PBool False),
            (''current_capture_required'', PBool True), (''gate_required'', PBool True)])))))"

definition request_apply_entry_confirmation :: "pyval \<Rightarrow> pyval \<Rightarrow> pyval \<Rightarrow> pyval res" where
  "request_apply_entry_confirmation session job_id job_title =
     rbind (validated_session session) (\<lambda>current.
     if pget current ''status'' \<noteq> PStr ''ready_for_agent_decision''
       then Inl (ValueError ''continuous session is not ready for apply entry confirmation'') else
     rbind (required_text job_id ''job_id'') (\<lambda>job_id.
     rbind (required_text job_title ''job_title'') (\<lambda>job_title.
     let pending = PDict [(''job_id'', PStr job_id), (''job_title'', PStr job_title),
                          (''action_type'', PStr ''open_apply_flow'')]
     in append_event (pset ''pending_apply_confirmation'' pending
          (pset ''status'' (PStr ''awaiting_apply_entry_confirmation'') current))
        ''apply_entry_confirmation_requested'' pending)))"

definition confirm_apply_entry :: "pyval \<Rightarrow> bool \<Rightarrow> pyval res" where
  "confirm_apply_entry session approved =
     rbind (validated_session session) (\<lambda>current.
     if pget current ''status'' \<noteq> PStr ''awaiting_apply_entry_confirmation''
       then Inl (ValueError ''continuous session is not awaiting apply entry confirmation'') else
     let pending = pget current ''pending_apply_confirmation'' in
     rbind (append_event (pset ''pending_apply_confirmation'' PNone current)
        ''apply_entry_confirmation_recorded'' (PDict
          [(''approved'', PBool approved), (''job'', pending)])) (\<lambda>c.
     if \<not> approved then
       safe_stop c ''apply_entry_not_approved'' [''open_apply_flow'', ''fill_field'', ''final_submit'']
     else Inr (pset ''status'' (PStr ''ready_for_agent_decision'') c)))"

section \<open>Results of operations\<close>

definition record_gate_rejection :: "pyval \<Rightarrow> pyval \<Rightarrow> pyval \<Rightarrow> pyval res" where
  "record_gate_rejection session reason evidence =
     rbind (validated_session session) (\<lambda>current.
     if pget current ''status'' \<noteq> PStr ''ready_for_operation''
       then Inl (ValueError ''continuous session is not awaiting an Operation'') else
     let pending = dict_or_none (pget current ''pending_agent_decision'') in
     if pending = PNone then Inl (ValueError ''Gate rejection requires a pending Agent decision'') else
     rbind (required_text reason ''gate rejection reason'') (\<lambda>reason.
     rbind (validated_evidence evidence) (\<lambda>evidence.
     rbind (append_event (pset ''pending_agent_decision'' PNone current) ''gate_rejected'' (PDict
        [(''reason'', PStr reason), (''semantic_action'', pget pending ''semantic_action''),
         (''evidence'', evidence), (''action_executed'', PBool False)])) (\<lambda>c.
     safe_stop c ''gate_rejected'' [''click'', ''scroll'', ''input'', ''final_submit'']))))"

definition record_action_result ::
    "pyval \<Rightarrow> pyval \<Rightarrow> bool \<Rightarrow> bool \<Rightarrow> pyval \<Rightarrow> pyval \<Rightarrow> pyval res" where
  "record_action_result session action_type action_executed post_action_verified evidence transition_audit =
     rbind (validated_session session) (\<lambda>current.
     rbind (required_text action_type ''action_type'') (\<lambda>action_text.
     let action_type = casefold action_text in
     if action_type \<in> set final_actions then Inl (ValueError ''final submit action is forbidden'') else
     let pending = dict_or_none (pget current ''pending_agent_decision'');
         is_form_turn = (is_dict pending
            \<and> pget pending ''contract_version'' = PStr ''form_workflow_turn_decision_v1'')
     in
     if truthy pending \<and> casefold (text_or_empty (pget pending ''semantic_action'')) \<noteq> action_type
       then Inl (ValueError ''action result does not match pending Agent decision'') else
     rbind (validated_evidence evidence) (\<lambda>evidence.
     if \<not> action_executed \<or> \<not> post_action_verified then
       rbind (append_event (pset ''status'' (PStr ''needs_human_review'') current)
         ''action_not_verified'' (PDict
           [(''action_type'', PStr action_type), (''action_executed'', PBool action_executed),
            (''post_action_verified'', PBool post_action_verified), (''evidence'', evidence),
            (''transition_audit'', py_or transition_audit (PDict []))])) (\<lambda>c.
       if is_form_turn then invalidate_form_step_context c ''verification_failed'' else Inr c)
     else
       rbind (append_event (pset ''status'' (PStr ''waiting_for_destination_observation'') current)
         ''action_verified'' (PDict
           [(''action_type'', PStr action_type), (''action_executed'', PBool True),
            (''post_action_verified'', PBool True),
            (''verification_scope'', PStr ''action_effect_only''),
            (''destination_observation_required'', PBool True), (''evidence'', evidence),
            (''transition_audit'', py_or transition_audit (PDict []))])) (\<lambda>c.
       if is_form_turn then invalidate_form_step_context c action_type else Inr c))))"

definition read_result_state :: "pyval \<Rightarrow> string \<Rightarrow> pyval \<Rightarrow> pyval res" where
  "read_result_state read_report stop_reason evidence =
     (let reached_bottom = (pget read_report ''reached_bottom'' = PBool True
            \<or> stop_reason = ''reached_bottom'') in
      rbind (py_int (py_or (pget read_report ''unique_line_count'') (PInt 0))) (\<lambda>n.
      Inr (PDict
        [(''status'', PStr stop_reason),
         (''completion'', PStr (if reached_bottom then ''complete''
            else py_str (py_or (pget read_report ''completion_status'') (PStr ''incomplete'')))),
         (''reached_bottom'', PBool reached_bottom),
         (''unique_line_count'', PInt n),
         (''evidence'', evidence)])))"

definition record_read_result ::
    "pyval \<Rightarrow> pyval \<Rightarrow> bool \<Rightarrow> bool \<Rightarrow> pyval \<Rightarrow> pyval \<Rightarrow> pyval res" where
  "record_read_result session action_type action_dispatched effect_verified read_report evidence =
     rbind (validated_session session) (\<lambda>current.
     rbind (required_text action_type ''action_type'') (\<lambda>action_text.
     let action_type = casefold action_text in
     if action_type \<notin> {''read'', ''scroll''}
       then Inl (ValueError ''read result action_type must be read or scroll'') else
     if \<not> is_dict read_report \<or> pget read_report ''contract_version'' \<noteq> PStr ''read_region_batch_v1''
       then Inl (ValueError ''read_region_batch_v1 report is required'') else
     rbind (validated_evidence evidence) (\<lambda>evidence.
     let stop_reason = py_str (py_or (pget read_report ''stop_reason'') (PStr ''unknown''));
         wrong_scope = (pget read_report ''wrong_scope_detected'' = PBool True
            \<or> stop_reason = ''wrong_scope_detected'')
     in
     if wrong_scope then
       rbind (py_int (py_or (pget read_report ''unique_line_count'') (PInt 0))) (\<lambda>n.
       safe_stop (pset ''current_read_state'' (PDict
           [(''status'', PStr ''wrong_scope_detected''), (''completion'', PStr ''blocked''),
            (''unique_line_count'', PInt n), (''evidence'', evidence)])
           (pset ''pending_agent_decision'' PNone current))
         ''wrong_scope_detected'' [''scroll'', ''click'', ''input'', ''final_submit''])
     else if \<not> action_dispatched \<or> \<not> effect_verified then
       append_event (pset ''pending_agent_decision'' PNone
           (pset ''status'' (PStr ''needs_human_review'') current))
         ''read_effect_not_verified'' (PDict
           [(''action_type'', PStr action_type), (''action_dispatched'', PBool action_dispatched),
            (''effect_verified'', PBool effect_verified), (''read_report'', read_report),
            (''evidence'', evidence)])
     else
       rbind (read_result_state read_report stop_reason evidence) (\<lambda>read_state.
       append_event (pset ''status'' (PStr ''ready_for_agent_decision'')
           (pset ''pending_agent_decision'' PNone
             (pset ''current_read_state'' read_state current)))
         ''read_effect_verified'' (PDict
           [(''action_type'', PStr action_type), (''action_dispatched'', PBool True),
            (''effect_verified'', PBool True), (''read_state'', read_state)])))))"

section \<open>The session as a machine\<close>

datatype cs_op =
    ObserveInterface pyval pyval pyval pyval bool pyval
  | RefreshObservation pyval pyval pyval
  | ResumeAfterLearning pyval pyval
  | BindFormStep pyval pyval pyval
  | FormTurn pyval
  | AgentDecision pyval
  | RequestApply pyval pyval
  | ConfirmApply bool
  | GateRejection pyval pyval
  | ActionResult pyval bool bool pyval pyval
  | ReadResult pyval bool bool pyval pyval

fun cs_step :: "cs_op \<Rightarrow> pyval \<Rightarrow> pyval res" where
  "cs_step (ObserveInterface i t m e l k) s = observe_interface s i t m e l k"
| "cs_step (RefreshObservation i t e) s = refresh_current_observation s i t e"
| "cs_step (ResumeAfterLearning i m) s = resume_after_learning s i m"
| "cs_step (BindFormStep c iv g) s = bind_form_step_context s c iv g"
| "cs_step (FormTurn d) s = record_form_workflow_turn s d"
| "cs_step (AgentDecision d) s = record_agent_decision s d"
| "cs_step (RequestApply i t) s = request_apply_entry_confirmation s i t"
| "cs_step (ConfirmApply a) s = confirm_apply_entry s a"
| "cs_step (GateRejection r e) s = record_gate_rejection s r e"
| "cs_step (ActionResult a x v e t) s = record_action_result s a x v e t"
| "cs_step (ReadResult a x v r e) s = record_read_result s a x v r e"

definition cs_run :: "cs_op list \<Rightarrow> pyval \<Rightarrow> pyval res" where
  "cs_run = fold_res cs_step"

section \<open>The session invariant\<close>

definition cs_events :: "pyval \<Rightarrow> pyval list" where
  "cs_events s = plist (pget s ''events'')"

text \<open>Event \<open>i\<close> carries the sequence number \<open>i + 1\<close>.\<close>

definition numbered :: "pyval list \<Rightarrow> bool" where
  "numbered xs = list_all (\<lambda>i. pget (xs ! i) ''sequence'' = PInt (int i + 1)) [0..<length xs]"

definition cs_ok :: "pyval \<Rightarrow> bool" where
  "cs_ok s = (is_dict s \<and> pget s ''contract_version'' = PStr session_contract
     \<and> is_list (pget s ''events'') \<and> numbered (cs_events s)
     \<and> is_dict (pget s ''safety'')
     \<and> pget (pget s ''safety'') ''final_submit_executed'' = PBool False
     \<and> pget (pget s ''safety'') ''final_submit_forbidden'' = PBool True)"

text \<open>
  A decision that may go on to the operation: its action is not a final one, and the capture
  it was made on is the one the session observed last.
\<close>

definition decision_action :: "pyval \<Rightarrow> pyval" where
  "decision_action d = (if pget d ''contract_version'' = PStr ''form_workflow_turn_decision_v1''
     then py_or (pget d ''action_type'') (pget d ''semantic_action'') else pget d ''semantic_action'')"

definition decision_capture :: "pyval \<Rightarrow> pyval" where
  "decision_capture d = (if pget d ''contract_version'' = PStr ''form_workflow_turn_decision_v1''
     then pget d ''capture_id'' else pget (pget d ''freshness'') ''capture_id'')"

definition decision_bound :: "pyval \<Rightarrow> bool" where
  "decision_bound s = (let d = pget s ''pending_agent_decision''; obs = pget s ''current_observation_evidence'' in
     is_dict d \<and> is_dict obs
     \<and> casefold (strip (text_or_empty (decision_action d))) \<notin> set final_actions
     \<and> strip (text_or_empty (decision_capture d)) \<noteq> []
     \<and> pget obs ''capture_id'' = PStr (strip (text_or_empty (decision_capture d))))"

definition cs_inv :: "pyval \<Rightarrow> bool" where
  "cs_inv s = (cs_ok s \<and> (pget s ''status'' = PStr ''ready_for_operation'' \<longrightarrow> decision_bound s))"

text \<open>What an operation may do to the session: keep it well formed and extend its events.\<close>

definition cs_grows :: "pyval \<Rightarrow> pyval \<Rightarrow> bool" where
  "cs_grows s s' = (cs_ok s' \<and> (\<exists>new. cs_events s' = cs_events s @ new))"

lemma numbered_snoc: "numbered xs \<Longrightarrow> pget x ''sequence'' = PInt (int (length xs) + 1) \<Longrightarrow> numbered (xs @ [x])"
  by (auto simp: numbered_def list_all_iff nth_append)

lemma numbered_nth: "numbered xs \<Longrightarrow> i < length xs \<Longrightarrow> pget (xs ! i) ''sequence'' = PInt (int i + 1)"
  by (simp add: numbered_def list_all_iff)

lemma phas_of_pget: "pget s k \<noteq> PNone \<Longrightarrow> phas s k"
  using not_phas_pget by blast

lemma cs_ok_is_dict [simp]: "cs_ok s \<Longrightarrow> is_dict s"
  by (simp add: cs_ok_def)

lemma cs_grows_is_dict [simp]: "cs_grows s0 s \<Longrightarrow> is_dict s"
  by (simp add: cs_grows_def)

lemma cs_grows_refl: "cs_ok s \<Longrightarrow> cs_grows s s"
  by (simp add: cs_grows_def)

lemma cs_events_pset [simp]: "is_dict s \<Longrightarrow> k \<noteq> ''events'' \<Longrightarrow> cs_events (pset k x s) = cs_events s"
  by (simp add: cs_events_def)

lemma cs_events_set [simp]: "is_dict s \<Longrightarrow> cs_events (pset ''events'' (PList xs) s) = xs"
  by (simp add: cs_events_def)

lemma cs_ok_pset:
  assumes "cs_ok s" and "k \<noteq> ''contract_version''" and "k \<noteq> ''safety''" and "k \<noteq> ''events''"
  shows "cs_ok (pset k x s)"
proof -
  have "pget (pset k x s) ''safety'' = pget s ''safety''" "cs_events (pset k x s) = cs_events s"
    using assms by simp_all
  with assms show ?thesis unfolding cs_ok_def by simp
qed

lemma cs_ok_set_events: "cs_ok s \<Longrightarrow> numbered xs \<Longrightarrow> cs_ok (pset ''events'' (PList xs) s)"
  unfolding cs_ok_def by simp

lemma cs_ok_set_unexecuted:
  assumes "cs_ok s"
  shows "cs_ok (pset ''safety'' (pset ''final_submit_executed'' (PBool False) (pget s ''safety'')) s)"
proof -
  let ?t = "pset ''safety'' (pset ''final_submit_executed'' (PBool False) (pget s ''safety'')) s"
  have "pget ?t ''safety'' = pset ''final_submit_executed'' (PBool False) (pget s ''safety'')"
    and "cs_events ?t = cs_events s"
    using assms by simp_all
  with assms show ?thesis unfolding cs_ok_def by simp
qed

lemma cs_grows_pset [simp]:
  assumes "cs_grows s0 s" and "k \<noteq> ''contract_version''" and "k \<noteq> ''safety''" and "k \<noteq> ''events''"
  shows "cs_grows s0 (pset k x s)"
  using assms by (simp add: cs_grows_def cs_ok_pset)

lemma append_event_eq:
  assumes "cs_ok s"
  shows "append_event s t d = Inr (pset ''events'' (PList (cs_events s @ [PDict
      [(''sequence'', PInt (int (length (cs_events s)) + 1)), (''event_type'', PStr t), (''details'', d)]])) s)"
proof -
  from assms obtain xs where xs: "pget s ''events'' = PList xs"
    by (auto simp: cs_ok_def is_type_iff)
  then have "phas s ''events''" by (simp add: phas_of_pget)
  with xs show ?thesis by (simp add: append_event_def cs_events_def)
qed

lemma append_event_grows:
  assumes g: "cs_grows s0 s" and r: "append_event s t d = Inr s'"
  shows "cs_grows s0 s'" and "k \<noteq> ''events'' \<Longrightarrow> pget s' k = pget s k"
proof -
  let ?x = "PDict [(''sequence'', PInt (int (length (cs_events s)) + 1)), (''event_type'', PStr t), (''details'', d)]"
  from g have ok: "cs_ok s" and ev: "\<exists>new. cs_events s = cs_events s0 @ new" by (simp_all add: cs_grows_def)
  from r have s': "s' = pset ''events'' (PList (cs_events s @ [?x])) s"
    unfolding append_event_eq[OF ok] by (rule sum.inject(2)[THEN iffD1, symmetric])
  have "numbered (cs_events s)" using ok unfolding cs_ok_def by blast
  then have "numbered (cs_events s @ [?x])" by (rule numbered_snoc) (simp add: dict_get_def)
  with ok ev show "cs_grows s0 s'" by (auto simp: cs_grows_def cs_ok_set_events s')
  show "k \<noteq> ''events'' \<Longrightarrow> pget s' k = pget s k" using ok by (simp add: s')
qed

lemma ens_append_event:
  assumes "cs_grows s0 s"
    and "\<And>s'. cs_grows s0 s' \<Longrightarrow> (\<And>k. k \<noteq> ''events'' \<Longrightarrow> pget s' k = pget s k) \<Longrightarrow> P s'"
  shows "ens P (append_event s t d)"
  using assms append_event_grows by (blast intro: ensI)

lemma ens_safe_stop:
  assumes g: "cs_grows s0 s"
    and P: "\<And>s'. cs_grows s0 s' \<Longrightarrow> pget s' ''status'' = PStr ''safe_stop'' \<Longrightarrow>
        (\<And>k. k \<notin> {''events'', ''status'', ''stop_reason'', ''forbidden_next_actions'', ''safety''} \<Longrightarrow>
           pget s' k = pget s k) \<Longrightarrow> P s'"
  shows "ens P (safe_stop s r f)"
proof -
  from g have "is_dict (pget s ''safety'')" "is_dict s" "cs_ok s"
    unfolding cs_grows_def cs_ok_def by blast+
  then have phas: "phas s ''safety''"
    by (intro phas_of_pget) auto
  define s3 where "s3 = pset ''forbidden_next_actions'' (PList (map PStr f)) (pset ''stop_reason'' (PStr r)
      (pset ''status'' (PStr ''safe_stop'') s))"
  define s4 where "s4 = pset ''safety'' (pset ''final_submit_executed'' (PBool False) (pget s3 ''safety'')) s3"
  have s3: "is_dict s3" "pget s3 ''safety'' = pget s ''safety''" "phas s3 ''safety''"
    using \<open>is_dict s\<close> phas by (simp_all add: s3_def)
  have "cs_grows s0 s3" using g by (simp add: s3_def)
  then have g4: "cs_grows s0 s4"
    by (simp add: s4_def cs_grows_def cs_ok_set_unexecuted)
  have "safe_stop s r f = append_event s4 ''safe_stop''
     (PDict [(''reason'', PStr r), (''forbidden_next_actions'', PList (map PStr f)),
        (''final_submit_executed'', PBool False)])"
    using \<open>is_dict (pget s ''safety'')\<close> s3
    by (simp add: safe_stop_def Let_def s4_def item_phas flip: s3_def)
  moreover have "ens P (append_event s4 t d)" for t d
  proof (rule ens_append_event[OF g4])
    fix s' assume s': "cs_grows s0 s'" "\<And>k. k \<noteq> ''events'' \<Longrightarrow> pget s' k = pget s4 k"
    have "pget s4 k = pget s3 k" if "k \<noteq> ''safety''" for k
      using that s3 by (simp add: s4_def)
    moreover have "pget s3 ''status'' = PStr ''safe_stop''"
      using \<open>is_dict s\<close> by (simp add: s3_def)
    moreover have "pget s3 k = pget s k"
      if "k \<notin> {''status'', ''stop_reason'', ''forbidden_next_actions''}" for k
      using that \<open>is_dict s\<close> by (simp add: s3_def)
    ultimately show "P s'" using s' by (intro P) simp_all
  qed
  ultimately show ?thesis by simp
qed

lemma set_default_grows [simp]:
  "cs_grows s0 s \<Longrightarrow> k \<noteq> ''contract_version'' \<Longrightarrow> k \<noteq> ''safety'' \<Longrightarrow> k \<noteq> ''events'' \<Longrightarrow> cs_grows s0 (set_default k s)"
  by (simp add: set_default_def)

lemma pget_set_default [simp]: "pget (set_default k s) k' = pget s k'"
  by (cases "is_dict s") (auto simp: set_default_def not_phas_pget)

lemma ens_validated_session:
  assumes "cs_ok s"
    and "\<And>c. cs_grows s c \<Longrightarrow> (\<And>k. pget c k = pget s k) \<Longrightarrow> pget s ''status'' \<noteq> PStr ''safe_stop'' \<Longrightarrow> P c"
  shows "ens P (validated_session s)"
  using assms by (auto simp: validated_session_def cs_grows_refl)

lemma cs_inv_not_ready: "cs_grows s s' \<Longrightarrow> pget s' ''status'' \<noteq> PStr ''ready_for_operation'' \<Longrightarrow> cs_inv s'"
  by (simp add: cs_inv_def cs_grows_def)


lemma ens_required_text [simp]:
  "ens P (required_text v f) = (strip (text_or_empty v) \<noteq> [] \<longrightarrow> P (strip (text_or_empty v)))"
  by (simp add: required_text_def Let_def)

lemma ens_validated_evidence:
  assumes "\<And>e. is_dict e \<Longrightarrow> strip (text_or_empty (pget v ''capture_id'')) \<noteq> [] \<Longrightarrow>
      pget e ''capture_id'' = PStr (strip (text_or_empty (pget v ''capture_id''))) \<Longrightarrow> P e"
  shows "ens P (validated_evidence v)"
proof -
  let ?c = "strip (text_or_empty (pget v ''capture_id''))"
  have "P (PDict (if p then dput ''screenshot_path'' x d else d))"
    if "?c \<noteq> []" "d = [(''capture_id'', PStr ?c), (''screenshot_sha256'', y), (''trace_path'', z)]" for p x y z d
    using that by (intro assms) (simp_all add: dict_get_def)
  then show ?thesis
    unfolding validated_evidence_def by (simp add: Let_def)
qed

definition cs_next :: "pyval \<Rightarrow> pyval \<Rightarrow> bool" where
  "cs_next s s' = (cs_grows s s' \<and> (pget s' ''status'' = PStr ''ready_for_operation'' \<longrightarrow> decision_bound s'))"

lemmas ens_session = ens_append_event ens_safe_stop ens_validated_session ens_validated_evidence

lemma cs_next_quiet: "cs_grows s s' \<Longrightarrow> pget s' ''status'' = PStr t \<Longrightarrow> t \<noteq> ''ready_for_operation'' \<Longrightarrow> cs_next s s'"
  by (simp add: cs_next_def)

lemma refresh_next: "cs_ok s \<Longrightarrow> ens (cs_next s) (refresh_current_observation s i t e)"
  unfolding refresh_current_observation_def Let_def
  by (auto intro!: ens_session cs_next_quiet)

lemma resume_next: "cs_ok s \<Longrightarrow> ens (cs_next s) (resume_after_learning s i m)"
  unfolding resume_after_learning_def Let_def
  by (auto intro!: ens_session cs_next_quiet)

lemma bind_next: "cs_ok s \<Longrightarrow> ens (cs_next s) (bind_form_step_context s c iv g)"
  unfolding bind_form_step_context_def Let_def
  by (auto intro!: ens_session cs_next_quiet)

lemma request_next: "cs_ok s \<Longrightarrow> ens (cs_next s) (request_apply_entry_confirmation s i t)"
  unfolding request_apply_entry_confirmation_def Let_def
  by (auto intro!: ens_session cs_next_quiet)

lemma confirm_next: "cs_ok s \<Longrightarrow> ens (cs_next s) (confirm_apply_entry s a)"
  unfolding confirm_apply_entry_def Let_def
  by (auto intro!: ens_session cs_next_quiet)

lemma gate_next: "cs_ok s \<Longrightarrow> ens (cs_next s) (record_gate_rejection s r e)"
  unfolding record_gate_rejection_def Let_def
  by (auto intro!: ens_session cs_next_quiet)

lemma ens_any: "(\<And>x. P x) \<Longrightarrow> ens P r"
  by (simp add: ens_def)

lemma finish_next: "cs_grows s c \<Longrightarrow> ens (cs_next s) (observe_finish c l m i t e)"
  unfolding observe_finish_def
  by (auto intro!: ens_any cs_next_quiet)

lemma destination_next: "cs_grows s c \<Longrightarrow> ens (cs_next s) (observe_destination c d l m i t e)"
  unfolding observe_destination_def Let_def
  by (auto intro!: ens_session cs_next_quiet finish_next)

lemma observe_next: "cs_ok s \<Longrightarrow> ens (cs_next s) (observe_interface s i t m e l k)"
  unfolding observe_interface_def Let_def
  by (auto intro!: ens_session cs_next_quiet finish_next destination_next)

lemma invalidate_next:
  "cs_grows s c \<Longrightarrow> pget c ''status'' = PStr t \<Longrightarrow> t \<noteq> ''ready_for_operation'' \<Longrightarrow>
     ens (cs_next s) (invalidate_form_step_context c r)"
  unfolding invalidate_form_step_context_def Let_def
  by (auto intro!: ens_session cs_next_quiet)

lemma action_next: "cs_ok s \<Longrightarrow> ens (cs_next s) (record_action_result s a x v e t)"
  unfolding record_action_result_def Let_def
  by (auto intro!: ens_session invalidate_next cs_next_quiet)

lemma read_next: "cs_ok s \<Longrightarrow> ens (cs_next s) (record_read_result s a x v r e)"
  unfolding record_read_result_def read_result_state_def Let_def
  by (auto intro!: ens_session ens_any[where r = "py_int _"] cs_next_quiet)

lemma stop_reading_any: "(\<And>x. P x) \<Longrightarrow> ens P (stop_reading_state v)"
  by (rule ens_any)

lemma cs_next_ready:
  "cs_grows s s' \<Longrightarrow> pget s' ''status'' = PStr t \<Longrightarrow>
     (t = ''ready_for_operation'' \<Longrightarrow> decision_bound s') \<Longrightarrow> cs_next s s'"
  by (auto simp: cs_next_def)

lemma decision_bound_form:
  assumes "pget s ''pending_agent_decision'' = d" and "pget s ''current_observation_evidence'' = obs"
    and "is_dict d" and "is_dict obs"
    and "pget d ''contract_version'' = PStr ''form_workflow_turn_decision_v1''"
    and "casefold (strip (text_or_empty (py_or (pget d ''action_type'') (pget d ''semantic_action''))))
           \<notin> set final_actions"
    and "strip (text_or_empty (pget d ''capture_id'')) \<noteq> []"
    and "pget obs ''capture_id'' = PStr (strip (text_or_empty (pget d ''capture_id'')))"
  shows "decision_bound s"
  using assms unfolding decision_bound_def decision_action_def decision_capture_def Let_def by simp

lemma decision_bound_plan:
  assumes "pget s ''pending_agent_decision'' = d" and "pget s ''current_observation_evidence'' = obs"
    and "is_dict d" and "is_dict obs"
    and "pget d ''contract_version'' = PStr ''navigation_reading_decision_plan_v1''"
    and "casefold (strip (text_or_empty (pget d ''semantic_action''))) \<notin> set final_actions"
    and "strip (text_or_empty (pget (pget d ''freshness'') ''capture_id'')) \<noteq> []"
    and "pget obs ''capture_id'' = PStr (strip (text_or_empty (pget (pget d ''freshness'') ''capture_id'')))"
  shows "decision_bound s"
  using assms unfolding decision_bound_def decision_action_def decision_capture_def Let_def by simp

lemma form_next: "cs_ok s \<Longrightarrow> ens (cs_next s) (record_form_workflow_turn s d)"
  unfolding record_form_workflow_turn_def Let_def
  by (auto intro!: ens_session cs_next_ready
      intro: decision_bound_form[where d = d and obs = "pget s ''current_observation_evidence''"])

lemma decision_next: "cs_ok s \<Longrightarrow> ens (cs_next s) (record_agent_decision s d)"
  unfolding record_agent_decision_def Let_def
  by (auto intro!: ens_session stop_reading_any cs_next_ready
      intro: decision_bound_plan[where d = d and obs = "pget s ''current_observation_evidence''"])

lemmas cs_op_next = observe_next refresh_next resume_next bind_next form_next decision_next
  request_next confirm_next gate_next action_next read_next

lemma cs_step_next: "cs_ok s \<Longrightarrow> cs_step e s = Inr s' \<Longrightarrow> cs_next s s'"
  by (cases e) (auto dest: cs_op_next[THEN ensD])

lemma cs_step_stopped:
  assumes "cs_ok s" and "pget s ''status'' = PStr ''safe_stop''"
  shows "cs_step e s = Inl (ValueError ''continuous task session already stopped'')"
proof -
  have "validated_session s = Inl (ValueError ''continuous task session already stopped'')"
    using assms unfolding validated_session_def cs_ok_def by simp
  then show ?thesis
    by (cases e) (simp_all add: observe_interface_def refresh_current_observation_def
        resume_after_learning_def bind_form_step_context_def record_form_workflow_turn_def
        record_agent_decision_def request_apply_entry_confirmation_def confirm_apply_entry_def
        record_gate_rejection_def record_action_result_def record_read_result_def)
qed

lemma created_ok:
  assumes "create_continuous_task_session i w = Inr s"
  shows "cs_inv s" and "cs_events s = []" and "pget s ''status'' = PStr ''ready_for_observation''"
proof -
  from assms have s: "is_dict s" "pget s ''contract_version'' = PStr session_contract"
    "pget s ''events'' = PList []" "pget s ''status'' = PStr ''ready_for_observation''"
    "is_dict (pget s ''safety'')" "pget (pget s ''safety'') ''final_submit_executed'' = PBool False"
    "pget (pget s ''safety'') ''final_submit_forbidden'' = PBool True"
    by (auto simp: create_continuous_task_session_def rbind_eq_Inr_iff dict_get_def)
  then show "cs_events s = []" and "pget s ''status'' = PStr ''ready_for_observation''"
    by (simp_all add: cs_events_def)
  from s show "cs_inv s"
    unfolding cs_inv_def cs_ok_def by (simp add: cs_events_def numbered_def)
qed

interpretation cs: logged_machine cs_step cs_inv cs_events
proof
  fix s e s'
  assume "cs_inv s" and "cs_step e s = Inr s'"
  then have "cs_next s s'" by (auto simp: cs_inv_def intro: cs_step_next)
  then show "cs_inv s'" and "\<exists>new. cs_events s' = cs_events s @ new"
    by (auto simp: cs_inv_def cs_next_def cs_grows_def)
qed

interpretation cs_stop: stopping_machine cs_step cs_inv "\<lambda>s. pget s ''status'' = PStr ''safe_stop''"
  by unfold_locales (simp_all add: cs_inv_def cs_step_stopped is_ok_def cs.step_inv)

section \<open>Where operations come from\<close>

text \<open>An operation that leaves the session ready for an operation is a decision taken in the state that awaits one.\<close>

definition cs_keeps :: "pyval \<Rightarrow> pyval \<Rightarrow> bool" where
  "cs_keeps s s' = (cs_grows s s' \<and>
     (pget s' ''status'' = PStr ''ready_for_operation'' \<longrightarrow> pget s ''status'' = PStr ''ready_for_operation''))"

lemma cs_keeps_status:
  "cs_grows s s' \<Longrightarrow> pget s' ''status'' = PStr t \<Longrightarrow> t \<noteq> ''ready_for_operation'' \<Longrightarrow> cs_keeps s s'"
  by (simp add: cs_keeps_def)

lemma cs_keeps_same: "cs_grows s s' \<Longrightarrow> pget s' ''status'' = pget s ''status'' \<Longrightarrow> cs_keeps s s'"
  by (simp add: cs_keeps_def)

lemma finish_keeps: "cs_grows s c \<Longrightarrow> ens (cs_keeps s) (observe_finish c l m i t e)"
  unfolding observe_finish_def by (auto intro!: ens_any cs_keeps_status)

lemma destination_keeps: "cs_grows s c \<Longrightarrow> ens (cs_keeps s) (observe_destination c d l m i t e)"
  unfolding observe_destination_def Let_def by (auto intro!: ens_session cs_keeps_status finish_keeps)

lemma invalidate_keeps:
  "cs_grows s c \<Longrightarrow> pget c ''status'' = PStr t \<Longrightarrow> t \<noteq> ''ready_for_operation'' \<Longrightarrow>
     ens (cs_keeps s) (invalidate_form_step_context c r)"
  unfolding invalidate_form_step_context_def Let_def by (auto intro!: ens_session cs_keeps_status)

lemma other_ops_keep:
  assumes "cs_ok s"
  shows "ens (cs_keeps s) (observe_interface s i t m e l k)"
    and "ens (cs_keeps s) (refresh_current_observation s i t e)"
    and "ens (cs_keeps s) (resume_after_learning s i m)"
    and "ens (cs_keeps s) (bind_form_step_context s i t m)"
    and "ens (cs_keeps s) (request_apply_entry_confirmation s i t)"
    and "ens (cs_keeps s) (confirm_apply_entry s l)"
    and "ens (cs_keeps s) (record_gate_rejection s i e)"
    and "ens (cs_keeps s) (record_action_result s i l v e t)"
    and "ens (cs_keeps s) (record_read_result s i l v t e)"
  subgoal
    unfolding observe_interface_def Let_def using assms
    by (auto intro!: ens_session cs_keeps_status finish_keeps destination_keeps)
  subgoal
    unfolding refresh_current_observation_def Let_def using assms by (auto intro!: ens_session cs_keeps_same)
  subgoal
    unfolding resume_after_learning_def Let_def using assms by (auto intro!: ens_session cs_keeps_status)
  subgoal
    unfolding bind_form_step_context_def Let_def using assms by (auto intro!: ens_session cs_keeps_same)
  subgoal
    unfolding request_apply_entry_confirmation_def Let_def using assms
    by (auto intro!: ens_session cs_keeps_status)
  subgoal
    unfolding confirm_apply_entry_def Let_def using assms by (auto intro!: ens_session cs_keeps_status)
  subgoal
    unfolding record_gate_rejection_def Let_def using assms by (auto intro!: ens_session cs_keeps_status)
  subgoal
    unfolding record_action_result_def Let_def using assms
    by (auto intro!: ens_session invalidate_keeps cs_keeps_status)
  subgoal
    unfolding record_read_result_def read_result_state_def Let_def using assms
    by (auto intro!: ens_session ens_any[where r = "py_int _"] cs_keeps_status)
  done

lemma decisions_need_ready:
  assumes "cs_ok s" and "cs_step e s = Inr s'" and "e = FormTurn d \<or> e = AgentDecision d"
  shows "pget s ''status'' = PStr ''ready_for_agent_decision''"
proof -
  have "ens (\<lambda>_. pget s ''status'' = PStr ''ready_for_agent_decision'') (record_form_workflow_turn s d)"
    "ens (\<lambda>_. pget s ''status'' = PStr ''ready_for_agent_decision'') (record_agent_decision s d)"
    unfolding record_form_workflow_turn_def record_agent_decision_def Let_def using assms(1)
    by (auto intro!: ens_validated_session)
  with assms(2,3) show ?thesis by (auto dest: ensD)
qed

lemma cs_entry:
  assumes "cs_ok s" and "cs_step e s = Inr s'"
    and "pget s' ''status'' = PStr ''ready_for_operation''"
    and "pget s ''status'' \<noteq> PStr ''ready_for_operation''"
  shows "pget s ''status'' = PStr ''ready_for_agent_decision'' \<and> (\<exists>d. e = FormTurn d \<or> e = AgentDecision d)"
proof -
  have "\<not> cs_keeps s s'" using assms(3,4) by (simp add: cs_keeps_def)
  then have "\<exists>d. e = FormTurn d \<or> e = AgentDecision d"
    using assms(1,2) by (cases e) (auto dest: other_ops_keep[THEN ensD])
  with decisions_need_ready[OF assms(1,2)] show ?thesis by blast
qed

section \<open>Properties of sessions\<close>

lemma created_run:
  assumes "create_continuous_task_session i w = Inr s" and "cs_run ops s = Inr s'"
  shows "cs_inv s'"
  using cs.run_inv[OF created_ok(1)[OF assms(1)]] assms(2) by (simp add: cs_run_def)

text \<open>A sample run, for the witnesses: observe, decide, operate, observe again.\<close>

definition demo_evidence :: "string \<Rightarrow> pyval" where
  "demo_evidence c = PDict [(''capture_id'', PStr c), (''screenshot_sha256'', PStr ''ab''),
     (''trace_path'', PStr ''traces/1.json'')]"

definition demo_plan :: pyval where
  "demo_plan = PDict
     [(''contract_version'', PStr ''navigation_reading_decision_plan_v1''),
      (''interface_id'', PStr ''results''), (''semantic_action'', PStr ''open_card''),
      (''expected_target_interface_id'', PStr ''job_detail''), (''freshness'', demo_evidence ''cap-1'')]"

definition demo_state :: "string \<Rightarrow> pyval \<Rightarrow> pyval \<Rightarrow> pyval \<Rightarrow> pyval \<Rightarrow> pyval list \<Rightarrow> pyval" where
  "demo_state status interface surface evidence pending events = PDict
     [(''contract_version'', PStr session_contract), (''session_id'', PStr ''s1''),
      (''workflow_id'', PStr ''w1''), (''status'', PStr status), (''current_interface_id'', interface),
      (''current_surface_type'', surface), (''current_memory_object_sha256'', PNone),
      (''current_observation_evidence'', evidence), (''current_read_state'', PNone),
      (''current_form_step_context'', PNone), (''pending_agent_decision'', pending),
      (''pending_learning'', PNone), (''pending_apply_confirmation'', PNone), (''stop_reason'', PNone),
      (''forbidden_next_actions'', PList []), (''events'', PList events),
      (''safety'', PDict
        [(''final_submit_forbidden'', PBool True), (''final_submit_executed'', PBool False),
         (''historical_coordinates_forbidden'', PBool True), (''current_capture_required'', PBool True),
         (''gate_required'', PBool True)])]"

definition demo_created :: pyval where
  "demo_created = demo_state ''ready_for_observation'' PNone PNone PNone PNone []"

definition demo_observed_event :: pyval where
  "demo_observed_event = PDict [(''sequence'', PInt 1), (''event_type'', PStr ''interface_observed''),
     (''details'', PDict
       [(''interface_id'', PStr ''results''), (''surface_type'', PStr ''list''),
        (''memory_available'', PBool False), (''learning_required'', PBool False),
        (''knowledge_source'', PStr ''memory''), (''evidence'', demo_evidence ''cap-1'')])]"

definition demo_observed :: pyval where
  "demo_observed = demo_state ''ready_for_agent_decision'' (PStr ''results'') (PStr ''list'')
     (demo_evidence ''cap-1'') PNone [demo_observed_event]"

definition demo_decided_event :: pyval where
  "demo_decided_event = PDict [(''sequence'', PInt 2), (''event_type'', PStr ''agent_decision_recorded''),
     (''details'', PDict
       [(''decision_plan'', demo_plan), (''artifact_is_authorization'', PBool False),
        (''current_capture_required'', PBool True), (''gate_required'', PBool True)])]"

definition demo_ready :: pyval where
  "demo_ready = demo_state ''ready_for_operation'' (PStr ''results'') (PStr ''list'')
     (demo_evidence ''cap-1'') demo_plan [demo_observed_event, demo_decided_event]"

definition demo_waiting :: pyval where
  "demo_waiting = demo_state ''waiting_for_destination_observation'' (PStr ''results'') (PStr ''list'')
     (demo_evidence ''cap-1'') demo_plan [demo_observed_event, demo_decided_event,
       PDict [(''sequence'', PInt 3), (''event_type'', PStr ''action_verified''),
         (''details'', PDict
           [(''action_type'', PStr ''open_card''), (''action_executed'', PBool True),
            (''post_action_verified'', PBool True), (''verification_scope'', PStr ''action_effect_only''),
            (''destination_observation_required'', PBool True), (''evidence'', demo_evidence ''cap-2''),
            (''transition_audit'', PDict [])])]]"

definition demo_ops :: "cs_op list" where
  "demo_ops =
     [ObserveInterface (PStr ''results'') (PStr ''list'') PNone (demo_evidence ''cap-1'') False (PStr ''memory''),
      AgentDecision demo_plan,
      ActionResult (PStr ''open_card'') True True (demo_evidence ''cap-2'') PNone]"

lemma demo_created_ok: "create_continuous_task_session (PStr ''s1'') (PStr ''w1'') = Inr demo_created"
  by code_simp

lemma demo_observe:
  "cs_step (ObserveInterface (PStr ''results'') (PStr ''list'') PNone (demo_evidence ''cap-1'') False (PStr ''memory''))
     demo_created = Inr demo_observed"
  by code_simp

lemma demo_decide: "cs_step (AgentDecision demo_plan) demo_observed = Inr demo_ready"
  by code_simp

lemma demo_act:
  "cs_step (ActionResult (PStr ''open_card'') True True (demo_evidence ''cap-2'') PNone) demo_ready = Inr demo_waiting"
  by code_simp

lemma demo_runs:
  "cs_run (take 1 demo_ops) demo_created = Inr demo_observed"
  "cs_run (take 2 demo_ops) demo_created = Inr demo_ready"
  "cs_run demo_ops demo_created = Inr demo_waiting"
  using demo_observe demo_decide demo_act by (simp_all add: cs_run_def demo_ops_def numeral_2_eq_2)

lemma demo_status:
  "pget demo_created ''status'' = PStr ''ready_for_observation''"
  "pget demo_observed ''status'' = PStr ''ready_for_agent_decision''"
  "pget demo_ready ''status'' = PStr ''ready_for_operation''"
  "pget demo_waiting ''status'' = PStr ''waiting_for_destination_observation''"
  "pget demo_waiting ''pending_agent_decision'' = demo_plan"
  by (simp_all add: demo_created_def demo_observed_def demo_ready_def demo_waiting_def demo_state_def dict_get_def)

text \<open>A verified action is accepted although no decision was recorded: the function tests no status.\<close>

lemma action_result_needs_no_decision:
  "pget demo_observed ''pending_agent_decision'' = PNone
   \<and> (\<exists>u. cs_step (ActionResult (PStr ''open_card'') True True (demo_evidence ''cap-2'') PNone) demo_observed = Inr u
      \<and> pget u ''status'' = PStr ''waiting_for_destination_observation'')"
proof -
  have "(case cs_step (ActionResult (PStr ''open_card'') True True (demo_evidence ''cap-2'') PNone) demo_observed of
      Inl _ \<Rightarrow> False | Inr u \<Rightarrow> pget u ''status'' = PStr ''waiting_for_destination_observation'')"
    by code_simp
  moreover have "pget demo_observed ''pending_agent_decision'' = PNone" by code_simp
  ultimately show ?thesis by (auto split: sum.splits)
qed

lemma demo_stop:
  "\<exists>u. cs_step (ObserveInterface (PStr ''form'') (PStr ''final_submit_visible'') PNone
      (demo_evidence ''cap-1'') False (PStr ''memory'')) demo_created = Inr u \<and> pget u ''status'' = PStr ''safe_stop''"
proof -
  have "(case cs_step (ObserveInterface (PStr ''form'') (PStr ''final_submit_visible'') PNone
      (demo_evidence ''cap-1'') False (PStr ''memory'')) demo_created of
      Inl _ \<Rightarrow> False | Inr u \<Rightarrow> pget u ''status'' = PStr ''safe_stop'')"
    by code_simp
  then show ?thesis by (auto split: sum.splits)
qed

lemma destination_stops:
  "cs_grows s c \<Longrightarrow> x = strip (text_or_empty (pget d ''expected_target_interface_id'')) \<Longrightarrow> x \<noteq> [] \<Longrightarrow> i \<noteq> x \<Longrightarrow>
     ens (\<lambda>u. cs_grows s u \<and> pget u ''status'' = PStr ''safe_stop'') (observe_destination c d l m i t e)"
  unfolding observe_destination_def Let_def by (auto intro!: ens_append_event ens_safe_stop)

lemma observe_stops:
  assumes "cs_ok s" and "pget s ''status'' = PStr ''waiting_for_destination_observation''"
    and "is_dict (pget s ''pending_agent_decision'')"
    and "x = strip (text_or_empty (pget (pget s ''pending_agent_decision'') ''expected_target_interface_id''))"
    and "x \<noteq> []" and "strip (text_or_empty i) \<noteq> x"
  shows "ens (\<lambda>u. cs_grows s u \<and> pget u ''status'' = PStr ''safe_stop'') (observe_interface s i t m e l k)"
  unfolding observe_interface_def Let_def ens_simps
  apply (rule ens_validated_session[OF assms(1)])
  apply (simp add: assms(2,3) dict_or_none_def del: insert_iff)
  apply (intro impI ens_validated_evidence conjI)
  apply (rule ens_append_event[where ?s0.0 = s], simp)
  apply (intro impI conjI)
  apply (erule ens_safe_stop, simp)
  apply (erule ens_safe_stop, simp)
  apply (rule destination_stops, assumption, rule assms(4), rule assms(5), rule assms(6))
  done

text \<open>C2: Whatever operations a created session goes through, in any order, its safety record keeps final submission forbidden and not executed, and its events stay numbered 1, 2, 3, \<open>...\<close>\<close>

theorem session_run_never_submits:
  assumes "create_continuous_task_session i w = Inr s" and "cs_run ops s = Inr s'"
  shows "pget (pget s' ''safety'') ''final_submit_executed'' = PBool False
    \<and> pget (pget s' ''safety'') ''final_submit_forbidden'' = PBool True \<and> numbered (cs_events s')"
  using created_run[OF assms] unfolding cs_inv_def cs_ok_def by blast

theorem session_run_never_submits_witness:
  "pget (pget demo_waiting ''safety'') ''final_submit_executed'' = PBool False"
  using session_run_never_submits[OF demo_created_ok demo_runs(3)] by blast

text \<open>C3: A session reaches \<^verbatim>\<open>ready_for_operation\<close> only with a pending decision whose action is none of the final ones and whose capture is exactly the one the session observed last.\<close>

theorem session_operation_is_bound:
  assumes "create_continuous_task_session i w = Inr s" and "cs_run ops s = Inr s'"
    and "pget s' ''status'' = PStr ''ready_for_operation''"
  shows "decision_bound s'"
  using created_run[OF assms(1,2)] assms(3) by (simp add: cs_inv_def)

theorem session_operation_is_bound_witness: "decision_bound demo_ready"
  using session_operation_is_bound[OF demo_created_ok demo_runs(2) demo_status(3)] .

text \<open>Along a run, the only operations that move a session to \<^verbatim>\<open>ready_for_operation\<close> are a form turn and an agent decision, both taken while the session awaits a decision.\<close>

theorem session_operation_is_decided:
  assumes "create_continuous_task_session i w = Inr s" and "cs_run ops s = Inr t"
    and "cs_step e t = Inr u"
    and "pget u ''status'' = PStr ''ready_for_operation''"
    and "pget t ''status'' \<noteq> PStr ''ready_for_operation''"
  shows "pget t ''status'' = PStr ''ready_for_agent_decision'' \<and> (\<exists>d. e = FormTurn d \<or> e = AgentDecision d)"
  using created_run[OF assms(1,2)] assms(3-) by (intro cs_entry) (auto simp: cs_inv_def)

theorem session_operation_is_decided_witness:
  "pget demo_observed ''status'' = PStr ''ready_for_agent_decision''"
  using session_operation_is_decided[OF demo_created_ok demo_runs(1) demo_decide demo_status(3)] demo_status(2)
  by simp

text \<open>C6: A session that safely stopped refuses every further operation with the same error.\<close>

theorem session_stop_is_final:
  assumes "create_continuous_task_session i w = Inr s" and "cs_run ops s = Inr s'"
    and "pget s' ''status'' = PStr ''safe_stop''"
  shows "cs_step e s' = Inl (ValueError ''continuous task session already stopped'')"
  using created_run[OF assms(1,2)] assms(3) by (auto simp: cs_inv_def intro: cs_step_stopped)

theorem session_stop_is_final_witness:
  "\<exists>u. cs_step (AgentDecision demo_plan) u = Inl (ValueError ''continuous task session already stopped'')"
proof -
  obtain e u where "cs_step e demo_created = Inr u" "pget u ''status'' = PStr ''safe_stop''"
    using demo_stop by blast
  then have "cs_run [e] demo_created = Inr u" by (simp add: cs_run_def)
  from session_stop_is_final[OF demo_created_ok this] show ?thesis
    using \<open>pget u ''status'' = PStr ''safe_stop''\<close> by blast
qed

text \<open>Operations only append to the history: after any prefix of a run, the events recorded so far are a prefix of the events at its end.\<close>

theorem session_history_append_only:
  assumes "create_continuous_task_session i w = Inr s" and "cs_run (before @ later) s = Inr u"
  shows "\<exists>t. cs_run before s = Inr t \<and> take (length (cs_events t)) (cs_events u) = cs_events t"
proof -
  obtain t where t: "cs_run before s = Inr t" "cs_run later t = Inr u" "cs_inv t"
    using cs.run_split_inv[OF created_ok(1)[OF assms(1)]] assms(2) unfolding cs_run_def by blast
  then show ?thesis using cs.run_log[OF t(3)] unfolding cs_run_def by force
qed

theorem session_history_append_only_witness:
  "\<exists>t. cs_run [] demo_created = Inr t \<and> take (length (cs_events t)) (cs_events demo_waiting) = cs_events t"
  using session_history_append_only[OF demo_created_ok, of "[]" demo_ops] demo_runs(3) by simp

text \<open>After a verified action, observing an interface other than the one the decision expected never returns anything but a stopped session.\<close>

theorem session_destination_mismatch_stops:
  assumes "create_continuous_task_session i w = Inr s" and "cs_run ops s = Inr t"
    and "pget t ''status'' = PStr ''waiting_for_destination_observation''"
    and "is_dict (pget t ''pending_agent_decision'')"
    and "x = strip (text_or_empty (pget (pget t ''pending_agent_decision'') ''expected_target_interface_id''))"
    and "x \<noteq> []" and "strip (text_or_empty interface) \<noteq> x"
    and "observe_interface t interface surface memory evidence learning source = Inr u"
  shows "pget u ''status'' = PStr ''safe_stop''"
proof -
  have "cs_ok t" using created_run[OF assms(1,2)] by (simp add: cs_inv_def)
  from ensD[OF observe_stops[OF this assms(3-7)] assms(8)] show ?thesis by blast
qed

lemma demo_mismatch:
  "\<exists>u. observe_interface demo_waiting (PStr ''home'') (PStr ''list'') PNone (demo_evidence ''cap-3'') False
     (PStr ''memory'') = Inr u"
  unfolding is_ok_iff[symmetric] by code_simp

theorem session_destination_mismatch_stops_witness:
  "\<exists>u. observe_interface demo_waiting (PStr ''home'') (PStr ''list'') PNone (demo_evidence ''cap-3'') False
     (PStr ''memory'') = Inr u \<and> pget u ''status'' = PStr ''safe_stop''"
proof -
  obtain u where u: "observe_interface demo_waiting (PStr ''home'') (PStr ''list'') PNone (demo_evidence ''cap-3'') False
     (PStr ''memory'') = Inr u" using demo_mismatch by blast
  have "strip (text_or_empty (pget demo_plan ''expected_target_interface_id'')) = ''job_detail''"
    "strip (text_or_empty (PStr ''home'')) = ''home''" "is_dict demo_plan" by code_simp+
  then show ?thesis
    using session_destination_mismatch_stops[OF demo_created_ok demo_runs(3) demo_status(4) _ refl _ _ u]
    by (simp add: demo_status u)
qed
end
