(* ===== verification/LearningWorkflow.thy ===== *)
theory LearningWorkflow
  imports PyJson Machines
begin

text \<open>
  The learning workflow of \<^verbatim>\<open>app/learn/workflow_state.py\<close>. The persisted state is the dictionary
  the code stores, and each function of the module is one definition over it; a state that
  comes back from storage is accepted only when replaying its events gives it again. The
  second half of the theory states what the workflow promises as a typed machine, and shows
  that the dictionary code implements it.
\<close>

section \<open>The workflow over dictionaries\<close>

definition lw_stages :: "string list" where
  "lw_stages = [''bind_capture'', ''screen_understanding'', ''numbered_map'', ''precise_calibration'',
     ''review_repair'', ''fusion'', ''page_details'', ''pathgraph_draft'', ''complete'']"

definition lw_outcomes :: "string list" where
  "lw_outcomes = [''running'', ''completed'', ''failed'', ''safe_stopped'']"

definition lw_terminal_outcomes :: "string list" where
  "lw_terminal_outcomes = [''failed'', ''safe_stopped'']"

definition lw_contract :: string where
  "lw_contract = ''learning_workflow_state_v2''"

definition lw_completion_evidence :: "(string \<times> string list) list" where
  "lw_completion_evidence =
     [(''bind_capture'', [''image_path'']),
      (''screen_understanding'', [''trial_path'']),
      (''numbered_map'', [''report_path'', ''overlay_path'']),
      (''precise_calibration'', [''result_path'', ''overlay_path'']),
      (''review_repair'', [''final_stage2_report_path'', ''final_overlay_path'']),
      (''fusion'', [''trial_path'']),
      (''page_details'', [''source_path'']),
      (''pathgraph_draft'', [''scaffold_path'']),
      (''complete'', [])]"

fun index_in :: "string list \<Rightarrow> string \<Rightarrow> nat option" where
  "index_in [] s = None"
| "index_in (x # xs) s = (if s = x then Some 0 else map_option Suc (index_in xs s))"

text \<open>\<^verbatim>\<open>STAGES.index(v)\<close> and \<^verbatim>\<open>d[v]\<close> for a value that need not be a string.\<close>

definition stage_index :: "pyval \<Rightarrow> int res" where
  "stage_index v = (case v of PStr s \<Rightarrow>
       (case index_in lw_stages s of
          Some i \<Rightarrow> Inr (int i) | None \<Rightarrow> Inl (ValueError ''tuple.index(x): x not in tuple''))
     | _ \<Rightarrow> Inl (ValueError ''tuple.index(x): x not in tuple''))"

definition item_at :: "pyval \<Rightarrow> pyval \<Rightarrow> pyval res" where
  "item_at d v = (case v of PStr s \<Rightarrow> item d s
     | _ \<Rightarrow> if hashable v then Inl (KeyError (py_repr v)) else Inl TypeError)"

text \<open>\<^verbatim>\<open>v + 1\<close>, with \<^verbatim>\<open>bool\<close> counted as an integer.\<close>

definition add_one :: "pyval \<Rightarrow> pyval res" where
  "add_one v = (case v of PInt i \<Rightarrow> Inr (PInt (i + 1)) | PBool b \<Rightarrow> Inr (PInt (of_bool b + 1))
     | PFloat (Fin x) \<Rightarrow> Inr (PFloat (Fin (near64 (x + 1)))) | PFloat x \<Rightarrow> Inr (PFloat x)
     | _ \<Rightarrow> Inl TypeError)"

definition lw_initial_state :: "string \<Rightarrow> pyval" where
  "lw_initial_state run_id = PDict
     [(''contract_version'', PStr lw_contract),
      (''run_id'', PStr run_id),
      (''revision'', PInt 0),
      (''workflow_status'', PStr ''idle''),
      (''terminal'', PBool False),
      (''current_stage'', PNone),
      (''current_reason'', PStr []),
      (''current_evidence_refs'', PDict []),
      (''stage_order'', PList (map PStr lw_stages)),
      (''stages'', PDict (map (\<lambda>stage. (stage, PDict
         [(''status'', PStr ''pending''), (''reason'', PStr []), (''evidence_refs'', PDict [])])) lw_stages)),
      (''events'', PList []),
      (''completion_evidence_requirements'',
        PDict (map (\<lambda>(stage, fields). (stage, PList (map PStr fields))) lw_completion_evidence)),
      (''display_only'', PBool True),
      (''artifact_is_authorization'', PBool False),
      (''execute_binding_enabled'', PBool False)]"

definition lw_validate_renewal :: "pyval \<Rightarrow> pyval \<Rightarrow> unit res" where
  "lw_validate_renewal stage_record evidence_refs =
     (let current_evidence = pget stage_record ''evidence_refs'';
          current_execution = (if is_dict current_evidence then pget current_evidence ''stage_execution'' else PNone);
          renewed_execution = pget evidence_refs ''stage_execution''
      in if \<not> is_dict current_execution \<or> \<not> is_dict renewed_execution
           \<or> pget current_execution ''owner'' \<noteq> PStr ''backend_lease''
           \<or> pget renewed_execution ''owner'' \<noteq> PStr ''backend_lease''
           \<or> text_or_empty (pget current_execution ''operation_id'') = []
           \<or> \<not> py_eq (pget renewed_execution ''operation_id'') (pget current_execution ''operation_id'')
           \<or> \<not> py_eq (pget renewed_execution ''started_at'') (pget current_execution ''started_at'')
         then Inl (ValueError ''running stage renewal requires the same managed operation'')
         else Inr ())"

definition lw_missing_fields :: "string \<Rightarrow> pyval \<Rightarrow> string list" where
  "lw_missing_fields stage evidence_refs =
     filter (\<lambda>field. \<not> is_str (pget evidence_refs field) \<or> blank (text_or_empty (pget evidence_refs field)))
       (the (map_of lw_completion_evidence stage))"

definition lw_validate_evidence :: "string \<Rightarrow> string \<Rightarrow> string \<Rightarrow> pyval \<Rightarrow> unit res" where
  "lw_validate_evidence stage outcome reason evidence_refs =
     (if outcome \<in> set lw_terminal_outcomes \<and> blank reason
        then Inl (ValueError (outcome @ '' requires a reason''))
      else if outcome \<noteq> ''completed'' then Inr ()
      else let missing_fields = lw_missing_fields stage evidence_refs in
        if missing_fields \<noteq> []
          then Inl (ValueError (stage @ '' completed requires evidence: '' @ join '', '' missing_fields))
        else Inr ())"

text \<open>The order check of \<^verbatim>\<open>_apply_transition\<close>, for the stage record of the target.\<close>

definition lw_order_check :: "pyval \<Rightarrow> string \<Rightarrow> string \<Rightarrow> pyval \<Rightarrow> unit res" where
  "lw_order_check state stage outcome evidence =
     (let current_stage = pget state ''current_stage'' in
      rbind (if truthy current_stage then stage_index current_stage else Inr (-1)) (\<lambda>current_index.
      rbind (item state ''stages'') (\<lambda>stages.
      rbind (item stages stage) (\<lambda>stage_record.
      rbind (item stage_record ''status'') (\<lambda>current_status.
      rbind (stage_index (PStr stage)) (\<lambda>target_index.
      if current_stage = PNone then
        (if stage \<noteq> hd lw_stages \<or> outcome \<noteq> ''running''
           then Inl (ValueError ''workflow must start with bind_capture running'') else Inr ())
      else if current_stage = PStr stage then
        (if current_status \<noteq> PStr ''running'' then Inl (ValueError (''stage is not running: '' @ stage))
         else if outcome = ''running'' then lw_validate_renewal stage_record evidence
         else Inr ())
      else if target_index < current_index then
        Inl (ValueError (''cannot move backward from '' @ py_str current_stage @ '' to '' @ stage))
      else if target_index > current_index + 1 then
        Inl (ValueError (''cannot skip from '' @ py_str current_stage @ '' to '' @ stage))
      else
        rbind (item_at stages current_stage) (\<lambda>current_record.
        rbind (item current_record ''status'') (\<lambda>status.
        if status \<noteq> PStr ''completed'' then
          Inl (ValueError (''cannot advance before completing '' @ py_str current_stage))
        else if outcome \<noteq> ''running'' then Inl (ValueError ''new stage must start with running'')
        else Inr ()))))))))"

text \<open>
  The writes of \<^verbatim>\<open>_apply_transition\<close> once its checks have passed: the stage record and the
  current fields, then the status of the workflow.
\<close>

definition lw_write_stage :: "pyval \<Rightarrow> pyval \<Rightarrow> pyval \<Rightarrow> string \<Rightarrow> string \<Rightarrow> string \<Rightarrow> pyval \<Rightarrow> pyval" where
  "lw_write_stage state stages stage_record stage outcome reason evidence =
     (let record' = pset ''evidence_refs'' evidence (pset ''reason'' (PStr reason)
            (pset ''status'' (PStr outcome) stage_record));
          s1 = pset ''stages'' (pset stage record' stages) state;
          s2 = pset ''current_stage'' (PStr stage) s1;
          s3 = pset ''current_reason'' (PStr reason) s2
      in pset ''current_evidence_refs'' evidence s3)"

definition lw_write_status :: "pyval \<Rightarrow> string \<Rightarrow> string \<Rightarrow> pyval" where
  "lw_write_status state stage outcome =
     (if outcome \<in> set lw_terminal_outcomes
        then pset ''terminal'' (PBool True) (pset ''workflow_status'' (PStr outcome) state)
      else if stage = last lw_stages \<and> outcome = ''completed''
        then pset ''terminal'' (PBool True) (pset ''workflow_status'' (PStr ''completed'') state)
      else pset ''workflow_status'' (PStr ''running'') state)"

definition lw_apply_transition :: "pyval \<Rightarrow> string \<Rightarrow> string \<Rightarrow> string \<Rightarrow> pyval \<Rightarrow> pyval res" where
  "lw_apply_transition state stage outcome reason evidence_refs =
     (if stage \<notin> set lw_stages then Inl (ValueError (''unknown stage: '' @ stage))
      else if outcome \<notin> set lw_outcomes then Inl (ValueError (''unknown outcome: '' @ outcome)) else
      rbind (item state ''terminal'') (\<lambda>terminal.
      if terminal = PBool True then Inl (ValueError ''workflow is terminal and cannot continue'') else
      let evidence = (if is_dict evidence_refs then evidence_refs else PDict []) in
      rbind (lw_order_check state stage outcome evidence) (\<lambda>_.
      rbind (lw_validate_evidence stage outcome reason evidence) (\<lambda>_.
      rbind (item state ''stages'') (\<lambda>stages.
      rbind (item stages stage) (\<lambda>stage_record.
      let s1 = lw_write_stage state stages stage_record stage outcome reason evidence in
      rbind (item s1 ''revision'') (\<lambda>old. rbind (add_one old) (\<lambda>revision.
      let s2 = lw_write_status (pset ''revision'' revision s1) stage outcome in
      rbind (item s2 ''events'') (\<lambda>events.
      case events of
        PList xs \<Rightarrow> Inr (pset ''events'' (PList (xs @ [PDict
          [(''revision'', revision), (''stage'', PStr stage), (''outcome'', PStr outcome),
           (''reason'', PStr reason), (''evidence_refs'', evidence)]])) s2)
      | _ \<Rightarrow> Inl AttributeError)))))))))"

fun lw_replay :: "nat \<Rightarrow> pyval list \<Rightarrow> pyval \<Rightarrow> pyval res" where
  "lw_replay n [] replayed = Inr replayed"
| "lw_replay n (event # events) replayed =
     (if \<not> is_dict event then Inl (ValueError ''workflow event must be an object'')
      else if \<not> py_eq (pget event ''revision'') (PInt (int n))
        then Inl (ValueError ''workflow event revision is invalid'')
      else rbind (lw_apply_transition replayed (text_or_empty (pget event ''stage''))
             (text_or_empty (pget event ''outcome'')) (text_or_empty (pget event ''reason''))
             (if is_dict (pget event ''evidence_refs'') then pget event ''evidence_refs'' else PDict []))
           (lw_replay (Suc n) events))"

definition is_negative :: "pyval \<Rightarrow> bool" where
  "is_negative v = (case num_of v of Some x \<Rightarrow> flt_less x (Fin 0) | None \<Rightarrow> False)"

definition lw_validated_copy :: "pyval \<Rightarrow> string \<Rightarrow> pyval res" where
  "lw_validated_copy state run_id =
     (if \<not> is_dict state then Inl (ValueError ''previous_state must be an object'')
      else if pget state ''contract_version'' \<noteq> PStr lw_contract
        then Inl (ValueError ''unsupported workflow state contract'')
      else if text_or_empty (pget state ''run_id'') \<noteq> run_id
        then Inl (ValueError ''run_id does not match previous_state'')
      else if \<not> py_eq (pget state ''stage_order'') (PList (map PStr lw_stages))
        then Inl (ValueError ''stage_order does not match authoritative order'')
      else if \<not> is_dict (pget state ''stages'') \<or> \<not> keys_are (pget state ''stages'') lw_stages
        then Inl (ValueError ''workflow stages are incomplete'')
      else if \<not> is_list (pget state ''events'')
        then Inl (ValueError ''workflow events must be a list'')
      else if \<not> (is_int (pget state ''revision'') \<or> is_bool (pget state ''revision''))
          \<or> is_negative (pget state ''revision'')
        then Inl (ValueError ''workflow revision is invalid'')
      else rbind (lw_replay 1 (plist (pget state ''events'')) (lw_initial_state run_id)) (\<lambda>replayed.
        if \<not> py_eq replayed state
          then Inl (ValueError ''previous_state does not match event history'')
        else Inr state))"

definition transition_learning_workflow_state ::
    "pyval option \<Rightarrow> string \<Rightarrow> string \<Rightarrow> string \<Rightarrow> string \<Rightarrow> pyval \<Rightarrow> pyval res" where
  "transition_learning_workflow_state previous_state run_id stage outcome reason evidence_refs =
     (let normalized_run_id = strip run_id in
      if normalized_run_id = [] then Inl (ValueError ''run_id is required'')
      else if stage \<notin> set lw_stages then Inl (ValueError (''unknown stage: '' @ stage))
      else if outcome \<notin> set lw_outcomes then Inl (ValueError (''unknown outcome: '' @ outcome))
      else rbind (case previous_state of
             None \<Rightarrow> Inr (lw_initial_state normalized_run_id)
           | Some p \<Rightarrow> lw_validated_copy p normalized_run_id) (\<lambda>state.
        lw_apply_transition state stage outcome reason evidence_refs))"

definition validate_learning_workflow_state :: "pyval \<Rightarrow> pyval res" where
  "validate_learning_workflow_state state =
     lw_validated_copy state (if is_dict state then text_or_empty (pget state ''run_id'') else [])"

section \<open>The workflow as a typed machine\<close>

datatype lw_outcome = Running | Completed | Failed | SafeStopped

fun outcome_text :: "lw_outcome \<Rightarrow> string" where
  "outcome_text Running = ''running''"
| "outcome_text Completed = ''completed''"
| "outcome_text Failed = ''failed''"
| "outcome_text SafeStopped = ''safe_stopped''"

record lw_stage =
  st_status :: "lw_outcome option"
  st_reason :: string
  st_evidence :: pyval

record lw_event =
  ev_stage :: nat
  ev_outcome :: lw_outcome
  ev_reason :: string
  ev_evidence :: pyval

record lw_state =
  lw_run_id :: string
  lw_flow :: "lw_outcome option"
  lw_current :: "nat option"
  lw_reason :: string
  lw_evidence :: pyval
  lw_stage_list :: "lw_stage list"
  lw_events :: "lw_event list"

definition lw_start :: "string \<Rightarrow> lw_state" where
  "lw_start run_id = \<lparr>lw_run_id = run_id, lw_flow = None, lw_current = None, lw_reason = [],
     lw_evidence = PDict [],
     lw_stage_list = replicate 9 \<lparr>st_status = None, st_reason = [], st_evidence = PDict []\<rparr>, lw_events = []\<rparr>"

definition lw_stopped :: "lw_state \<Rightarrow> bool" where
  "lw_stopped a = (lw_flow a \<noteq> None \<and> lw_flow a \<noteq> Some Running)"

definition renewal_ok :: "pyval \<Rightarrow> pyval \<Rightarrow> bool" where
  "renewal_ok held renewed =
     (let c = pget held ''stage_execution''; r = pget renewed ''stage_execution'' in
      is_dict c \<and> is_dict r \<and> pget c ''owner'' = PStr ''backend_lease'' \<and> pget r ''owner'' = PStr ''backend_lease''
      \<and> text_or_empty (pget c ''operation_id'') \<noteq> []
      \<and> py_eq (pget r ''operation_id'') (pget c ''operation_id'')
      \<and> py_eq (pget r ''started_at'') (pget c ''started_at''))"

fun given_text :: "pyval \<Rightarrow> bool" where
  "given_text (PStr s) = (\<not> blank s)"
| "given_text _ = False"

lemma given_text_iff: "given_text v \<longleftrightarrow> (\<exists>s. v = PStr s \<and> \<not> blank s)"
  by (cases v) simp_all

definition evidence_complete :: "nat \<Rightarrow> pyval \<Rightarrow> bool" where
  "evidence_complete i ev = list_all (\<lambda>field. given_text (pget ev field))
     (snd (lw_completion_evidence ! i))"

definition order_ok :: "lw_state \<Rightarrow> lw_event \<Rightarrow> bool" where
  "order_ok a e = (case lw_current a of
       None \<Rightarrow> ev_stage e = 0 \<and> ev_outcome e = Running
     | Some c \<Rightarrow>
         if ev_stage e = c then st_status (lw_stage_list a ! c) = Some Running
           \<and> (ev_outcome e = Running \<longrightarrow> renewal_ok (st_evidence (lw_stage_list a ! c)) (ev_evidence e))
         else ev_stage e = Suc c \<and> st_status (lw_stage_list a ! c) = Some Completed \<and> ev_outcome e = Running)"

definition event_ok :: "lw_event \<Rightarrow> bool" where
  "event_ok e = (case ev_outcome e of Running \<Rightarrow> True
     | Completed \<Rightarrow> evidence_complete (ev_stage e) (ev_evidence e)
     | _ \<Rightarrow> \<not> blank (ev_reason e))"

definition lw_enter :: "lw_event \<Rightarrow> lw_state \<Rightarrow> lw_state" where
  "lw_enter e a = a\<lparr>
     lw_flow := Some (if ev_outcome e = Completed \<and> ev_stage e \<noteq> 8 then Running else ev_outcome e),
     lw_current := Some (ev_stage e), lw_reason := ev_reason e, lw_evidence := ev_evidence e,
     lw_stage_list := (lw_stage_list a)[ev_stage e :=
       \<lparr>st_status = Some (ev_outcome e), st_reason = ev_reason e, st_evidence = ev_evidence e\<rparr>],
     lw_events := lw_events a @ [e]\<rparr>"

definition lw_next :: "lw_event \<Rightarrow> lw_state \<Rightarrow> lw_state option" where
  "lw_next e a = (if \<not> lw_stopped a \<and> order_ok a e \<and> event_ok e then Some (lw_enter e a) else None)"

text \<open>The dictionary that stores a typed state.\<close>

definition stage_value :: "lw_stage \<Rightarrow> pyval" where
  "stage_value r = PDict
     [(''status'', PStr (case st_status r of None \<Rightarrow> ''pending'' | Some oc \<Rightarrow> outcome_text oc)),
      (''reason'', PStr (st_reason r)), (''evidence_refs'', st_evidence r)]"

definition event_value :: "nat \<Rightarrow> lw_event \<Rightarrow> pyval" where
  "event_value n e = PDict
     [(''revision'', PInt (int n)), (''stage'', PStr (lw_stages ! ev_stage e)),
      (''outcome'', PStr (outcome_text (ev_outcome e))), (''reason'', PStr (ev_reason e)),
      (''evidence_refs'', ev_evidence e)]"

definition event_values :: "lw_event list \<Rightarrow> pyval list" where
  "event_values es = map (\<lambda>(i, e). event_value i e) (enumerate 1 es)"

definition state_value :: "lw_state \<Rightarrow> pyval" where
  "state_value a = PDict
     [(''contract_version'', PStr lw_contract),
      (''run_id'', PStr (lw_run_id a)),
      (''revision'', PInt (int (length (lw_events a)))),
      (''workflow_status'', PStr (case lw_flow a of None \<Rightarrow> ''idle'' | Some oc \<Rightarrow> outcome_text oc)),
      (''terminal'', PBool (lw_stopped a)),
      (''current_stage'', case lw_current a of None \<Rightarrow> PNone | Some c \<Rightarrow> PStr (lw_stages ! c)),
      (''current_reason'', PStr (lw_reason a)),
      (''current_evidence_refs'', lw_evidence a),
      (''stage_order'', PList (map PStr lw_stages)),
      (''stages'', PDict (zip lw_stages (map stage_value (lw_stage_list a)))),
      (''events'', PList (event_values (lw_events a))),
      (''completion_evidence_requirements'',
        PDict (map (\<lambda>(stage, fields). (stage, PList (map PStr fields))) lw_completion_evidence)),
      (''display_only'', PBool True),
      (''artifact_is_authorization'', PBool False),
      (''execute_binding_enabled'', PBool False)]"

section \<open>The dictionary code implements the machine\<close>

text \<open>The shape of a typed state that the code can reach.\<close>

definition lw_typed :: "lw_state \<Rightarrow> bool" where
  "lw_typed a = (length (lw_stage_list a) = 9 \<and> (\<forall>c. lw_current a = Some c \<longrightarrow> c < 9)
     \<and> list_all (\<lambda>r. is_dict (st_evidence r)) (lw_stage_list a) \<and> is_dict (lw_evidence a))"

definition event_typed :: "lw_event \<Rightarrow> bool" where
  "event_typed e = (ev_stage e < 9 \<and> is_dict (ev_evidence e))"

lemma lw_stages_length [simp]: "length lw_stages = 9"
  by (simp add: lw_stages_def)

lemma lw_stages_distinct: "distinct lw_stages"
  by (simp add: lw_stages_def)

lemma lw_stages_eq [simp]: "i < 9 \<Longrightarrow> j < 9 \<Longrightarrow> lw_stages ! i = lw_stages ! j \<longleftrightarrow> i = j"
  using lw_stages_distinct by (simp add: nth_eq_iff_index_eq)

lemma lw_stages_in [simp]: "i < 9 \<Longrightarrow> lw_stages ! i \<in> set lw_stages"
  by (simp add: nth_mem)

lemma lw_stages_nonempty [simp]: "i < 9 \<Longrightarrow> lw_stages ! i \<noteq> []"
proof -
  have "list_all (\<lambda>s. s \<noteq> []) lw_stages" by (simp add: lw_stages_def)
  then show "i < 9 \<Longrightarrow> lw_stages ! i \<noteq> []" by (simp add: list_all_iff)
qed

lemma index_in_nth: "distinct xs \<Longrightarrow> i < length xs \<Longrightarrow> index_in xs (xs ! i) = Some i"
  by (induction xs arbitrary: i) (auto simp: nth_Cons split: nat.split)

lemma stage_index_nth [simp]: "i < 9 \<Longrightarrow> stage_index (PStr (lw_stages ! i)) = Inr (int i)"
  using index_in_nth[OF lw_stages_distinct] by (simp add: stage_index_def)

lemma outcome_in [simp]: "outcome_text oc \<in> set lw_outcomes"
  by (cases oc) (simp_all add: lw_outcomes_def)

lemma outcome_text_eq [simp]: "outcome_text a = outcome_text b \<longleftrightarrow> a = b"
  by (cases a; cases b) simp_all

lemma outcome_text_iff [simp]:
  "outcome_text oc = ''running'' \<longleftrightarrow> oc = Running" "outcome_text oc = ''completed'' \<longleftrightarrow> oc = Completed"
  "outcome_text oc \<noteq> ''pending''" "outcome_text oc \<in> set lw_terminal_outcomes \<longleftrightarrow> oc = Failed \<or> oc = SafeStopped"
  by (cases oc; simp add: lw_terminal_outcomes_def)+

lemma map_of_zip_nth:
  "distinct ks \<Longrightarrow> length ks = length vs \<Longrightarrow> i < length ks \<Longrightarrow> map_of (zip ks vs) (ks ! i) = Some (vs ! i)"
  by (induction ks arbitrary: vs i) (auto simp: nth_Cons in_set_conv_nth length_Suc_conv split: nat.split)

lemma dput_zip_nth:
  "distinct ks \<Longrightarrow> length ks = length vs \<Longrightarrow> i < length ks \<Longrightarrow> dput (ks ! i) v (zip ks vs) = zip ks (vs[i := v])"
proof (induction ks arbitrary: vs i)
  case (Cons k ks)
  then show ?case by (cases vs; cases i) auto
qed simp

lemma item_stage:
  "length rs = 9 \<Longrightarrow> i < 9 \<Longrightarrow> item (PDict (zip lw_stages (map f rs))) (lw_stages ! i) = Inr (f (rs ! i))"
  using map_of_zip_nth[OF lw_stages_distinct, of "map f rs" i] by (simp add: item_def)

lemma stage_value_status [simp]:
  "item (stage_value r) ''status'' = Inr (PStr (case st_status r of None \<Rightarrow> ''pending'' | Some oc \<Rightarrow> outcome_text oc))"
  "pget (stage_value r) ''evidence_refs'' = st_evidence r"
  by (simp_all add: stage_value_def item_def dict_get_def)

lemma state_value_get [simp]:
  "pget (state_value a) ''current_stage'' = (case lw_current a of None \<Rightarrow> PNone | Some c \<Rightarrow> PStr (lw_stages ! c))"
  "item (state_value a) ''stages'' = Inr (PDict (zip lw_stages (map stage_value (lw_stage_list a))))"
  "item (state_value a) ''terminal'' = Inr (PBool (lw_stopped a))"
  by (simp_all add: state_value_def item_def dict_get_def)

lemma renewal_iff:
  "is_dict (st_evidence r) \<Longrightarrow>
     lw_validate_renewal (stage_value r) ev = Inr () \<longleftrightarrow> renewal_ok (st_evidence r) ev"
  by (auto simp: lw_validate_renewal_def renewal_ok_def Let_def)

lemma order_check_iff:
  assumes "lw_typed a" and "event_typed e"
  shows "lw_order_check (state_value a) (lw_stages ! ev_stage e) (outcome_text (ev_outcome e)) (ev_evidence e)
      = Inr () \<longleftrightarrow> order_ok a e"
proof (cases "lw_current a")
  case None
  have "hd lw_stages = lw_stages ! 0" by (simp add: lw_stages_def)
  then show ?thesis
    using assms None
    by (simp add: lw_order_check_def order_ok_def item_stage lw_typed_def event_typed_def)
next
  case (Some c)
  then show ?thesis
    using assms
    by (auto simp: lw_order_check_def order_ok_def Let_def item_stage lw_typed_def event_typed_def item_at_def
        renewal_iff list_all_length split: option.splits)
qed

lemma completion_fields:
  "i < 9 \<Longrightarrow> the (map_of lw_completion_evidence (lw_stages ! i)) = snd (lw_completion_evidence ! i)"
proof -
  have "map fst lw_completion_evidence = lw_stages"
    by (simp add: lw_completion_evidence_def lw_stages_def)
  moreover have "i < 9 \<Longrightarrow> map_of lw_completion_evidence (map fst lw_completion_evidence ! i)
      = Some (snd (lw_completion_evidence ! i))"
    using lw_stages_distinct calculation
    by (metis length_map lw_stages_length map_of_is_SomeI nth_map nth_mem prod.collapse)
  ultimately show "i < 9 \<Longrightarrow> ?thesis" by simp
qed

lemma evidence_iff:
  assumes "event_typed e"
  shows "lw_validate_evidence (lw_stages ! ev_stage e) (outcome_text (ev_outcome e)) (ev_reason e) (ev_evidence e)
      = Inr () \<longleftrightarrow> event_ok e"
proof -
  have "lw_missing_fields (lw_stages ! ev_stage e) (ev_evidence e) = [] \<longleftrightarrow>
      evidence_complete (ev_stage e) (ev_evidence e)"
    using assms unfolding lw_missing_fields_def evidence_complete_def event_typed_def
    by (auto simp: completion_fields filter_empty_conv list_all_iff is_type_iff given_text_iff)
  then show ?thesis
    by (cases "ev_outcome e") (simp_all add: lw_validate_evidence_def event_ok_def lw_terminal_outcomes_def Let_def)
qed

lemma last_stage: "i < 9 \<Longrightarrow> lw_stages ! i = last lw_stages \<longleftrightarrow> i = 8"
proof -
  have "last lw_stages = lw_stages ! 8" by (simp add: lw_stages_def)
  then show "i < 9 \<Longrightarrow> ?thesis" by simp
qed

lemma item_pset: "is_dict w \<Longrightarrow> item (pset k x w) k' = (if k' = k then Inr x else item w k')"
  by (cases w) (simp_all add: item_def)

lemma state_value_dict [simp]: "is_dict (state_value a)" "is_dict (stage_value r)"
  by (simp_all add: state_value_def stage_value_def)

lemma state_value_counts:
  "item (state_value a) ''revision'' = Inr (PInt (int (length (lw_events a))))"
  "item (state_value a) ''events'' = Inr (PList (event_values (lw_events a)))"
  by (simp_all add: state_value_def item_def)

lemma event_values_snoc: "event_values (es @ [e]) = event_values es @ [event_value (Suc (length es)) e]"
  by (simp add: event_values_def enumerate_append_eq)

lemma stage_value_set:
  "pset ''evidence_refs'' ev (pset ''reason'' (PStr r) (pset ''status'' (PStr (outcome_text oc)) (stage_value st)))
     = stage_value \<lparr>st_status = Some oc, st_reason = r, st_evidence = ev\<rparr>"
  by (simp add: stage_value_def)

lemma write_gets:
  "is_dict v \<Longrightarrow> is_dict (lw_write_stage v ss sr s c r ev)"
  "is_dict v \<Longrightarrow> item (lw_write_stage v ss sr s c r ev) ''revision'' = item v ''revision''"
  "is_dict v \<Longrightarrow> item (lw_write_stage v ss sr s c r ev) ''events'' = item v ''events''"
  "is_dict v \<Longrightarrow> item (lw_write_status v s c) ''events'' = item v ''events''"
  by (simp_all add: lw_write_stage_def lw_write_status_def item_pset)

lemma apply_passed:
  assumes "s \<in> set lw_stages" and "c \<in> set lw_outcomes" and "item v ''terminal'' = Inr (PBool False)"
    and "is_dict ev" and "lw_order_check v s c ev = Inr ()" and "lw_validate_evidence s c r ev = Inr ()"
    and "is_dict v" and "item v ''stages'' = Inr ss" and "item ss s = Inr sr"
    and "item v ''revision'' = Inr (PInt n)" and "item v ''events'' = Inr (PList xs)"
  shows "lw_apply_transition v s c r ev = Inr (pset ''events'' (PList (xs @ [PDict
          [(''revision'', PInt (n + 1)), (''stage'', PStr s), (''outcome'', PStr c),
           (''reason'', PStr r), (''evidence_refs'', ev)]]))
        (lw_write_status (pset ''revision'' (PInt (n + 1)) (lw_write_stage v ss sr s c r ev)) s c))"
  unfolding lw_apply_transition_def using assms by (simp add: item_pset add_one_def write_gets)

lemma apply_accepts:
  assumes "lw_typed a" and "event_typed e" and "lw_next e a = Some a'"
  shows "lw_apply_transition (state_value a) (lw_stages ! ev_stage e) (outcome_text (ev_outcome e))
      (ev_reason e) (ev_evidence e) = Inr (state_value a')"
proof -
  have n: "length (lw_stage_list a) = 9" "ev_stage e < 9" "is_dict (ev_evidence e)"
    using assms(1,2) by (simp_all add: lw_typed_def event_typed_def)
  have checks: "\<not> lw_stopped a" "order_ok a e" "event_ok e" "a' = lw_enter e a"
    using assms(3) by (auto simp: lw_next_def split: if_splits)
  note passed = apply_passed[OF lw_stages_in[OF n(2)] outcome_in _ n(3)
      order_check_iff[OF assms(1,2), THEN iffD2, OF checks(2)]
      evidence_iff[OF assms(2), THEN iffD2, OF checks(3)]
      state_value_dict(1) state_value_get(2) item_stage[OF n(1,2)] state_value_counts]
  have zip: "dput (lw_stages ! i) v (zip lw_stages (map stage_value (lw_stage_list a)))
      = zip lw_stages ((map stage_value (lw_stage_list a))[i := v])" if "i < 9" for i v
    using n that by (simp add: dput_zip_nth[OF lw_stages_distinct])
  have "item (state_value a) ''terminal'' = Inr (PBool False)"
    using checks(1) by simp
  note passed = passed[OF this]
  show ?thesis
    unfolding passed lw_write_stage_def lw_write_status_def Let_def last_stage[OF n(2)] stage_value_set checks(4)
    using checks(1)
    by (cases "ev_outcome e") (simp_all add: state_value_def zip n lw_enter_def event_values_snoc event_value_def
        lw_stopped_def map_update lw_terminal_outcomes_def)
qed

lemma apply_checked:
  "lw_apply_transition v s c r ev = Inr v' \<Longrightarrow> is_dict ev \<Longrightarrow>
     item v ''terminal'' \<noteq> Inr (PBool True) \<and> lw_order_check v s c ev = Inr ()
     \<and> lw_validate_evidence s c r ev = Inr ()"
  by (cases "item v ''terminal''"; cases "lw_order_check v s c ev"; cases "lw_validate_evidence s c r ev")
    (simp_all add: lw_apply_transition_def split: if_splits)

lemma apply_rejects:
  assumes "lw_typed a" and "event_typed e" and "lw_next e a = None"
  shows "\<not> is_ok (lw_apply_transition (state_value a) (lw_stages ! ev_stage e) (outcome_text (ev_outcome e))
      (ev_reason e) (ev_evidence e))"
proof
  assume "is_ok (lw_apply_transition (state_value a) (lw_stages ! ev_stage e) (outcome_text (ev_outcome e))
      (ev_reason e) (ev_evidence e))"
  then obtain v where v: "lw_apply_transition (state_value a) (lw_stages ! ev_stage e)
      (outcome_text (ev_outcome e)) (ev_reason e) (ev_evidence e) = Inr v"
    by (auto simp: is_ok_iff)
  have "is_dict (ev_evidence e)" using assms(2) by (simp add: event_typed_def)
  from apply_checked[OF v this] order_check_iff[OF assms(1,2)] evidence_iff[OF assms(2)] assms(3)
  show False by (simp add: lw_next_def)
qed

section \<open>Reachable workflows\<close>

inductive lw_reach :: "string \<Rightarrow> lw_state \<Rightarrow> bool" for run :: string where
  lw_reach_start: "lw_reach run (lw_start run)"
| lw_reach_next: "lw_reach run a \<Longrightarrow> event_typed e \<Longrightarrow> lw_next e a = Some a' \<Longrightarrow> lw_reach run a'"

inductive_cases lw_reach_cases [elim?]: "lw_reach run a"

definition stage_status :: "lw_state \<Rightarrow> nat \<Rightarrow> lw_outcome option" where
  "stage_status a i = st_status (lw_stage_list a ! i)"

text \<open>
  What holds of every reachable workflow: the stages before the current one are completed,
  with their evidence, those after it are untouched, and the workflow is completed only when
  its last stage is.
\<close>

definition lw_lawful :: "lw_state \<Rightarrow> bool" where
  "lw_lawful a = (lw_typed a
     \<and> (\<forall>i < 9. stage_status a i = Some Completed \<longrightarrow> evidence_complete i (st_evidence (lw_stage_list a ! i)))
     \<and> (case lw_current a of
          None \<Rightarrow> lw_flow a = None \<and> lw_events a = [] \<and> (\<forall>i < 9. stage_status a i = None)
        | Some c \<Rightarrow> (\<forall>i < c. stage_status a i = Some Completed) \<and> stage_status a c \<noteq> None
            \<and> (\<forall>i. c < i \<and> i < 9 \<longrightarrow> stage_status a i = None)
            \<and> (lw_flow a = Some Completed \<longrightarrow> c = 8 \<and> stage_status a c = Some Completed)))"

lemma start_lawful: "lw_lawful (lw_start run)"
  by (simp add: lw_lawful_def lw_start_def lw_typed_def stage_status_def list_all_iff)

lemma enter_status:
  "lw_typed a \<Longrightarrow> event_typed e \<Longrightarrow> i < 9 \<Longrightarrow>
     stage_status (lw_enter e a) i = (if i = ev_stage e then Some (ev_outcome e) else stage_status a i)"
  "lw_typed a \<Longrightarrow> event_typed e \<Longrightarrow> i < 9 \<Longrightarrow>
     st_evidence (lw_stage_list (lw_enter e a) ! i)
       = (if i = ev_stage e then ev_evidence e else st_evidence (lw_stage_list a ! i))"
  by (simp_all add: stage_status_def lw_enter_def lw_typed_def event_typed_def)

lemma enter_fields [simp]:
  "lw_current (lw_enter e a) = Some (ev_stage e)"
  "lw_flow (lw_enter e a) = Some (if ev_outcome e = Completed \<and> ev_stage e \<noteq> 8 then Running else ev_outcome e)"
  "lw_events (lw_enter e a) = lw_events a @ [e]" "lw_run_id (lw_enter e a) = lw_run_id a"
  by (simp_all add: lw_enter_def)

lemma enter_typed: "lw_typed a \<Longrightarrow> event_typed e \<Longrightarrow> lw_typed (lw_enter e a)"
  by (auto simp: lw_typed_def event_typed_def lw_enter_def list_all_length nth_list_update)

lemma next_lawful:
  assumes "lw_lawful a" and "event_typed e" and "lw_next e a = Some a'"
  shows "lw_lawful a'"
proof -
  have e: "a' = lw_enter e a" "order_ok a e" "event_ok e"
    using assms(3) by (auto simp: lw_next_def split: if_splits)
  have t: "lw_typed a" "ev_stage e < 9" using assms(1,2) by (simp_all add: lw_lawful_def event_typed_def)
  have complete: "\<forall>i < 9. stage_status a' i = Some Completed \<longrightarrow> evidence_complete i (st_evidence (lw_stage_list a' ! i))"
    using assms(1) e(3) by (auto simp: e(1) lw_lawful_def enter_status[OF t(1) assms(2)] event_ok_def)
  have before: "\<forall>i < ev_stage e. stage_status a i = Some Completed"
    and after: "\<forall>i. ev_stage e < i \<and> i < 9 \<longrightarrow> stage_status a i = None"
    using assms(1) e(2) by (auto simp: lw_lawful_def order_ok_def stage_status_def less_Suc_eq
        split: option.splits if_splits)
  from before after t(2) enter_typed[OF t(1) assms(2)] complete show ?thesis
    by (auto simp: lw_lawful_def e(1) enter_status[OF t(1) assms(2)])
qed

lemma reach_lawful: "lw_reach run a \<Longrightarrow> lw_lawful a"
  by (induction rule: lw_reach.induct) (auto intro: start_lawful next_lawful)

lemma reach_typed: "lw_reach run a \<Longrightarrow> lw_typed a"
  using reach_lawful by (simp add: lw_lawful_def)

lemma next_run_id: "lw_next e a = Some a' \<Longrightarrow> lw_run_id a' = lw_run_id a \<and> lw_events a' = lw_events a @ [e]"
  by (auto simp: lw_next_def split: if_splits)

lemma reach_run_id: "lw_reach run a \<Longrightarrow> lw_run_id a = run"
  by (induction rule: lw_reach.induct) (auto simp: lw_start_def next_run_id)

lemma initial_value: "lw_initial_state run = state_value (lw_start run)"
proof -
  have stages: "zip xs (map stage_value (replicate (length xs) r)) = map (\<lambda>s. (s, stage_value r)) xs"
    for xs :: "string list" and r
    by (induction xs) simp_all
  from stages[of lw_stages "\<lparr>st_status = None, st_reason = [], st_evidence = PDict []\<rparr>"] show ?thesis
    by (simp add: lw_initial_state_def state_value_def lw_start_def lw_stopped_def event_values_def stage_value_def)
qed

lemma apply_dict: "lw_apply_transition v s c r ev = lw_apply_transition v s c r (if is_dict ev then ev else PDict [])"
  by (simp add: lw_apply_transition_def)

lemma outcome_of_text: "c \<in> set lw_outcomes \<Longrightarrow> \<exists>oc. c = outcome_text oc"
proof -
  have "lw_outcomes = map outcome_text [Running, Completed, Failed, SafeStopped]"
    by (simp add: lw_outcomes_def)
  then show "c \<in> set lw_outcomes \<Longrightarrow> ?thesis" by (metis imageE set_map)
qed

text \<open>Whatever the code accepts on a reachable state is an event of the machine.\<close>

lemma apply_event:
  assumes "lw_reach run a" and "lw_apply_transition (state_value a) s c r ev = Inr v"
  obtains e a' where "event_typed e" and "lw_next e a = Some a'" and "v = state_value a'"
    and "s = lw_stages ! ev_stage e" and "c = outcome_text (ev_outcome e)" and "r = ev_reason e"
    and "ev_evidence e = (if is_dict ev then ev else PDict [])"
proof -
  have "s \<in> set lw_stages" "c \<in> set lw_outcomes"
    using assms(2) by (auto simp: lw_apply_transition_def split: if_splits)
  from outcome_of_text[OF this(2)] this(1) obtain i oc
    where i: "i < 9" "s = lw_stages ! i" "c = outcome_text oc"
    by (auto simp: in_set_conv_nth)
  define e where "e = \<lparr>ev_stage = i, ev_outcome = oc, ev_reason = r,
    ev_evidence = (if is_dict ev then ev else PDict [])\<rparr>"
  have typed: "lw_typed a" "event_typed e"
    using reach_typed[OF assms(1)] i(1) by (simp_all add: event_typed_def e_def)
  have run: "lw_apply_transition (state_value a) (lw_stages ! ev_stage e) (outcome_text (ev_outcome e))
      (ev_reason e) (ev_evidence e) = Inr v"
    using assms(2) apply_dict[of "state_value a" s c r ev] by (simp add: e_def i)
  then have "lw_next e a \<noteq> None"
    using apply_rejects[OF typed] by (auto simp: is_ok_iff)
  then obtain a' where a': "lw_next e a = Some a'" by blast
  from apply_accepts[OF typed this] run have v: "v = state_value a'" by simp
  show thesis by (rule that[OF typed(2) a' v]) (simp_all add: e_def i)
qed

lemma replay_append:
  "lw_replay n (xs @ ys) v = rbind (lw_replay n xs v) (lw_replay (n + length xs) ys)"
  by (induction n xs v rule: lw_replay.induct) (auto simp: rbind_def split: sum.splits)

lemma replay_reach:
  "lw_reach run a \<Longrightarrow> lw_replay 1 (event_values (lw_events a)) (lw_initial_state run) = Inr (state_value a)"
proof (induction rule: lw_reach.induct)
  case lw_reach_start
  then show ?case by (simp add: initial_value lw_start_def event_values_def)
next
  case (lw_reach_next a e a')
  have e: "is_dict (ev_evidence e)" "lw_events a' = lw_events a @ [e]"
    using lw_reach_next by (auto simp: event_typed_def next_run_id)
  have event: "pget (event_value n e) ''revision'' = PInt (int n)" "is_dict (event_value n e)"
    "text_or_empty (pget (event_value n e) ''stage'') = lw_stages ! ev_stage e"
    "text_or_empty (pget (event_value n e) ''outcome'') = outcome_text (ev_outcome e)"
    "text_or_empty (pget (event_value n e) ''reason'') = ev_reason e"
    "pget (event_value n e) ''evidence_refs'' = ev_evidence e" for n
    by (simp_all add: event_value_def dict_get_def)
  have "length (event_values (lw_events a)) = length (lw_events a)" by (simp add: event_values_def)
  with lw_reach_next.IH apply_accepts[OF reach_typed[OF lw_reach_next.hyps(1)] lw_reach_next.hyps(2,3)] e
  show ?case by (simp add: event_values_snoc replay_append event)
qed

lemma replay_reaches:
  "lw_reach run a \<Longrightarrow> lw_replay n xs (state_value a) = Inr v \<Longrightarrow> \<exists>a'. lw_reach run a' \<and> v = state_value a'"
proof (induction xs arbitrary: n a)
  case Nil
  then show ?case by auto
next
  case (Cons x xs)
  from Cons.prems(2) obtain s c r ev w where w: "lw_apply_transition (state_value a) s c r ev = Inr w"
    "lw_replay (Suc n) xs w = Inr v"
    by (auto simp: rbind_eq_Inr_iff split: if_splits)
  from apply_event[OF Cons.prems(1) w(1)] obtain e a' where "event_typed e" "lw_next e a = Some a'" "w = state_value a'"
    by blast
  with Cons w(2) lw_reach_next show ?case by blast
qed

section \<open>Persisted states\<close>

text \<open>Evidence that compares equal to itself: distinct keys, no float outside the finite ones.\<close>

definition clean :: "pyval \<Rightarrow> bool" where
  "clean v = (wf_py v \<and> all_finite v)"

definition state_clean :: "lw_state \<Rightarrow> bool" where
  "state_clean a = (clean (lw_evidence a) \<and> list_all (\<lambda>r. clean (st_evidence r)) (lw_stage_list a)
     \<and> list_all (\<lambda>e. clean (ev_evidence e)) (lw_events a))"

lemma py_eq_pget:
  assumes "py_eq v w" and "phas v k"
  shows "py_eq (pget v k) (pget w k)" and "phas w k"
proof -
  obtain d where d: "v = PDict d" using phas_is_dict[OF assms(2)] by (auto simp: is_type_iff)
  with assms(1) obtain e where e: "w = PDict e" "py_eq_items d e" by (cases w) auto
  from assms(2) d obtain x where x: "map_of d k = Some x"
    by (cases "map_of d k") (auto simp: phas_def map_of_eq_None_iff)
  have "py_eq_items d e \<Longrightarrow> map_of d k = Some x \<Longrightarrow> \<exists>y. map_of e k = Some y \<and> py_eq x y" for d
    by (induction d) (auto split: option.splits if_splits)
  from this[OF e(2) x] obtain y where y: "map_of e k = Some y" "py_eq x y" by blast
  then show "py_eq (pget v k) (pget w k)" by (simp add: d e(1) dict_get_def x)
  from y show "phas w k" by (simp add: e(1) phas_def) (metis domI dom_map_of_conv_image_fst)
qed

lemma py_eq_PStr: "py_eq (PStr s) w \<longleftrightarrow> w = PStr s"
  by simp

lemma event_values_clean:
  "list_all (\<lambda>e. clean (ev_evidence e)) es \<Longrightarrow>
     list_all wf_py (event_values es) \<and> list_all all_finite (event_values es)"
  by (auto simp: event_values_def list_all_iff event_value_def clean_def in_set_enumerate_eq)

lemma state_value_clean:
  assumes "lw_typed a" and "state_clean a"
  shows "wf_py (state_value a)" and "all_finite (state_value a)"
proof -
  have "list_all wf_py (map PStr xs)" "list_all all_finite (map PStr xs)" for xs
    by (simp_all add: list_all_iff)
  note texts = this
  have requirements: "wf_py (PDict (map (\<lambda>(s, fs). (s, PList (map PStr fs))) lw_completion_evidence))"
    "all_finite (PDict (map (\<lambda>(s, fs). (s, PList (map PStr fs))) lw_completion_evidence))"
    by (simp_all add: lw_completion_evidence_def)
  have "length (lw_stage_list a) = length lw_stages" using assms(1) by (simp add: lw_typed_def)
  moreover have "list_all (\<lambda>r. clean (st_evidence r)) rs \<Longrightarrow> length rs = length ks \<Longrightarrow> distinct ks \<Longrightarrow>
      wf_py (PDict (zip ks (map stage_value rs))) \<and> all_finite (PDict (zip ks (map stage_value rs)))" for rs ks
    by (auto simp: list_all_iff stage_value_def clean_def dest!: set_zip_rightD)
  ultimately have stages: "wf_py (PDict (zip lw_stages (map stage_value (lw_stage_list a))))"
      "all_finite (PDict (zip lw_stages (map stage_value (lw_stage_list a))))"
    using assms(2) lw_stages_distinct by (auto simp: state_clean_def)
  note events = event_values_clean[of "lw_events a"]
  have parts: "clean (lw_evidence a)" "list_all (\<lambda>e. clean (ev_evidence e)) (lw_events a)"
    using assms(2) by (simp_all add: state_clean_def)
  note rules = texts requirements[simplified] stages[simplified] events[OF parts(2)] parts(1)[unfolded clean_def]
  show "wf_py (state_value a)"
    unfolding state_value_def using rules by (simp split: option.split)
  show "all_finite (state_value a)"
    unfolding state_value_def using rules by (simp split: option.split)
qed

lemma state_value_header:
  "pget (state_value a) ''contract_version'' = PStr lw_contract"
  "pget (state_value a) ''run_id'' = PStr (lw_run_id a)"
  "pget (state_value a) ''stage_order'' = PList (map PStr lw_stages)"
  "pget (state_value a) ''stages'' = PDict (zip lw_stages (map stage_value (lw_stage_list a)))"
  "pget (state_value a) ''events'' = PList (event_values (lw_events a))"
  "pget (state_value a) ''revision'' = PInt (int (length (lw_events a)))"
  "pget (state_value a) ''terminal'' = PBool (lw_stopped a)"
  "pget (state_value a) ''workflow_status'' =
     PStr (case lw_flow a of None \<Rightarrow> ''idle'' | Some oc \<Rightarrow> outcome_text oc)"
  by (simp_all add: state_value_def dict_get_def)

lemma reach_validated:
  assumes "lw_reach run a" and "state_clean a"
  shows "lw_validated_copy (state_value a) run = Inr (state_value a)"
proof -
  have "py_eq (state_value a) (state_value a)"
    using state_value_clean[OF reach_typed[OF assms(1)] assms(2)] by simp
  moreover have "py_eq (PList (map PStr lw_stages)) (PList (map PStr lw_stages))"
    by (rule py_eq_refl) (simp_all add: list_all_iff)
  moreover have "keys_are (PDict (zip lw_stages (map stage_value (lw_stage_list a)))) lw_stages"
    using reach_typed[OF assms(1)] by (simp add: keys_are_def lw_typed_def)
  ultimately show ?thesis
    using replay_reach[OF assms(1)]
    by (simp add: lw_validated_copy_def state_value_header reach_run_id[OF assms(1)] is_negative_def)
qed

lemma list_all_update: "list_all P xs \<Longrightarrow> P x \<Longrightarrow> list_all P (xs[i := x])"
  using set_update_subset_insert[of xs i x] by (auto simp: list_all_iff)

lemma next_clean:
  assumes "lw_next e a = Some a'" and "state_clean a" and "clean (ev_evidence e)"
  shows "state_clean a'"
proof -
  have "a' = lw_enter e a" using assms(1) by (simp add: lw_next_def split: if_splits)
  with assms(2,3) show ?thesis by (simp add: state_clean_def lw_enter_def list_all_update)
qed

lemma validated_reach:
  assumes "lw_validated_copy s run = Inr t"
  shows "t = s" and "\<exists>a. lw_reach run a \<and> py_eq (state_value a) s"
proof -
  from assms obtain v where v: "lw_replay 1 (plist (pget s ''events'')) (lw_initial_state run) = Inr v"
    "py_eq v s" "t = s"
    unfolding lw_validated_copy_def by (simp only: rbind_eq_Inr_iff sum.distinct sum.inject simp_thms split: if_splits) blast
  then show "t = s" by simp
  from replay_reaches[OF lw_reach_start v(1)[unfolded initial_value]] v(2)
  show "\<exists>a. lw_reach run a \<and> py_eq (state_value a) s" by blast
qed

lemma status_of:
  assumes "lw_reach run a" and "py_eq (state_value a) s" and "i < 9"
  shows "pget (pget (pget s ''stages'') (lw_stages ! i)) ''status''
      = PStr (case stage_status a i of None \<Rightarrow> ''pending'' | Some oc \<Rightarrow> outcome_text oc)"
    and "py_eq (st_evidence (lw_stage_list a ! i)) (pget (pget (pget s ''stages'') (lw_stages ! i)) ''evidence_refs'')"
proof -
  let ?r = "lw_stage_list a ! i"
  have len: "length (lw_stage_list a) = 9" using reach_typed[OF assms(1)] by (simp add: lw_typed_def)
  have "item (pget (state_value a) ''stages'') (lw_stages ! i) = Inr (stage_value ?r)"
    using item_stage[OF len assms(3)] by (simp add: state_value_header)
  then have r: "phas (pget (state_value a) ''stages'') (lw_stages ! i)"
    "pget (pget (state_value a) ''stages'') (lw_stages ! i) = stage_value ?r"
    by (simp_all add: item_eq_Inr_iff)
  have "phas (state_value a) ''stages''" by (simp add: state_value_def phas_def)
  from py_eq_pget(1)[OF py_eq_pget(1)[OF assms(2) this] r(1)]
  have eq: "py_eq (stage_value ?r) (pget (pget s ''stages'') (lw_stages ! i))" by (simp add: r(2))
  have keys: "phas (stage_value ?r) ''status''" "phas (stage_value ?r) ''evidence_refs''"
    by (simp_all add: stage_value_def phas_def)
  from py_eq_pget(1)[OF eq keys(1)]
  show "pget (pget (pget s ''stages'') (lw_stages ! i)) ''status''
      = PStr (case stage_status a i of None \<Rightarrow> ''pending'' | Some oc \<Rightarrow> outcome_text oc)"
    by (simp add: stage_value_def dict_get_def stage_status_def)
  from py_eq_pget(1)[OF eq keys(2)]
  show "py_eq (st_evidence ?r) (pget (pget (pget s ''stages'') (lw_stages ! i)) ''evidence_refs'')"
    by simp
qed

lemma flow_of:
  assumes "py_eq (state_value a) s"
  shows "pget s ''workflow_status'' = PStr (case lw_flow a of None \<Rightarrow> ''idle'' | Some oc \<Rightarrow> outcome_text oc)"
    and "lw_current a = Some c \<Longrightarrow> pget s ''current_stage'' = PStr (lw_stages ! c)"
    and "lw_current a = None \<Longrightarrow> pget s ''current_stage'' = PNone"
proof -
  have keys: "phas (state_value a) ''workflow_status''" "phas (state_value a) ''current_stage''"
    by (simp_all add: state_value_def phas_def)
  show "pget s ''workflow_status'' = PStr (case lw_flow a of None \<Rightarrow> ''idle'' | Some oc \<Rightarrow> outcome_text oc)"
    using py_eq_pget(1)[OF assms keys(1)] by (simp add: state_value_header)
  show "lw_current a = Some c \<Longrightarrow> pget s ''current_stage'' = PStr (lw_stages ! c)"
    "lw_current a = None \<Longrightarrow> pget s ''current_stage'' = PNone"
    using py_eq_pget(1)[OF assms keys(2)] by simp_all
qed

lemma evidence_transfer:
  assumes "evidence_complete i ev" and "py_eq ev ev'" and "is_dict ev"
  shows "evidence_complete i ev'"
proof -
  have "\<exists>s. pget ev' k = PStr s \<and> \<not> blank s" if k: "pget ev k = PStr s" "\<not> blank s" for k s
  proof -
    have "phas ev k" using k(1) not_phas_pget[of ev k] by fastforce
    from py_eq_pget(1)[OF assms(2) this] k show ?thesis by simp
  qed
  with assms(1) show ?thesis unfolding evidence_complete_def by (fastforce simp: list_all_iff given_text_iff)
qed


section \<open>Runs\<close>

type_synonym lw_op = "string \<times> string \<times> string \<times> pyval"

fun lw_step :: "string \<Rightarrow> lw_op \<Rightarrow> pyval option \<Rightarrow> pyval option res" where
  "lw_step run (stage, outcome, reason, evidence) prev =
     rbind (transition_learning_workflow_state prev run stage outcome reason evidence) (\<lambda>s. Inr (Some s))"

definition lw_run :: "string \<Rightarrow> lw_op list \<Rightarrow> pyval option \<Rightarrow> pyval option res" where
  "lw_run run = fold_res (lw_step run)"

definition lw_inv :: "string \<Rightarrow> pyval option \<Rightarrow> bool" where
  "lw_inv run prev = (case prev of None \<Rightarrow> True
     | Some s \<Rightarrow> \<exists>a. lw_reach (strip run) a \<and> s = state_value a)"

definition lw_log :: "pyval option \<Rightarrow> pyval list" where
  "lw_log prev = (case prev of None \<Rightarrow> [] | Some s \<Rightarrow> plist (pget s ''events''))"

definition lw_ended :: "pyval option \<Rightarrow> bool" where
  "lw_ended prev = (\<exists>s. prev = Some s \<and> pget s ''terminal'' = PBool True)"

text \<open>The machine state a run is in, and the event each of its steps is.\<close>

definition lw_at :: "string \<Rightarrow> pyval option \<Rightarrow> lw_state \<Rightarrow> bool" where
  "lw_at run prev a = (lw_reach (strip run) a
     \<and> (prev = None \<and> a = lw_start (strip run) \<or> prev = Some (state_value a)))"

lemma lw_inv_at: "lw_inv run prev \<longleftrightarrow> (\<exists>a. lw_at run prev a)"
  by (cases prev) (auto simp: lw_inv_def lw_at_def lw_reach_start)

lemma lw_step_event:
  assumes a: "lw_at run prev a" and step: "lw_step run (s, c, r, ev) prev = Inr nxt"
  shows "\<exists>e a'. event_typed e \<and> lw_next e a = Some a' \<and> nxt = Some (state_value a') \<and> lw_at run nxt a'
    \<and> ev_evidence e = (if is_dict ev then ev else PDict [])"
proof -
  from step obtain v where v: "transition_learning_workflow_state prev run s c r ev = Inr v" "nxt = Some v"
    by (auto simp: rbind_eq_Inr_iff)
  have reach: "lw_reach (strip run) a" using a by (simp add: lw_at_def)
  have "lw_apply_transition (state_value a) s c r ev = Inr v"
  proof (cases prev)
    case None
    with v(1) a show ?thesis
      by (auto simp: transition_learning_workflow_state_def Let_def initial_value lw_at_def split: if_splits)
  next
    case (Some p)
    with a have p: "p = state_value a" by (simp add: lw_at_def)
    from v(1) Some obtain w where w: "lw_validated_copy p (strip run) = Inr w" "lw_apply_transition w s c r ev = Inr v"
      by (auto simp: transition_learning_workflow_state_def Let_def rbind_eq_Inr_iff split: if_splits)
    with validated_reach(1)[OF w(1)] p show ?thesis by simp
  qed
  from apply_event[OF reach this] obtain e a' where
    e: "event_typed e" "lw_next e a = Some a'" "v = state_value a'"
      "ev_evidence e = (if is_dict ev then ev else PDict [])" by metis
  have "lw_at run nxt a'" using lw_reach_next[OF reach e(1,2)] v(2) e(3) by (simp add: lw_at_def)
  with e v(2) show ?thesis by blast
qed

interpretation lw: logged_machine "lw_step run" "lw_inv run" lw_log for run
proof
  fix prev e nxt
  assume inv: "lw_inv run prev" and step: "lw_step run e prev = Inr nxt"
  obtain s c r ev where e: "e = (s, c, r, ev)" by (cases e)
  from inv obtain a where a: "lw_at run prev a" by (auto simp: lw_inv_at)
  from lw_step_event[OF a step[unfolded e]] obtain f a' where
    f: "lw_next f a = Some a'" "nxt = Some (state_value a')" "lw_at run nxt a'" by blast
  from f(3) show "lw_inv run nxt" by (auto simp: lw_inv_at)
  have "lw_log prev = event_values (lw_events a)"
    using a by (auto simp: lw_at_def lw_log_def state_value_header lw_start_def event_values_def)
  then show "\<exists>new. lw_log nxt = lw_log prev @ new"
    using next_run_id[OF f(1)] by (simp add: lw_log_def f(2) state_value_header event_values_snoc)
qed

interpretation lw_end: stopping_machine "lw_step run" "lw_inv run" lw_ended for run
proof
  fix prev e
  assume inv: "lw_inv run prev" and ended: "lw_ended prev"
  from inv obtain a where a: "lw_at run prev a" by (auto simp: lw_inv_at)
  with ended have "lw_stopped a" by (auto simp: lw_ended_def lw_at_def state_value_header)
  show "\<not> is_ok (lw_step run e prev)"
  proof
    assume "is_ok (lw_step run e prev)"
    then obtain n where n: "lw_step run e prev = Inr n" by (auto simp: is_ok_iff)
    obtain s c r ev where e: "e = (s, c, r, ev)" by (cases e)
    from lw_step_event[OF a n[unfolded e]] obtain f a' where "lw_next f a = Some a'" by blast
    with \<open>lw_stopped a\<close> show False by (simp add: lw_next_def)
  qed
qed

lemma start_clean: "state_clean (lw_start run)"
  by (simp add: state_clean_def lw_start_def clean_def list_all_iff)

lemma run_clean:
  "lw_run run ops prev = Inr nxt \<Longrightarrow> lw_at run prev a \<Longrightarrow> state_clean a \<Longrightarrow>
     list_all (\<lambda>(s, c, r, ev). clean ev) ops \<Longrightarrow> \<exists>b. lw_at run nxt b \<and> state_clean b"
proof (induction ops arbitrary: prev a)
  case Nil
  then show ?case by (auto simp: lw_run_def)
next
  case (Cons x ops)
  obtain st c r ev where x: "x = (st, c, r, ev)" by (cases x)
  from Cons.prems(1) obtain mid where mid: "lw_step run x prev = Inr mid" "lw_run run ops mid = Inr nxt"
    by (auto simp: lw_run_def rbind_eq_Inr_iff)
  from lw_step_event[OF Cons.prems(2) mid(1)[unfolded x]] obtain e a' where
    e: "lw_next e a = Some a'" "lw_at run mid a'" "ev_evidence e = (if is_dict ev then ev else PDict [])" by blast
  have "clean (ev_evidence e)" using Cons.prems(4) e(3) x by (auto simp: clean_def)
  from next_clean[OF e(1) Cons.prems(3) this] Cons.IH[OF mid(2) e(2)] Cons.prems(4) show ?case by simp
qed
section \<open>Properties of the workflow\<close>

text \<open>Sample events, for the witnesses: a whole workflow, each stage entered and completed.\<close>

fun lw_play :: "lw_event list \<Rightarrow> lw_state \<Rightarrow> lw_state option" where
  "lw_play [] a = Some a"
| "lw_play (e # es) a = (if event_typed e then (case lw_next e a of None \<Rightarrow> None | Some b \<Rightarrow> lw_play es b) else None)"

definition sample_evidence :: "nat \<Rightarrow> pyval" where
  "sample_evidence i = PDict (map (\<lambda>field. (field, PStr ''artifacts/x.json'')) (snd (lw_completion_evidence ! i)))"

definition sample_events :: "lw_event list" where
  "sample_events = concat (map (\<lambda>i.
     [\<lparr>ev_stage = i, ev_outcome = Running, ev_reason = [], ev_evidence = PDict []\<rparr>,
      \<lparr>ev_stage = i, ev_outcome = Completed, ev_reason = [], ev_evidence = sample_evidence i\<rparr>]) [0..<9])"

definition sample_complete :: lw_state where
  "sample_complete = the (lw_play sample_events (lw_start ''r1''))"

lemma play_reach: "lw_reach run a \<Longrightarrow> lw_play es a = Some b \<Longrightarrow> lw_reach run b"
  by (induction es arbitrary: a) (auto intro: lw_reach_next split: if_splits option.splits)

lemma sample_reach: "lw_reach ''r1'' sample_complete"
proof -
  have "lw_play sample_events (lw_start ''r1'') = Some sample_complete" by code_simp
  then show ?thesis by (rule play_reach[OF lw_reach_start])
qed

lemma sample_clean: "state_clean sample_complete"
  by code_simp

lemma sample_validated:
  "lw_validated_copy (state_value sample_complete) ''r1'' = Inr (state_value sample_complete)"
  using reach_validated[OF sample_reach sample_clean] .

lemma sample_status:
  "pget (state_value sample_complete) ''workflow_status'' = PStr ''completed''"
  "pget (state_value sample_complete) ''current_stage'' = PStr (lw_stages ! 8)"
  "pget (state_value sample_complete) ''terminal'' = PBool True"
proof -
  have "lw_flow sample_complete = Some Completed" "lw_current sample_complete = Some 8" by code_simp+
  then show "pget (state_value sample_complete) ''workflow_status'' = PStr ''completed''"
    "pget (state_value sample_complete) ''current_stage'' = PStr (lw_stages ! 8)"
    "pget (state_value sample_complete) ''terminal'' = PBool True"
    by (simp_all add: state_value_header lw_stopped_def)
qed

text \<open>C15: One transition of the dictionary code is one step of the typed machine: on any reachable state it accepts exactly the events the machine accepts, and returns the dictionary of the state the machine enters.\<close>

theorem workflow_refines_machine:
  assumes "lw_reach run a" and "event_typed e"
  shows "case lw_next e a of
      Some a' \<Rightarrow> lw_apply_transition (state_value a) (lw_stages ! ev_stage e) (outcome_text (ev_outcome e))
        (ev_reason e) (ev_evidence e) = Inr (state_value a')
    | None \<Rightarrow> \<not> is_ok (lw_apply_transition (state_value a) (lw_stages ! ev_stage e) (outcome_text (ev_outcome e))
        (ev_reason e) (ev_evidence e))"
  using apply_accepts[OF reach_typed[OF assms(1)] assms(2)] apply_rejects[OF reach_typed[OF assms(1)] assms(2)]
  by (simp split: option.split)

theorem workflow_refines_machine_witness:
  "\<not> is_ok (lw_apply_transition (state_value sample_complete) (lw_stages ! 8) ''running'' [] (PDict []))"
proof -
  define e where "e = \<lparr>ev_stage = 8, ev_outcome = Running, ev_reason = [], ev_evidence = PDict []\<rparr>"
  have "event_typed e" "lw_next e sample_complete = None" unfolding e_def by code_simp+
  with workflow_refines_machine[OF sample_reach \<open>event_typed e\<close>] show ?thesis by (simp add: e_def)
qed

text \<open>C16: A persisted state is accepted only if some lawful sequence of transitions from the initial state produces a state equal to it, so an edited status, stage record or event list is refused.\<close>

theorem workflow_accepts_only_runs:
  assumes "lw_validated_copy s run = Inr t"
  shows "t = s \<and> (\<exists>a. lw_reach run a \<and> py_eq (state_value a) s)"
  using validated_reach[OF assms] by simp

theorem workflow_accepts_only_runs_witness:
  "\<exists>a. lw_reach ''r1'' a \<and> py_eq (state_value a) (state_value sample_complete)"
  using workflow_accepts_only_runs[OF sample_validated] by blast

text \<open>C17: Whatever a run of transitions stores is accepted when it is read back, unchanged, as long as its evidence holds no float outside the finite ones.\<close>

theorem workflow_state_roundtrip:
  assumes "lw_run run ops None = Inr (Some s)" and "list_all (\<lambda>(stage, outcome, reason, ev). clean ev) ops"
  shows "validate_learning_workflow_state s = Inr s"
proof -
  have "lw_at run None (lw_start (strip run))" by (simp add: lw_at_def lw_reach_start)
  from run_clean[OF assms(1) this start_clean assms(2)] obtain b where
    b: "lw_reach (strip run) b" "s = state_value b" "state_clean b" by (auto simp: lw_at_def)
  from reach_validated[OF b(1,3)] b(2) show ?thesis
    by (simp add: validate_learning_workflow_state_def state_value_header reach_run_id[OF b(1)])
qed

definition sample_ops :: "lw_op list" where
  "sample_ops = [(''bind_capture'', ''running'', [], PDict []),
     (''bind_capture'', ''completed'', [], PDict [(''image_path'', PStr ''a.png'')])]"

theorem workflow_state_roundtrip_witness:
  "\<exists>s. lw_run ''r1'' sample_ops None = Inr (Some s) \<and> validate_learning_workflow_state s = Inr s"
proof -
  have "(case lw_run ''r1'' sample_ops None of Inr (Some s) \<Rightarrow> True | _ \<Rightarrow> False)" by code_simp
  then obtain s where s: "lw_run ''r1'' sample_ops None = Inr (Some s)" by (auto split: sum.splits option.splits)
  have "list_all (\<lambda>(stage, outcome, reason, ev). clean ev) sample_ops" by code_simp
  with workflow_state_roundtrip[OF s] s show ?thesis by blast
qed

text \<open>In any accepted state, every stage before the current one is completed and every stage after it is still pending: no stage is skipped or revisited.\<close>

theorem workflow_stage_order:
  assumes "lw_validated_copy s run = Inr t" and "pget s ''current_stage'' = PStr (lw_stages ! c)" and "c < 9"
  shows "(\<forall>i < c. pget (pget (pget s ''stages'') (lw_stages ! i)) ''status'' = PStr ''completed'')
    \<and> (\<forall>i. c < i \<and> i < 9 \<longrightarrow> pget (pget (pget s ''stages'') (lw_stages ! i)) ''status'' = PStr ''pending'')"
proof -
  from validated_reach(2)[OF assms(1)] obtain a where a: "lw_reach run a" "py_eq (state_value a) s" by blast
  have cur: "lw_current a = Some c"
  proof (cases "lw_current a")
    case None
    with flow_of(3)[OF a(2)] assms(2) show ?thesis by simp
  next
    case (Some d)
    with flow_of(2)[OF a(2)] assms(2,3) reach_typed[OF a(1)] show ?thesis by (simp add: lw_typed_def)
  qed
  with reach_lawful[OF a(1)] have "\<forall>i < c. stage_status a i = Some Completed"
    "\<forall>i. c < i \<and> i < 9 \<longrightarrow> stage_status a i = None" by (simp_all add: lw_lawful_def)
  with status_of(1)[OF a] assms(3) show ?thesis by simp
qed

theorem workflow_stage_order_witness:
  "pget (pget (pget (state_value sample_complete) ''stages'') (lw_stages ! 3)) ''status'' = PStr ''completed''"
  using workflow_stage_order[OF sample_validated sample_status(2)] by simp

text \<open>C18: An accepted state whose workflow is completed has every stage completed, and each of them holds all its required evidence fields as texts that are not blank.\<close>

theorem workflow_completion_has_evidence:
  assumes "lw_validated_copy s run = Inr t" and "pget s ''workflow_status'' = PStr ''completed''" and "i < 9"
  shows "pget (pget (pget s ''stages'') (lw_stages ! i)) ''status'' = PStr ''completed''
    \<and> evidence_complete i (pget (pget (pget s ''stages'') (lw_stages ! i)) ''evidence_refs'')"
proof -
  from validated_reach(2)[OF assms(1)] obtain a where a: "lw_reach run a" "py_eq (state_value a) s" by blast
  have "lw_flow a = Some Completed"
    using flow_of(1)[OF a(2)] assms(2) by (cases "lw_flow a"; cases "the (lw_flow a)") simp_all
  moreover from calculation reach_lawful[OF a(1)] obtain c where "lw_current a = Some c"
    by (cases "lw_current a") (auto simp: lw_lawful_def)
  ultimately have c: "c = 8" "stage_status a 8 = Some Completed" "\<forall>j < 8. stage_status a j = Some Completed"
    using reach_lawful[OF a(1)] by (auto simp: lw_lawful_def)
  with assms(3) have status: "stage_status a i = Some Completed" by (cases "i = 8") simp_all
  moreover have "evidence_complete i (st_evidence (lw_stage_list a ! i))"
    using reach_lawful[OF a(1)] status assms(3) by (simp add: lw_lawful_def)
  moreover have "is_dict (st_evidence (lw_stage_list a ! i))"
    using reach_typed[OF a(1)] assms(3) by (simp add: lw_typed_def list_all_length)
  ultimately show ?thesis
    using status_of[OF a assms(3)] evidence_transfer by simp
qed

theorem workflow_completion_has_evidence_witness:
  "evidence_complete 4 (pget (pget (pget (state_value sample_complete) ''stages'') (lw_stages ! 4)) ''evidence_refs'')"
  using workflow_completion_has_evidence[OF sample_validated sample_status(1), of 4] by simp

text \<open>Once a run has failed, stopped safely or completed, no further transition is accepted, whatever its stage, outcome or evidence.\<close>

theorem workflow_end_is_final:
  assumes "lw_run run ops None = Inr (Some s)" and "pget s ''terminal'' = PBool True"
  shows "\<not> is_ok (transition_learning_workflow_state (Some s) run stage outcome reason evidence)"
proof -
  have "lw_inv run None" by (simp add: lw_inv_def)
  from lw.run_inv[OF this] assms(1) have "lw_inv run (Some s)" by (simp add: lw_run_def)
  from lw_end.stopped_step[OF this, of "(stage, outcome, reason, evidence)"] assms(2)
  show ?thesis by (auto simp: lw_ended_def is_ok_iff)
qed

definition failed_ops :: "lw_op list" where
  "failed_ops = [(''bind_capture'', ''running'', [], PDict []),
     (''bind_capture'', ''failed'', ''window lost'', PDict [])]"

theorem workflow_end_is_final_witness:
  "\<exists>s. lw_run ''r1'' failed_ops None = Inr (Some s)
     \<and> \<not> is_ok (transition_learning_workflow_state (Some s) ''r1'' ''bind_capture'' ''running'' [] (PDict []))"
proof -
  have "(case lw_run ''r1'' failed_ops None of Inr (Some s) \<Rightarrow> pget s ''terminal'' = PBool True | _ \<Rightarrow> False)"
    by code_simp
  then obtain s where s: "lw_run ''r1'' failed_ops None = Inr (Some s)" "pget s ''terminal'' = PBool True"
    by (auto split: sum.splits option.splits)
  with workflow_end_is_final[OF s] show ?thesis by blast
qed

section \<open>Progress\<close>

text \<open>The status of the workflow follows from the stage it is in.\<close>

lemma reach_flow:
  "lw_reach run a \<Longrightarrow> case lw_current a of None \<Rightarrow> lw_flow a = None
    | Some c \<Rightarrow> c < 9 \<and> (\<exists>oc. stage_status a c = Some oc
        \<and> lw_flow a = Some (if oc = Completed \<and> c \<noteq> 8 then Running else oc))"
proof (induction rule: lw_reach.induct)
  case lw_reach_start
  show ?case by (simp add: lw_start_def)
next
  case (lw_reach_next a e a')
  have e: "a' = lw_enter e a" using lw_reach_next.hyps(3) by (auto simp: lw_next_def split: if_splits)
  have "ev_stage e < 9" using lw_reach_next.hyps(2) by (simp add: event_typed_def)
  then show ?case
    using enter_status(1)[OF reach_typed[OF lw_reach_next.hyps(1)] lw_reach_next.hyps(2), of "ev_stage e"] by (simp add: e)
qed

definition entering :: "nat \<Rightarrow> lw_event" where
  "entering i = \<lparr>ev_stage = i, ev_outcome = Running, ev_reason = [], ev_evidence = PDict []\<rparr>"

definition completing :: "nat \<Rightarrow> lw_event" where
  "completing i = \<lparr>ev_stage = i, ev_outcome = Completed, ev_reason = [], ev_evidence = sample_evidence i\<rparr>"

lemma progress_typed: "i < 9 \<Longrightarrow> event_typed (entering i)" "i < 9 \<Longrightarrow> event_typed (completing i)"
  by (simp_all add: event_typed_def entering_def completing_def sample_evidence_def)

lemma sample_evidence_fits: "i < 9 \<Longrightarrow> evidence_complete i (sample_evidence i)"
proof -
  have "list_all (\<lambda>i. evidence_complete i (sample_evidence i)) [0..<9]" by code_simp
  then show "i < 9 \<Longrightarrow> evidence_complete i (sample_evidence i)" by (simp add: list_all_iff)
qed

lemma progress_clean: "i < 9 \<Longrightarrow> clean (ev_evidence (entering i))" "i < 9 \<Longrightarrow> clean (ev_evidence (completing i))"
proof -
  have "list_all (\<lambda>i. clean (ev_evidence (entering i)) \<and> clean (ev_evidence (completing i))) [0..<9]" by code_simp
  then show "i < 9 \<Longrightarrow> clean (ev_evidence (entering i))" "i < 9 \<Longrightarrow> clean (ev_evidence (completing i))"
    by (simp_all add: list_all_iff)
qed

text \<open>A run of the machine to completion, in at most \<open>n\<close> events of clean evidence.\<close>

definition completes_in :: "nat \<Rightarrow> lw_state \<Rightarrow> bool" where
  "completes_in n a = (\<exists>es b. length es \<le> n \<and> lw_play es a = Some b \<and> lw_flow b = Some Completed
     \<and> list_all (\<lambda>e. clean (ev_evidence e)) es)"

lemma completes_step:
  assumes "event_typed e" and "lw_next e a = Some a'" and "clean (ev_evidence e)" and "completes_in n a'"
  shows "completes_in (Suc n) a"
proof -
  from assms(4) obtain es b where "length es \<le> n" "lw_play es a' = Some b" "lw_flow b = Some Completed"
      "list_all (\<lambda>e. clean (ev_evidence e)) es" by (auto simp: completes_in_def)
  with assms(1-3) show ?thesis unfolding completes_in_def by (intro exI[of _ "e # es"] exI[of _ b]) simp
qed

lemma enter_next:
  assumes "lw_reach run a" and "i < 9" and "case lw_current a of None \<Rightarrow> i = 0
      | Some c \<Rightarrow> i = Suc c \<and> stage_status a c = Some Completed"
  shows "lw_next (entering i) a = Some (lw_enter (entering i) a)"
  using reach_flow[OF assms(1)] assms(2,3)
  by (auto simp: lw_next_def lw_stopped_def order_ok_def event_ok_def entering_def stage_status_def split: option.splits if_splits)

lemma complete_next:
  assumes "lw_reach run a" and "lw_current a = Some i" and "stage_status a i = Some Running"
  shows "lw_next (completing i) a = Some (lw_enter (completing i) a)"
  using reach_flow[OF assms(1)] assms(2,3) sample_evidence_fits[of i]
  by (auto simp: lw_next_def lw_stopped_def order_ok_def event_ok_def completing_def stage_status_def)

definition completes_from :: "string \<Rightarrow> nat \<Rightarrow> lw_outcome \<Rightarrow> nat \<Rightarrow> bool" where
  "completes_from run i oc n = (\<forall>a. lw_reach run a \<and> lw_current a = Some i \<and> stage_status a i = Some oc
     \<longrightarrow> completes_in n a)"

lemma completes_fromD:
  "completes_from run i oc n \<Longrightarrow> lw_reach run a \<Longrightarrow> lw_current a = Some i \<Longrightarrow> stage_status a i = Some oc \<Longrightarrow> completes_in n a"
  by (simp add: completes_from_def)

lemma running_completes:
  assumes "completes_from run i Completed n"
  shows "completes_from run i Running (Suc n)"
  unfolding completes_from_def
proof (intro allI impI, elim conjE)
  fix a
  assume a: "lw_reach run a" "lw_current a = Some i" "stage_status a i = Some Running"
  have i: "i < 9" using reach_flow[OF a(1)] a(2) by simp
  note step = complete_next[OF a]
  let ?b = "lw_enter (completing i) a"
  have "lw_reach run ?b" by (rule lw_reach_next[OF a(1) progress_typed(2)[OF i] step])
  moreover have "lw_current ?b = Some i" "stage_status ?b i = Some Completed"
    using enter_status(1)[OF reach_typed[OF a(1)] progress_typed(2)[OF i] i] by (simp_all add: completing_def)
  ultimately have "completes_in n ?b" by (rule completes_fromD[OF assms])
  with completes_step[OF progress_typed(2)[OF i] step progress_clean(2)[OF i]] show "completes_in (Suc n) a" by simp
qed

lemma entering_completes:
  assumes "completes_from run i Running n"
    and "lw_reach run a" and "i < 9" and "lw_next (entering i) a = Some (lw_enter (entering i) a)"
  shows "completes_in (Suc n) a"
proof -
  let ?b = "lw_enter (entering i) a"
  have "lw_reach run ?b" by (rule lw_reach_next[OF assms(2) progress_typed(1)[OF assms(3)] assms(4)])
  moreover have "lw_current ?b = Some i" "stage_status ?b i = Some Running"
    using enter_status(1)[OF reach_typed[OF assms(2)] progress_typed(1)[OF assms(3)] assms(3)] by (simp_all add: entering_def)
  ultimately have "completes_in n ?b" by (rule completes_fromD[OF assms(1)])
  with completes_step[OF progress_typed(1)[OF assms(3)] assms(4) progress_clean(1)[OF assms(3)]] show ?thesis by simp
qed

lemma completed_completes: "c + k = 8 \<Longrightarrow> completes_from run c Completed (2 * k)"
proof (induction k arbitrary: c)
  case 0
  show ?case
    unfolding completes_from_def
  proof (intro allI impI, elim conjE)
    fix a
    assume "lw_reach run a" "lw_current a = Some c" "stage_status a c = Some Completed"
    with reach_flow[of run a] 0 show "completes_in (2 * 0) a"
      unfolding completes_in_def by (intro exI[of _ "[]"] exI[of _ a]) simp
  qed
next
  case (Suc k)
  show ?case
    unfolding completes_from_def
  proof (intro allI impI, elim conjE)
    fix a
    assume a: "lw_reach run a" "lw_current a = Some c" "stage_status a c = Some Completed"
    have sum: "Suc c + k = 8" and c: "Suc c < 9" using Suc.prems by simp_all
    have "lw_next (entering (Suc c)) a = Some (lw_enter (entering (Suc c)) a)"
      using enter_next[OF a(1) c] a(2,3) by simp
    from entering_completes[OF running_completes[OF Suc.IH[OF sum]] a(1) c this]
    show "completes_in (2 * Suc k) a" by simp
  qed
qed

lemma completes_mono:
  assumes "completes_in n a" and "n \<le> m"
  shows "completes_in m a"
proof -
  from assms(1) obtain es b where "length es \<le> n" "lw_play es a = Some b" "lw_flow b = Some Completed"
      "list_all (\<lambda>e. clean (ev_evidence e)) es" by (auto simp: completes_in_def)
  with assms(2) show ?thesis unfolding completes_in_def by (intro exI[of _ es] exI[of _ b]) simp
qed

lemma reach_completes:
  assumes "lw_reach run a" and "\<not> lw_stopped a"
  shows "completes_in 18 a"
proof (cases "lw_current a")
  case None
  have sum: "0 + 8 = (8 :: nat)" by simp
  have "lw_next (entering 0) a = Some (lw_enter (entering 0) a)"
    using enter_next[OF assms(1), of 0] None by simp
  from entering_completes[OF running_completes[OF completed_completes[OF sum]] assms(1) _ this]
  show ?thesis by simp
next
  case (Some c)
  with reach_flow[OF assms(1)] obtain oc where c: "c < 9" "stage_status a c = Some oc"
      "lw_flow a = Some (if oc = Completed \<and> c \<noteq> 8 then Running else oc)" by auto
  have sum: "c + (8 - c) = 8" using c(1) by simp
  from c assms(2) consider "oc = Running" | "oc = Completed" by (cases oc) (auto simp: lw_stopped_def)
  then show ?thesis
  proof cases
    case 1
    from completes_fromD[OF running_completes[OF completed_completes[OF sum]] assms(1) Some] c(2) 1
    have "completes_in (Suc (2 * (8 - c))) a" by simp
    then show ?thesis by (rule completes_mono) simp
  next
    case 2
    from completes_fromD[OF completed_completes[OF sum] assms(1) Some] c(2) 2
    have "completes_in (2 * (8 - c)) a" by simp
    then show ?thesis by (rule completes_mono) simp
  qed
qed

text \<open>What the machine plays, the code runs.\<close>

definition event_op :: "lw_event \<Rightarrow> lw_op" where
  "event_op e = (lw_stages ! ev_stage e, outcome_text (ev_outcome e), ev_reason e, ev_evidence e)"

lemma event_step:
  assumes "lw_at run prev a" and "state_clean a" and "strip run \<noteq> []" and "event_typed e" and "lw_next e a = Some a'"
  shows "lw_step run (event_op e) prev = Inr (Some (state_value a'))"
proof -
  have reach: "lw_reach (strip run) a" using assms(1) by (simp add: lw_at_def)
  have run: "lw_apply_transition (state_value a) (lw_stages ! ev_stage e) (outcome_text (ev_outcome e)) (ev_reason e)
      (ev_evidence e) = Inr (state_value a')"
    by (rule apply_accepts[OF reach_typed[OF reach] assms(4,5)])
  have stage: "lw_stages ! ev_stage e \<in> set lw_stages" using assms(4) by (simp add: event_typed_def)
  show ?thesis
  proof (cases prev)
    case None
    then have "a = lw_start (strip run)" using assms(1) by (simp add: lw_at_def)
    with None run stage assms(3) show ?thesis
      by (simp add: event_op_def transition_learning_workflow_state_def initial_value)
  next
    case (Some s)
    then have "s = state_value a" using assms(1) by (simp add: lw_at_def)
    with Some run stage assms(3) reach_validated[OF reach assms(2)] show ?thesis
      by (simp add: event_op_def transition_learning_workflow_state_def)
  qed
qed

lemma play_run:
  "lw_at run prev a \<Longrightarrow> state_clean a \<Longrightarrow> strip run \<noteq> [] \<Longrightarrow> lw_play es a = Some b \<Longrightarrow> es \<noteq> [] \<Longrightarrow>
    list_all (\<lambda>e. clean (ev_evidence e)) es \<Longrightarrow> lw_run run (map event_op es) prev = Inr (Some (state_value b))"
proof (induction es arbitrary: prev a)
  case (Cons e es)
  then obtain a' where e: "event_typed e" "lw_next e a = Some a'" "lw_play es a' = Some b"
    by (auto split: if_splits option.splits)
  have step: "lw_step run (event_op e) prev = Inr (Some (state_value a'))"
    by (rule event_step[OF Cons.prems(1-3) e(1,2)])
  have at: "lw_at run (Some (state_value a')) a'"
    using lw_reach_next[OF _ e(1,2)] Cons.prems(1) by (simp add: lw_at_def)
  have clean: "state_clean a'" using next_clean[OF e(2) Cons.prems(2)] Cons.prems(6) by simp
  show ?case
  proof (cases "es = []")
    case True
    with step e(3) show ?thesis by (simp add: lw_run_def)
  next
    case False
    with Cons.IH[OF at clean Cons.prems(3) e(3)] Cons.prems(6) step show ?thesis by (simp add: lw_run_def)
  qed
qed simp

text \<open>C19: A workflow that has not ended can be completed: from any state reached by a run of transitions for a run id that is not blank, with evidence that Python can hold and that has no infinite or undefined float, at most 18 further transitions, each accepted, lead to the status completed.\<close>

theorem workflow_can_complete:
  assumes "lw_run run ops None = Inr prev" and "strip run \<noteq> []" and "list_all (\<lambda>(s, c, r, ev). clean ev) ops"
    and "\<not> lw_ended prev"
  shows "\<exists>more s. length more \<le> 18 \<and> lw_run run (ops @ more) None = Inr (Some s)
    \<and> pget s ''workflow_status'' = PStr ''completed''"
proof -
  have "lw_at run None (lw_start (strip run))" by (simp add: lw_at_def lw_reach_start)
  from run_clean[OF assms(1) this start_clean assms(3)] obtain a where a: "lw_at run prev a" "state_clean a" by blast
  have "\<not> lw_stopped a"
    using a(1) assms(4) by (auto simp: lw_at_def lw_ended_def state_value_header lw_stopped_def lw_start_def)
  with reach_completes a(1) have "completes_in 18 a" by (auto simp: lw_at_def)
  then obtain es b where es: "length es \<le> 18" "lw_play es a = Some b" "lw_flow b = Some Completed"
      "list_all (\<lambda>e. clean (ev_evidence e)) es" by (auto simp: completes_in_def)
  have "es \<noteq> []" using es(2,3) \<open>\<not> lw_stopped a\<close> by (auto simp: lw_stopped_def)
  from play_run[OF a assms(2) es(2) this es(4)]
  have "lw_run run (ops @ map event_op es) None = Inr (Some (state_value b))"
    using assms(1) by (simp add: lw_run_def fold_res_append)
  moreover have "pget (state_value b) ''workflow_status'' = PStr ''completed''"
    using es(3) by (simp add: state_value_header)
  ultimately show ?thesis using es(1) by (intro exI[of _ "map event_op es"] exI[of _ "state_value b"]) simp
qed

theorem workflow_can_complete_witness:
  "\<exists>more s. length more \<le> 18 \<and> lw_run ''r1'' more None = Inr (Some s)
    \<and> pget s ''workflow_status'' = PStr ''completed''"
proof -
  have "lw_run ''r1'' [] None = Inr None" by (simp add: lw_run_def)
  moreover have "strip ''r1'' \<noteq> []" by code_simp
  ultimately show ?thesis using workflow_can_complete[of "''r1''" "[]" None] by (simp add: lw_ended_def)
qed

end
