(* ===== verification/SessionResources.thy ===== *)
theory SessionResources
  imports PyJson Machines
begin

text \<open>
  The resource journal of \<^verbatim>\<open>app/execution/session_resources.py\<close>: which model processes a
  session started, how far each launch got and who owns it. A change is made on a copy,
  validated, published to the file and only then kept in memory. The file system is a
  parameter: \<open>renv\<close> names the session directory and says which paths resolve inside it, and
  each change is told whether its publication succeeds.
\<close>

section \<open>Validation\<close>

record renv =
  root_name :: string
  resolves_inside :: "string \<Rightarrow> bool"

definition sr_error :: pyexc where
  "sr_error = ValueError ''session_resources_invalid_contract''"

definition sr_require :: "bool \<Rightarrow> unit res" where
  "sr_require condition = ensure condition sr_error"

definition sr_policy :: pyval where
  "sr_policy = PDict [(''kill_on_job_close'', PBool True), (''breakaway_ok'', PBool False),
     (''silent_breakaway_ok'', PBool False), (''owner_handle_authority'', PStr ''registry_parent'')]"

definition sr_phases :: "string list" where
  "sr_phases = [''registered'', ''scope_starting'', ''scope_acquired'', ''launch_starting'',
     ''launch_registered'', ''ready'', ''closed'']"

definition text_in :: "pyval \<Rightarrow> string list \<Rightarrow> bool" where
  "text_in v names = (case v of PStr s \<Rightarrow> s \<in> set names | _ \<Rightarrow> False)"

definition positive_int :: "pyval \<Rightarrow> bool" where
  "positive_int v = (case v of PInt i \<Rightarrow> 0 < i | _ \<Rightarrow> False)"

definition positive_finite :: "pyval \<Rightarrow> bool" where
  "positive_finite v = (case v of PInt i \<Rightarrow> 0 < i | PFloat (Fin x) \<Rightarrow> 0 < x | _ \<Rightarrow> False)"

definition sr_identity :: "pyval \<Rightarrow> string \<Rightarrow> unit res" where
  "sr_identity value clock =
     rbind (sr_require (is_dict value \<and> keys_are value [''pid'', clock])) (\<lambda>_.
     rbind (sr_require (positive_int (pget value ''pid''))) (\<lambda>_.
     if clock = ''created'' then sr_require (positive_finite (pget value clock))
     else sr_require (positive_int (pget value clock))))"

text \<open>\<^verbatim>\<open>PurePosixPath(path).parts\<close> and \<^verbatim>\<open>as_posix()\<close>: empty and \<^verbatim>\<open>.\<close> components drop out.\<close>

fun split_slash :: "string \<Rightarrow> string list" where
  "split_slash [] = [[]]"
| "split_slash (c # cs) = (if c = CHR ''/'' then [] # split_slash cs
     else (case split_slash cs of [] \<Rightarrow> [[c]] | p # ps \<Rightarrow> (c # p) # ps))"

definition posix_root :: "string \<Rightarrow> string" where
  "posix_root path = (if starts_with ''///'' path then ''/'' else if starts_with ''//'' path then ''//''
     else if starts_with ''/'' path then ''/'' else [])"

definition posix_names :: "string \<Rightarrow> string list" where
  "posix_names path = filter (\<lambda>p. p \<noteq> [] \<and> p \<noteq> ''.'') (split_slash path)"

definition posix_parts :: "string \<Rightarrow> string list" where
  "posix_parts path = (if posix_root path = [] then [] else [posix_root path]) @ posix_names path"

definition as_posix :: "string \<Rightarrow> string" where
  "as_posix path = (if posix_root path = [] \<and> posix_names path = [] then ''.''
     else posix_root path @ join ''/'' (posix_names path))"

definition sr_scope_name :: "string \<Rightarrow> string" where
  "sr_scope_name rid = ''Local'' @ [CHR 92] @ ''AgentGuiNativeModel-'' @ sha256_hex (utf8 rid)"

definition sr_pid_file_ok :: "renv \<Rightarrow> string \<Rightarrow> pyval \<Rightarrow> bool" where
  "sr_pid_file_ok env rid v = (case v of
       PStr path \<Rightarrow> CHR 92 \<notin> set path
         \<and> (let parts = posix_parts path in
              length parts = 5
              \<and> take 4 parts = [''runtime-output'', ''model-services'', rid, ''model-server-pids'']
              \<and> ends_with ''.pid'' (parts ! 4) \<and> parts ! 4 \<noteq> ''.pid'' \<and> as_posix path = path)
         \<and> resolves_inside env path
     | _ \<Rightarrow> False)"

definition sr_policy_ok :: "pyval \<Rightarrow> bool" where
  "sr_policy_ok v = (v = PNone \<or> py_eq v sr_policy
     \<and> is_bool (pget v ''kill_on_job_close'') \<and> is_bool (pget v ''breakaway_ok'')
     \<and> is_bool (pget v ''silent_breakaway_ok''))"

text \<open>The member lists: identities, each process once.\<close>

fun sr_members :: "(pyval \<times> pyval) list \<Rightarrow> pyval list \<Rightarrow> unit res" where
  "sr_members seen [] = Inr ()"
| "sr_members seen (member # members) =
     rbind (sr_identity member ''create_time_ns'') (\<lambda>_.
     let key = (pget member ''pid'', pget member ''create_time_ns'') in
     rbind (sr_require (key \<notin> set seen)) (\<lambda>_. sr_members (key # seen) members))"

text \<open>The phase that decides which facts must be known: for a closed resource, the one it was closed from.\<close>

definition sr_known_phase :: "pyval \<Rightarrow> string" where
  "sr_known_phase model = (case pget model ''phase'' of
       PStr p \<Rightarrow> if p = ''closed'' then (case pget model ''closed_from_phase'' of PStr q \<Rightarrow> q | _ \<Rightarrow> []) else p
     | _ \<Rightarrow> [])"

definition sr_resource_keys :: "string list" where
  "sr_resource_keys = [''scope_name'', ''pid_file'', ''phase'', ''ownership'', ''policy'', ''member_identities'',
     ''cleanup_member_identities'', ''closed_from_phase'', ''pending_request_id'']"

definition sr_validate_resource :: "renv \<Rightarrow> string \<times> pyval \<Rightarrow> unit res" where
  "sr_validate_resource env entry = (case entry of (rid, model) \<Rightarrow>
     rbind (sr_require (hex_re 32 rid)) (\<lambda>_.
     rbind (sr_require (is_dict model \<and> keys_are model sr_resource_keys)) (\<lambda>_.
     rbind (sr_require (pget model ''scope_name'' = PStr (sr_scope_name rid))) (\<lambda>_.
     rbind (sr_require (sr_pid_file_ok env rid (pget model ''pid_file''))) (\<lambda>_.
     let ownership = pget model ''ownership''; policy = pget model ''policy'';
         closed_from = pget model ''closed_from_phase'' in
     rbind (sr_require (text_in (pget model ''phase'') sr_phases
        \<and> (ownership = PNone \<or> text_in ownership [''owned'', ''external'']))) (\<lambda>_.
     rbind (sr_require (sr_policy_ok policy)) (\<lambda>_.
     rbind (if pget model ''phase'' = PStr ''closed''
        then sr_require (text_in closed_from sr_phases \<and> closed_from \<noteq> PStr ''closed'')
        else sr_require (closed_from = PNone)) (\<lambda>_.
     let phase = sr_known_phase model; members = pget model ''member_identities'';
         cleanup_members = pget model ''cleanup_member_identities'';
         pending = pget model ''pending_request_id'' in
     rbind (sr_require (is_list members)) (\<lambda>_.
     rbind (sr_members [] (plist members)) (\<lambda>_.
     rbind (sr_require (is_list cleanup_members)) (\<lambda>_.
     rbind (sr_members [] (plist cleanup_members)) (\<lambda>_.
     rbind (sr_require (plist cleanup_members = [] \<or> ownership = PStr ''owned''
        \<and> phase \<in> {''scope_acquired'', ''launch_starting'', ''launch_registered'', ''ready''})) (\<lambda>_.
     rbind (sr_require (pending = PNone \<or> (is_str pending \<and> \<not> blank (py_str pending)))) (\<lambda>_.
     rbind (sr_require (pending = PNone \<or> pget model ''phase'' = PStr ''ready'')) (\<lambda>_.
     if phase \<in> {''registered'', ''scope_starting''} then
       sr_require (ownership = PNone \<and> policy = PNone \<and> plist members = [])
     else if phase \<in> {''scope_acquired'', ''launch_starting'', ''launch_registered''} then
       rbind (sr_require (ownership = PStr ''owned'' \<and> py_eq policy sr_policy)) (\<lambda>_.
       sr_require ((plist members \<noteq> []) = (phase = ''launch_registered'')))
     else
       rbind (sr_require (ownership = PStr ''owned'' \<or> ownership = PStr ''external'')) (\<lambda>_.
       rbind (sr_require (ownership \<noteq> PStr ''owned'' \<or> py_eq policy sr_policy \<and> plist members \<noteq> [])) (\<lambda>_.
       sr_require (ownership \<noteq> PStr ''external'' \<or> policy = PNone \<and> plist members \<noteq> []))))))))))))))))))"

definition sr_validate :: "renv \<Rightarrow> pyval \<Rightarrow> pyval res" where
  "sr_validate env state =
     rbind (sr_require (is_dict state \<and> keys_are state [''contract_version'', ''session_name'',
        ''recognition_source'', ''host_identity'', ''runner_identity'', ''phase'', ''resources''])) (\<lambda>_.
     rbind (sr_require (pget state ''contract_version'' = PStr ''session_resources.v1''
        \<and> pget state ''session_name'' = PStr (root_name env))) (\<lambda>_.
     rbind (sr_require (is_str (pget state ''recognition_source'')
        \<and> \<not> blank (py_str (pget state ''recognition_source'')))) (\<lambda>_.
     rbind (sr_identity (pget state ''host_identity'') ''created'') (\<lambda>_.
     rbind (sr_identity (pget state ''runner_identity'') ''create_time_ns'') (\<lambda>_.
     rbind (sr_require (text_in (pget state ''phase'') [''initializing'', ''ready'']
        \<and> is_dict (pget state ''resources''))) (\<lambda>_.
     rbind (each (sr_validate_resource env) (pitems (pget state ''resources''))) (\<lambda>_.
     Inr state)))))))"

section \<open>The journal\<close>

record journal =
  jr_memory :: pyval
  jr_file :: pyval

definition jr_create :: "renv \<Rightarrow> bool \<Rightarrow> string \<Rightarrow> pyval \<Rightarrow> pyval \<Rightarrow> bool \<Rightarrow> journal res" where
  "jr_create env exists recognition_source host_identity runner_identity published =
     rbind (sr_require (\<not> exists)) (\<lambda>_.
     let state = PDict [(''contract_version'', PStr ''session_resources.v1''),
       (''session_name'', PStr (root_name env)), (''recognition_source'', PStr recognition_source),
       (''host_identity'', host_identity), (''runner_identity'', runner_identity),
       (''phase'', PStr ''initializing''), (''resources'', PDict [])] in
     rbind (sr_validate env state) (\<lambda>state.
     if \<not> published then Inl OSError else Inr \<lparr>jr_memory = state, jr_file = state\<rparr>))"

text \<open>\<^verbatim>\<open>_change\<close>: memory follows the file, and a change that fails anywhere leaves both.\<close>

definition jr_change :: "renv \<Rightarrow> bool \<Rightarrow> (pyval \<Rightarrow> pyval res) \<Rightarrow> journal \<Rightarrow> unit res \<times> journal" where
  "jr_change env published operation j =
     (case operation (jr_memory j) of
        Inl e \<Rightarrow> (Inl e, j)
      | Inr state \<Rightarrow> (case sr_validate env state of
          Inl e \<Rightarrow> (Inl e, j)
        | Inr state \<Rightarrow>
            if py_eq state (jr_memory j) then (Inr (), j)
            else if \<not> published then (Inl OSError, j)
            else (Inr (), j\<lparr>jr_memory := state, jr_file := state\<rparr>)))"

text \<open>
  The operations, as changes of the state dictionary. Subscripts read keys that validation
  put there, so they cannot raise on a journal.
\<close>

definition sr_register_model :: "string \<Rightarrow> string \<Rightarrow> string res \<Rightarrow> pyval \<Rightarrow> pyval res" where
  "sr_register_model resource_id scope_name relative state =
     rbind (sr_require (hex_re 32 resource_id)) (\<lambda>_.
     rbind relative (\<lambda>relative.
     rbind (sr_require (\<not> phas (pget state ''resources'') resource_id)) (\<lambda>_.
     Inr (pset ''resources'' (pset resource_id (PDict
       [(''scope_name'', PStr scope_name), (''pid_file'', PStr relative), (''phase'', PStr ''registered''),
        (''ownership'', PNone), (''policy'', PNone), (''member_identities'', PList []),
        (''cleanup_member_identities'', PList []), (''closed_from_phase'', PNone),
        (''pending_request_id'', PNone)]) (pget state ''resources'')) state))))"

definition sr_model_change :: "string \<Rightarrow> (pyval \<Rightarrow> pyval res) \<Rightarrow> pyval \<Rightarrow> pyval res" where
  "sr_model_change rid operation state =
     rbind (sr_require (phas (pget state ''resources'') rid)) (\<lambda>_.
     rbind (operation (pget (pget state ''resources'') rid)) (\<lambda>model.
     Inr (pset ''resources'' (pset rid model (pget state ''resources'')) state)))"

definition sr_advance :: "string \<Rightarrow> string \<Rightarrow> (string \<times> pyval) list \<Rightarrow> pyval \<Rightarrow> pyval res" where
  "sr_advance original target updates model =
     rbind (sr_require (pget model ''phase'' = PStr original)) (\<lambda>_.
     Inr (pset ''phase'' (PStr target) (fold (\<lambda>(k, x). pset k x) updates model)))"

definition sr_model_scope_acquired :: "pyval \<Rightarrow> pyval \<Rightarrow> pyval res" where
  "sr_model_scope_acquired policy model =
     rbind (sr_require (py_eq policy sr_policy)) (\<lambda>_.
     sr_advance ''scope_starting'' ''scope_acquired'' [(''ownership'', PStr ''owned''), (''policy'', policy)] model)"

definition sr_model_process_created :: "pyval \<Rightarrow> pyval \<Rightarrow> pyval res" where
  "sr_model_process_created identity model =
     rbind (sr_identity identity ''create_time_ns'') (\<lambda>_.
     sr_advance ''launch_starting'' ''launch_registered'' [(''member_identities'', PList [identity])] model)"

text \<open>Add the identities a list does not hold yet.\<close>

fun sr_add_members :: "pyval list \<Rightarrow> pyval list \<Rightarrow> pyval list res" where
  "sr_add_members [] members = Inr members"
| "sr_add_members (identity # identities) members =
     rbind (sr_identity identity ''create_time_ns'') (\<lambda>_.
     sr_add_members identities (if py_in identity members then members else members @ [identity]))"

definition sr_model_ready :: "pyval \<Rightarrow> pyval list \<Rightarrow> pyval \<Rightarrow> pyval res" where
  "sr_model_ready ownership member_identities model =
     rbind (sr_require (pget model ''phase'' = PStr ''registered'' \<and> ownership = PStr ''external''
        \<or> (pget model ''phase'' = PStr ''launch_registered'' \<or> pget model ''phase'' = PStr ''ready'')
          \<and> py_eq (pget model ''ownership'') ownership)) (\<lambda>_.
     rbind (sr_add_members member_identities (plist (pget model ''member_identities''))) (\<lambda>members.
     Inr (pset ''ownership'' ownership (pset ''phase'' (PStr ''ready'')
       (pset ''member_identities'' (PList members) model)))))"

definition sr_model_request_started :: "pyval \<Rightarrow> pyval \<Rightarrow> pyval res" where
  "sr_model_request_started request_id model =
     rbind (sr_require (is_str request_id \<and> \<not> blank (py_str request_id))) (\<lambda>_.
     rbind (sr_require (pget model ''phase'' = PStr ''ready'' \<and> pget model ''pending_request_id'' = PNone)) (\<lambda>_.
     Inr (pset ''pending_request_id'' request_id model)))"

definition sr_model_request_finished :: "pyval \<Rightarrow> pyval \<Rightarrow> pyval res" where
  "sr_model_request_finished request_id model =
     rbind (sr_require (pget model ''phase'' = PStr ''ready'' \<and> is_str request_id
        \<and> pget model ''pending_request_id'' = request_id)) (\<lambda>_.
     Inr (pset ''pending_request_id'' PNone model))"

definition sr_model_closed :: "pyval \<Rightarrow> pyval res" where
  "sr_model_closed model =
     rbind (sr_require (pget model ''pending_request_id'' = PNone)) (\<lambda>_.
     if pget model ''phase'' \<noteq> PStr ''closed''
     then Inr (pset ''phase'' (PStr ''closed'') (pset ''closed_from_phase'' (pget model ''phase'') model))
     else Inr model)"

definition sr_model_cleanup :: "pyval list \<Rightarrow> pyval \<Rightarrow> pyval res" where
  "sr_model_cleanup identities model =
     rbind (sr_require (pget model ''ownership'' = PStr ''owned''
        \<and> text_in (pget model ''phase'') [''scope_acquired'', ''launch_starting'', ''launch_registered'', ''ready''])) (\<lambda>_.
     rbind (sr_add_members identities (plist (pget model ''cleanup_member_identities''))) (\<lambda>members.
     Inr (pset ''cleanup_member_identities'' (PList members) model)))"

datatype sr_op =
    RegisterModel string string "string res"
  | BeginScope string
  | ScopeAcquired string pyval
  | BeginLaunch string
  | ProcessCreated string pyval
  | ModelReady string pyval "pyval list"
  | RequestStarted string pyval
  | RequestFinished string pyval
  | ModelClosed string
  | CleanupObserved string "pyval list"
  | MarkReady

fun sr_apply :: "sr_op \<Rightarrow> pyval \<Rightarrow> pyval res" where
  "sr_apply (RegisterModel rid scope path) = sr_register_model rid scope path"
| "sr_apply (BeginScope rid) = sr_model_change rid (sr_advance ''registered'' ''scope_starting'' [])"
| "sr_apply (ScopeAcquired rid policy) = sr_model_change rid (sr_model_scope_acquired policy)"
| "sr_apply (BeginLaunch rid) = sr_model_change rid (sr_advance ''scope_acquired'' ''launch_starting'' [])"
| "sr_apply (ProcessCreated rid identity) = sr_model_change rid (sr_model_process_created identity)"
| "sr_apply (ModelReady rid ownership members) = sr_model_change rid (sr_model_ready ownership members)"
| "sr_apply (RequestStarted rid request) = sr_model_change rid (sr_model_request_started request)"
| "sr_apply (RequestFinished rid request) = sr_model_change rid (sr_model_request_finished request)"
| "sr_apply (ModelClosed rid) = sr_model_change rid sr_model_closed"
| "sr_apply (CleanupObserved rid identities) = sr_model_change rid (sr_model_cleanup identities)"
| "sr_apply MarkReady = (\<lambda>state. Inr (pset ''phase'' (PStr ''ready'') state))"

section \<open>What an operation may change\<close>

inductive phase_step :: "string \<Rightarrow> string \<Rightarrow> bool" where
  "phase_step ''registered'' ''scope_starting''"
| "phase_step ''scope_starting'' ''scope_acquired''"
| "phase_step ''scope_acquired'' ''launch_starting''"
| "phase_step ''launch_starting'' ''launch_registered''"
| "phase_step ''launch_registered'' ''ready''"
| "phase_step ''registered'' ''ready''"
| "p \<noteq> ''closed'' \<Longrightarrow> phase_step p ''closed''"

inductive_simps phase_step_closed [simp]: "phase_step ''closed'' p"

definition sr_phase :: "pyval \<Rightarrow> string" where
  "sr_phase model = py_str (pget model ''phase'')"

definition is_prefix :: "'a list \<Rightarrow> 'a list \<Rightarrow> bool" where
  "is_prefix xs ys = (take (length xs) ys = xs)"

lemma is_prefix_iff: "is_prefix xs ys \<longleftrightarrow> (\<exists>zs. ys = xs @ zs)"
  unfolding is_prefix_def by (metis append_eq_conv_conj append_take_drop_id)

text \<open>
  From one state of a resource to a later one: its names are fixed, its phase moves along
  \<open>phase_step\<close>, and members that were recorded stay recorded.
\<close>

definition sr_evolves :: "pyval \<Rightarrow> pyval \<Rightarrow> bool" where
  "sr_evolves m m' = (pget m' ''scope_name'' = pget m ''scope_name''
     \<and> pget m' ''pid_file'' = pget m ''pid_file''
     \<and> phase_step\<^sup>*\<^sup>* (sr_phase m) (sr_phase m')
     \<and> is_prefix (plist (pget m ''member_identities'')) (plist (pget m' ''member_identities''))
     \<and> is_prefix (plist (pget m ''cleanup_member_identities'')) (plist (pget m' ''cleanup_member_identities'')))"

definition sr_resource :: "pyval \<Rightarrow> string \<Rightarrow> pyval" where
  "sr_resource state rid = pget (pget state ''resources'') rid"

definition sr_has :: "pyval \<Rightarrow> string \<Rightarrow> bool" where
  "sr_has state rid = phas (pget state ''resources'') rid"

definition sr_reaches :: "pyval \<Rightarrow> pyval \<Rightarrow> bool" where
  "sr_reaches s s' = (\<forall>rid. sr_has s rid \<longrightarrow> sr_has s' rid \<and> sr_evolves (sr_resource s rid) (sr_resource s' rid))"

definition sr_valid :: "renv \<Rightarrow> pyval \<Rightarrow> bool" where
  "sr_valid env state = is_ok (sr_validate env state)"

lemma sr_require_iff [simp]: "sr_require c = Inr u \<longleftrightarrow> c"
  by (simp add: sr_require_def)

lemma sr_validate_same: "sr_validate env s = Inr t \<Longrightarrow> t = s"
  by (auto simp: sr_validate_def rbind_eq_Inr_iff)

lemma sr_valid_iff: "sr_valid env s \<longleftrightarrow> sr_validate env s = Inr s"
  using sr_validate_same by (auto simp: sr_valid_def is_ok_iff)

lemma sr_valid_dict:
  assumes "sr_valid env s"
  shows "is_dict s" and "is_dict (pget s ''resources'')"
proof -
  from assms have "sr_validate env s = Inr s" by (simp add: sr_valid_iff)
  then show "is_dict s" and "is_dict (pget s ''resources'')"
    unfolding sr_validate_def by (simp_all only: rbind_eq_Inr_iff sr_require_iff) blast+
qed

lemma sr_valid_resource:
  assumes "sr_valid env s" and "sr_has s rid"
  shows "sr_validate_resource env (rid, sr_resource s rid) = Inr ()"
proof -
  have entry: "(rid, sr_resource s rid) \<in> set (pitems (pget s ''resources''))"
    using assms(2) pitems_pget by (simp add: sr_has_def sr_resource_def)
  from assms(1) have "sr_validate env s = Inr s" by (simp add: sr_valid_iff)
  then have "each (sr_validate_resource env) (pitems (pget s ''resources'')) = Inr ()"
    unfolding sr_validate_def by (simp only: rbind_eq_Inr_iff) force
  with entry show ?thesis by (auto simp: each_eq_Inr_iff)
qed

lemma sr_resource_facts:
  assumes "sr_validate_resource env (rid, m) = Inr ()"
  shows "is_dict m" and "text_in (pget m ''phase'') sr_phases" and "is_list (pget m ''member_identities'')"
    and "is_list (pget m ''cleanup_member_identities'')"
    and "pget m ''phase'' = PStr ''launch_starting'' \<Longrightarrow> plist (pget m ''member_identities'') = []"
    and "pget m ''phase'' = PStr ''ready'' \<Longrightarrow> plist (pget m ''member_identities'') \<noteq> []
      \<and> (pget m ''ownership'' = PStr ''owned'' \<and> py_eq (pget m ''policy'') sr_policy
         \<or> pget m ''ownership'' = PStr ''external'' \<and> pget m ''policy'' = PNone)"
    and "pget m ''pending_request_id'' \<noteq> PNone \<Longrightarrow> pget m ''phase'' = PStr ''ready''"
proof -
  note parts = assms[unfolded sr_validate_resource_def Let_def prod.case rbind_eq_Inr_iff sr_require_iff]
  show "is_dict m" using parts by blast
  show "text_in (pget m ''phase'') sr_phases" using parts by blast
  show "is_list (pget m ''member_identities'')" using parts by blast
  show "is_list (pget m ''cleanup_member_identities'')" using parts by blast
  show "pget m ''pending_request_id'' \<noteq> PNone \<Longrightarrow> pget m ''phase'' = PStr ''ready''" using parts by blast
  show "plist (pget m ''member_identities'') = []" if p: "pget m ''phase'' = PStr ''launch_starting''"
  proof -
    have "sr_known_phase m = ''launch_starting''" using p by (simp add: sr_known_phase_def)
    with parts show ?thesis by (simp add: rbind_eq_Inr_iff)
  qed
  show "plist (pget m ''member_identities'') \<noteq> []
      \<and> (pget m ''ownership'' = PStr ''owned'' \<and> py_eq (pget m ''policy'') sr_policy
         \<or> pget m ''ownership'' = PStr ''external'' \<and> pget m ''policy'' = PNone)"
    if p: "pget m ''phase'' = PStr ''ready''"
  proof -
    have "sr_known_phase m = ''ready''" using p by (simp add: sr_known_phase_def)
    with parts show ?thesis by (auto simp: rbind_eq_Inr_iff)
  qed
qed

section \<open>Every operation only moves forward\<close>

lemma is_prefix_refl [simp]: "is_prefix xs xs"
  by (simp add: is_prefix_def)

lemma is_prefix_Nil [simp]: "is_prefix [] xs"
  by (simp add: is_prefix_def)

lemma is_prefix_trans: "is_prefix xs ys \<Longrightarrow> is_prefix ys zs \<Longrightarrow> is_prefix xs zs"
  by (auto simp: is_prefix_iff)

lemma sr_evolves_refl [simp]: "sr_evolves m m"
  by (simp add: sr_evolves_def)

lemma sr_evolves_trans: "sr_evolves a b \<Longrightarrow> sr_evolves b c \<Longrightarrow> sr_evolves a c"
  by (auto simp: sr_evolves_def intro: is_prefix_trans)

lemma sr_reaches_trans: "sr_reaches a b \<Longrightarrow> sr_reaches b c \<Longrightarrow> sr_reaches a c"
  by (auto simp: sr_reaches_def intro: sr_evolves_trans)

text \<open>A resource a valid state holds, as far as the operations look at it.\<close>

definition sr_sound :: "pyval \<Rightarrow> bool" where
  "sr_sound m = (is_dict m \<and> text_in (pget m ''phase'') sr_phases
     \<and> (pget m ''phase'' = PStr ''launch_starting'' \<longrightarrow> plist (pget m ''member_identities'') = []))"

lemma sr_valid_sound: "sr_valid env s \<Longrightarrow> sr_has s rid \<Longrightarrow> sr_sound (sr_resource s rid)"
  using sr_resource_facts[OF sr_valid_resource] unfolding sr_sound_def by blast

lemma ens_require: "(c \<Longrightarrow> ens P (f ())) \<Longrightarrow> ens P (rbind (sr_require c) f)"
  by (cases c) (simp_all add: sr_require_def)

lemma fold_pset:
  "\<forall>(k, x) \<in> set us. k \<in> K \<Longrightarrow> is_dict v \<Longrightarrow>
     is_dict (fold (\<lambda>(k, x). pset k x) us v) \<and>
     (\<forall>k. k \<notin> K \<longrightarrow> pget (fold (\<lambda>(k, x). pset k x) us v) k = pget v k)"
  by (induction us arbitrary: v) auto

lemma ready_steps [simp]: "phase_step\<^sup>*\<^sup>* ''registered'' ''ready''" "phase_step\<^sup>*\<^sup>* ''launch_registered'' ''ready''"
  by (rule r_into_rtranclp, rule phase_step.intros)+

lemma advance_evolves:
  assumes "sr_sound m" and "phase_step p q" and "\<forall>(k, x) \<in> set us. k \<in> {''ownership'', ''policy''}"
  shows "ens (sr_evolves m) (sr_advance p q us m)"
proof -
  from fold_pset[OF assms(3), of m] assms(1) obtain w where w: "fold (\<lambda>(k, x). pset k x) us m = w" "is_dict w"
    "\<forall>k. k \<notin> {''ownership'', ''policy''} \<longrightarrow> pget w k = pget m k"
    by (auto simp: sr_sound_def)
  then have same: "pget w ''scope_name'' = pget m ''scope_name''" "pget w ''pid_file'' = pget m ''pid_file''"
    "pget w ''member_identities'' = pget m ''member_identities''"
    "pget w ''cleanup_member_identities'' = pget m ''cleanup_member_identities''"
    by simp_all
  show ?thesis
    unfolding sr_advance_def
  proof (rule ens_require)
    assume "pget m ''phase'' = PStr p"
    with assms(2) have "sr_phase m = p" "phase_step\<^sup>*\<^sup>* p q" by (simp_all add: sr_phase_def r_into_rtranclp)
    then show "ens (sr_evolves m) (Inr (pset ''phase'' (PStr q) (fold (\<lambda>(k, x). pset k x) us m)))"
      unfolding w(1) using w(2) same by (simp add: sr_evolves_def) (simp add: sr_phase_def)
  qed
qed

lemma add_members_prefix: "ens (is_prefix ms) (sr_add_members is ms)"
proof (induction "is" arbitrary: ms)
  case (Cons i "is")
  have "ens (is_prefix ms) (sr_add_members is ms')" if "is_prefix ms ms'" for ms'
    using Cons ens_mono is_prefix_trans[OF that] by metis
  then have "ens (is_prefix ms) (sr_add_members is (if py_in i ms then ms else ms @ [i]))"
    by (simp add: is_prefix_iff)
  then show ?case by (auto simp: ens_def rbind_eq_Inr_iff)
qed simp

lemma model_ops_evolve:
  assumes "sr_sound m"
  shows "ens (sr_evolves m) (sr_model_scope_acquired policy m)"
    and "ens (sr_evolves m) (sr_model_process_created identity m)"
    and "ens (sr_evolves m) (sr_model_ready ownership ms m)"
    and "ens (sr_evolves m) (sr_model_request_started r m)"
    and "ens (sr_evolves m) (sr_model_request_finished r m)"
    and "ens (sr_evolves m) (sr_model_closed m)"
    and "ens (sr_evolves m) (sr_model_cleanup ms m)"
proof -
  have d: "is_dict m" using assms by (simp add: sr_sound_def)
  show "ens (sr_evolves m) (sr_model_scope_acquired policy m)"
    unfolding sr_model_scope_acquired_def
    by (rule ens_require) (rule advance_evolves[OF assms], auto intro: phase_step.intros)
  show "ens (sr_evolves m) (sr_model_process_created identity m)"
  proof (rule ensI)
    fix m' assume r: "sr_model_process_created identity m = Inr m'"
    then have m': "pget m ''phase'' = PStr ''launch_starting''"
      "m' = pset ''phase'' (PStr ''launch_registered'') (pset ''member_identities'' (PList [identity]) m)"
      by (auto simp: sr_model_process_created_def sr_advance_def rbind_eq_Inr_iff)
    have "phase_step ''launch_starting'' ''launch_registered''" by (rule phase_step.intros)
    with m' d assms show "sr_evolves m m'" by (simp add: sr_evolves_def sr_phase_def sr_sound_def r_into_rtranclp)
  qed
  show "ens (sr_evolves m) (sr_model_ready ownership ms m)"
  proof (rule ensI)
    fix m' assume "sr_model_ready ownership ms m = Inr m'"
    then obtain ids where ids: "sr_add_members ms (plist (pget m ''member_identities'')) = Inr ids"
      "m' = pset ''ownership'' ownership (pset ''phase'' (PStr ''ready'') (pset ''member_identities'' (PList ids) m))"
      "pget m ''phase'' \<in> {PStr ''registered'', PStr ''launch_registered'', PStr ''ready''}"
      by (auto simp: sr_model_ready_def rbind_eq_Inr_iff)
    have "is_prefix (plist (pget m ''member_identities'')) ids"
      using add_members_prefix ids(1) by (rule ensD)
    moreover have "phase_step\<^sup>*\<^sup>* (sr_phase m) ''ready''"
      using ids(3) by (auto simp: sr_phase_def)
    ultimately show "sr_evolves m m'" using d by (simp add: ids(2) sr_evolves_def sr_phase_def)
  qed
  show "ens (sr_evolves m) (sr_model_request_started r m)" "ens (sr_evolves m) (sr_model_request_finished r m)"
    using d by (auto simp: ens_def sr_model_request_started_def sr_model_request_finished_def rbind_eq_Inr_iff
        sr_evolves_def sr_phase_def)
  show "ens (sr_evolves m) (sr_model_closed m)"
  proof (rule ensI)
    fix m' assume "sr_model_closed m = Inr m'"
    then have m': "m' = (if pget m ''phase'' \<noteq> PStr ''closed''
        then pset ''phase'' (PStr ''closed'') (pset ''closed_from_phase'' (pget m ''phase'') m) else m)"
      by (simp add: sr_model_closed_def rbind_eq_Inr_iff split: if_splits)
    obtain p where "pget m ''phase'' = PStr p" using assms by (auto simp: sr_sound_def text_in_def split: pyval.splits)
    with m' d show "sr_evolves m m'" by (auto simp: sr_evolves_def sr_phase_def intro: phase_step.intros r_into_rtranclp)
  qed
  show "ens (sr_evolves m) (sr_model_cleanup ms m)"
  proof (rule ensI)
    fix m' assume "sr_model_cleanup ms m = Inr m'"
    then obtain ids where ids: "sr_add_members ms (plist (pget m ''cleanup_member_identities'')) = Inr ids"
      "m' = pset ''cleanup_member_identities'' (PList ids) m"
      by (auto simp: sr_model_cleanup_def rbind_eq_Inr_iff)
    have "is_prefix (plist (pget m ''cleanup_member_identities'')) ids"
      using add_members_prefix ids(1) by (rule ensD)
    then show "sr_evolves m m'" using d by (simp add: ids(2) sr_evolves_def sr_phase_def)
  qed
qed

lemma model_change_reaches:
  assumes "sr_valid env s" and "\<And>m. sr_sound m \<Longrightarrow> ens (sr_evolves m) (f m)"
  shows "ens (sr_reaches s) (sr_model_change rid f s)"
proof (rule ensI)
  fix s' assume "sr_model_change rid f s = Inr s'"
  then obtain m' where has: "sr_has s rid" and m': "f (sr_resource s rid) = Inr m'"
    and s': "s' = pset ''resources'' (pset rid m' (pget s ''resources'')) s"
    by (auto simp: sr_model_change_def rbind_eq_Inr_iff sr_has_def sr_resource_def)
  have "sr_evolves (sr_resource s rid) m'"
    using assms(2)[OF sr_valid_sound[OF assms(1) has]] m' by (rule ensD)
  then show "sr_reaches s s'"
    using sr_valid_dict[OF assms(1)] by (auto simp: s' sr_reaches_def sr_has_def sr_resource_def)
qed

lemma apply_reaches:
  assumes "sr_valid env s"
  shows "ens (sr_reaches s) (sr_apply e s)"
proof (cases e)
  case (RegisterModel rid scope path)
  show ?thesis
  proof (rule ensI)
    fix s' assume "sr_apply e s = Inr s'"
    then obtain m' where "\<not> sr_has s rid" "s' = pset ''resources'' (pset rid m' (pget s ''resources'')) s"
      by (auto simp: RegisterModel sr_register_model_def rbind_eq_Inr_iff sr_has_def)
    then show "sr_reaches s s'"
      using sr_valid_dict[OF assms] by (auto simp: sr_reaches_def sr_has_def sr_resource_def)
  qed
next
  case MarkReady
  with sr_valid_dict[OF assms] show ?thesis by (simp add: sr_reaches_def sr_has_def sr_resource_def)
next
  case (BeginScope rid)
  show ?thesis unfolding BeginScope sr_apply.simps
    by (intro model_change_reaches[OF assms] advance_evolves) (auto intro: phase_step.intros)
next
  case (BeginLaunch rid)
  show ?thesis unfolding BeginLaunch sr_apply.simps
    by (intro model_change_reaches[OF assms] advance_evolves) (auto intro: phase_step.intros)
qed (simp_all add: model_change_reaches[OF assms] model_ops_evolve)

section \<open>The journal as a machine\<close>

definition jr_inv :: "renv \<Rightarrow> journal \<Rightarrow> bool" where
  "jr_inv env j = (sr_valid env (jr_memory j) \<and> jr_file j = jr_memory j)"

definition jr_step :: "renv \<Rightarrow> bool \<times> sr_op \<Rightarrow> journal \<Rightarrow> journal res" where
  "jr_step env x j = Inr (snd (jr_change env (fst x) (sr_apply (snd x)) j))"

definition jr_run :: "renv \<Rightarrow> (bool \<times> sr_op) list \<Rightarrow> journal \<Rightarrow> journal res" where
  "jr_run env = fold_res (jr_step env)"

definition jr_reaches :: "journal \<Rightarrow> journal \<Rightarrow> bool" where
  "jr_reaches j j' = sr_reaches (jr_memory j) (jr_memory j')"

lemma jr_change_cases:
  "snd (jr_change env published f j) = j \<or>
     (\<exists>s. f (jr_memory j) = Inr s \<and> sr_valid env s
        \<and> snd (jr_change env published f j) = j\<lparr>jr_memory := s, jr_file := s\<rparr>)"
  using sr_validate_same by (auto simp: jr_change_def sr_valid_def is_ok_iff split: sum.split)

interpretation jr: progressing_machine "jr_step env" "jr_inv env" jr_reaches for env
proof
  fix j e j'
  assume inv: "jr_inv env j" and "jr_step env e j = Inr j'"
  then have "j' = j \<or> (\<exists>s. sr_apply (snd e) (jr_memory j) = Inr s \<and> sr_valid env s
      \<and> j' = j\<lparr>jr_memory := s, jr_file := s\<rparr>)"
    using jr_change_cases unfolding jr_step_def by (metis sum.inject(2))
  moreover have "jr_inv env (j\<lparr>jr_memory := s, jr_file := s\<rparr>) \<and> jr_reaches j (j\<lparr>jr_memory := s, jr_file := s\<rparr>)"
    if "sr_apply (snd e) (jr_memory j) = Inr s" "sr_valid env s" for s
    using ensD[OF apply_reaches that(1), of env] inv that(2) by (simp add: jr_inv_def jr_reaches_def)
  moreover have "jr_reaches j j" by (simp add: jr_reaches_def sr_reaches_def)
  ultimately show "jr_inv env j'" and "jr_reaches j j'" using inv by blast+
qed (auto simp: jr_reaches_def sr_reaches_def intro: sr_evolves_trans)

section \<open>Properties of the journal\<close>

text \<open>A sample journal, for the witnesses: a model server that was already running is registered and found ready.\<close>

definition sample_env :: renv where
  "sample_env = \<lparr>root_name = ''run-1'', resolves_inside = (\<lambda>_. True)\<rparr>"

definition sample_rid :: string where
  "sample_rid = replicate 32 (CHR ''a'')"

definition sample_process :: pyval where
  "sample_process = PDict [(''pid'', PInt 7), (''create_time_ns'', PInt 8)]"

definition sample_path :: string where
  "sample_path = join ''/'' [''runtime-output'', ''model-services'', sample_rid, ''model-server-pids'', ''a.pid'']"

definition sample_model :: "string \<Rightarrow> string \<Rightarrow> pyval \<Rightarrow> pyval list \<Rightarrow> pyval \<Rightarrow> pyval" where
  "sample_model scope phase ownership members pending = PDict
     [(''scope_name'', PStr scope), (''pid_file'', PStr sample_path), (''phase'', PStr phase),
      (''ownership'', ownership), (''policy'', PNone), (''member_identities'', PList members),
      (''cleanup_member_identities'', PList []), (''closed_from_phase'', PNone), (''pending_request_id'', pending)]"

definition sample_state :: "(string \<times> pyval) list \<Rightarrow> pyval" where
  "sample_state resources = PDict
     [(''contract_version'', PStr ''session_resources.v1''), (''session_name'', PStr ''run-1''),
      (''recognition_source'', PStr ''local''),
      (''host_identity'', PDict [(''pid'', PInt 1), (''created'', PInt 2)]),
      (''runner_identity'', PDict [(''pid'', PInt 3), (''create_time_ns'', PInt 4)]),
      (''phase'', PStr ''initializing''), (''resources'', PDict resources)]"

definition sample_journal :: "(string \<times> pyval) list \<Rightarrow> journal" where
  "sample_journal resources = \<lparr>jr_memory = sample_state resources, jr_file = sample_state resources\<rparr>"

definition sample_registered :: pyval where
  "sample_registered = sample_model (sr_scope_name sample_rid) ''registered'' PNone [] PNone"

definition sample_ready :: pyval where
  "sample_ready = sample_model (sr_scope_name sample_rid) ''ready'' (PStr ''external'') [sample_process] PNone"

definition sample_busy :: pyval where
  "sample_busy = sample_model (sr_scope_name sample_rid) ''ready'' (PStr ''external'') [sample_process] (PStr ''q1'')"

definition sample_register :: sr_op where
  "sample_register = RegisterModel sample_rid (sr_scope_name sample_rid) (Inr sample_path)"

definition sample_found :: sr_op where
  "sample_found = ModelReady sample_rid (PStr ''external'') [sample_process]"

definition sample_request :: sr_op where
  "sample_request = RequestStarted sample_rid (PStr ''q1'')"

lemma sample_model_get:
  "is_dict (sample_model s p ow ms pend)" "keys_are (sample_model s p ow ms pend) sr_resource_keys"
  "pget (sample_model s p ow ms pend) ''scope_name'' = PStr s"
  "pget (sample_model s p ow ms pend) ''pid_file'' = PStr sample_path"
  "pget (sample_model s p ow ms pend) ''phase'' = PStr p"
  "pget (sample_model s p ow ms pend) ''ownership'' = ow"
  "pget (sample_model s p ow ms pend) ''policy'' = PNone"
  "pget (sample_model s p ow ms pend) ''member_identities'' = PList ms"
  "pget (sample_model s p ow ms pend) ''cleanup_member_identities'' = PList []"
  "pget (sample_model s p ow ms pend) ''closed_from_phase'' = PNone"
  "pget (sample_model s p ow ms pend) ''pending_request_id'' = pend"
  by (simp_all add: sample_model_def dict_get_def keys_are_def sr_resource_keys_def)

lemma sample_checks:
  "hex_re 32 sample_rid" "sr_pid_file_ok sample_env sample_rid (PStr sample_path)"
  "sr_members [] [sample_process] = Inr ()" "sr_identity sample_process ''create_time_ns'' = Inr ()"
  by code_simp+

lemma sample_resource_ok:
  assumes "p = ''registered'' \<and> ow = PNone \<and> ms = [] \<and> pend = PNone
      \<or> p = ''ready'' \<and> ow = PStr ''external'' \<and> ms = [sample_process] \<and> pend \<in> {PNone, PStr ''q1''}"
  shows "sr_validate_resource sample_env (sample_rid, sample_model (sr_scope_name sample_rid) p ow ms pend) = Inr ()"
proof -
  have "text_in (PStr p) sr_phases" "ow = PNone \<or> text_in ow [''owned'', ''external'']" "p \<noteq> ''closed''"
    using assms by (auto simp: text_in_def sr_phases_def)
  moreover have "sr_known_phase (sample_model s p ow ms pend) = p" for s
    using assms by (auto simp: sr_known_phase_def sample_model_get)
  moreover have "sr_members [] ms = Inr ()" using assms sample_checks(3) by auto
  moreover have "\<not> blank ''q1''" by code_simp
  ultimately show ?thesis using assms
    by (auto simp: sr_validate_resource_def sample_model_get sample_checks sr_policy_ok_def sr_require_def)
qed

lemma sample_valid:
  assumes "each (sr_validate_resource sample_env) rs = Inr ()"
  shows "sr_validate sample_env (sample_state rs) = Inr (sample_state rs)"
proof -
  have "keys_are (sample_state rs) [''contract_version'', ''session_name'',
        ''recognition_source'', ''host_identity'', ''runner_identity'', ''phase'', ''resources'']"
    by (simp add: sample_state_def keys_are_def)
  moreover have "pget (sample_state rs) ''contract_version'' = PStr ''session_resources.v1''"
    "pget (sample_state rs) ''session_name'' = PStr ''run-1''" "is_dict (sample_state rs)"
    "pget (sample_state rs) ''recognition_source'' = PStr ''local''"
    "pget (sample_state rs) ''host_identity'' = PDict [(''pid'', PInt 1), (''created'', PInt 2)]"
    "pget (sample_state rs) ''runner_identity'' = PDict [(''pid'', PInt 3), (''create_time_ns'', PInt 4)]"
    "pget (sample_state rs) ''phase'' = PStr ''initializing''" "pget (sample_state rs) ''resources'' = PDict rs"
    by (simp_all add: sample_state_def dict_get_def)
  moreover have "sr_identity (PDict [(''pid'', PInt 1), (''created'', PInt 2)]) ''created'' = Inr ()"
    "sr_identity (PDict [(''pid'', PInt 3), (''create_time_ns'', PInt 4)]) ''create_time_ns'' = Inr ()"
    "\<not> blank ''local''" "text_in (PStr ''initializing'') [''initializing'', ''ready'']" by code_simp+
  moreover have "root_name sample_env = ''run-1''" by (simp add: sample_env_def)
  ultimately show ?thesis using assms by (simp add: sr_validate_def sr_require_def)
qed

lemma sample_created:
  "jr_create sample_env False ''local'' (PDict [(''pid'', PInt 1), (''created'', PInt 2)])
     (PDict [(''pid'', PInt 3), (''create_time_ns'', PInt 4)]) True = Inr (sample_journal [])"
  by code_simp

lemma sample_text: "\<not> blank ''q1''"
  by code_simp

lemma sample_applied:
  "sr_apply sample_register (sample_state []) = Inr (sample_state [(sample_rid, sample_registered)])"
  "sr_apply sample_found (sample_state [(sample_rid, sample_registered)]) = Inr (sample_state [(sample_rid, sample_ready)])"
  "sr_apply sample_request (sample_state [(sample_rid, sample_ready)]) = Inr (sample_state [(sample_rid, sample_busy)])"
  by (simp_all add: sample_register_def sample_found_def sample_request_def sample_busy_def sr_model_request_started_def
      sample_text sr_register_model_def sr_require_def sample_checks(1)
      sample_state_def phas_def dict_get_def sample_registered_def sample_ready_def sample_model_def sr_model_change_def
      sr_model_ready_def sample_checks(4) py_in_def)

lemma sample_runs:
  "jr_run sample_env [(True, sample_register)] (sample_journal []) = Inr (sample_journal [(sample_rid, sample_registered)])"
  "jr_run sample_env [(True, sample_found)] (sample_journal [(sample_rid, sample_registered)])
     = Inr (sample_journal [(sample_rid, sample_ready)])"
  "jr_run sample_env [(True, sample_request)] (sample_journal [(sample_rid, sample_ready)])
     = Inr (sample_journal [(sample_rid, sample_busy)])"
proof -
  have ok: "sr_validate sample_env (sample_state [(sample_rid, m)]) = Inr (sample_state [(sample_rid, m)])"
    if "m \<in> {sample_registered, sample_ready, sample_busy}" for m
    using that by (intro sample_valid)
      (auto simp: sample_resource_ok sample_registered_def sample_ready_def sample_busy_def)
  have "\<not> py_eq (sample_state [(sample_rid, sample_registered)]) (sample_state [])"
    "\<not> py_eq (sample_state [(sample_rid, sample_ready)]) (sample_state [(sample_rid, sample_registered)])"
    "\<not> py_eq (sample_state [(sample_rid, sample_busy)]) (sample_state [(sample_rid, sample_ready)])"
    by (simp_all add: sample_state_def sample_registered_def sample_ready_def sample_busy_def sample_model_def)
  with ok sample_applied show
    "jr_run sample_env [(True, sample_register)] (sample_journal []) = Inr (sample_journal [(sample_rid, sample_registered)])"
    "jr_run sample_env [(True, sample_found)] (sample_journal [(sample_rid, sample_registered)])
       = Inr (sample_journal [(sample_rid, sample_ready)])"
    "jr_run sample_env [(True, sample_request)] (sample_journal [(sample_rid, sample_ready)])
       = Inr (sample_journal [(sample_rid, sample_busy)])"
    by (simp_all add: jr_run_def jr_step_def jr_change_def sample_journal_def)
qed

lemma created_inv: "jr_create env ex src host runner published = Inr j \<Longrightarrow> jr_inv env j"
  using sr_validate_same
  by (fastforce simp: jr_create_def rbind_eq_Inr_iff jr_inv_def sr_valid_def is_ok_iff split: if_splits)

lemma journal_run_inv:
  assumes "jr_create env ex src host runner published = Inr j" and "jr_run env ops j = Inr j'"
  shows "jr_inv env j'"
  using jr.run_inv[OF created_inv[OF assms(1)]] assms(2) by (simp add: jr_run_def)

lemma jr_run_append: "jr_run env (xs @ ys) j = rbind (jr_run env xs j) (jr_run env ys)"
  by (simp only: jr_run_def fold_res_append)

lemma sample_run2:
  "jr_run sample_env ([(True, sample_register)] @ [(True, sample_found)]) (sample_journal [])
     = Inr (sample_journal [(sample_rid, sample_ready)])"
  "jr_run sample_env (([(True, sample_register)] @ [(True, sample_found)]) @ [(True, sample_request)]) (sample_journal [])
     = Inr (sample_journal [(sample_rid, sample_busy)])"
  by (simp_all only: jr_run_append sample_runs rbind_Inr)

lemma sample_journal_get:
  "sr_has (jr_memory (sample_journal [(sample_rid, m)])) sample_rid"
  "sr_resource (jr_memory (sample_journal [(sample_rid, m)])) sample_rid = m"
  by (simp_all add: sr_has_def sr_resource_def sample_journal_def sample_state_def dict_get_def phas_def)

text \<open>C20: Whatever operations are called on a journal, accepted or refused, published or not, its memory stays a valid state and its file holds that same state.\<close>

theorem journal_memory_is_published:
  assumes "jr_create env exists src host runner published = Inr j" and "jr_run env ops j = Inr j'"
  shows "sr_validate env (jr_memory j') = Inr (jr_memory j') \<and> jr_file j' = jr_memory j'"
  using journal_run_inv[OF assms] by (simp add: jr_inv_def sr_valid_iff)

theorem journal_memory_is_published_witness:
  "jr_file (sample_journal [(sample_rid, sample_ready)]) = jr_memory (sample_journal [(sample_rid, sample_ready)])"
  using journal_memory_is_published[OF sample_created sample_run2(1)] by blast

text \<open>C21: Over any stretch of a journal's life no resource disappears or is renamed, its phase only moves along registered, scope starting, scope acquired, launch starting, launch registered, ready and closed, and every recorded member stays recorded.\<close>

theorem journal_resources_evolve:
  assumes "jr_create env exists src host runner published = Inr j" and "jr_run env before j = Inr t"
    and "jr_run env later t = Inr u" and "sr_has (jr_memory t) rid"
  shows "sr_has (jr_memory u) rid \<and> sr_evolves (sr_resource (jr_memory t) rid) (sr_resource (jr_memory u) rid)"
proof -
  have "jr_reaches t u"
    using jr.run_reaches[OF journal_run_inv[OF assms(1,2)]] assms(3) by (simp add: jr_run_def)
  with assms(4) show ?thesis by (simp add: jr_reaches_def sr_reaches_def)
qed

theorem journal_resources_evolve_witness: "sr_evolves sample_registered sample_ready"
  using journal_resources_evolve[OF sample_created sample_runs(1,2) sample_journal_get(1)]
  by (simp add: sample_journal_get)

text \<open>A resource that is ready has at least one known process, and either is owned under the full kill-on-close policy or is external and carries no policy.\<close>

theorem journal_ready_is_accounted_for:
  assumes "jr_create env exists src host runner published = Inr j" and "jr_run env ops j = Inr j'"
    and "sr_has (jr_memory j') rid" and "pget (sr_resource (jr_memory j') rid) ''phase'' = PStr ''ready''"
  shows "plist (pget (sr_resource (jr_memory j') rid) ''member_identities'') \<noteq> []
    \<and> (pget (sr_resource (jr_memory j') rid) ''ownership'' = PStr ''owned''
         \<and> py_eq (pget (sr_resource (jr_memory j') rid) ''policy'') sr_policy
       \<or> pget (sr_resource (jr_memory j') rid) ''ownership'' = PStr ''external''
         \<and> pget (sr_resource (jr_memory j') rid) ''policy'' = PNone)"
proof -
  have "sr_valid env (jr_memory j')" using journal_run_inv[OF assms(1,2)] by (simp add: jr_inv_def)
  from sr_resource_facts(6)[OF sr_valid_resource[OF this assms(3)] assms(4)] show ?thesis .
qed

theorem journal_ready_is_accounted_for_witness:
  "plist (pget sample_ready ''member_identities'') \<noteq> []"
  using journal_ready_is_accounted_for[OF sample_created sample_run2(1) sample_journal_get(1)]
  by (simp add: sample_journal_get sample_ready_def sample_model_get)

text \<open>While a request is pending on a resource, the journal refuses to start another one, to close the resource or to finish a different request, and stays as it is.\<close>

theorem journal_pending_request_holds:
  assumes "jr_create env exists src host runner published = Inr j" and "jr_run env ops j = Inr j'"
    and "sr_has (jr_memory j') rid"
    and "pget (sr_resource (jr_memory j') rid) ''pending_request_id'' = PStr r" and "q \<noteq> PStr r"
    and "e \<in> {RequestStarted rid p, ModelClosed rid, RequestFinished rid q}"
  shows "jr_change env now (sr_apply e) j' = (Inl sr_error, j')"
proof -
  have "sr_apply e (jr_memory j') = Inl sr_error"
    using assms(3-) by (auto simp: sr_model_change_def sr_has_def sr_resource_def sr_require_def ensure_def
        sr_model_request_started_def sr_model_closed_def sr_model_request_finished_def)
  then show ?thesis by (simp add: jr_change_def)
qed

theorem journal_pending_request_holds_witness:
  "jr_change sample_env True (sr_apply (ModelClosed sample_rid)) (sample_journal [(sample_rid, sample_busy)])
     = (Inl sr_error, sample_journal [(sample_rid, sample_busy)])"
  using journal_pending_request_holds[OF sample_created sample_run2(2) sample_journal_get(1), of "''q1''" PNone "ModelClosed sample_rid" PNone True]
  by (simp add: sample_journal_get sample_busy_def sample_model_get)

end
