(* ===== verification/CommandQueue.thy ===== *)
theory CommandQueue
  imports PyJson Machines
begin

text \<open>
  The command queue of \<^verbatim>\<open>app/core/instant_command_queue.py\<close>: the files of one session directory
  that hand a command to the runner. The directory is explicit state. Taking the lock and
  writing the file can fail from outside, so each call is told whether they do; that a command was
  answered is an event of the run. Two callers write a command without the queue's check, and are
  modelled too: \<^verbatim>\<open>stop\<close> of \<^verbatim>\<open>app/instant_mcp.py\<close>, which asks the host to close, and
  \<^verbatim>\<open>_cancel_unsubmitted\<close> of \<^verbatim>\<open>app/learning_memory/workflow_runtime.py\<close>, which answers a command
  before it writes it.
\<close>

section \<open>Stores addressed by a key\<close>

locale keyed_store =
  fixes lookup :: "'s \<Rightarrow> 'k \<Rightarrow> 'v option"
    and insert_at :: "'k \<Rightarrow> 'v \<Rightarrow> 's \<Rightarrow> 's"
  assumes lookup_insert: "lookup (insert_at k v s) k' = (if k' = k then Some v else lookup s k')"
begin

definition keeps :: "'k \<Rightarrow> 's \<Rightarrow> 's \<Rightarrow> bool" where
  "keeps k s s' = (\<forall>v. lookup s k = Some v \<longrightarrow> lookup s' k = Some v)"

lemma keeps_refl: "keeps k s s"
  by (simp add: keeps_def)

lemma keeps_trans: "keeps k s t \<Longrightarrow> keeps k t u \<Longrightarrow> keeps k s u"
  by (simp add: keeps_def)

lemma insert_keeps: "k' \<noteq> k \<or> lookup s k' = None \<Longrightarrow> keeps k s (insert_at k' v s)"
  by (auto simp: keeps_def lookup_insert)

end

section \<open>The queue directory\<close>

record queue_dir =
  qd_present :: bool
  qd_commands :: "(string \<times> pyval) list"
  qd_responses :: "string list"
  qd_closing :: "string option"

datatype queue_error =
    InvalidRequestId
  | DirectoryMissing
  | QueueBusy "string list"
  | RequestConflict
  | QueueClosing
  | WriteFailed
  | ReceiptConflict

text \<open>\<^verbatim>\<open>[a-z0-9][a-z0-9_-]{0,79}\<close>\<close>

definition is_low_alnum :: "char \<Rightarrow> bool" where
  "is_low_alnum c = (is_digit c \<or> 97 \<le> cp c \<and> cp c \<le> 122)"

definition request_id_re :: "string \<Rightarrow> bool" where
  "request_id_re s = (case s of [] \<Rightarrow> False
     | c # cs \<Rightarrow> is_low_alnum c \<and> length cs \<le> 79
         \<and> list_all (\<lambda>x. is_low_alnum x \<or> x = CHR ''_'' \<or> x = CHR ''-'') cs)"

definition queue_request_id :: "pyval \<Rightarrow> queue_error + string" where
  "queue_request_id value = (case value of
       PStr s \<Rightarrow> if request_id_re s then Inr s else Inl InvalidRequestId
     | _ \<Rightarrow> Inl InvalidRequestId)"

fun queue_ids :: "pyval list \<Rightarrow> queue_error + string list" where
  "queue_ids [] = Inr []"
| "queue_ids (v # vs) = rbind (queue_request_id v) (\<lambda>s. rbind (queue_ids vs) (\<lambda>ss. Inr (s # ss)))"

definition qd_pending :: "string list \<Rightarrow> queue_dir \<Rightarrow> string list" where
  "qd_pending ignored d =
     sort (filter (\<lambda>stem. stem \<notin> set ignored \<and> stem \<notin> set (qd_responses d)) (map fst (qd_commands d)))"

definition qd_write :: "string \<Rightarrow> pyval \<Rightarrow> queue_dir \<Rightarrow> queue_dir" where
  "qd_write stem command d = d\<lparr>qd_commands := dput stem command (qd_commands d)\<rparr>"

text \<open>
  \<^verbatim>\<open>enqueue_command\<close>: the result and the directory after the call. \<open>locked\<close> says that another
  thread or process holds the lock, \<open>written\<close> that the snapshot reaches the disk.
\<close>

definition enqueue_command ::
    "bool \<Rightarrow> bool \<Rightarrow> pyval \<Rightarrow> pyval \<Rightarrow> pyval list \<Rightarrow> queue_dir \<Rightarrow> (queue_error + bool) \<times> queue_dir" where
  "enqueue_command locked written request_id command ignore_request_ids d =
     (case queue_request_id request_id of Inl e \<Rightarrow> (Inl e, d) | Inr stem \<Rightarrow>
      case queue_ids ignore_request_ids of Inl e \<Rightarrow> (Inl e, d) | Inr ignored \<Rightarrow>
      if \<not> qd_present d then (Inl DirectoryMissing, d)
      else if locked then (Inl (QueueBusy []), d)
      else case map_of (qd_commands d) stem of
        Some stored \<Rightarrow> if \<not> py_eq stored command then (Inl RequestConflict, d) else (Inr False, d)
      | None \<Rightarrow>
          if qd_closing d \<noteq> None then (Inl QueueClosing, d)
          else let pending = qd_pending ignored d in
            if pending \<noteq> [] then (Inl (QueueBusy pending), d)
            else if \<not> written then (Inl WriteFailed, d)
            else (Inr True, qd_write stem command d))"

text \<open>
  \<^verbatim>\<open>stop\<close>: the marker \<^verbatim>\<open>closing.json\<close> with the id of the close request, then the request itself. \<open>alive\<close> says
  that the host is alive and not cleaning up; each write may fail.
\<close>

definition close_id :: "string \<Rightarrow> string" where
  "close_id u = ''close-'' @ u"

definition stop_session :: "bool \<Rightarrow> bool \<Rightarrow> bool \<Rightarrow> string \<Rightarrow> queue_dir \<Rightarrow> queue_dir" where
  "stop_session alive marked written u d =
     (if \<not> alive \<or> qd_closing d \<noteq> None \<or> \<not> qd_present d \<or> \<not> marked then d
      else let d1 = d\<lparr>qd_closing := Some (close_id u)\<rparr> in
        if written then qd_write (close_id u) (PDict [(''kind'', PStr ''close'')]) d1 else d1)"

text \<open>
  \<^verbatim>\<open>_cancel_unsubmitted\<close>: \<open>due\<close> says that the run was cancelled while its command was deferred, \<open>same\<close> that a response
  already there is the receipt of this cancellation.
\<close>

definition cancel_unsubmitted ::
    "bool \<Rightarrow> bool \<Rightarrow> bool \<Rightarrow> bool \<Rightarrow> bool \<Rightarrow> string \<Rightarrow> pyval \<Rightarrow> queue_dir \<Rightarrow> (queue_error + unit) \<times> queue_dir" where
  "cancel_unsubmitted due locked same answered written stem command d =
     (if \<not> due then (Inr (), d)
      else if locked then (Inl (QueueBusy []), d)
      else if map_of (qd_commands d) stem \<noteq> None then (Inr (), d)
      else if stem \<in> set (qd_responses d) \<and> \<not> same then (Inl ReceiptConflict, d)
      else if \<not> answered then (Inl WriteFailed, d)
      else let d1 = d\<lparr>qd_responses := stem # qd_responses d\<rparr> in
        if written then (Inr (), qd_write stem command d1) else (Inl WriteFailed, d1))"

text \<open>What happens to the directory.\<close>

datatype queue_event =
    Enqueue bool bool pyval pyval "pyval list"
  | Answered string
  | Stopped bool bool bool string
  | Cancelled bool bool bool bool bool string pyval

fun queue_step :: "queue_event \<Rightarrow> queue_dir \<Rightarrow> queue_dir" where
  "queue_step (Enqueue locked written rid command ignored) d = snd (enqueue_command locked written rid command ignored d)"
| "queue_step (Answered stem) d = d\<lparr>qd_responses := stem # qd_responses d\<rparr>"
| "queue_step (Stopped alive marked written u) d = stop_session alive marked written u d"
| "queue_step (Cancelled due locked same answered written stem command) d =
     snd (cancel_unsubmitted due locked same answered written stem command d)"

definition queue_run :: "queue_event list \<Rightarrow> queue_dir \<Rightarrow> queue_dir" where
  "queue_run es d = fold queue_step es d"

definition qd_lookup :: "queue_dir \<Rightarrow> string \<Rightarrow> pyval option" where
  "qd_lookup d stem = map_of (qd_commands d) stem"

interpretation qd: keyed_store qd_lookup qd_write
  by unfold_locales (simp add: qd_lookup_def qd_write_def)

section \<open>What a call can do\<close>

lemma enqueue_cases:
  "snd (enqueue_command locked written rid command ignored d) = d \<or>
     (\<exists>stem ids. rid = PStr stem \<and> queue_ids ignored = Inr ids \<and> qd_lookup d stem = None
        \<and> qd_closing d = None \<and> qd_pending ids d = [] \<and> fst (enqueue_command locked written rid command ignored d) = Inr True
        \<and> snd (enqueue_command locked written rid command ignored d) = qd_write stem command d)"
proof (cases rid)
  case (PStr stem)
  then show ?thesis
    by (cases "queue_ids ignored"; cases "map_of (qd_commands d) stem")
      (simp_all add: enqueue_command_def queue_request_id_def Let_def qd_lookup_def)
qed (simp_all add: enqueue_command_def queue_request_id_def)

text \<open>The id of a close request is new (\<^verbatim>\<open>uuid4\<close>).\<close>

definition spares :: "string \<Rightarrow> queue_event \<Rightarrow> bool" where
  "spares stem e = (case e of Stopped alive marked written u \<Rightarrow> close_id u \<noteq> stem | _ \<Rightarrow> True)"

lemma same_commands_keep: "qd_commands d' = qd_commands d \<Longrightarrow> qd.keeps stem d d'"
  by (simp add: qd.keeps_def qd_lookup_def)

lemma written_keeps: "qd_commands d1 = qd_commands d \<Longrightarrow> stem' \<noteq> stem \<or> qd_lookup d stem' = None \<Longrightarrow>
    qd.keeps stem d (qd_write stem' command d1)"
  using qd.keeps_trans[OF same_commands_keep qd.insert_keeps] by (simp add: qd_lookup_def)

lemma step_keeps:
  assumes "spares stem e"
  shows "qd.keeps stem d (queue_step e d)"
proof (cases e)
  case (Enqueue locked written rid command ignored)
  show ?thesis
    using enqueue_cases[of locked written rid command ignored d]
    by (auto simp: Enqueue qd.keeps_refl intro: qd.insert_keeps)
next
  case (Stopped alive marked written u)
  then show ?thesis
    using assms by (auto simp: stop_session_def Let_def spares_def intro: written_keeps same_commands_keep)
next
  case (Cancelled due locked same answered written other command)
  show ?thesis unfolding Cancelled queue_step.simps cancel_unsubmitted_def Let_def
    by (auto simp: qd_lookup_def intro: written_keeps same_commands_keep)
qed (simp add: same_commands_keep)

lemma run_keeps: "list_all (spares stem) es \<Longrightarrow> qd.keeps stem d (queue_run es d)"
  unfolding queue_run_def
proof (induction es arbitrary: d)
  case (Cons e es)
  then show ?case using qd.keeps_trans[OF step_keeps Cons.IH] by simp
qed (simp add: qd.keeps_refl)

definition qd_open :: "queue_dir \<Rightarrow> string list" where
  "qd_open d = filter (\<lambda>stem. stem \<notin> set (qd_responses d)) (map fst (qd_commands d))"

text \<open>Calls that ignore no request, as the runner's clients make them unless they replace a cancelled one.\<close>

definition plain_event :: "queue_event \<Rightarrow> bool" where
  "plain_event e = (case e of Enqueue _ _ _ _ ignored \<Rightarrow> ignored = [] | _ \<Rightarrow> True)"

lemma dput_fresh: "map_of xs k = None \<Longrightarrow> dput k v xs = xs @ [(k, v)]"
  by (induction k v xs rule: dput.induct) (auto split: if_splits)

lemma length_filter_mono: "(\<And>x. P x \<Longrightarrow> Q x) \<Longrightarrow> length (filter P xs) \<le> length (filter Q xs)"
  by (induction xs) auto

text \<open>The unanswered commands but the request to close.\<close>

definition open_operations :: "queue_dir \<Rightarrow> string list" where
  "open_operations d = filter (\<lambda>stem. Some stem \<noteq> qd_closing d) (qd_open d)"

lemma open_operations_write:
  "\<not> P stem \<Longrightarrow> filter P (map fst (qd_commands (qd_write stem command d))) = filter P (map fst (qd_commands d))"
proof -
  have "\<not> P k \<Longrightarrow> filter P (map fst (dput k v xs)) = filter P (map fst xs)" for k and v :: pyval and xs
    by (induction k v xs rule: dput.induct) auto
  then show "\<not> P stem \<Longrightarrow> filter P (map fst (qd_commands (qd_write stem command d))) = filter P (map fst (qd_commands d))"
    by (simp add: qd_write_def)
qed

lemma fewer_open:
  assumes "map fst (qd_commands d) = names" and "\<And>stem. stem \<in> set names \<Longrightarrow> P stem \<Longrightarrow> stem \<notin> set (qd_responses d) \<and> Some stem \<noteq> qd_closing d"
  shows "length (filter P names) \<le> length (open_operations d)"
proof -
  have "filter P names = filter (\<lambda>stem. P stem \<and> stem \<notin> set (qd_responses d) \<and> Some stem \<noteq> qd_closing d) names"
    using assms(2) by (intro filter_cong) auto
  also have "length \<dots> \<le> length (filter (\<lambda>stem. stem \<notin> set (qd_responses d) \<and> Some stem \<noteq> qd_closing d) names)"
    by (rule length_filter_mono) simp
  finally show ?thesis by (simp add: open_operations_def qd_open_def assms(1) conj_commute)
qed

lemma open_operations_filter:
  "open_operations d = filter (\<lambda>stem. stem \<notin> set (qd_responses d) \<and> Some stem \<noteq> qd_closing d) (map fst (qd_commands d))"
  by (simp add: open_operations_def qd_open_def conj_commute)

lemma step_open:
  assumes "plain_event e" and "length (open_operations d) \<le> 1"
  shows "length (open_operations (queue_step e d)) \<le> 1"
proof (cases e)
  case (Enqueue locked written rid command ignored)
  with assms(1) have "ignored = []" by (simp add: plain_event_def)
  then consider "queue_step e d = d"
    | stem where "qd_lookup d stem = None" "qd_pending [] d = []" "queue_step e d = qd_write stem command d"
    using enqueue_cases[of locked written rid command ignored d] Enqueue by fastforce
  then show ?thesis
  proof cases
    case 2
    have "set (qd_open d) = set (qd_pending [] d)" by (auto simp: qd_pending_def qd_open_def)
    with 2 have "qd_open d = []" by simp
    moreover have "qd_commands (queue_step e d) = qd_commands d @ [(stem, command)]"
      using 2 by (simp add: qd_write_def qd_lookup_def dput_fresh)
    ultimately show ?thesis using 2 by (simp add: open_operations_def qd_open_def qd_write_def)
  qed (use assms in simp)
next
  case (Answered stem)
  have "length (open_operations (queue_step e d)) \<le> length (open_operations d)"
    using fewer_open[OF refl, of d "\<lambda>s. s \<notin> set (stem # qd_responses d) \<and> Some s \<noteq> qd_closing d"]
    by (simp add: open_operations_filter[of "d\<lparr>qd_responses := stem # qd_responses d\<rparr>"] Answered)
  with assms(2) show ?thesis by simp
next
  case (Stopped alive marked written u)
  have "length (open_operations (queue_step e d)) \<le> length (open_operations d)"
  proof (cases "queue_step e d = d")
    case False
    then have none: "qd_closing d = None" and after: "queue_step e d = d\<lparr>qd_closing := Some (close_id u)\<rparr>
        \<or> queue_step e d = qd_write (close_id u) (PDict [(''kind'', PStr ''close'')]) (d\<lparr>qd_closing := Some (close_id u)\<rparr>)"
      by (auto simp: Stopped stop_session_def Let_def split: if_split_asm)
    let ?P = "\<lambda>stem. stem \<notin> set (qd_responses d) \<and> Some stem \<noteq> Some (close_id u)"
    have "open_operations (queue_step e d) = filter ?P (map fst (qd_commands d))"
      using after open_operations_write[of ?P "close_id u" _ "d\<lparr>qd_closing := Some (close_id u)\<rparr>"]
      by (auto simp: open_operations_filter) (simp_all add: qd_write_def)
    then show ?thesis using fewer_open[of d "map fst (qd_commands d)" ?P] none by simp
  qed simp
  with assms(2) show ?thesis by simp
next
  case (Cancelled due locked same answered written stem command)
  have "length (open_operations (queue_step e d)) \<le> length (open_operations d)"
  proof (cases "queue_step e d = d")
    case False
    then have after: "queue_step e d = d\<lparr>qd_responses := stem # qd_responses d\<rparr>
        \<or> queue_step e d = qd_write stem command (d\<lparr>qd_responses := stem # qd_responses d\<rparr>)"
      by (auto simp: Cancelled cancel_unsubmitted_def Let_def split: if_split_asm)
    let ?P = "\<lambda>s. s \<notin> set (stem # qd_responses d) \<and> Some s \<noteq> qd_closing d"
    have "open_operations (queue_step e d) = filter ?P (map fst (qd_commands d))"
      using after open_operations_write[of ?P stem _ "d\<lparr>qd_responses := stem # qd_responses d\<rparr>"]
      by (auto simp: open_operations_filter) (simp_all add: qd_write_def)
    then show ?thesis using fewer_open[of d "map fst (qd_commands d)" ?P] by simp
  qed simp
  with assms(2) show ?thesis by simp
qed

section \<open>Properties of the queue\<close>

definition queue_empty :: queue_dir where
  "queue_empty = \<lparr>qd_present = True, qd_commands = [], qd_responses = [], qd_closing = None\<rparr>"

definition sample_command :: "int \<Rightarrow> pyval" where
  "sample_command n = PDict [(''operation'', PStr ''click''), (''x'', PInt n)]"

text \<open>Whatever sequence of calls, answers, cancellations and closing a directory sees, a command that was written is never altered,
  replaced or lost, as long as no request to close gets its id.\<close>

theorem queue_commands_are_durable:
  assumes "qd_lookup (queue_run before d) stem = Some command" and "list_all (spares stem) later"
  shows "qd_lookup (queue_run (before @ later) d) stem = Some command"
  using run_keeps[OF assms(2), of "queue_run before d"] assms(1) by (simp add: qd.keeps_def queue_run_def)

theorem queue_commands_are_durable_witness:
  "qd_lookup (queue_run ([Enqueue False True (PStr ''a1'') (sample_command 1) []] @
      [Answered ''a1'', Enqueue False True (PStr ''a1'') (sample_command 2) [], Stopped True True True ''0'']) queue_empty) ''a1''
     = Some (sample_command 1)"
proof -
  have "qd_lookup (queue_run [Enqueue False True (PStr ''a1'') (sample_command 1) []] queue_empty) ''a1'' = Some (sample_command 1)"
    by code_simp
  then show ?thesis by (rule queue_commands_are_durable) (simp add: spares_def close_id_def)
qed

text \<open>C22: As long as the callers of \<^verbatim>\<open>enqueue_command\<close> ignore no request, at most one command of a directory besides the request
  to close is unanswered at any time, through calls, answers, cancellations of commands not submitted and requests to stop,
  each of which may fail at any of its writes: operations are handed over one by one.\<close>

theorem queue_one_command_at_a_time:
  assumes "list_all plain_event es"
  shows "length (open_operations (queue_run es queue_empty)) \<le> 1"
proof -
  have "length (open_operations (fold queue_step es d)) \<le> 1" if "length (open_operations d) \<le> 1" for d
    using that assms by (induction es arbitrary: d) (simp_all add: step_open del: One_nat_def)
  then show ?thesis by (simp add: queue_run_def open_operations_def qd_open_def queue_empty_def)
qed

theorem queue_one_command_at_a_time_witness:
  "length (open_operations (queue_run [Enqueue False True (PStr ''a1'') (sample_command 1) [], Stopped True True True ''0'',
      Enqueue False True (PStr ''a2'') (sample_command 2) []] queue_empty)) \<le> 1"
  by (rule queue_one_command_at_a_time) (simp add: plain_event_def)

text \<open>Repeating a request is idempotent: with the same content it reports that nothing was written, with another content it is a conflict, and neither changes the directory, even when it is closing or another command is pending.\<close>

theorem queue_repeat_is_idempotent:
  assumes "qd_lookup d stem = Some stored" and "request_id_re stem" and "qd_present d" and "queue_ids ignored = Inr ids"
  shows "enqueue_command False written (PStr stem) command ignored d
    = (if py_eq stored command then Inr False else Inl RequestConflict, d)"
  using assms by (simp add: enqueue_command_def queue_request_id_def qd_lookup_def)

theorem queue_repeat_is_idempotent_witness:
  "enqueue_command False True (PStr ''a1'') (sample_command 2) []
     (queue_run [Enqueue False True (PStr ''a1'') (sample_command 1) []] queue_empty)
   = (Inl RequestConflict, queue_run [Enqueue False True (PStr ''a1'') (sample_command 1) []] queue_empty)"
proof -
  let ?d = "queue_run [Enqueue False True (PStr ''a1'') (sample_command 1) []] queue_empty"
  have "qd_lookup ?d ''a1'' = Some (sample_command 1)" "request_id_re ''a1''" "qd_present ?d"
    "\<not> py_eq (sample_command 1) (sample_command 2)" by code_simp+
  with queue_repeat_is_idempotent[of ?d "''a1''" "sample_command 1" "[]" "[]" True "sample_command 2"]
  show ?thesis by simp
qed

text \<open>A call writes exactly when it returns True, and then only under a free lock, a valid new identifier, a directory that is not closing and no unanswered command outside the ignored ones.\<close>

theorem queue_write_conditions:
  assumes "enqueue_command locked written rid command ignored d = (r, d')" and "d' \<noteq> d"
  shows "r = Inr True \<and> \<not> locked \<and> qd_closing d = None
    \<and> (\<exists>stem ids. rid = PStr stem \<and> request_id_re stem \<and> queue_ids ignored = Inr ids
        \<and> qd_lookup d stem = None \<and> qd_lookup d' stem = Some command
        \<and> set (qd_open d) \<subseteq> set ids)"
proof -
  from enqueue_cases[of locked written rid command ignored d] assms obtain stem ids where
    s: "rid = PStr stem" "queue_ids ignored = Inr ids" "qd_lookup d stem = None" "qd_closing d = None"
      "qd_pending ids d = []" "r = Inr True" "d' = qd_write stem command d"
    by auto
  have "request_id_re stem" "\<not> locked"
    using assms(1) s(1,6) by (auto simp: enqueue_command_def queue_request_id_def split: if_splits sum.splits)
  moreover have "set (qd_open d) \<subseteq> set ids"
  proof
    fix x assume "x \<in> set (qd_open d)"
    then have "x \<notin> set ids \<Longrightarrow> x \<in> set (qd_pending ids d)" by (auto simp: qd_pending_def qd_open_def)
    with s(5) show "x \<in> set ids" by auto
  qed
  ultimately show ?thesis using s by (simp add: qd.lookup_insert)
qed

theorem queue_write_conditions_witness:
  "\<exists>d'. enqueue_command False True (PStr ''a1'') (sample_command 1) [] queue_empty = (Inr True, d')
     \<and> qd_lookup d' ''a1'' = Some (sample_command 1)"
proof -
  let ?d = "snd (enqueue_command False True (PStr ''a1'') (sample_command 1) [] queue_empty)"
  have e: "enqueue_command False True (PStr ''a1'') (sample_command 1) [] queue_empty
      = (fst (enqueue_command False True (PStr ''a1'') (sample_command 1) [] queue_empty), ?d)" by simp
  have "?d \<noteq> queue_empty" by code_simp
  from queue_write_conditions[OF e this] e show ?thesis by auto
qed

end
