(* ===== verification/ConditionTemplates.thy ===== *)
theory ConditionTemplates
  imports PyChecks
begin

text \<open>
  The record-number conditions of \<^verbatim>\<open>app/judgment/condition_templates.py\<close>: a template with one
  placeholder, a binding that says where its parameter comes from, and the snapshot that
  freezes the resolved condition with the digests of everything it was made from. Every
  function returns a fresh JSON copy; \<open>canon\<close> is that copy.
\<close>

section \<open>Templates\<close>

definition ct_fields :: "pyval \<Rightarrow> string list \<Rightarrow> string \<Rightarrow> unit res" where
  "ct_fields value expected label = ensure (is_dict value \<and> keys_are value expected)
     (ValueError (''condition_'' @ label @ ''_fields_invalid''))"

definition ct_digest :: "pyval \<Rightarrow> string res" where
  "ct_digest value = rbind (strict_json value) (\<lambda>text. Inr (sha256_hex (utf8 text)))"

definition ct_copy :: "pyval \<Rightarrow> string \<Rightarrow> pyval res" where
  "ct_copy value label =
     rbind (strict_json value) (\<lambda>encoded.
     if length (utf8 encoded) > 64 * 1024 then Inl (ValueError (''condition_'' @ label @ ''_too_large''))
     else Inr (canon value))"

definition ct_placeholder :: string where
  "ct_placeholder = ''{record_id}''"

definition template_fields :: "string list" where
  "template_fields = [''schema'', ''kind'', ''condition_template_id'', ''revision'', ''template_sha256'',
     ''text_template'', ''parameters'', ''allowed_states'', ''review_policy'']"

definition without_key :: "string \<Rightarrow> pyval \<Rightarrow> pyval" where
  "without_key k v = (case v of PDict d \<Rightarrow> PDict (filter (\<lambda>kv. fst kv \<noteq> k) d) | _ \<Rightarrow> v)"

definition text_between :: "nat \<Rightarrow> nat \<Rightarrow> pyval \<Rightarrow> bool" where
  "text_between low high v = (case v of PStr s \<Rightarrow> low \<le> length s \<and> length s \<le> high | _ \<Rightarrow> False)"

definition ct_text_ok :: "pyval \<Rightarrow> bool" where
  "ct_text_ok text = (text_between 1 4000 text
     \<and> count_sub ct_placeholder (py_str text) = 1
     \<and> \<not> list_ex (\<lambda>c. c = CHR ''{'' \<or> c = CHR ''}'') (replace_sub ct_placeholder [] (py_str text)))"

definition ct_bounds_ok :: "pyval \<Rightarrow> bool" where
  "ct_bounds_ok parameter = (pget parameter ''type'' = PStr ''string''
     \<and> (case (pget parameter ''min_length'', pget parameter ''max_length'') of
          (PInt low, PInt high) \<Rightarrow> 1 \<le> low \<and> low \<le> high \<and> high \<le> 4000 | _ \<Rightarrow> False))"

definition ct_states_ok :: "pyval \<Rightarrow> bool" where
  "ct_states_ok states = (is_list states \<and> length (plist states) \<le> 32
     \<and> list_all (\<lambda>s. is_str s \<and> \<not> blank (py_str s) \<and> length (py_str s) \<le> 1000) (plist states)
     \<and> distinct (plist states))"

definition validate_condition_template :: "pyval \<Rightarrow> pyval res" where
  "validate_condition_template snapshot =
     rbind (ct_fields snapshot template_fields ''template'') (\<lambda>_.
     rbind (ensure (pget snapshot ''schema'' = PStr ''condition_template.v1''
        \<and> pget snapshot ''kind'' = PStr ''record_id_equals_input'') (ValueError ''condition_template_schema_invalid'')) (\<lambda>_.
     rbind (ensure ((case pget snapshot ''condition_template_id'' of PStr s \<Rightarrow> identifier_re 159 s | _ \<Rightarrow> False)
        \<and> (case pget snapshot ''revision'' of PInt n \<Rightarrow> 1 \<le> n | _ \<Rightarrow> False))
        (ValueError ''condition_template_identity_invalid'')) (\<lambda>_.
     rbind (ensure (ct_text_ok (pget snapshot ''text_template'')) (ValueError ''condition_template_text_invalid'')) (\<lambda>_.
     let parameters = pget snapshot ''parameters'' in
     rbind (ct_fields parameters [''record_id''] ''template_parameters'') (\<lambda>_.
     let parameter = pget parameters ''record_id'' in
     rbind (ct_fields parameter [''type'', ''min_length'', ''max_length''] ''template_parameter'') (\<lambda>_.
     rbind (ensure (ct_bounds_ok parameter) (ValueError ''condition_template_parameter_invalid'')) (\<lambda>_.
     rbind (ensure (ct_states_ok (pget snapshot ''allowed_states'')) (ValueError ''condition_template_states_invalid'')) (\<lambda>_.
     rbind (ensure (pget snapshot ''review_policy'' \<in> {PStr ''adaptive'', PStr ''always_main''})
        (ValueError ''condition_template_policy_invalid'')) (\<lambda>_.
     let digest = pget snapshot ''template_sha256'' in
     rbind (ensure (case digest of PStr s \<Rightarrow> hex_re 64 s | _ \<Rightarrow> False)
        (ValueError ''condition_template_digest_invalid'')) (\<lambda>_.
     rbind (ct_digest (without_key ''template_sha256'' snapshot)) (\<lambda>expected.
     rbind (ensure (digest = PStr expected) (ValueError ''condition_template_digest_invalid'')) (\<lambda>_.
     ct_copy snapshot ''template''))))))))))))"

section \<open>Bindings\<close>

definition ct_parameter_value :: "pyval \<Rightarrow> pyval \<Rightarrow> string res" where
  "ct_parameter_value value template =
     (let parameter = pget (pget template ''parameters'') ''record_id'' in
      case (value, pget parameter ''min_length'', pget parameter ''max_length'') of
        (PStr s, PInt low, PInt high) \<Rightarrow>
          if low \<le> int (length s) \<and> int (length s) \<le> high then Inr s
          else Inl (ValueError ''condition_parameter_value_invalid'')
      | _ \<Rightarrow> Inl (ValueError ''condition_parameter_value_invalid''))"

definition ct_check_reference :: "pyval \<Rightarrow> pyval \<Rightarrow> pyval \<Rightarrow> unit res" where
  "ct_check_reference reference template declarations =
     (if pget reference ''source'' = PStr ''literal'' then
        rbind (ct_fields reference [''source'', ''value''] ''binding_reference'') (\<lambda>_.
        rbind (ct_parameter_value (pget reference ''value'') template) (\<lambda>_. Inr ()))
      else if pget reference ''source'' = PStr ''input'' then
        rbind (ct_fields reference [''source'', ''name''] ''binding_reference'') (\<lambda>_.
        case pget reference ''name'' of
          PStr name \<Rightarrow>
            rbind (ensure (identifier_re 159 name) (ValueError ''condition_binding_input_name_invalid'')) (\<lambda>_.
            rbind (ensure (phas declarations name) (ValueError ''condition_binding_input_unknown'')) (\<lambda>_.
            ensure (pget declarations name = PStr ''string'') (ValueError ''condition_binding_input_type_invalid'')))
        | _ \<Rightarrow> Inl (ValueError ''condition_binding_input_name_invalid''))
      else Inl (ValueError ''condition_binding_source_invalid''))"

definition validate_condition_binding :: "pyval \<Rightarrow> pyval \<Rightarrow> pyval res" where
  "validate_condition_binding binding input_types =
     rbind (ct_fields binding [''schema'', ''template'', ''typed_parameters''] ''binding'') (\<lambda>_.
     rbind (ensure (pget binding ''schema'' = PStr ''condition_binding.v1'')
        (ValueError ''condition_binding_schema_invalid'')) (\<lambda>_.
     rbind (validate_condition_template (pget binding ''template'')) (\<lambda>template.
     let parameters = pget binding ''typed_parameters'' in
     rbind (ct_fields parameters [''record_id''] ''binding_parameters'') (\<lambda>_.
     let reference = pget parameters ''record_id'' in
     rbind (ensure (is_dict reference) (ValueError ''condition_binding_reference_invalid'')) (\<lambda>_.
     let declarations = (if input_types = PNone then PDict [] else input_types) in
     rbind (ensure (is_dict declarations) (ValueError ''condition_binding_input_types_invalid'')) (\<lambda>_.
     rbind (ct_check_reference reference template declarations) (\<lambda>_.
     ct_copy (PDict [(''schema'', pget binding ''schema''), (''template'', template),
        (''typed_parameters'', parameters)]) ''binding'')))))))"

definition input_reference :: "pyval \<Rightarrow> string option" where
  "input_reference binding =
     (if \<not> is_dict binding \<or> \<not> is_dict (pget binding ''typed_parameters'') then None
      else let reference = pget (pget binding ''typed_parameters'') ''record_id'' in
        if is_dict reference \<and> pget reference ''source'' = PStr ''input''
        then (case pget reference ''name'' of PStr name \<Rightarrow> Some name | _ \<Rightarrow> None)
        else None)"

definition ct_declarations :: "pyval \<Rightarrow> pyval \<Rightarrow> pyval" where
  "ct_declarations binding inputs = (case input_reference binding of
       Some name \<Rightarrow> if phas inputs name then PDict [(name, PStr ''string'')] else PDict []
     | None \<Rightarrow> PDict [])"

section \<open>Snapshots\<close>

text \<open>The snapshot of a checked binding and its value, before its own digest.\<close>

definition ct_snapshot_body :: "pyval \<Rightarrow> string \<Rightarrow> string \<Rightarrow> string \<Rightarrow> string \<Rightarrow> pyval" where
  "ct_snapshot_body checked value condition binding_sha source_sha =
     (let template = pget checked ''template'' in PDict
       [(''schema'', PStr ''condition_snapshot.v1''),
        (''condition_template_id'', pget template ''condition_template_id''),
        (''revision'', pget template ''revision''),
        (''template_sha256'', pget template ''template_sha256''),
        (''binding'', checked),
        (''typed_parameters'', PDict [(''record_id'', PStr value)]),
        (''condition'', PStr condition),
        (''allowed_states'', pget template ''allowed_states''),
        (''review_policy'', pget template ''review_policy''),
        (''binding_sha256'', PStr binding_sha),
        (''source_sha256'', PStr source_sha)])"

definition ct_source :: "pyval \<Rightarrow> string \<Rightarrow> pyval" where
  "ct_source reference value = PDict
     [(''schema'', PStr ''condition_parameter_source.v1''),
      (''typed_parameters'', PDict [(''record_id'', pset ''value'' (PStr value) reference)])]"

definition resolve_condition_binding :: "pyval \<Rightarrow> pyval \<Rightarrow> pyval res" where
  "resolve_condition_binding binding inputs =
     rbind (ensure (is_dict inputs) (ValueError ''condition_binding_inputs_invalid'')) (\<lambda>_.
     rbind (validate_condition_binding binding (ct_declarations binding inputs)) (\<lambda>checked.
     let template = pget checked ''template'';
         reference = pget (pget checked ''typed_parameters'') ''record_id'' in
     rbind (if pget reference ''source'' = PStr ''literal'' then Inr (pget reference ''value'')
            else item inputs (py_str (pget reference ''name''))) (\<lambda>value.
     rbind (ct_parameter_value value template) (\<lambda>value.
     let condition = replace_sub ct_placeholder (json_str value) (py_str (pget template ''text_template'')) in
     rbind (ensure (length condition \<le> 4000) (ValueError ''condition_snapshot_text_invalid'')) (\<lambda>_.
     rbind (ct_digest checked) (\<lambda>binding_sha.
     rbind (ct_digest (ct_source reference value)) (\<lambda>source_sha.
     let body = ct_snapshot_body checked value condition binding_sha source_sha in
     rbind (ct_digest body) (\<lambda>sha.
     ct_copy (pset ''snapshot_sha256'' (PStr sha) body) ''snapshot''))))))))"

definition snapshot_fields :: "string list" where
  "snapshot_fields = [''schema'', ''condition_template_id'', ''revision'', ''template_sha256'', ''binding'',
     ''typed_parameters'', ''condition'', ''allowed_states'', ''review_policy'',
     ''binding_sha256'', ''source_sha256'', ''snapshot_sha256'']"

text \<open>\<^verbatim>\<open>except (ValueError, TypeError)\<close>\<close>

definition recover_value_type :: "pyexc \<Rightarrow> 'a res \<Rightarrow> 'a res" where
  "recover_value_type e r = (case r of
       Inl (ValueError _) \<Rightarrow> Inl e | Inl TypeError \<Rightarrow> Inl e | _ \<Rightarrow> r)"

definition validate_condition_snapshot :: "pyval \<Rightarrow> pyval res" where
  "validate_condition_snapshot snapshot =
     rbind (ct_fields snapshot snapshot_fields ''snapshot'') (\<lambda>_.
     rbind (ensure (pget snapshot ''schema'' = PStr ''condition_snapshot.v1'')
        (ValueError ''condition_snapshot_schema_invalid'')) (\<lambda>_.
     let parameters = pget snapshot ''typed_parameters'' in
     rbind (ct_fields parameters [''record_id''] ''snapshot_parameters'') (\<lambda>_.
     rbind (ensure (is_str (pget parameters ''record_id'')) (ValueError ''condition_snapshot_parameters_invalid'')) (\<lambda>_.
     let inputs = (case input_reference (pget snapshot ''binding'') of
            Some name \<Rightarrow> PDict [(name, pget parameters ''record_id'')] | None \<Rightarrow> PDict []) in
     recover_value_type (ValueError ''condition_snapshot_reconstruction_invalid'')
       (rbind (resolve_condition_binding (pget snapshot ''binding'') inputs) (\<lambda>expected.
        rbind (strict_json snapshot) (\<lambda>a. rbind (strict_json expected) (\<lambda>b.
        if a \<noteq> b then Inl (ValueError ''condition_snapshot_reconstruction_invalid'')
        else Inr expected))))))))"

definition make_record_id_template ::
    "string \<Rightarrow> pyval \<Rightarrow> string \<Rightarrow> pyval \<Rightarrow> pyval \<Rightarrow> pyval list \<Rightarrow> pyval \<Rightarrow> pyval res" where
  "make_record_id_template condition_template_id revision text_template min_length max_length allowed_states review_policy =
     (let snapshot = PDict
        [(''schema'', PStr ''condition_template.v1''), (''kind'', PStr ''record_id_equals_input''),
         (''condition_template_id'', PStr condition_template_id), (''revision'', revision),
         (''text_template'', PStr text_template),
         (''parameters'', PDict [(''record_id'', PDict
            [(''type'', PStr ''string''), (''min_length'', min_length), (''max_length'', max_length)])]),
         (''allowed_states'', PList allowed_states), (''review_policy'', review_policy)] in
      rbind (ct_digest snapshot) (\<lambda>digest.
      validate_condition_template (pset ''template_sha256'' (PStr digest) snapshot)))"

section \<open>Validation does not depend on the copy\<close>

lemma ct_fields_canon [simp]: "ct_fields (canon v) ks l = ct_fields v ks l"
  by (simp add: ct_fields_def)

lemma ct_digest_canon [simp]: "ct_digest (canon v) = ct_digest v"
  by (simp add: ct_digest_def)

lemma ct_copy_canon [simp]: "ct_copy (canon v) l = ct_copy v l"
  by (cases "strict_json v") (simp_all add: ct_copy_def)

lemma ct_copy_eq: "ct_copy v l = Inr w \<Longrightarrow> w = canon v"
  by (auto simp: ct_copy_def rbind_eq_Inr_iff split: if_splits)

lemma text_test_canon:
  "(case canon v of PStr s \<Rightarrow> P s | _ \<Rightarrow> False) = (case v of PStr s \<Rightarrow> P s | _ \<Rightarrow> False)"
  "(case canon v of PInt i \<Rightarrow> Q i | _ \<Rightarrow> False) = (case v of PInt i \<Rightarrow> Q i | _ \<Rightarrow> False)"
  by (cases v; simp)+

lemma sort_key_filter: "sort_key f (filter P xs) = filter P (sort_key f xs)"
  by (simp add: filter_sort)

lemma without_key_canon [simp]: "canon (without_key k v) = without_key k (canon v)"
  by (cases v) (simp_all add: without_key_def filter_map comp_def flip: sort_key_filter)

lemma ct_digest_without [simp]: "ct_digest (without_key k (canon v)) = ct_digest (without_key k v)"
  by (metis ct_digest_canon without_key_canon)

lemma ct_text_ok_canon [simp]: "ct_text_ok (canon v) = ct_text_ok v"
  by (cases v) (simp_all add: ct_text_ok_def text_between_def)

lemma ct_bounds_ok_canon [simp]: "ct_bounds_ok (canon v) = ct_bounds_ok v"
proof -
  have "(case (canon a, canon b) of (PInt l, PInt h) \<Rightarrow> Q l h | _ \<Rightarrow> False)
      = (case (a, b) of (PInt l, PInt h) \<Rightarrow> Q l h | _ \<Rightarrow> False)" for a b Q
    by (cases a; cases b) simp_all
  then show ?thesis by (simp add: ct_bounds_ok_def)
qed

lemma canon_str [simp]: "is_str v \<Longrightarrow> canon v = v"
  by (cases v) simp_all

lemma canon_strs: "list_all is_str xs \<Longrightarrow> map canon xs = xs"
  by (induction xs) simp_all

lemma ct_states_ok_canon [simp]: "ct_states_ok (canon v) = ct_states_ok v"
proof (cases v)
  case (PList xs)
  show ?thesis
  proof (cases "list_all is_str xs")
    case True
    with PList show ?thesis by (simp add: canon_strs)
  next
    case False
    then have "\<not> list_all is_str (map canon xs)" by (simp add: list_all_iff)
    with False PList show ?thesis unfolding ct_states_ok_def by (auto simp: list_all_iff)
  qed
qed (simp_all add: ct_states_ok_def)

lemma validate_template_canon [simp]: "validate_condition_template (canon v) = validate_condition_template v"
  by (simp add: validate_condition_template_def Let_def text_test_canon)

interpretation template: idempotent_check validate_condition_template canon
proof
  fix v w
  show "validate_condition_template v = Inr w \<Longrightarrow> w = canon v"
    by (auto simp: validate_condition_template_def Let_def rbind_eq_Inr_iff dest: ct_copy_eq)
qed simp_all

section \<open>Resolving a binding again\<close>

lemma ct_parameter_value_canon [simp]: "ct_parameter_value (canon v) t = ct_parameter_value v t"
  by (cases v) (simp_all add: ct_parameter_value_def split: pyval.split)

lemma ct_parameter_value_eq: "ct_parameter_value v t = Inr s \<Longrightarrow> v = PStr s"
  by (auto simp: ct_parameter_value_def Let_def split: pyval.splits if_splits)

lemma pset_canon_get: "is_dict v \<Longrightarrow> is_dict (canon v)"
  by simp

lemma ct_check_reference_canon [simp]: "ct_check_reference (canon r) t d = ct_check_reference r t d"
proof -
  have "(case canon n of PStr s \<Rightarrow> f s | _ \<Rightarrow> e) = (case n of PStr s \<Rightarrow> f s | _ \<Rightarrow> e)" for n f and e :: "unit res"
    by (cases n) simp_all
  then show ?thesis by (simp add: ct_check_reference_def)
qed

lemma binding_parts:
  assumes "validate_condition_binding b d = Inr c"
  obtains t where "validate_condition_template (pget b ''template'') = Inr t"
    and "c = canon (PDict [(''schema'', pget b ''schema''), (''template'', t), (''typed_parameters'', pget b ''typed_parameters'')])"
    and "pget b ''schema'' = PStr ''condition_binding.v1''"
    and "ct_fields (pget b ''typed_parameters'') [''record_id''] ''binding_parameters'' = Inr ()"
    and "is_dict (pget (pget b ''typed_parameters'') ''record_id'')"
    and "ct_check_reference (pget (pget b ''typed_parameters'') ''record_id'') t (if d = PNone then PDict [] else d) = Inr ()"
    and "ct_copy (PDict [(''schema'', pget b ''schema''), (''template'', t),
        (''typed_parameters'', pget b ''typed_parameters'')]) ''binding'' = Inr c"
  using assms unfolding validate_condition_binding_def Let_def
  by (elim rbind_InrE) (rule that, assumption, erule ct_copy_eq, simp_all)

lemma binding_get:
  assumes "c = canon (PDict [(''schema'', s), (''template'', t), (''typed_parameters'', ps)])"
  shows "pget c ''schema'' = canon s" and "pget c ''template'' = canon t" and "pget c ''typed_parameters'' = canon ps"
    and "ct_fields c [''schema'', ''template'', ''typed_parameters''] l = Inr ()" and "canon c = c"
  unfolding assms by (simp_all only: dict_get_canon ct_fields_canon canon_canon)
    (simp_all add: dict_get_def ct_fields_def keys_are_def)

lemma binding_again:
  assumes "validate_condition_binding b d = Inr c" and "is_dict d'"
    and "ct_check_reference (pget (pget c ''typed_parameters'') ''record_id'') (pget c ''template'') d' = Inr ()"
  shows "validate_condition_binding c d' = Inr c"
proof -
  from assms(1) obtain t where t: "validate_condition_template (pget b ''template'') = Inr t"
    and c: "c = canon (PDict [(''schema'', pget b ''schema''), (''template'', t), (''typed_parameters'', pget b ''typed_parameters'')])"
    and s: "pget b ''schema'' = PStr ''condition_binding.v1''"
    and p: "ct_fields (pget b ''typed_parameters'') [''record_id''] ''binding_parameters'' = Inr ()"
      "is_dict (pget (pget b ''typed_parameters'') ''record_id'')"
    and copy: "ct_copy (PDict [(''schema'', pget b ''schema''), (''template'', t),
        (''typed_parameters'', pget b ''typed_parameters'')]) ''binding'' = Inr c"
    by (rule binding_parts)
  note get = binding_get[OF c]
  have ct: "canon t = t" using template.check_fixed[OF t] .
  have "ct_copy (PDict [(''schema'', pget c ''schema''), (''template'', t), (''typed_parameters'', pget c ''typed_parameters'')]) ''binding''
      = Inr c"
  proof -
    have "canon (PDict [(''schema'', pget c ''schema''), (''template'', t), (''typed_parameters'', pget c ''typed_parameters'')])
        = canon (PDict [(''schema'', pget b ''schema''), (''template'', t), (''typed_parameters'', pget b ''typed_parameters'')])"
      by (simp add: get)
    then show ?thesis using copy ct_copy_canon by metis
  qed
  moreover have "validate_condition_template (pget c ''template'') = Inr t"
    using template.check_idem[OF t] by (simp add: get)
  ultimately show ?thesis
    using assms(2,3) s p get ct by (auto simp: validate_condition_binding_def Let_def)
qed

lemma count_zero_replace: "count_sub t s = 0 \<Longrightarrow> t \<noteq> [] \<Longrightarrow> replace_sub t u s = s"
proof (induction t s rule: count_sub.induct)
  case (1 t s)
  show ?case
  proof (cases "s = []")
    case True
    then show ?thesis by (subst replace_sub.simps) simp
  next
    case False
    from "1.prems" False have "\<not> starts_with t s" "count_sub t (tl s) = 0"
      by (simp_all add: count_sub.simps[of t s] split: if_splits)
    with 1(2) "1.prems"(2) False show ?thesis by (subst replace_sub.simps) simp
  qed
qed

lemma count_one_split:
  "count_sub t s = 1 \<Longrightarrow> t \<noteq> [] \<Longrightarrow>
     \<exists>pre post. s = pre @ t @ post \<and> (\<forall>u. replace_sub t u s = pre @ u @ post)"
proof (induction t s rule: count_sub.induct)
  case (1 t s)
  show ?case
  proof (cases "starts_with t s")
    case True
    have "s \<noteq> []" using 1(3) by (auto simp: count_sub.simps)
    have "count_sub t (drop (length t) s) = 0"
      using 1(3,4) True \<open>s \<noteq> []\<close> by (subst (asm) count_sub.simps) simp
    then have "replace_sub t u s = [] @ u @ drop (length t) s" for u
      using True 1(4) \<open>s \<noteq> []\<close> by (subst replace_sub.simps) (simp add: count_zero_replace)
    moreover have "s = [] @ t @ drop (length t) s"
      using True by (metis append_Nil append_take_drop_id starts_with_def)
    ultimately show ?thesis by blast
  next
    case False
    have "s \<noteq> []" using 1(3) by (auto simp: count_sub.simps)
    have "count_sub t (tl s) = 1"
      using 1(3,4) False \<open>s \<noteq> []\<close> by (subst (asm) count_sub.simps) simp
    with 1(2)[OF _ False] 1(4) \<open>s \<noteq> []\<close> obtain pre post where
      p: "tl s = pre @ t @ post" "\<forall>u. replace_sub t u (tl s) = pre @ u @ post" by auto
    have "replace_sub t u s = (hd s # pre) @ u @ post" for u
      using False 1(4) \<open>s \<noteq> []\<close> p(2) by (subst replace_sub.simps) simp
    moreover have "s = (hd s # pre) @ t @ post"
      using p(1) \<open>s \<noteq> []\<close> by (metis append_Cons list.collapse)
    ultimately show ?thesis by blast
  qed
qed

section \<open>The snapshot resolves to itself\<close>

lemma resolve_parts:
  assumes "resolve_condition_binding b inputs = Inr s"
  obtains c v w bsha ssha sha where
    "validate_condition_binding b (ct_declarations b inputs) = Inr c"
    and "(if pget (pget (pget c ''typed_parameters'') ''record_id'') ''source'' = PStr ''literal''
          then Inr (pget (pget (pget c ''typed_parameters'') ''record_id'') ''value'')
          else item inputs (py_str (pget (pget (pget c ''typed_parameters'') ''record_id'') ''name''))) = Inr w"
    and "ct_parameter_value w (pget c ''template'') = Inr v"
    and "length (replace_sub ct_placeholder (json_str v) (py_str (pget (pget c ''template'') ''text_template''))) \<le> 4000"
    and "ct_digest c = Inr bsha"
    and "ct_digest (ct_source (pget (pget c ''typed_parameters'') ''record_id'') v) = Inr ssha"
    and "ct_digest (ct_snapshot_body c v (replace_sub ct_placeholder (json_str v)
          (py_str (pget (pget c ''template'') ''text_template''))) bsha ssha) = Inr sha"
    and "ct_copy (pset ''snapshot_sha256'' (PStr sha) (ct_snapshot_body c v (replace_sub ct_placeholder (json_str v)
          (py_str (pget (pget c ''template'') ''text_template''))) bsha ssha)) ''snapshot'' = Inr s"
  using assms unfolding resolve_condition_binding_def Let_def
  by (elim rbind_InrE) (rule that, assumption+, simp, assumption+)

lemma resolve_intro:
  assumes "is_dict inputs" and "validate_condition_binding b (ct_declarations b inputs) = Inr c"
    and "(if pget (pget (pget c ''typed_parameters'') ''record_id'') ''source'' = PStr ''literal''
          then Inr (pget (pget (pget c ''typed_parameters'') ''record_id'') ''value'')
          else item inputs (py_str (pget (pget (pget c ''typed_parameters'') ''record_id'') ''name''))) = Inr w"
    and "ct_parameter_value w (pget c ''template'') = Inr v"
    and "length (replace_sub ct_placeholder (json_str v) (py_str (pget (pget c ''template'') ''text_template''))) \<le> 4000"
    and "ct_digest c = Inr bsha"
    and "ct_digest (ct_source (pget (pget c ''typed_parameters'') ''record_id'') v) = Inr ssha"
    and "ct_digest (ct_snapshot_body c v (replace_sub ct_placeholder (json_str v)
          (py_str (pget (pget c ''template'') ''text_template''))) bsha ssha) = Inr sha"
    and "ct_copy (pset ''snapshot_sha256'' (PStr sha) (ct_snapshot_body c v (replace_sub ct_placeholder (json_str v)
          (py_str (pget (pget c ''template'') ''text_template''))) bsha ssha)) ''snapshot'' = Inr s"
  shows "resolve_condition_binding b inputs = Inr s"
  unfolding resolve_condition_binding_def Let_def
  by (simp only: assms(1) ensure_simps rbind_Inr assms(2) assms(3) assms(4) assms(5) assms(6) assms(7) assms(8) assms(9))

lemma snapshot_get:
  assumes "s = canon (pset ''snapshot_sha256'' (PStr sha) (ct_snapshot_body c v cond bsha ssha))"
  shows "ct_fields s snapshot_fields l = Inr ()" and "pget s ''schema'' = PStr ''condition_snapshot.v1''"
    and "pget s ''binding'' = canon c" and "pget s ''typed_parameters'' = PDict [(''record_id'', PStr v)]"
    and "pget s ''condition'' = PStr cond"
  unfolding assms
  by (simp_all add: ct_snapshot_body_def Let_def dict_get_def ct_fields_def keys_are_def snapshot_fields_def) auto

lemma binding_reference:
  assumes "validate_condition_binding b d = Inr c"
  shows "input_reference c = (if pget (pget (pget c ''typed_parameters'') ''record_id'') ''source'' = PStr ''input''
      then Some (py_str (pget (pget (pget c ''typed_parameters'') ''record_id'') ''name'')) else None)"
    and "ct_check_reference (pget (pget c ''typed_parameters'') ''record_id'') (pget c ''template'')
      (if d = PNone then PDict [] else d) = Inr ()"
    and "is_dict c" and "canon c = c"
proof -
  from assms obtain t where t: "validate_condition_template (pget b ''template'') = Inr t"
    and c: "c = canon (PDict [(''schema'', pget b ''schema''), (''template'', t), (''typed_parameters'', pget b ''typed_parameters'')])"
    and p: "is_dict (pget (pget b ''typed_parameters'') ''record_id'')"
    and r: "ct_check_reference (pget (pget b ''typed_parameters'') ''record_id'') t (if d = PNone then PDict [] else d) = Inr ()"
    by (rule binding_parts)
  note get = binding_get[OF c]
  show "canon c = c" by (rule get(5))
  show d: "is_dict c" unfolding c by simp
  show r': "ct_check_reference (pget (pget c ''typed_parameters'') ''record_id'') (pget c ''template'')
      (if d = PNone then PDict [] else d) = Inr ()"
    using r template.check_fixed[OF t] by (simp add: get)
  have ps: "is_dict (pget (pget c ''typed_parameters'') ''record_id'')" "is_dict (pget c ''typed_parameters'')"
    using p by (simp_all add: get) (cases "pget b ''typed_parameters''", simp_all)
  have "is_str (pget (pget (pget c ''typed_parameters'') ''record_id'') ''name'')"
    if "pget (pget (pget c ''typed_parameters'') ''record_id'') ''source'' = PStr ''input''"
    using r' that by (auto simp: ct_check_reference_def rbind_eq_Inr_iff split: pyval.splits)
  then show "input_reference c = (if pget (pget (pget c ''typed_parameters'') ''record_id'') ''source'' = PStr ''input''
      then Some (py_str (pget (pget (pget c ''typed_parameters'') ''record_id'') ''name'')) else None)"
    using d ps by (auto simp: input_reference_def Let_def is_type_iff)
qed

lemma reference_again:
  assumes "ct_check_reference r t d = Inr ()"
  shows "ct_check_reference r t (if pget r ''source'' = PStr ''input'' then PDict [(py_str (pget r ''name''), PStr ''string'')]
      else PDict []) = Inr ()"
  using assms
  by (auto simp: ct_check_reference_def rbind_eq_Inr_iff phas_def dict_get_def split: pyval.splits if_splits)

lemma resolve_again:
  assumes "resolve_condition_binding b inputs = Inr s"
  shows "validate_condition_snapshot s = Inr s"
proof -
  from assms obtain c v w bsha ssha sha where
    c: "validate_condition_binding b (ct_declarations b inputs) = Inr c"
    and w: "(if pget (pget (pget c ''typed_parameters'') ''record_id'') ''source'' = PStr ''literal''
          then Inr (pget (pget (pget c ''typed_parameters'') ''record_id'') ''value'')
          else item inputs (py_str (pget (pget (pget c ''typed_parameters'') ''record_id'') ''name''))) = Inr w"
    and v: "ct_parameter_value w (pget c ''template'') = Inr v"
    and rest: "length (replace_sub ct_placeholder (json_str v) (py_str (pget (pget c ''template'') ''text_template''))) \<le> 4000"
      "ct_digest c = Inr bsha"
      "ct_digest (ct_source (pget (pget c ''typed_parameters'') ''record_id'') v) = Inr ssha"
      "ct_digest (ct_snapshot_body c v (replace_sub ct_placeholder (json_str v)
          (py_str (pget (pget c ''template'') ''text_template''))) bsha ssha) = Inr sha"
      "ct_copy (pset ''snapshot_sha256'' (PStr sha) (ct_snapshot_body c v (replace_sub ct_placeholder (json_str v)
          (py_str (pget (pget c ''template'') ''text_template''))) bsha ssha)) ''snapshot'' = Inr s"
    by (rule resolve_parts)
  let ?r = "pget (pget c ''typed_parameters'') ''record_id''"
  let ?in = "pget ?r ''source'' = PStr ''input''"
  let ?inputs = "if ?in then PDict [(py_str (pget ?r ''name''), PStr v)] else PDict []"
  note ref = binding_reference[OF c]
  have "pget s ''binding'' = c" and get: "ct_fields s snapshot_fields ''snapshot'' = Inr ()"
    "pget s ''schema'' = PStr ''condition_snapshot.v1''" "pget s ''typed_parameters'' = PDict [(''record_id'', PStr v)]"
    using snapshot_get[OF ct_copy_eq[OF rest(5)]] ref(4) by simp_all
  have decl: "ct_declarations c ?inputs
      = (if ?in then PDict [(py_str (pget ?r ''name''), PStr ''string'')] else PDict [])"
    by (simp add: ct_declarations_def ref(1) phas_def)
  have "validate_condition_binding c (ct_declarations c ?inputs) = Inr c"
    unfolding decl by (rule binding_again[OF c _ reference_again[OF ref(2)]]) simp
  moreover have "(if pget ?r ''source'' = PStr ''literal'' then Inr (pget ?r ''value'')
      else item ?inputs (py_str (pget ?r ''name''))) = Inr (PStr v)"
  proof (cases "pget ?r ''source'' = PStr ''literal''")
    case True
    with w ct_parameter_value_eq[OF v] show ?thesis by simp
  next
    case False
    with ref(2) have ?in by (auto simp: ct_check_reference_def split: if_splits)
    with False show ?thesis by (simp add: item_def)
  qed
  moreover have "ct_parameter_value (PStr v) (pget c ''template'') = Inr v"
    using v ct_parameter_value_eq[OF v] by simp
  ultimately have again: "resolve_condition_binding c ?inputs = Inr s"
    by (intro resolve_intro[OF _ _ _ _ rest]) simp_all
  have inputs: "(case input_reference c of Some name \<Rightarrow> PDict [(name, pget (PDict [(''record_id'', PStr v)]) ''record_id'')]
      | None \<Rightarrow> PDict []) = ?inputs"
    by (simp add: ref(1) dict_get_def)
  obtain js where "strict_json s = Inr js"
  proof -
    have "all_finite s"
      using rest(5) ct_copy_eq[OF rest(5)] by (auto simp: ct_copy_def strict_json_def split: if_splits)
    then show thesis by (auto intro: that simp: strict_json_def)
  qed
  moreover have "ct_fields (PDict [(''record_id'', PStr v)]) [''record_id''] l = Inr ()"
    "pget (PDict [(''record_id'', PStr v)]) ''record_id'' = PStr v" for l
    by (simp_all add: ct_fields_def keys_are_def dict_get_def)
  ultimately show ?thesis
    unfolding validate_condition_snapshot_def Let_def get \<open>pget s ''binding'' = c\<close> inputs
    by (simp add: again recover_value_type_def)
qed

section \<open>Copies of small values\<close>

lemma ct_copy_ok: "all_finite v \<Longrightarrow> json_bound v \<le> 32768 \<Longrightarrow> ct_copy v l = Inr (canon v)"
proof -
  assume v: "all_finite v" "json_bound v \<le> 32768"
  have "length (utf8 (compact_json v)) \<le> 65536"
    using utf8_length[of "compact_json v"] json_text_length[of "canon v"] v(2) by (simp add: compact_json_def)
  with v(1) show "ct_copy v l = Inr (canon v)" by (simp add: ct_copy_def strict_json_def)
qed

lemma ct_digest_ok: "all_finite v \<Longrightarrow> \<exists>h. ct_digest v = Inr h \<and> hex_re 64 h"
  by (simp add: ct_digest_def strict_json_def sha256_hex_re)

section \<open>A sample condition\<close>

definition sample_raw :: pyval where
  "sample_raw = PDict
     [(''schema'', PStr ''condition_template.v1''), (''kind'', PStr ''record_id_equals_input''),
      (''condition_template_id'', PStr ''detail''), (''revision'', PInt 1),
      (''text_template'', PStr ''ID is {record_id}.''),
      (''parameters'', PDict [(''record_id'', PDict
         [(''type'', PStr ''string''), (''min_length'', PInt 1), (''max_length'', PInt 160)])]),
      (''allowed_states'', PList []), (''review_policy'', PStr ''adaptive'')]"

definition sample_template :: "string \<Rightarrow> pyval" where
  "sample_template h = pset ''template_sha256'' (PStr h) sample_raw"

lemma sample_template_get:
  "ct_fields (sample_template h) template_fields l = Inr ()"
  "pget (sample_template h) ''schema'' = PStr ''condition_template.v1''"
  "pget (sample_template h) ''kind'' = PStr ''record_id_equals_input''"
  "pget (sample_template h) ''condition_template_id'' = PStr ''detail''"
  "pget (sample_template h) ''revision'' = PInt 1"
  "pget (sample_template h) ''text_template'' = PStr ''ID is {record_id}.''"
  "pget (sample_template h) ''parameters'' = PDict [(''record_id'', PDict
         [(''type'', PStr ''string''), (''min_length'', PInt 1), (''max_length'', PInt 160)])]"
  "pget (sample_template h) ''allowed_states'' = PList []"
  "pget (sample_template h) ''review_policy'' = PStr ''adaptive''"
  "pget (sample_template h) ''template_sha256'' = PStr h"
  "without_key ''template_sha256'' (sample_template h) = sample_raw"
  "all_finite (sample_template h)"
  by (simp_all add: sample_template_def sample_raw_def dict_get_def ct_fields_def keys_are_def
      template_fields_def without_key_def insert_commute)

lemma sample_checks_ok:
  "ct_text_ok (PStr ''ID is {record_id}.'')" "identifier_re 159 ''detail''" "ct_states_ok (PList [])"
  "ct_bounds_ok (PDict [(''type'', PStr ''string''), (''min_length'', PInt 1), (''max_length'', PInt 160)])"
  "ct_fields (PDict [(''record_id'', r)]) [''record_id''] l = Inr ()"
  "ct_fields (PDict [(''type'', PStr ''string''), (''min_length'', PInt 1), (''max_length'', PInt 160)])
     [''type'', ''min_length'', ''max_length''] l = Inr ()"
  by code_simp+

lemma sample_bound: "length h = 64 \<Longrightarrow> json_bound (sample_template h) \<le> 5000"
proof -
  have "json_bound (sample_template h) = json_bound (sample_template []) + 6 * length h"
    by (simp add: sample_template_def sample_raw_def)
  moreover have "json_bound (sample_template []) \<le> 4600" by code_simp
  ultimately show "length h = 64 \<Longrightarrow> json_bound (sample_template h) \<le> 5000" by simp
qed

lemma sample_template_ok:
  "\<exists>h. ct_digest sample_raw = Inr h \<and> validate_condition_template (sample_template h) = Inr (canon (sample_template h))
     \<and> length h = 64"
proof -
  have "all_finite sample_raw" by (simp add: sample_raw_def)
  from ct_digest_ok[OF this] obtain h where h: "ct_digest sample_raw = Inr h" "hex_re 64 h" by blast
  have len: "length h = 64" using h(2) by (simp add: hex_re_def)
  have "ct_copy (sample_template h) ''template'' = Inr (canon (sample_template h))"
    using sample_bound[OF len] by (intro ct_copy_ok) (simp_all add: sample_template_get)
  then have "validate_condition_template (sample_template h) = Inr (canon (sample_template h))"
    unfolding validate_condition_template_def Let_def sample_template_get
    using h sample_checks_ok by (simp add: dict_get_def)
  with h(1) len show ?thesis by blast
qed

lemma sample_made:
  "\<exists>t. make_record_id_template ''detail'' (PInt 1) ''ID is {record_id}.'' (PInt 1) (PInt 160) [] (PStr ''adaptive'') = Inr t"
  using sample_template_ok by (auto simp: make_record_id_template_def Let_def sample_template_def simp flip: sample_raw_def)

definition sample_binding :: "string \<Rightarrow> pyval" where
  "sample_binding h = PDict [(''schema'', PStr ''condition_binding.v1''), (''template'', sample_template h),
     (''typed_parameters'', PDict [(''record_id'', PDict [(''source'', PStr ''literal''), (''value'', PStr ''A-1'')])])]"

lemma all_finite_pset: "all_finite r \<Longrightarrow> all_finite x \<Longrightarrow> all_finite (pset k x r)"
proof (cases r)
  case (PDict d)
  have "list_all (\<lambda>kv. all_finite (snd kv)) d \<Longrightarrow> all_finite x \<Longrightarrow>
      list_all (\<lambda>kv. all_finite (snd kv)) (dput k x d)" for d
    by (induction k x d rule: dput.induct) auto
  then show "all_finite r \<Longrightarrow> all_finite x \<Longrightarrow> ?thesis" using PDict by simp
qed simp_all

lemma int_text_1: "length (int_text 1) = 1"
  by code_simp

lemma resolve_sample:
  assumes c: "validate_condition_binding b (ct_declarations b (PDict [])) = Inr c"
    and lit: "pget (pget (pget c ''typed_parameters'') ''record_id'') ''source'' = PStr ''literal''"
      "pget (pget (pget c ''typed_parameters'') ''record_id'') ''value'' = PStr v"
    and t: "pget c ''template'' = canon (sample_template h)" and h: "length h = 64"
    and val: "ct_parameter_value (PStr v) (pget c ''template'') = Inr v"
    and len: "length v \<le> 100" "length (replace_sub ct_placeholder (json_str v) ''ID is {record_id}.'') \<le> 100"
    and small: "json_bound c \<le> 10000" "all_finite c"
      "all_finite (pget (pget c ''typed_parameters'') ''record_id'')"
  shows "\<exists>s. resolve_condition_binding b (PDict []) = Inr s"
proof -
  let ?ref = "pget (pget c ''typed_parameters'') ''record_id''"
  have "all_finite (ct_source ?ref v)" using small(3) by (simp add: ct_source_def all_finite_pset)
  from ct_digest_ok[OF small(2)] ct_digest_ok[OF this] obtain bs ss where
    d: "ct_digest c = Inr bs" "hex_re 64 bs" "ct_digest (ct_source ?ref v) = Inr ss" "hex_re 64 ss" by blast
  have cond: "py_str (pget (pget c ''template'') ''text_template'') = ''ID is {record_id}.''"
    by (simp add: t sample_template_get)
  let ?cond = "replace_sub ct_placeholder (json_str v) (py_str (pget (pget c ''template'') ''text_template''))"
  let ?body = "ct_snapshot_body c v ?cond bs ss"
  have body: "json_bound (pset ''snapshot_sha256'' (PStr x) ?body) \<le> 32768"
    "all_finite (pset ''snapshot_sha256'' (PStr x) ?body)" "all_finite ?body" if "length x = 64" for x
    using small(1,2) len d(2,4) h that
    by (simp_all add: ct_snapshot_body_def Let_def cond) (simp_all add: t sample_template_get hex_re_def int_text_1)
  from body(3)[of "replicate 64 (CHR ''0'')"] ct_digest_ok[of ?body] obtain x where
    x: "ct_digest ?body = Inr x" "hex_re 64 x" by auto
  from ct_copy_ok[OF body(2,1)] x(2)
  have copy: "ct_copy (pset ''snapshot_sha256'' (PStr x) ?body) ''snapshot''
      = Inr (canon (pset ''snapshot_sha256'' (PStr x) ?body))"
    by (simp add: hex_re_def)
  have "length ?cond \<le> 4000" using len(2) by (simp add: cond)
  then have "resolve_condition_binding b (PDict [])
      = Inr (canon (pset ''snapshot_sha256'' (PStr x) ?body))"
    by (intro resolve_intro[OF _ c _ val _ d(1,3) x(1) copy]) (simp_all add: lit)
  then show ?thesis by blast
qed

lemma sample_resolved: "\<exists>h s. resolve_condition_binding (sample_binding h) (PDict []) = Inr s"
proof -
  obtain h where h: "validate_condition_template (sample_template h) = Inr (canon (sample_template h))" "length h = 64"
    using sample_template_ok by blast
  let ?ref = "PDict [(''source'', PStr ''literal''), (''value'', PStr ''A-1'')]"
  let ?ps = "PDict [(''record_id'', ?ref)]"
  let ?c = "canon (PDict [(''schema'', PStr ''condition_binding.v1''), (''template'', canon (sample_template h)),
     (''typed_parameters'', ?ps)])"
  have get: "pget (sample_binding h) ''schema'' = PStr ''condition_binding.v1''"
    "pget (sample_binding h) ''template'' = sample_template h" "pget (sample_binding h) ''typed_parameters'' = ?ps"
    "ct_fields (sample_binding h) [''schema'', ''template'', ''typed_parameters''] l = Inr ()" for l
    by (simp_all add: sample_binding_def dict_get_def ct_fields_def keys_are_def)
  have ok: "ct_parameter_value (PStr ''A-1'') (sample_template h) = Inr ''A-1''"
    by (simp add: ct_parameter_value_def sample_template_get dict_get_def)
  then have "ct_parameter_value (PStr ''A-1'') (canon (sample_template h)) = Inr ''A-1''"
    by (simp add: ct_parameter_value_def sample_template_get dict_get_def)
  then have "ct_check_reference ?ref (canon (sample_template h)) (PDict []) = Inr ()"
    by (simp add: ct_check_reference_def dict_get_def ct_fields_def keys_are_def)
  moreover have small: "json_bound ?c \<le> 10000" "all_finite ?c"
    using sample_bound[OF h(2)] by (simp_all add: sample_template_get)
  moreover have "ct_declarations (sample_binding h) (PDict []) = PDict []"
    by (simp add: ct_declarations_def phas_def split: option.split)
  ultimately have c: "validate_condition_binding (sample_binding h) (ct_declarations (sample_binding h) (PDict [])) = Inr ?c"
    unfolding validate_condition_binding_def Let_def get
    using h(1) sample_checks_ok(5)[of ?ref] by (simp add: ct_copy_ok dict_get_def)


  have ref: "pget (pget ?c ''typed_parameters'') ''record_id'' = canon ?ref" "pget ?c ''template'' = canon (sample_template h)"
    by (simp_all add: dict_get_def)
  have lit: "pget (canon ?ref) ''source'' = PStr ''literal''" "pget (canon ?ref) ''value'' = PStr ''A-1''"
    by (simp_all add: dict_get_def)
  have val: "ct_parameter_value (PStr ''A-1'') (pget ?c ''template'') = Inr ''A-1''"
    unfolding ref(2) by (simp add: ct_parameter_value_def sample_template_get dict_get_def)
  have cond: "length (replace_sub ct_placeholder (json_str ''A-1'') ''ID is {record_id}.'') \<le> 100" by code_simp
  have "all_finite (canon ?ref)" by simp
  from resolve_sample[OF c _ _ ref(2) h(2) val _ cond small, unfolded ref(1), OF lit _ this] show ?thesis by auto
qed

section \<open>Properties of conditions\<close>

text \<open>C23: A template that was made, or that validation returned for any snapshot, is accepted when it is read back, and returned unchanged.\<close>

theorem condition_template_roundtrip:
  assumes "make_record_id_template i n txt low high states policy = Inr t \<or> validate_condition_template v = Inr t"
  shows "validate_condition_template t = Inr t"
  using assms template.check_idem by (auto simp: make_record_id_template_def Let_def rbind_eq_Inr_iff)

theorem condition_template_roundtrip_witness: "\<exists>t. validate_condition_template t = Inr t"
  using condition_template_roundtrip sample_made by blast

text \<open>The snapshot a binding resolves to is reconstructed, field by field and digest by digest, from itself alone: reading it back needs no other input and returns it unchanged.\<close>

theorem condition_snapshot_roundtrip:
  assumes "resolve_condition_binding binding inputs = Inr s"
  shows "validate_condition_snapshot s = Inr s"
  using assms by (rule resolve_again)

theorem condition_snapshot_roundtrip_witness: "\<exists>s. validate_condition_snapshot s = Inr s"
  using sample_resolved condition_snapshot_roundtrip by blast

text \<open>A resolved condition is the template's text with its only placeholder replaced by the JSON string of the bound value; the rest of the text holds no brace, so a value that itself contains a placeholder or a brace is never expanded.\<close>

theorem condition_inserts_value_once:
  assumes "resolve_condition_binding binding inputs = Inr s"
  shows "\<exists>before after v. pget (pget (pget s ''binding'') ''template'') ''text_template''
        = PStr (before @ ct_placeholder @ after)
      \<and> pget (pget s ''typed_parameters'') ''record_id'' = PStr v
      \<and> pget s ''condition'' = PStr (before @ json_str v @ after)
      \<and> CHR ''{'' \<notin> set (before @ after) \<and> CHR ''}'' \<notin> set (before @ after)"
proof -
  from assms obtain c v w bsha ssha sha where
    c: "validate_condition_binding binding (ct_declarations binding inputs) = Inr c"
    and s: "ct_copy (pset ''snapshot_sha256'' (PStr sha) (ct_snapshot_body c v (replace_sub ct_placeholder (json_str v)
          (py_str (pget (pget c ''template'') ''text_template''))) bsha ssha)) ''snapshot'' = Inr s"
    by (rule resolve_parts)
  note get = snapshot_get[OF ct_copy_eq[OF s]]
  have sc: "pget s ''binding'' = c" using get(3) binding_reference(4)[OF c] by simp
  from c obtain t where t: "validate_condition_template (pget binding ''template'') = Inr t"
    and eq: "c = canon (PDict [(''schema'', pget binding ''schema''), (''template'', t), (''typed_parameters'', pget binding ''typed_parameters'')])"
    by (rule binding_parts)
  have ct: "pget c ''template'' = t" using binding_get(2)[OF eq] template.check_fixed[OF t] by simp
  have "ct_text_ok (pget t ''text_template'')"
    using template.check_idem[OF t] unfolding validate_condition_template_def Let_def
    by (elim rbind_InrE) simp
  then obtain x where x: "pget t ''text_template'' = PStr x" "count_sub ct_placeholder x = 1"
    "\<not> list_ex (\<lambda>c. c = CHR ''{'' \<or> c = CHR ''}'') (replace_sub ct_placeholder [] x)"
    by (auto simp: ct_text_ok_def text_between_def split: pyval.splits)
  have "ct_placeholder \<noteq> []" by (simp add: ct_placeholder_def)
  from count_one_split[OF x(2) this] obtain pre post where
    p: "x = pre @ ct_placeholder @ post" "\<And>u. replace_sub ct_placeholder u x = pre @ u @ post" by blast
  from x(3) p(2)[of "[]"] have "CHR ''{'' \<notin> set (pre @ post)" "CHR ''}'' \<notin> set (pre @ post)"
    by (auto simp: list_ex_iff)
  moreover have "pget s ''condition'' = PStr (pre @ json_str v @ post)"
    using get(5) by (simp add: ct x(1) p(2))
  moreover have "pget (pget s ''typed_parameters'') ''record_id'' = PStr v"
    by (simp add: get(4) dict_get_def)
  moreover have "pget (pget (pget s ''binding'') ''template'') ''text_template'' = PStr (pre @ ct_placeholder @ post)"
    by (simp add: sc ct x(1) p(1))
  ultimately show ?thesis by blast
qed

theorem condition_inserts_value_once_witness:
  "\<exists>s before after v. pget s ''condition'' = PStr (before @ json_str v @ after)
     \<and> CHR ''{'' \<notin> set (before @ after)"
  using sample_resolved condition_inserts_value_once by blast

end
