(* ===== verification/AdaptivePolicy.thy ===== *)
theory AdaptivePolicy
  imports ChoiceContract
begin

text \<open>
  \<^verbatim>\<open>app/judgment/adaptive_policy.py\<close>: the context of a review, the predicates a request asks
  for, and the assessment that turns their probabilities into a verdict and a disposition.
  A probability is the rational number the float denotes; a context is \<open>PNone\<close> or a dictionary.
\<close>

section \<open>Contexts\<close>

definition review_required_fields :: "string list" where
  "review_required_fields = [''goal'', ''step_goal'', ''remaining_plan'', ''allowed_states'']"

definition review_optional_fields :: "string list" where
  "review_optional_fields = [''source_sha256'', ''source_id'', ''review_policy'', ''wait_policy'']"

definition optional_ok :: "pyval \<Rightarrow> string \<Rightarrow> (pyval \<Rightarrow> bool) \<Rightarrow> bool" where
  "optional_ok value key p = (phas value key \<longrightarrow> p (pget value key))"

definition text_list :: "nat \<Rightarrow> pyval \<Rightarrow> bool" where
  "text_list maximum v = (is_list v \<and> list_all (text_upto maximum) (plist v))"

definition wait_policy_ok :: "pyval \<Rightarrow> bool" where
  "wait_policy_ok wait = (is_dict wait
     \<and> keys_are wait [''loading_condition'', ''completion_excludes_loading'']
     \<and> text_upto 4000 (pget wait ''loading_condition'')
     \<and> is_bool (pget wait ''completion_excludes_loading''))"

definition normalize_review_context :: "pyval \<Rightarrow> pyval res" where
  "normalize_review_context value =
     rbind (ensure (is_dict value \<and> keys_include value review_required_fields
        \<and> keys_within value (review_required_fields @ review_optional_fields))
        (ValueError ''decision_review_context_fields_invalid'')) (\<lambda>_.
     rbind (ensure (text_upto 4000 (pget value ''goal'') \<and> text_upto 4000 (pget value ''step_goal'')
        \<and> optional_ok value ''source_id'' (text_upto 200))
        (ValueError ''decision_review_context_text_invalid'')) (\<lambda>_.
     rbind (ensure (text_list 2000 (pget value ''remaining_plan'') \<and> text_list 1000 (pget value ''allowed_states'')
        \<and> length (plist (pget value ''allowed_states'')) \<le> 32)
        (ValueError ''decision_review_context_list_invalid'')) (\<lambda>_.
     rbind (ensure (optional_ok value ''source_sha256'' (str_ok (hex_re 64)))
        (ValueError ''decision_review_context_source_invalid'')) (\<lambda>_.
     rbind (ensure (optional_ok value ''review_policy'' (\<lambda>v. one_of v [''adaptive'', ''always_main'']))
        (ValueError ''decision_review_context_policy_invalid'')) (\<lambda>_.
     rbind (ensure (optional_ok value ''wait_policy'' wait_policy_ok)
        (ValueError ''decision_wait_policy_invalid'')) (\<lambda>_.
     bounded_copy (64 * 1024) (ValueError ''decision_review_context_too_large'') value))))))"

text \<open>The time left, computed in floats as the source does: \<^verbatim>\<open>(12000 - elapsed) / 1000\<close>.\<close>

definition seconds_left :: "rat \<Rightarrow> rat" where
  "seconds_left elapsed = near64 (near64 (12000 - elapsed) / 1000)"

definition normalize_assessment_context :: "pyval \<Rightarrow> pyval res" where
  "normalize_assessment_context value =
     rbind (ensure (is_dict value \<and> keys_are value [''assessment_round'', ''original_receipt_sha256'',
          ''evidence_set_sha256'', ''elapsed_ms'', ''timeout_seconds''])
        (ValueError ''decision_assessment_context_fields_invalid'')) (\<lambda>_.
     rbind (ensure (case pget value ''assessment_round'' of PInt i \<Rightarrow> 0 \<le> i \<and> i \<le> 2 | _ \<Rightarrow> False)
        (ValueError ''decision_assessment_round_invalid'')) (\<lambda>_.
     rbind (ensure (str_ok (hex_re 64) (pget value ''original_receipt_sha256'')
        \<and> str_ok (hex_re 64) (pget value ''evidence_set_sha256''))
        (ValueError ''decision_assessment_hash_invalid'')) (\<lambda>_.
     let elapsed = pget value ''elapsed_ms''; timeout = pget value ''timeout_seconds'' in
     rbind (ensure (is_num elapsed \<and> 0 \<le> num_rat elapsed \<and> num_rat elapsed < 12000
        \<and> is_num timeout \<and> 0 < num_rat timeout \<and> num_rat timeout \<le> seconds_left (num_rat elapsed))
        (ValueError ''decision_assessment_budget_invalid'')) (\<lambda>_. Inr value))))"

section \<open>Requests\<close>

definition danger_name :: "string \<Rightarrow> string" where
  "danger_name phase = (if phase = ''before_action'' then ''unsafe_effect'' else ''visible_error'')"

definition context_wait :: "pyval \<Rightarrow> pyval" where
  "context_wait context = pget context ''wait_policy''"

definition enabled_predicates :: "decision_profile \<Rightarrow> string \<Rightarrow> pyval \<Rightarrow> string list" where
  "enabled_predicates profile phase context =
     (if decision_format profile = ''choice'' then []
      else [''condition_met'', danger_name phase]
        @ (if proactive_review profile then [''needs_agent_review''] else [])
        @ (if phase = ''after_action'' \<and> truthy (context_wait context) then [''still_progressing''] else []))"

definition effective_review_policy :: "decision_profile \<Rightarrow> pyval \<Rightarrow> string" where
  "effective_review_policy profile context =
     (if review_policy profile = ''always_main'' \<or> pget context ''review_policy'' = PStr ''always_main''
      then ''always_main'' else ''adaptive'')"

definition metadata :: "decision_profile \<Rightarrow> string \<Rightarrow> pyval \<Rightarrow> pyval" where
  "metadata profile phase context =
     (if decision_format profile = ''choice'' then
        PDict [(''schema_version'', PStr ''decision_assessment.v2''), (''decision_format'', PStr ''choice''),
          (''choice_result'', PNone), (''disposition'', PStr ''review_required''),
          (''suggested_disposition'', PNone), (''review_scope'', PStr ''runtime_diagnostic''),
          (''reason_codes'', PList []), (''enabled_predicates'', PList []), (''predicates'', PDict []),
          (''probabilities'', PDict [])]
      else
        let names = enabled_predicates profile phase context;
            every = [''condition_met'', danger_name phase, ''needs_agent_review'', ''still_progressing''] in
        PDict [(''schema_version'', PStr ''decision_assessment.v2''), (''disposition'', PStr ''review_required''),
          (''suggested_disposition'', PNone), (''review_scope'', PStr ''runtime_diagnostic''),
          (''reason_codes'', PList []), (''enabled_predicates'', PList (map PStr names)),
          (''predicates'', PDict (map (\<lambda>name. (name, PDict [
             (''type'', PStr (if name \<in> set names then ''unavailable'' else ''not_requested'')),
             (''probability'', PNone)])) every)),
          (''probabilities'', PDict (map (\<lambda>name. (name, PNone)) every))])"

text \<open>\<^verbatim>\<open>list(dict.fromkeys(xs))\<close>: the first occurrence of each entry.\<close>

definition first_of_each :: "'a list \<Rightarrow> 'a list" where
  "first_of_each xs = rev (remdups (rev xs))"

definition require_review :: "pyval \<Rightarrow> string \<Rightarrow> string \<Rightarrow> pyval" where
  "require_review result reason scope =
     (let noted = pset ''reason'' (PStr reason) (pset ''adopted'' (PBool False)
          (pset ''review_scope'' (PStr scope) (pset ''disposition'' (PStr ''review_required'') result)))
      in pset ''reason_codes'' (PList (first_of_each
          (plist (pget result ''reason_codes'') @ [PStr reason]))) noted)"

section \<open>The assessment\<close>

type_synonym probabilities = "string \<Rightarrow> rat option"

definition probability_of :: "probabilities \<Rightarrow> string \<Rightarrow> rat res" where
  "probability_of ps name = (case ps name of None \<Rightarrow> Inl (KeyError name) | Some q \<Rightarrow> Inr q)"

text \<open>Comparing \<^verbatim>\<open>None\<close> with a float raises.\<close>

definition at_least :: "rat option \<Rightarrow> rat \<Rightarrow> bool res" where
  "at_least q t = (case q of None \<Rightarrow> Inl TypeError | Some x \<Rightarrow> Inr (t \<le> x))"

definition result_threshold :: "decision_profile \<Rightarrow> string \<Rightarrow> rat" where
  "result_threshold profile phase =
     (case (if phase = ''before_action'' then before_action_pass_threshold profile
            else after_action_pass_threshold profile) of
        None \<Rightarrow> pass_threshold profile | Some t \<Rightarrow> t)"

definition review_threshold :: "decision_profile \<Rightarrow> string \<Rightarrow> rat option" where
  "review_threshold profile phase =
     (if phase = ''after_action'' then after_action_review_threshold profile else None)"

definition loading_conflict :: "pyval \<Rightarrow> rat \<Rightarrow> rat \<Rightarrow> rat option \<Rightarrow> rat \<Rightarrow> bool res" where
  "loading_conflict wait met result_high progressing high =
     (if truthy wait then
        rbind (item wait ''completion_excludes_loading'') (\<lambda>excludes.
        if truthy excludes \<and> result_high \<le> met then at_least progressing high else Inr False)
      else Inr False)"

definition predicate_verdict :: "bool \<Rightarrow> rat \<Rightarrow> rat \<Rightarrow> rat \<Rightarrow> rat \<Rightarrow> rat \<Rightarrow> string" where
  "predicate_verdict conflict met error result_high high low =
     (if conflict then ''uncertain''
      else if high \<le> error \<or> met \<le> low then ''failure''
      else if result_high \<le> met \<and> error \<le> low then ''success'' else ''uncertain'')"

definition review_needed :: "rat option \<Rightarrow> rat option \<Rightarrow> rat \<Rightarrow> bool" where
  "review_needed review threshold low = (case review of None \<Rightarrow> False
     | Some q \<Rightarrow> (case threshold of Some t \<Rightarrow> t \<le> q | None \<Rightarrow> low < q))"

definition predicate_reasons ::
  "bool \<Rightarrow> bool \<Rightarrow> string \<Rightarrow> rat \<Rightarrow> rat \<Rightarrow> rat \<Rightarrow> rat \<Rightarrow> rat \<Rightarrow> string list" where
  "predicate_reasons conflict loading danger met error result_high high low =
     (if conflict then [''decision_predicate_conflict''] else [])
     @ (if loading then [''decision_completion_loading_conflict''] else [])
     @ (if high \<le> error then [danger @ ''_high''] else if low < error then [danger @ ''_gray''] else [])
     @ (if met \<le> low then [''condition_not_met''] else if met < result_high then [''condition_gray''] else [])"

definition review_reasons :: "bool \<Rightarrow> rat option \<Rightarrow> rat option \<Rightarrow> rat \<Rightarrow> string list" where
  "review_reasons needed review threshold high =
     (if needed then [if threshold \<noteq> None \<or> (case review of Some q \<Rightarrow> high \<le> q | None \<Rightarrow> False)
        then ''off_plan_intervention_high'' else ''off_plan_intervention_gray''] else [])"

definition observes :: "pyval \<Rightarrow> bool \<Rightarrow> rat \<Rightarrow> rat \<Rightarrow> rat option \<Rightarrow> rat \<Rightarrow> rat \<Rightarrow> bool \<Rightarrow> bool res" where
  "observes wait conflict met error progressing high low needed =
     (if truthy wait \<and> \<not> conflict \<and> met \<le> low then
        rbind (at_least progressing high) (\<lambda>loading. Inr (loading \<and> error \<le> low \<and> \<not> needed))
      else Inr False)"

definition assessed ::
  "decision_profile \<Rightarrow> string \<Rightarrow> string \<Rightarrow> string list \<Rightarrow> bool \<Rightarrow> pyval" where
  "assessed profile verdict disposition reasons needed =
     (let shadow = (profile_mode profile = ''shadow'');
          actual = (if shadow then ''review_required'' else disposition);
          scope = (if needed \<and> verdict = ''success'' then ''remaining_plan''
            else if needed then ''effect_and_plan'' else ''effect'')
      in PDict [(''verdict'', PStr verdict), (''disposition'', PStr actual),
        (''suggested_disposition'', PStr disposition), (''review_scope'', PStr scope),
        (''reason_codes'', PList (map PStr (reasons @ (if shadow then [''decision_shadow_advice_only''] else [])))),
        (''adopted'', PBool (profile_mode profile = ''auto'' \<and> actual = ''continue''))])"

definition assessment :: "decision_profile \<Rightarrow> string \<Rightarrow> probabilities \<Rightarrow> pyval \<Rightarrow> pyval res" where
  "assessment profile phase ps context =
     rbind (probability_of ps ''condition_met'') (\<lambda>met.
     rbind (probability_of ps (danger_name phase)) (\<lambda>error.
     let high = pass_threshold profile; low = fail_threshold profile;
         result_high = result_threshold profile phase;
         wait = (if phase = ''after_action'' then context_wait context else PNone);
         progressing = (if truthy wait then ps ''still_progressing'' else None) in
     rbind (loading_conflict wait met result_high progressing high) (\<lambda>loading.
     let conflict = (result_high \<le> met \<and> high \<le> error \<or> loading);
         verdict = predicate_verdict conflict met error result_high high low in
     rbind (if proactive_review profile then rbind (probability_of ps ''needs_agent_review'') (\<lambda>q. Inr (Some q))
        else Inr None) (\<lambda>review.
     let needed = review_needed review (review_threshold profile phase) low;
         reasons = predicate_reasons conflict loading (danger_name phase) met error result_high high low
           @ review_reasons needed review (review_threshold profile phase) high;
         disposition = (if verdict = ''success'' \<and> \<not> needed then ''continue'' else ''review_required'') in
     rbind (observes wait conflict met error progressing high low needed) (\<lambda>observe.
     Inr (if observe
        then assessed profile ''uncertain'' ''observe'' (reasons @ [''declared_loading_high'']) needed
        else assessed profile verdict disposition reasons needed))))))"

section \<open>Copies\<close>

lemma text_list_canon [simp]: "text_list n (canon v) = text_list n v"
  by (cases v) (simp_all add: text_list_def list_all_iff)

lemma plist_canon_length [simp]: "length (plist (canon v)) = length (plist v)"
  by (cases v) simp_all

lemma optional_ok_canon:
  "(\<And>x. p (canon x) = p x) \<Longrightarrow> optional_ok (canon v) k p = optional_ok v k p"
  by (simp add: optional_ok_def)

lemma keys_canon [simp]:
  "keys_include (canon v) ks = keys_include v ks" "keys_within (canon v) ks = keys_within v ks"
  by (simp_all add: keys_include_def keys_within_def)

lemma wait_policy_canon [simp]: "wait_policy_ok (canon v) = wait_policy_ok v"
  by (simp add: wait_policy_ok_def)

lemma review_context_canon: "normalize_review_context (canon v) = normalize_review_context v"
  by (simp add: normalize_review_context_def optional_ok_canon)

interpretation review_context: idempotent_check normalize_review_context canon
proof
  show "normalize_review_context v = Inr w \<Longrightarrow> w = canon v" for v w
    unfolding normalize_review_context_def by (elim rbind_InrE) (rule bounded_copy_eq)
  show "is_ok (normalize_review_context v) \<Longrightarrow> is_ok (normalize_review_context (canon v))" for v
    by (simp add: review_context_canon)
qed simp

section \<open>What an assessment decides\<close>

definition loading_seen :: "decision_profile \<Rightarrow> string \<Rightarrow> probabilities \<Rightarrow> pyval \<Rightarrow> bool" where
  "loading_seen p phase ps context = (phase = ''after_action'' \<and> truthy (context_wait context)
     \<and> (case ps ''still_progressing'' of None \<Rightarrow> False | Some q \<Rightarrow> pass_threshold p \<le> q))"

definition loading_excluded :: "decision_profile \<Rightarrow> string \<Rightarrow> probabilities \<Rightarrow> pyval \<Rightarrow> bool" where
  "loading_excluded p phase ps context = (loading_seen p phase ps context
     \<and> truthy (pget (context_wait context) ''completion_excludes_loading''))"

definition review_asked :: "decision_profile \<Rightarrow> string \<Rightarrow> probabilities \<Rightarrow> bool" where
  "review_asked p phase ps = (proactive_review p
     \<and> review_needed (ps ''needs_agent_review'') (review_threshold p phase) (fail_threshold p))"

lemma thresholds_separate:
  assumes "validate_thresholds p = Inr p'"
  shows "fail_threshold p < pass_threshold p" and "fail_threshold p < result_threshold p phase"
  using assms by (auto simp: validate_thresholds_def rbind_eq_Inr_iff result_threshold_def
      split: option.splits)

lemma assessment_parts:
  assumes "assessment p phase ps context = Inr r"
  obtains met err loading observe verdict reasons where
    "ps ''condition_met'' = Some met" "ps (danger_name phase) = Some err"
    "loading \<longleftrightarrow> loading_excluded p phase ps context \<and> result_threshold p phase \<le> met"
    "verdict = predicate_verdict (result_threshold p phase \<le> met \<and> pass_threshold p \<le> err \<or> loading)
       met err (result_threshold p phase) (pass_threshold p) (fail_threshold p)"
    "observe \<longleftrightarrow> loading_seen p phase ps context \<and> \<not> loading
       \<and> \<not> (result_threshold p phase \<le> met \<and> pass_threshold p \<le> err) \<and> met \<le> fail_threshold p
       \<and> err \<le> fail_threshold p \<and> \<not> review_asked p phase ps"
    "r = (if observe then assessed p ''uncertain'' ''observe'' reasons (review_asked p phase ps)
       else assessed p verdict (if verdict = ''success'' \<and> \<not> review_asked p phase ps then ''continue''
         else ''review_required'') reasons (review_asked p phase ps))"
proof -
  let ?wait = "if phase = ''after_action'' then context_wait context else PNone"
  let ?prog = "if truthy ?wait then ps ''still_progressing'' else None"
  let ?rh = "result_threshold p phase" and ?high = "pass_threshold p" and ?low = "fail_threshold p"
  from assms obtain met err loading review observe reasons where
    met: "probability_of ps ''condition_met'' = Inr met"
    and err: "probability_of ps (danger_name phase) = Inr err"
    and loading: "loading_conflict ?wait met ?rh ?prog ?high = Inr loading"
    and review: "(if proactive_review p then rbind (probability_of ps ''needs_agent_review'') (\<lambda>q. Inr (Some q))
        else Inr None) = Inr review"
    and observe: "observes ?wait (?rh \<le> met \<and> ?high \<le> err \<or> loading) met err ?prog ?high ?low
        (review_needed review (review_threshold p phase) ?low) = Inr observe"
    and r: "r = (let verdict = predicate_verdict (?rh \<le> met \<and> ?high \<le> err \<or> loading) met err ?rh ?high ?low;
         needed = review_needed review (review_threshold p phase) ?low in
       if observe then assessed p ''uncertain'' ''observe'' reasons needed
       else assessed p verdict (if verdict = ''success'' \<and> \<not> needed then ''continue''
         else ''review_required'') reasons needed)"
    unfolding assessment_def Let_def by (elim rbind_InrE) (auto split: if_splits)
  have needed: "review_needed review (review_threshold p phase) ?low = review_asked p phase ps"
    using review by (auto simp: review_asked_def probability_of_def review_needed_def rbind_eq_Inr_iff
        split: if_splits option.splits)
  have l: "loading \<longleftrightarrow> loading_excluded p phase ps context \<and> ?rh \<le> met"
    using loading by (auto simp: loading_conflict_def loading_excluded_def loading_seen_def at_least_def
        rbind_eq_Inr_iff item_eq_Inr_iff split: if_splits option.splits)
  have o: "observe \<longleftrightarrow> loading_seen p phase ps context \<and> \<not> loading \<and> \<not> (?rh \<le> met \<and> ?high \<le> err)
       \<and> met \<le> ?low \<and> err \<le> ?low \<and> \<not> review_asked p phase ps"
    using observe unfolding needed by (auto simp: observes_def loading_seen_def at_least_def
        rbind_eq_Inr_iff split: if_splits option.splits)
  show thesis
    using that[OF _ _ l refl o] met err r unfolding Let_def needed
    by (auto simp: probability_of_def split: option.splits)
qed

text \<open>The condition meets its threshold and the danger stays under the lower one.\<close>

definition passes :: "decision_profile \<Rightarrow> string \<Rightarrow> probabilities \<Rightarrow> bool" where
  "passes p phase ps = (case (ps ''condition_met'', ps (danger_name phase)) of
       (Some met, Some err) \<Rightarrow> result_threshold p phase \<le> met \<and> err \<le> fail_threshold p
     | _ \<Rightarrow> False)"

text \<open>The condition is not met yet, nothing is wrong and a declared loading state is visible.\<close>

definition still_loading :: "decision_profile \<Rightarrow> string \<Rightarrow> probabilities \<Rightarrow> pyval \<Rightarrow> bool" where
  "still_loading p phase ps context = (loading_seen p phase ps context
     \<and> (case (ps ''condition_met'', ps (danger_name phase)) of
       (Some met, Some err) \<Rightarrow> met \<le> fail_threshold p \<and> err \<le> fail_threshold p | _ \<Rightarrow> False))"

definition decided :: "decision_profile \<Rightarrow> string \<Rightarrow> probabilities \<Rightarrow> pyval \<Rightarrow> string" where
  "decided p phase ps context =
     (if review_asked p phase ps then ''review_required''
      else if passes p phase ps \<and> \<not> loading_excluded p phase ps context then ''continue''
      else if still_loading p phase ps context then ''observe''
      else ''review_required'')"

lemma assessed_gets:
  "pget (assessed p v d rs n) ''suggested_disposition'' = PStr d"
  "pget (assessed p v d rs n) ''verdict'' = PStr v"
  "pget (assessed p v d rs n) ''disposition'' = PStr (if profile_mode p = ''shadow'' then ''review_required'' else d)"
  "pget (assessed p v d rs n) ''adopted'' = PBool (profile_mode p = ''auto'' \<and> d = ''continue'')"
  by (simp_all add: assessed_def Let_def dict_get_def)

lemma assessment_decides:
  assumes "validate_thresholds p = Inr p'" and "assessment p phase ps context = Inr r"
  shows "\<exists>verdict reasons. r = assessed p verdict (decided p phase ps context) reasons (review_asked p phase ps)
    \<and> (verdict = ''success'' \<longleftrightarrow> passes p phase ps \<and> \<not> loading_excluded p phase ps context)"
proof -
  note low = thresholds_separate(1)[OF assms(1)] thresholds_separate(2)[OF assms(1), of phase]
  from assms(2) obtain met err loading observe verdict reasons where
    ps: "ps ''condition_met'' = Some met" "ps (danger_name phase) = Some err"
    and loading: "loading \<longleftrightarrow> loading_excluded p phase ps context \<and> result_threshold p phase \<le> met"
    and verdict: "verdict = predicate_verdict (result_threshold p phase \<le> met \<and> pass_threshold p \<le> err \<or> loading)
       met err (result_threshold p phase) (pass_threshold p) (fail_threshold p)"
    and observe: "observe \<longleftrightarrow> loading_seen p phase ps context \<and> \<not> loading
       \<and> \<not> (result_threshold p phase \<le> met \<and> pass_threshold p \<le> err) \<and> met \<le> fail_threshold p
       \<and> err \<le> fail_threshold p \<and> \<not> review_asked p phase ps"
    and r: "r = (if observe then assessed p ''uncertain'' ''observe'' reasons (review_asked p phase ps)
       else assessed p verdict (if verdict = ''success'' \<and> \<not> review_asked p phase ps then ''continue''
         else ''review_required'') reasons (review_asked p phase ps))"
    by (rule assessment_parts)
  have success: "verdict = ''success'' \<longleftrightarrow> passes p phase ps \<and> \<not> loading_excluded p phase ps context"
    using low unfolding verdict predicate_verdict_def passes_def ps by (auto simp: loading)
  have watch: "observe \<longleftrightarrow> still_loading p phase ps context \<and> \<not> review_asked p phase ps"
    using low unfolding observe still_loading_def ps by (auto simp: loading)
  have "\<not> passes p phase ps" if observe
    using that low unfolding observe passes_def ps by auto
  then show ?thesis
    using success watch unfolding r decided_def by auto
qed

lemma decided_continue:
  "decided p phase ps context = ''continue'' \<longleftrightarrow>
    passes p phase ps \<and> \<not> loading_excluded p phase ps context \<and> \<not> review_asked p phase ps"
  by (simp add: decided_def)

section \<open>Samples\<close>

definition watching_profile :: "string \<Rightarrow> decision_profile" where
  "watching_profile mode = (sample_profile mode) \<lparr>decision_format := ''predicate'', proactive_review := False\<rparr>"

definition sample_probabilities :: probabilities where
  "sample_probabilities = [''condition_met'' \<mapsto> 19 / 20, ''visible_error'' \<mapsto> 1 / 20]"

definition waiting_probabilities :: probabilities where
  "waiting_probabilities = [''condition_met'' \<mapsto> 1 / 20, ''visible_error'' \<mapsto> 1 / 20, ''still_progressing'' \<mapsto> 19 / 20]"

definition waiting_context :: pyval where
  "waiting_context = PDict [(''wait_policy'', PDict [(''loading_condition'', PStr ''A spinner is shown''),
     (''completion_excludes_loading'', PBool True)])]"

lemma sample_thresholds: "validate_thresholds (watching_profile ''auto'') = Inr (watching_profile ''auto'')"
  by (simp add: validate_thresholds_def watching_profile_def sample_profile_def)

definition sample_assessed :: pyval where
  "sample_assessed = assessed (watching_profile ''auto'') ''success'' ''continue'' [] False"

lemma sample_assessment:
  "assessment (watching_profile ''auto'') ''after_action'' sample_probabilities PNone = Inr sample_assessed"
  by (simp add: assessment_def watching_profile_def sample_profile_def sample_probabilities_def probability_of_def
      danger_name_def result_threshold_def loading_conflict_def context_wait_def observes_def predicate_verdict_def
      review_needed_def predicate_reasons_def review_reasons_def sample_assessed_def Let_def)

definition waiting_assessed :: pyval where
  "waiting_assessed = assessed (watching_profile ''auto'') ''uncertain'' ''observe''
     [''condition_not_met'', ''declared_loading_high''] False"

lemma waiting_assessment:
  "assessment (watching_profile ''auto'') ''after_action'' waiting_probabilities waiting_context = Inr waiting_assessed"
  by (simp add: assessment_def watching_profile_def sample_profile_def waiting_probabilities_def probability_of_def
      danger_name_def result_threshold_def loading_conflict_def context_wait_def observes_def predicate_verdict_def
      review_needed_def predicate_reasons_def review_reasons_def waiting_assessed_def Let_def waiting_context_def
      dict_get_def at_least_def item_def)

section \<open>Properties\<close>

text \<open>C29: An assessment is adopted without review exactly when the profile acts automatically, the
  condition reaches its threshold, the danger is at most the lower threshold, no declared
  loading state excludes completion, and no review was asked for. The profile's thresholds
  are those \<^verbatim>\<open>validate_thresholds\<close> accepts.\<close>

theorem assessment_adoption:
  assumes "validate_thresholds p = Inr p'" and "assessment p phase ps context = Inr r"
  shows "pget r ''adopted'' = PBool True \<longleftrightarrow> profile_mode p = ''auto'' \<and> passes p phase ps
    \<and> \<not> loading_excluded p phase ps context \<and> \<not> review_asked p phase ps"
  using assessment_decides[OF assms] by (auto simp: assessed_gets decided_continue)

theorem assessment_adoption_witness:
  "pget sample_assessed ''adopted'' = PBool True \<longleftrightarrow> profile_mode (watching_profile ''auto'') = ''auto''
    \<and> passes (watching_profile ''auto'') ''after_action'' sample_probabilities
    \<and> \<not> loading_excluded (watching_profile ''auto'') ''after_action'' sample_probabilities PNone
    \<and> \<not> review_asked (watching_profile ''auto'') ''after_action'' sample_probabilities"
  by (rule assessment_adoption[OF sample_thresholds sample_assessment])

text \<open>The disposition is one of three and is decided by the probabilities alone: a shadow profile
  always hands over to review; otherwise the step continues, or is observed further while a
  declared loading state shows and nothing is wrong, or goes to review. The verdict is
  \<^verbatim>\<open>success\<close> exactly when the thresholds pass and loading does not exclude completion.\<close>

theorem assessment_disposition:
  assumes "validate_thresholds p = Inr p'" and "assessment p phase ps context = Inr r"
  shows "pget r ''disposition'' = PStr (if profile_mode p = ''shadow'' then ''review_required''
      else decided p phase ps context)
    \<and> (pget r ''verdict'' = PStr ''success'' \<longleftrightarrow> passes p phase ps \<and> \<not> loading_excluded p phase ps context)"
  using assessment_decides[OF assms] by (auto simp: assessed_gets)

theorem assessment_disposition_witness:
  "pget waiting_assessed ''disposition'' = PStr (if profile_mode (watching_profile ''auto'') = ''shadow''
      then ''review_required'' else decided (watching_profile ''auto'') ''after_action'' waiting_probabilities waiting_context)
    \<and> (pget waiting_assessed ''verdict'' = PStr ''success'' \<longleftrightarrow>
      passes (watching_profile ''auto'') ''after_action'' waiting_probabilities
      \<and> \<not> loading_excluded (watching_profile ''auto'') ''after_action'' waiting_probabilities waiting_context)"
  by (rule assessment_disposition[OF sample_thresholds waiting_assessment])

end
