(* ===== verification/TaskPlan.thy ===== *)
theory TaskPlan
  imports AdaptivePolicy TargetIdentity ConditionTemplates
begin

text \<open>
  The caller's task plan: \<^verbatim>\<open>app/execution/task_plan_contract.py\<close> with the target contract
  (\<^verbatim>\<open>app/core/control_target_contract.py\<close>), the render grace (\<^verbatim>\<open>observation_policy.py\<close>), the
  native end condition (\<^verbatim>\<open>conditional_observation.py\<close>), the condition snapshots
  (\<^verbatim>\<open>task_plan_conditions.py\<close>) and the projections of \<^verbatim>\<open>task_plan_review.py\<close>. A plan is
  accepted as a whole or refused; nothing in it is inferred.
\<close>

section \<open>Parts of an action\<close>

definition plan_error :: "string \<Rightarrow> pyexc" where
  "plan_error label = ValueError (''task_plan_'' @ label @ ''_invalid'')"

definition plan_identifier :: "pyval \<Rightarrow> string \<Rightarrow> string res" where
  "plan_identifier value label = (case value of
       PStr s \<Rightarrow> if identifier_re 159 s then Inr s else Inl (plan_error label)
     | _ \<Rightarrow> Inl (plan_error label))"

definition plan_text :: "pyval \<Rightarrow> string \<Rightarrow> nat \<Rightarrow> unit res" where
  "plan_text value label maximum = ensure (text_upto maximum value) (plan_error label)"

definition resolve_action_text :: "pyval \<Rightarrow> pyval \<Rightarrow> string res" where
  "resolve_action_text value inputs =
     rbind (if is_str value then Inr value
       else if is_dict value \<and> pget value ''source'' = PStr ''constant'' \<and> keys_are value [''source'', ''value'']
       then Inr (pget value ''value'')
       else if is_dict value \<and> pget value ''source'' = PStr ''input'' \<and> keys_are value [''source'', ''name'']
       then rbind (plan_identifier (pget value ''name'') ''input_reference'') (\<lambda>name.
            if phas inputs name then Inr (pget inputs name)
            else Inl (ValueError ''task_plan_required_input_missing''))
       else Inl (ValueError (if pget value ''source'' = PStr ''output''
          then ''task_plan_dynamic_output_unsupported'' else ''task_plan_text_reference_invalid'')))
     (\<lambda>resolved. case resolved of
         PStr s \<Rightarrow> if 1 \<le> length s \<and> length s \<le> 20000 then Inr s
           else Inl (ValueError ''task_plan_input_text_invalid'')
       | _ \<Rightarrow> Inl (ValueError ''task_plan_input_text_invalid''))"

definition CONTROL_TYPES :: "string list" where
  "CONTROL_TYPES = [''Button'', ''Hyperlink'', ''Edit'', ''ComboBox'', ''MenuItem'', ''TabItem'']"

definition CONTAINER_TYPES :: "string list" where
  "CONTAINER_TYPES = [''Window'', ''Pane'', ''Group'', ''Custom'', ''ToolBar'', ''Menu'', ''Tab'']"

definition target_semantic :: "pyval \<Rightarrow> string list \<Rightarrow> unit res" where
  "target_semantic entry types = ensure (is_dict entry \<and> keys_are entry [''name'', ''control_type'']
     \<and> text_upto 512 (pget entry ''name'') \<and> one_of (pget entry ''control_type'') types)
     (ValueError ''task_plan_target_semantics_invalid'')"

definition validate_task_plan_control_target :: "pyval \<Rightarrow> bool \<Rightarrow> pyval res" where
  "validate_task_plan_control_target value for_input =
     rbind (ensure (is_dict value \<and> keys_include value [''name'', ''control_type'']
        \<and> keys_within value [''name'', ''control_type'', ''container''])
        (ValueError ''task_plan_target_fields_invalid'')) (\<lambda>_.
     rbind (target_semantic (PDict [(''name'', pget value ''name''), (''control_type'', pget value ''control_type'')])
        (if for_input then [''Edit'', ''ComboBox''] else CONTROL_TYPES)) (\<lambda>_.
     rbind (if phas value ''container'' then target_semantic (pget value ''container'') CONTAINER_TYPES
        else Inr ()) (\<lambda>_. Inr value)))"

section \<open>Actions\<close>

definition action_identity :: "pyval \<Rightarrow> string \<Rightarrow> unit res" where
  "action_identity value version =
     (if phas value ''target_identity'' then
        rbind (if version \<noteq> ''task_plan.v3'' then Inr False
          else in_names (pget value ''kind'') [''click'', ''input_sequence'']) (\<lambda>supported.
        if \<not> supported then Inl (ValueError ''task_plan_target_identity_unsupported'')
        else rbind (normalize_target_identity (pget value ''target_identity'')) (\<lambda>_. Inr ()))
      else Inr ())"

definition check_click :: "pyval \<Rightarrow> unit res" where
  "check_click value =
     rbind (ensure (keys_include value [''kind'', ''goal'']
        \<and> keys_within value [''kind'', ''goal'', ''click_kind'', ''target'', ''target_identity''])
        (ValueError ''task_plan_action_fields_invalid'')) (\<lambda>_.
     rbind (plan_text (pget value ''goal'') ''goal'' 2000) (\<lambda>_.
     rbind (in_names (pget_default value ''click_kind'' (PStr ''single'')) [''single'', ''double'']) (\<lambda>known.
     ensure known (ValueError ''task_plan_click_kind_invalid''))))"

definition input_fields :: "string list" where
  "input_fields = [''kind'', ''field_goal'', ''text'', ''clear_existing'', ''submit_search'']"

definition check_input_sequence :: "pyval \<Rightarrow> pyval \<Rightarrow> unit res" where
  "check_input_sequence value inputs =
     rbind (ensure (keys_include value input_fields
        \<and> keys_within value (input_fields @ [''target'', ''target_identity'']))
        (ValueError ''task_plan_action_fields_invalid'')) (\<lambda>_.
     rbind (plan_text (pget value ''field_goal'') ''field_goal'' 2000) (\<lambda>_.
     rbind (ensure (is_bool (pget value ''clear_existing'') \<and> is_bool (pget value ''submit_search''))
        (ValueError ''task_plan_input_flags_invalid'')) (\<lambda>_.
     rbind (resolve_action_text (pget value ''text'') inputs) (\<lambda>_. Inr ()))))"

definition check_read_text :: "pyval \<Rightarrow> unit res" where
  "check_read_text value =
     rbind (ensure (keys_are value [''kind'', ''goal'']) (ValueError ''task_plan_action_fields_invalid'')) (\<lambda>_.
     plan_text (pget value ''goal'') ''goal'' 2000)"

definition plan_action :: "pyval \<Rightarrow> pyval \<Rightarrow> string \<Rightarrow> unit res" where
  "plan_action value inputs version =
     rbind (ensure (is_dict value) (ValueError ''task_plan_action_invalid'')) (\<lambda>_.
     rbind (ensure (\<not> phas value ''target_memory'') (ValueError ''task_plan_target_memory_unsupported'')) (\<lambda>_.
     rbind (action_identity value version) (\<lambda>_.
     let kind = pget value ''kind'' in
     rbind (if kind = PStr ''click'' then check_click value
        else if kind = PStr ''input_sequence'' then check_input_sequence value inputs
        else if kind = PStr ''read_text'' then check_read_text value
        else Inl (ValueError ''task_plan_action_unsupported'')) (\<lambda>_.
     if phas value ''target'' then
       rbind (validate_task_plan_control_target (pget value ''target'') (kind = PStr ''input_sequence'')) (\<lambda>_. Inr ())
     else Inr ()))))"

section \<open>Conditions\<close>

definition render_grace_limit :: int where
  "render_grace_limit = 2000"

definition navigation_actions :: "string list" where
  "navigation_actions = [''open_detail'', ''open_apply_flow'', ''back'', ''close_modal'',
     ''execute_recognition_plan'', ''press_enter'']"

definition resolve_render_grace_ms :: "string \<Rightarrow> pyval \<Rightarrow> int res" where
  "resolve_render_grace_ms action override =
     (case override of
        PNone \<Rightarrow> Inr (if action \<in> set navigation_actions then 2000 else 0)
      | PInt ms \<Rightarrow> if 0 \<le> ms \<and> ms \<le> render_grace_limit then Inr ms
          else Inl (ValueError ''observation_wait_ms must be an integer between 0 and 2000'')
      | _ \<Rightarrow> Inl (ValueError ''observation_wait_ms must be an integer between 0 and 2000''))"

text \<open>The pydantic model refuses unknown fields and other types with a \<^verbatim>\<open>ValueError\<close>.\<close>

definition observation_condition_ok :: "pyval \<Rightarrow> bool" where
  "observation_condition_ok value = (is_dict value \<and> keys_are value [''text'', ''control_type'']
     \<and> text_upto 500 (pget value ''text'')
     \<and> one_of (pget value ''control_type'') [''Text'', ''Hyperlink'', ''Button'', ''Document''])"

definition validate_condition :: "pyval \<Rightarrow> int \<Rightarrow> pyval res" where
  "validate_condition value wait_ms =
     (if value = PNone then Inr PNone
      else if \<not> observation_condition_ok value then Inl (ValueError ''validation error for ObservationCondition'')
      else if wait_ms \<le> 0 then Inl (ValueError ''observation_condition requires a positive observation wait budget'')
      else Inr (PDict [(''text'', pget value ''text''), (''control_type'', pget value ''control_type'')]))"

definition string_inputs :: "pyval \<Rightarrow> pyval" where
  "string_inputs inputs = (case inputs of
       PDict d \<Rightarrow> PDict (map (\<lambda>kv. (fst kv, PStr ''string'')) (filter (\<lambda>kv. is_str (snd kv)) d))
     | v \<Rightarrow> v)"

definition resolve_plan_condition :: "pyval \<Rightarrow> pyval \<Rightarrow> pyval res" where
  "resolve_plan_condition rule inputs =
     (if \<not> phas rule ''condition_binding'' then Inr (PDict [(''condition'', pget rule ''decision_condition'')])
      else
        rbind (validate_condition_binding (pget rule ''condition_binding'') (string_inputs inputs)) (\<lambda>checked.
        rbind (resolve_condition_binding checked inputs) (\<lambda>snapshot.
        if phas rule ''allowed_states'' \<and> \<not> py_eq (pget rule ''allowed_states'') (pget snapshot ''allowed_states'')
        then Inl (ValueError ''task_plan_condition_states_conflict'')
        else Inr (PDict [(''condition'', pget snapshot ''condition''), (''condition_snapshot'', snapshot)]))))"

section \<open>Verification rules\<close>

definition newer_version :: "string \<Rightarrow> bool" where
  "newer_version version = (version = ''task_plan.v2'' \<or> version = ''task_plan.v3'')"

text \<open>The actions that change what is shown: a click, or an input that is submitted.\<close>

definition navigating_action :: "pyval \<Rightarrow> bool" where
  "navigating_action action = (pget action ''kind'' = PStr ''click''
     \<or> pget action ''kind'' = PStr ''input_sequence'' \<and> truthy (pget action ''submit_search''))"

definition has_condition :: "pyval \<Rightarrow> bool" where
  "has_condition value = keys_meet value [''decision_condition'', ''condition_binding'']"

definition judgment_fields :: "string \<Rightarrow> string list" where
  "judgment_fields version = [''kind'', ''decision_condition'']
     @ (if newer_version version
        then [''allowed_states'', ''review_policy'', ''wait_policy'', ''condition_binding'', ''render_grace_ms'']
        else [])"

definition check_binding :: "pyval \<Rightarrow> pyval \<Rightarrow> pyval \<Rightarrow> unit res" where
  "check_binding value action inputs =
     (if phas value ''condition_binding'' then
        rbind (ensure (pget action ''kind'' \<noteq> PStr ''read_text'')
          (ValueError ''task_plan_decision_dynamic_read_forbidden'')) (\<lambda>_.
        rbind (resolve_plan_condition value inputs) (\<lambda>_. Inr ()))
      else Inr ())"

definition check_allowed_states :: "pyval \<Rightarrow> unit res" where
  "check_allowed_states value =
     (if phas value ''allowed_states'' then
        rbind (ensure (is_list (pget value ''allowed_states'') \<and> length (plist (pget value ''allowed_states'')) \<le> 32)
          (ValueError ''task_plan_allowed_states_invalid'')) (\<lambda>_.
        each (\<lambda>entry. plan_text entry ''allowed_state'' 1000) (plist (pget value ''allowed_states'')))
      else Inr ())"

definition check_wait :: "pyval \<Rightarrow> unit res" where
  "check_wait value =
     (if phas value ''wait_policy'' then
        let wait = pget value ''wait_policy'' in
        rbind (ensure (has_condition value \<and> is_dict wait
          \<and> keys_are wait [''loading_condition'', ''completion_excludes_loading'']
          \<and> is_bool (pget wait ''completion_excludes_loading'')) (ValueError ''task_plan_wait_policy_invalid'')) (\<lambda>_.
        plan_text (pget wait ''loading_condition'') ''loading_condition'' 4000)
      else Inr ())"

definition check_grace :: "pyval \<Rightarrow> pyval \<Rightarrow> unit res" where
  "check_grace value action =
     (if phas value ''render_grace_ms'' then
        rbind (resolve_render_grace_ms [] (pget value ''render_grace_ms'')) (\<lambda>_.
        ensure (is_int (pget value ''render_grace_ms'')
          \<and> truthy (pget (pget value ''wait_policy'') ''completion_excludes_loading'')
          \<and> navigating_action action) (ValueError ''task_plan_render_grace_requires_loading_contract''))
      else Inr ())"

definition check_decision_condition :: "pyval \<Rightarrow> pyval \<Rightarrow> unit res" where
  "check_decision_condition value action =
     (if phas value ''decision_condition'' then
        rbind (ensure (pget action ''kind'' \<noteq> PStr ''read_text'')
          (ValueError ''task_plan_decision_dynamic_read_forbidden'')) (\<lambda>_.
        plan_text (pget value ''decision_condition'') ''decision_condition'' 4000)
      else Inr ())"

definition verify_judgment :: "pyval \<Rightarrow> pyval \<Rightarrow> string \<Rightarrow> pyval \<Rightarrow> unit res" where
  "verify_judgment value action version inputs =
     rbind (ensure (phas value ''kind'' \<and> keys_within value (judgment_fields version))
        (ValueError ''task_plan_verification_fields_invalid'')) (\<lambda>_.
     rbind (ensure (\<not> (phas value ''decision_condition'' \<and> phas value ''condition_binding''))
        (ValueError ''task_plan_condition_sources_conflict'')) (\<lambda>_.
     rbind (check_binding value action inputs) (\<lambda>_.
     rbind (check_allowed_states value) (\<lambda>_.
     rbind (ensure (optional_ok value ''review_policy'' (\<lambda>v. v = PStr ''always_main''))
        (ValueError ''task_plan_review_policy_cannot_expand_authority'')) (\<lambda>_.
     rbind (check_wait value) (\<lambda>_.
     rbind (check_grace value action) (\<lambda>_.
     check_decision_condition value action)))))))"

text \<open>\<^verbatim>\<open>{"kind": "agent_judgment", **{key: value[key] for key in keys if key in value}}\<close>.\<close>

definition as_judgment :: "string list \<Rightarrow> pyval \<Rightarrow> pyval" where
  "as_judgment keys value = PDict ((''kind'', PStr ''agent_judgment'')
     # map (\<lambda>k. (k, pget value k)) (filter (phas value) keys))"

definition media_fields :: "bool \<Rightarrow> string list" where
  "media_fields dynamic = [''kind'', ''decision_condition'', ''allowed_states'', ''review_policy'', ''render_grace_ms'']
     @ (if dynamic then [''target_description''] else [])"

definition verify_media :: "string \<Rightarrow> pyval \<Rightarrow> pyval \<Rightarrow> string \<Rightarrow> pyval \<Rightarrow> unit res" where
  "verify_media kind value action version inputs =
     (let dynamic = (kind = ''dynamic_content'') in
     rbind (ensure (newer_version version
        \<and> keys_include value ([''kind'', ''decision_condition''] @ (if dynamic then [''target_description''] else []))
        \<and> keys_within value (media_fields dynamic))
        (ValueError (''task_plan_'' @ kind @ ''_contract_invalid''))) (\<lambda>_.
     rbind (if dynamic then plan_text (pget value ''target_description'') ''dynamic_content_target_description'' 1000
        else Inr ()) (\<lambda>_.
     rbind (verify_judgment (as_judgment [''decision_condition'', ''allowed_states'', ''review_policy''] value)
        action version inputs) (\<lambda>_.
     rbind (ensure (navigating_action action) (ValueError (''task_plan_'' @ kind @ ''_action_unsupported''))) (\<lambda>_.
     if phas value ''render_grace_ms'' then
       rbind (ensure (is_int (pget value ''render_grace_ms'')) (ValueError (''task_plan_''
          @ (if dynamic then ''dynamic_content'' else ''video'') @ ''_render_grace_invalid''))) (\<lambda>_.
       rbind (resolve_render_grace_ms [] (pget value ''render_grace_ms'')) (\<lambda>_. Inr ()))
     else Inr ())))))"

definition native_options :: "string list" where
  "native_options = [''decision_condition'', ''condition_binding'', ''allowed_states'', ''review_policy'', ''wait_policy'']"

definition verify_native :: "pyval \<Rightarrow> pyval \<Rightarrow> string \<Rightarrow> pyval \<Rightarrow> unit res" where
  "verify_native value action version inputs =
     rbind (ensure (keys_include value [''kind'', ''condition'']
        \<and> keys_within value ([''kind'', ''condition''] @ (if newer_version version then native_options else []))
        \<and> is_dict (pget value ''condition'')) (ValueError ''task_plan_verification_fields_invalid'')) (\<lambda>_.
     rbind (if keys_meet value native_options then
          rbind (ensure (has_condition value) (ValueError ''task_plan_native_decision_condition_required'')) (\<lambda>_.
          verify_judgment (as_judgment native_options value) action version inputs)
        else Inr ()) (\<lambda>_.
     rbind (ensure (navigating_action action) (ValueError ''task_plan_native_condition_action_unsupported'')) (\<lambda>_.
     rbind (validate_condition (pget value ''condition'') 2000) (\<lambda>_. Inr ()))))"

definition plan_verification :: "pyval \<Rightarrow> pyval \<Rightarrow> string \<Rightarrow> pyval \<Rightarrow> unit res" where
  "plan_verification value action version inputs =
     rbind (ensure (is_dict value) (ValueError ''task_plan_verification_invalid'')) (\<lambda>_.
     let kind = pget value ''kind'' in
     if kind = PStr ''agent_judgment'' then verify_judgment value action version inputs
     else rbind (in_names kind [''video_playback'', ''dynamic_content'']) (\<lambda>media.
       if media then verify_media (py_str kind) value action version inputs
       else if kind = PStr ''native_condition'' then verify_native value action version inputs
       else Inl (ValueError ''task_plan_verification_unsupported'')))"

section \<open>Projections of a plan\<close>

definition step_goal_of :: "pyval \<Rightarrow> pyval" where
  "step_goal_of step = (let action = pget step ''action'' in
     pget_default action ''goal'' (pget_default action ''field_goal'' (PStr [])))"

definition text_source :: "pyval \<Rightarrow> pyval" where
  "text_source t = (if is_dict t then pget t ''source'' else PStr ''literal'')"

definition projected_text :: "pyval \<Rightarrow> pyval" where
  "projected_text t = (if text_source t = PStr ''input''
     then PDict [(''source'', PStr ''input''), (''name'', pget t ''name'')]
     else PDict [(''source'', text_source t), (''redacted'', PBool True)])"

definition projected_action :: "pyval \<Rightarrow> pyval" where
  "projected_action action =
     (if pget action ''kind'' = PStr ''input_sequence'' then
        PDict [(''kind'', pget action ''kind''), (''field_goal'', pget action ''field_goal''),
          (''clear_existing'', pget action ''clear_existing''), (''submit_search'', pget action ''submit_search''),
          (''text'', projected_text (pget action ''text''))]
      else PDict ([(''kind'', pget action ''kind''), (''goal'', pget action ''goal'')]
        @ (if pget action ''kind'' = PStr ''click''
           then [(''click_kind'', pget_default action ''click_kind'' (PStr ''single''))] else [])))"

definition kept :: "string list \<Rightarrow> pyval \<Rightarrow> pydict" where
  "kept keys value = map (\<lambda>k. (k, pget value k)) (filter (phas value) keys)"

definition projected_verification :: "pyval \<Rightarrow> pyval" where
  "projected_verification verification = PDict ([(''kind'', pget verification ''kind'')]
     @ kept [''decision_condition'', ''condition''] verification
     @ (if phas verification ''condition_binding'' then
          let template = pget (pget verification ''condition_binding'') ''template'' in
          [(''condition_template'', PDict (map (\<lambda>k. (k, pget template k))
             [''condition_template_id'', ''revision'', ''template_sha256'']))]
        else []))"

definition step_summary :: "pyval \<Rightarrow> string res" where
  "step_summary step = strict_json (PDict [(''step_id'', pget step ''step_id''),
     (''action'', projected_action (pget step ''action'')),
     (''verification'', projected_verification (pget step ''verification''))])"

definition semantic_binding :: "pyval \<Rightarrow> pyval \<Rightarrow> pyval res" where
  "semantic_binding plan step = resolve_plan_condition (pget step ''verification'') (pget plan ''inputs'')"

text \<open>\<^verbatim>\<open>next(i for i, item in enumerate(steps) if item["step_id"] == step["step_id"])\<close>: the steps after it.\<close>

fun steps_after :: "pyval \<Rightarrow> pyval list \<Rightarrow> pyval list res" where
  "steps_after step [] = Inl StopIteration"
| "steps_after step (entry # entries) =
     (if py_eq (pget entry ''step_id'') (pget step ''step_id'') then Inr entries else steps_after step entries)"

definition older_summary :: "pyval \<Rightarrow> string res" where
  "older_summary step = Inr (take 2000 (py_str (pget (pget step ''action'') ''kind'') @ '': ''
     @ py_str (step_goal_of step)))"

definition completion_note :: "pyval \<Rightarrow> pyval \<Rightarrow> pyval list res" where
  "completion_note plan step =
     (if pget plan ''schema_version'' = PStr ''task_plan.v3''
         \<and> \<not> py_eq (pget (pget plan ''completion'') ''verification'') (pget step ''verification'')
      then rbind (strict_json (PDict [(''completion'', pget plan ''completion'')])) (\<lambda>note. Inr [PStr note])
      else Inr [])"

definition review_policy_entry :: "pyval \<Rightarrow> pyval \<Rightarrow> pydict" where
  "review_policy_entry verification snapshot =
     (if snapshot \<noteq> PNone then [(''review_policy'', PStr (if pget snapshot ''review_policy'' = PStr ''always_main''
          \<or> pget verification ''review_policy'' = PStr ''always_main'' then ''always_main'' else ''adaptive''))]
      else kept [''review_policy''] verification)"

definition review_context :: "pyval \<Rightarrow> pyval \<Rightarrow> string \<Rightarrow> string \<Rightarrow> pyval res" where
  "review_context plan step source_id source_sha256 =
     rbind (steps_after step (plist (pget plan ''steps''))) (\<lambda>later.
     let newer = newer_version (py_str (pget plan ''schema_version''));
         summary = (if newer then step_summary else older_summary);
         verification = pget step ''verification'' in
     rbind (semantic_binding plan step) (\<lambda>semantic.
     let snapshot = pget semantic ''condition_snapshot'' in
     rbind (if newer then rbind (step_summary step) (\<lambda>s. Inr (PStr s)) else Inr (step_goal_of step)) (\<lambda>step_goal.
     rbind (map_res summary later) (\<lambda>remaining.
     rbind (completion_note plan step) (\<lambda>note.
     let context = PDict ([(''goal'', pget_default plan ''goal'' (pget plan ''title'')), (''step_goal'', step_goal),
          (''remaining_plan'', PList (map PStr remaining @ note)),
          (''allowed_states'', if snapshot \<noteq> PNone then pget snapshot ''allowed_states''
             else pget_default verification ''allowed_states'' (PList [])),
          (''source_sha256'', PStr source_sha256), (''source_id'', PStr source_id)]
          @ review_policy_entry verification snapshot @ kept [''wait_policy''] verification) in
     if newer then normalize_review_context context
     else if 65536 < int (length (utf8 (compact_json context)))
     then Inl (ValueError ''task_plan_review_context_too_large'')
     else Inr context)))))"

section \<open>Plans\<close>

definition plan_fields :: "pyval \<Rightarrow> string list" where
  "plan_fields version = [''schema_version'', ''title'', ''inputs'', ''steps'']
     @ (if version = PStr ''task_plan.v3'' then [''goal'', ''completion''] else [])"

text \<open>The type of an input value is exactly \<^verbatim>\<open>str\<close>, \<^verbatim>\<open>int\<close>, \<^verbatim>\<open>float\<close> or \<^verbatim>\<open>bool\<close>.\<close>

fun input_value_ok :: "pyval \<Rightarrow> bool" where
  "input_value_ok (PStr s) = (length s \<le> 20000)"
| "input_value_ok (PInt i) = True"
| "input_value_ok (PBool b) = True"
| "input_value_ok (PFloat x) = isfinite_flt x"
| "input_value_ok v = False"

definition pitems_of :: "pyval \<Rightarrow> pydict" where
  "pitems_of v = (case v of PDict d \<Rightarrow> d | _ \<Rightarrow> [])"

definition check_input :: "string \<times> pyval \<Rightarrow> unit res" where
  "check_input entry =
     rbind (plan_identifier (PStr (fst entry)) ''input_name'') (\<lambda>_.
     ensure (input_value_ok (snd entry)) (ValueError ''task_plan_input_value_invalid''))"

definition check_step_form :: "pyval \<Rightarrow> string res" where
  "check_step_form step =
     rbind (ensure (is_dict step) (ValueError ''task_plan_step_invalid'')) (\<lambda>_.
     rbind (ensure (\<not> keys_meet step [''outputs'', ''read_spec''])
        (ValueError ''task_plan_dynamic_output_unsupported'')) (\<lambda>_.
     rbind (ensure (keys_are step [''step_id'', ''action'', ''verification''])
        (ValueError ''task_plan_step_fields_invalid'')) (\<lambda>_.
     plan_identifier (pget step ''step_id'') ''step_id'')))"

fun check_steps :: "string \<Rightarrow> pyval \<Rightarrow> pyval list \<Rightarrow> string list \<Rightarrow> unit res" where
  "check_steps version inputs [] seen = Inr ()"
| "check_steps version inputs (step # steps) seen =
     rbind (check_step_form step) (\<lambda>step_id.
     rbind (ensure (step_id \<notin> set seen) (ValueError ''task_plan_step_duplicate'')) (\<lambda>_.
     rbind (plan_action (pget step ''action'') inputs version) (\<lambda>_.
     rbind (plan_verification (pget step ''verification'') (pget step ''action'') version inputs) (\<lambda>_.
     check_steps version inputs steps (step_id # seen)))))"

definition check_completion :: "pyval \<Rightarrow> string \<Rightarrow> pyval \<Rightarrow> pyval \<Rightarrow> unit res" where
  "check_completion completion version inputs last_step =
     (let verification = pget completion ''verification'' in
     rbind (ensure (is_dict completion \<and> keys_are completion [''step_id'', ''verification'']
        \<and> py_eq (pget completion ''step_id'') (pget last_step ''step_id''))
        (ValueError ''task_plan_completion_final_step_required'')) (\<lambda>_.
     rbind (plan_verification verification (pget last_step ''action'') version inputs) (\<lambda>_.
     ensure (\<not> (pget verification ''kind'' = PStr ''agent_judgment'' \<and> \<not> has_condition verification))
       (ValueError ''task_plan_completion_observable_condition_required''))))"

definition zeros64 :: string where
  "zeros64 = replicate 64 (CHR ''0'')"

definition check_contexts :: "pyval \<Rightarrow> pyval list \<Rightarrow> unit res" where
  "check_contexts plan steps = each (\<lambda>step.
     rbind (review_context plan step (''task-plan-'' @ zeros64) zeros64) (\<lambda>_. Inr ())) steps"

definition validate_task_plan :: "pyval \<Rightarrow> pyval res" where
  "validate_task_plan value =
     rbind (ensure (is_dict value) (ValueError ''task_plan_invalid'')) (\<lambda>_.
     rbind (ensure (\<not> keys_meet value [''outputs'', ''read_spec''])
        (ValueError ''task_plan_dynamic_output_unsupported'')) (\<lambda>_.
     let schema = pget value ''schema_version'' in
     rbind (if keys_are value (plan_fields schema)
        then in_names schema [''task_plan.v1'', ''task_plan.v2'', ''task_plan.v3'']
        else Inr False) (\<lambda>known.
     rbind (ensure known (ValueError ''task_plan_fields_invalid'')) (\<lambda>_.
     let version = py_str schema; inputs = pget value ''inputs''; steps = plist (pget value ''steps'') in
     rbind (if version = ''task_plan.v3'' then plan_text (pget value ''goal'') ''final_goal'' 4000 else Inr ()) (\<lambda>_.
     rbind (plan_text (pget value ''title'') ''title'' 4000) (\<lambda>_.
     rbind (ensure (is_dict inputs \<and> length (pkeys inputs) \<le> 128) (ValueError ''task_plan_inputs_invalid'')) (\<lambda>_.
     rbind (each check_input (pitems_of inputs)) (\<lambda>_.
     rbind (ensure (is_list (pget value ''steps'') \<and> steps \<noteq> []) (ValueError ''task_plan_steps_invalid'')) (\<lambda>_.
     rbind (check_steps version inputs steps []) (\<lambda>_.
     rbind (if version = ''task_plan.v3''
        then check_completion (pget value ''completion'') version inputs (last steps) else Inr ()) (\<lambda>_.
     rbind (if newer_version version then check_contexts value steps else Inr ()) (\<lambda>_.
     Inr value))))))))))))"

section \<open>Completion\<close>

definition completion_snapshot :: "pyval \<Rightarrow> pyval res" where
  "completion_snapshot plan =
     (if pget plan ''schema_version'' \<noteq> PStr ''task_plan.v3'' then Inr PNone
      else let completion = pget plan ''completion'' in
        rbind (resolve_plan_condition (pget completion ''verification'') (pget plan ''inputs'')) (\<lambda>semantic.
        Inr (PDict [(''schema'', PStr ''task_plan_completion.v1''), (''goal'', pget plan ''goal''),
          (''step_id'', pget completion ''step_id''), (''verification'', pget completion ''verification''),
          (''semantic'', semantic)])))"

definition completion_proof_kind :: "pyval \<Rightarrow> bool \<Rightarrow> string" where
  "completion_proof_kind result same = (if pget result ''judged_by'' = PStr ''agent'' then ''main_review''
     else if pget result ''verdict'' = PStr ''success'' \<and> same then ''final_step'' else ''not_proven'')"

definition goal_completion_proof :: "pyval \<Rightarrow> pyval \<Rightarrow> pyval res" where
  "goal_completion_proof plan result =
     rbind (completion_snapshot plan) (\<lambda>snapshot.
     if snapshot = PNone then Inr PNone
     else rbind (item result ''step_id'') (\<lambda>step_id.
     if \<not> py_eq step_id (pget snapshot ''step_id'') then Inr PNone
     else
       let same = py_eq (pget snapshot ''verification'')
         (pget (last (plist (pget plan ''steps''))) ''verification'') in
       rbind (item result ''judged_by'') (\<lambda>judge.
       rbind (if judge = PStr ''agent'' then Inr PNone else item result ''verdict'') (\<lambda>_.
       rbind (ct_digest snapshot) (\<lambda>digest.
       rbind (item result ''execution_request_id'') (\<lambda>execution.
       Inr (PDict [(''schema'', PStr ''task_plan_goal_completion.v1''), (''completion_snapshot_sha256'', PStr digest),
         (''step_id'', pget snapshot ''step_id''), (''execution_request_id'', execution),
         (''proof'', PStr (completion_proof_kind result same))])))))))"

text \<open>A number the source compares with \<^verbatim>\<open>isfinite\<close>; a huge integer raises there.\<close>

definition validate_task_plan_target :: "pyval \<Rightarrow> pyval res" where
  "validate_task_plan_target value =
     (let time = pget value ''process_create_time''; invalid = ValueError ''task_plan_target_identity_invalid'' in
     rbind (ensure (is_dict value \<and> keys_are value [''handle'', ''process_id'', ''process_create_time'']
        \<and> (case pget value ''handle'' of PInt i \<Rightarrow> 0 < i | _ \<Rightarrow> False)
        \<and> (case pget value ''process_id'' of PInt i \<Rightarrow> 0 < i | _ \<Rightarrow> False)
        \<and> (is_int time \<or> is_float time)) invalid) (\<lambda>_.
     rbind (isfinite_num time) (\<lambda>finite.
     rbind (ensure (finite \<and> 0 < num_rat time) invalid) (\<lambda>_. Inr value))))"

section \<open>What an accepted plan contains\<close>

text \<open>A text of an action is one of the plan's own: a literal, a constant or an input.\<close>

definition text_from_plan :: "pyval \<Rightarrow> pyval \<Rightarrow> string \<Rightarrow> bool" where
  "text_from_plan value inputs s = (1 \<le> length s \<and> length s \<le> 20000
     \<and> (value = PStr s \<or> pget value ''source'' = PStr ''constant'' \<and> pget value ''value'' = PStr s
        \<or> pget value ''source'' = PStr ''input'' \<and> pget inputs (py_str (pget value ''name'')) = PStr s))"

lemma resolve_text_sound:
  assumes "resolve_action_text value inputs = Inr s"
  shows "text_from_plan value inputs s"
proof -
  from assms obtain r where r: "(if is_str value then Inr value
       else if is_dict value \<and> pget value ''source'' = PStr ''constant'' \<and> keys_are value [''source'', ''value'']
       then Inr (pget value ''value'')
       else if is_dict value \<and> pget value ''source'' = PStr ''input'' \<and> keys_are value [''source'', ''name'']
       then rbind (plan_identifier (pget value ''name'') ''input_reference'') (\<lambda>name.
            if phas inputs name then Inr (pget inputs name)
            else Inl (ValueError ''task_plan_required_input_missing''))
       else Inl (ValueError (if pget value ''source'' = PStr ''output''
          then ''task_plan_dynamic_output_unsupported'' else ''task_plan_text_reference_invalid''))) = Inr r"
    and s: "(case r of
         PStr s \<Rightarrow> if 1 \<le> length s \<and> length s \<le> 20000 then Inr s
           else Inl (ValueError ''task_plan_input_text_invalid'')
       | _ \<Rightarrow> Inl (ValueError ''task_plan_input_text_invalid'')) = Inr s"
    unfolding resolve_action_text_def by (rule rbind_InrE)
  from s have rs: "r = PStr s" "1 \<le> length s" "length s \<le> 20000"
    by (auto split: pyval.splits if_splits)
  have name: "pget inputs (py_str (pget value ''name'')) = r"
    if "rbind (plan_identifier (pget value ''name'') ''input_reference'') (\<lambda>name.
            if phas inputs name then Inr (pget inputs name)
            else Inl (ValueError ''task_plan_required_input_missing'')) = Inr r"
    using that by (auto simp: rbind_eq_Inr_iff plan_identifier_def split: pyval.splits if_splits)
  from r rs name show ?thesis
    unfolding text_from_plan_def by (auto split: if_splits)
qed

text \<open>An action the plan may hold: its kind, the origin of its text, its use of target identities.\<close>

definition action_sound :: "pyval \<Rightarrow> pyval \<Rightarrow> string \<Rightarrow> bool" where
  "action_sound action inputs version =
     (one_of (pget action ''kind'') [''click'', ''input_sequence'', ''read_text'']
      \<and> (pget action ''kind'' = PStr ''input_sequence'' \<longrightarrow> (\<exists>s. resolve_action_text (pget action ''text'') inputs = Inr s
             \<and> text_from_plan (pget action ''text'') inputs s)
           \<and> is_bool (pget action ''clear_existing'') \<and> is_bool (pget action ''submit_search''))
      \<and> (phas action ''target_identity'' \<longrightarrow> version = ''task_plan.v3'' \<and> identity_spec_ok (pget action ''target_identity''))
      \<and> \<not> phas action ''target_memory'')"

lemma check_input_sequence_sound:
  assumes "check_input_sequence value inputs = Inr ()"
  shows "\<exists>s. resolve_action_text (pget value ''text'') inputs = Inr s \<and> text_from_plan (pget value ''text'') inputs s"
    and "is_bool (pget value ''clear_existing'')" "is_bool (pget value ''submit_search'')"
  using assms resolve_text_sound unfolding check_input_sequence_def
  by (simp_all only: checks_iff) blast

lemma action_identity_sound:
  "action_identity value version = Inr () \<Longrightarrow> phas value ''target_identity'' \<Longrightarrow>
    version = ''task_plan.v3'' \<and> identity_spec_ok (pget value ''target_identity'')"
  unfolding action_identity_def
  by (auto simp: rbind_eq_Inr_iff normalize_identity_iff split: if_splits)

lemma plan_action_kind:
  assumes "(if kind = PStr ''click'' then check_click value
        else if kind = PStr ''input_sequence'' then check_input_sequence value inputs
        else if kind = PStr ''read_text'' then check_read_text value
        else Inl (ValueError ''task_plan_action_unsupported'')) = Inr ()"
  shows "one_of kind [''click'', ''input_sequence'', ''read_text'']"
    and "kind = PStr ''input_sequence'' \<Longrightarrow> check_input_sequence value inputs = Inr ()"
  using assms by (auto simp: one_of_def split: if_splits)

lemma plan_action_sound:
  assumes "plan_action value inputs version = Inr ()"
  shows "action_sound value inputs version"
proof -
  from assms have id: "action_identity value version = Inr ()" and "\<not> phas value ''target_memory''"
    and kind: "(if pget value ''kind'' = PStr ''click'' then check_click value
        else if pget value ''kind'' = PStr ''input_sequence'' then check_input_sequence value inputs
        else if pget value ''kind'' = PStr ''read_text'' then check_read_text value
        else Inl (ValueError ''task_plan_action_unsupported'')) = Inr ()"
    unfolding plan_action_def Let_def by (simp_all only: checks_iff simp_thms)
  then show ?thesis
    unfolding action_sound_def
    using action_identity_sound[OF id] plan_action_kind[OF kind] check_input_sequence_sound by blast
qed


lemma check_step_form_iff:
  "check_step_form step = Inr step_id \<longleftrightarrow> is_dict step \<and> \<not> keys_meet step [''outputs'', ''read_spec'']
     \<and> keys_are step [''step_id'', ''action'', ''verification'']
     \<and> pget step ''step_id'' = PStr step_id \<and> identifier_re 159 step_id"
  unfolding check_step_form_def plan_identifier_def
  by (auto simp: rbind_eq_Inr_iff split: pyval.splits if_splits)

definition step_checked :: "string \<Rightarrow> pyval \<Rightarrow> pyval \<Rightarrow> bool" where
  "step_checked version inputs step = (is_dict step \<and> keys_are step [''step_id'', ''action'', ''verification'']
     \<and> str_ok (identifier_re 159) (pget step ''step_id'')
     \<and> plan_action (pget step ''action'') inputs version = Inr ()
     \<and> plan_verification (pget step ''verification'') (pget step ''action'') version inputs = Inr ())"

definition step_name :: "pyval \<Rightarrow> string" where
  "step_name step = py_str (pget step ''step_id'')"

lemma check_steps_sound:
  assumes "check_steps version inputs steps seen = Inr ()"
  shows "list_all (step_checked version inputs) steps \<and> distinct (map step_name steps)
    \<and> set (map step_name steps) \<inter> set seen = {}"
  using assms
proof (induction steps arbitrary: seen)
  case Nil
  then show ?case by simp
next
  case (Cons step steps)
  then obtain step_id where id: "check_step_form step = Inr step_id" "step_id \<notin> set seen"
    and act: "plan_action (pget step ''action'') inputs version = Inr ()"
      "plan_verification (pget step ''verification'') (pget step ''action'') version inputs = Inr ()"
    and rest: "check_steps version inputs steps (step_id # seen) = Inr ()"
    by (auto simp: rbind_eq_Inr_iff)
  have name: "step_name step = step_id"
    using id(1) by (simp add: check_step_form_iff step_name_def)
  have "step_checked version inputs step"
    using id(1) act by (simp add: check_step_form_iff step_checked_def)
  with Cons.IH[OF rest] id(2) show ?case by (auto simp: name)
qed

lemma plan_parts:
  assumes "validate_task_plan plan = Inr w"
  obtains version where "w = plan" "pget plan ''schema_version'' = PStr version"
    "version \<in> {''task_plan.v1'', ''task_plan.v2'', ''task_plan.v3''}"
    "is_dict plan" "keys_are plan (plan_fields (PStr version))" "is_dict (pget plan ''inputs'')"
    "is_list (pget plan ''steps'')" "plist (pget plan ''steps'') \<noteq> []"
    "check_steps version (pget plan ''inputs'') (plist (pget plan ''steps'')) [] = Inr ()"
    "version = ''task_plan.v3'' \<Longrightarrow> check_completion (pget plan ''completion'') version (pget plan ''inputs'')
       (last (plist (pget plan ''steps''))) = Inr ()"
    "newer_version version \<Longrightarrow> check_contexts plan (plist (pget plan ''steps'')) = Inr ()"
proof -
  let ?schema = "pget plan ''schema_version''"
  let ?version = "py_str ?schema"
  note facts = assms[unfolded validate_task_plan_def Let_def checks_iff sum.inject]
  from facts obtain known where form: "is_dict plan"
    and known: "(if keys_are plan (plan_fields ?schema)
        then in_names ?schema [''task_plan.v1'', ''task_plan.v2'', ''task_plan.v3''] else Inr False) = Inr known"
      "known"
    and inputs: "is_dict (pget plan ''inputs'')"
    and steps: "is_list (pget plan ''steps'')" "plist (pget plan ''steps'') \<noteq> []"
      "check_steps ?version (pget plan ''inputs'') (plist (pget plan ''steps'')) [] = Inr ()"
    and completion: "(if ?version = ''task_plan.v3''
        then check_completion (pget plan ''completion'') ?version (pget plan ''inputs'')
          (last (plist (pget plan ''steps''))) else Inr ()) = Inr ()"
    and contexts: "(if newer_version ?version then check_contexts plan (plist (pget plan ''steps'')) else Inr ()) = Inr ()"
    and w: "w = plan"
    by blast
  have "keys_are plan (plan_fields ?schema)"
    and "in_names ?schema [''task_plan.v1'', ''task_plan.v2'', ''task_plan.v3''] = Inr True"
    using known by (auto split: if_splits)
  then obtain version where version: "?schema = PStr version"
      "version \<in> {''task_plan.v1'', ''task_plan.v2'', ''task_plan.v3''}"
    by (auto simp: in_names_True_iff)
  show thesis
  proof (rule that[of version])
    show "keys_are plan (plan_fields (PStr version))" using \<open>keys_are plan (plan_fields ?schema)\<close> version(1) by simp
    show "check_completion (pget plan ''completion'') version (pget plan ''inputs'')
        (last (plist (pget plan ''steps''))) = Inr ()" if "version = ''task_plan.v3''"
      using completion unfolding version(1) py_str_PStr by (simp only: that if_True simp_thms)
    show "check_contexts plan (plist (pget plan ''steps'')) = Inr ()" if "newer_version version"
      using contexts unfolding version(1) py_str_PStr by (simp only: that if_True simp_thms)
    show "check_steps version (pget plan ''inputs'') (plist (pget plan ''steps'')) [] = Inr ()"
      using steps(3) unfolding version(1) py_str_PStr .
  qed (use form inputs steps w version in blast)+
qed


section \<open>What an accepted verification rule contains\<close>

lemma verify_judgment_iff:
  "verify_judgment value action version inputs = Inr () \<longleftrightarrow>
    phas value ''kind'' \<and> keys_within value (judgment_fields version)
    \<and> \<not> (phas value ''decision_condition'' \<and> phas value ''condition_binding'')
    \<and> check_binding value action inputs = Inr () \<and> check_allowed_states value = Inr ()
    \<and> optional_ok value ''review_policy'' (\<lambda>v. v = PStr ''always_main'') \<and> check_wait value = Inr ()
    \<and> check_grace value action = Inr () \<and> check_decision_condition value action = Inr ()"
  unfolding verify_judgment_def by (simp only: checks_iff conj_assoc)

lemma verification_cases:
  assumes "plan_verification value action version inputs = Inr ()"
  obtains (agent) "pget value ''kind'' = PStr ''agent_judgment''"
      "verify_judgment value action version inputs = Inr ()"
    | (media) kind where "pget value ''kind'' = PStr kind" "kind = ''video_playback'' \<or> kind = ''dynamic_content''"
      "verify_media kind value action version inputs = Inr ()"
    | (native) "pget value ''kind'' = PStr ''native_condition''"
      "verify_native value action version inputs = Inr ()"
proof (cases "pget value ''kind'' = PStr ''agent_judgment''")
  case True
  with assms agent show ?thesis unfolding plan_verification_def Let_def
    by (simp only: checks_iff if_True simp_thms)
next
  case False
  with assms obtain media' where m: "in_names (pget value ''kind'') [''video_playback'', ''dynamic_content''] = Inr media'"
    and rest: "(if media' then verify_media (py_str (pget value ''kind'')) value action version inputs
       else if pget value ''kind'' = PStr ''native_condition'' then verify_native value action version inputs
       else Inl (ValueError ''task_plan_verification_unsupported'')) = Inr ()"
    unfolding plan_verification_def Let_def by (simp only: checks_iff if_False) blast
  show ?thesis
  proof (cases media')
    case True
    with m obtain kind where "pget value ''kind'' = PStr kind" "kind \<in> set [''video_playback'', ''dynamic_content'']"
      by (auto simp only: in_names_True_iff)
    with True rest show ?thesis by (intro media[of kind]) simp_all
  next
    case False
    with rest native show ?thesis by (auto split: if_splits)
  qed
qed

lemma render_grace_bounds:
  "resolve_render_grace_ms [] v = Inr ms \<Longrightarrow> is_int v \<Longrightarrow> v = PInt ms \<and> 0 \<le> ms \<and> ms \<le> render_grace_limit"
  by (cases v) (auto simp: resolve_render_grace_ms_def split: if_splits)

lemma render_grace_int: "resolve_render_grace_ms [] (PInt i) = Inr ms \<Longrightarrow> 0 \<le> i \<and> i \<le> render_grace_limit"
  using render_grace_bounds[of "PInt i" ms] by simp

definition grace_bounded :: "pyval \<Rightarrow> pyval \<Rightarrow> bool" where
  "grace_bounded value action = (phas value ''render_grace_ms'' \<longrightarrow>
     (case pget value ''render_grace_ms'' of PInt ms \<Rightarrow> 0 \<le> ms \<and> ms \<le> render_grace_limit | _ \<Rightarrow> False)
     \<and> navigating_action action)"

lemma keys_within_not: "keys_within v ks \<Longrightarrow> k \<notin> set ks \<Longrightarrow> \<not> phas v k"
  by (auto simp: keys_within_def phas_def)

lemma verification_grace:
  assumes "plan_verification value action version inputs = Inr ()"
  shows "grace_bounded value action"
  using assms
proof (cases rule: verification_cases)
  case agent
  then have "check_grace value action = Inr ()" by (simp only: verify_judgment_iff)
  then show ?thesis
    unfolding check_grace_def grace_bounded_def
    by (auto simp: rbind_eq_Inr_iff dest: render_grace_bounds split: if_splits pyval.splits)
next
  case (media kind)
  then have "navigating_action action"
    and "phas value ''render_grace_ms'' \<Longrightarrow> is_int (pget value ''render_grace_ms'')
      \<and> (\<exists>ms. resolve_render_grace_ms [] (pget value ''render_grace_ms'') = Inr ms)"
    unfolding verify_media_def Let_def by (auto simp: rbind_eq_Inr_iff split: if_splits)
  then show ?thesis
    unfolding grace_bounded_def by (auto dest: render_grace_int split: pyval.splits)
next
  case native
  then have "keys_within value ([''kind'', ''condition''] @ (if newer_version version then native_options else []))"
    unfolding verify_native_def by (simp only: checks_iff)
  then have "\<not> phas value ''render_grace_ms''"
    by (rule keys_within_not) (simp add: native_options_def)
  then show ?thesis by (simp add: grace_bounded_def)
qed

lemma media_native_navigate:
  "verify_media kind value action version inputs = Inr () \<Longrightarrow> navigating_action action"
  "verify_native value action version inputs = Inr () \<Longrightarrow> navigating_action action"
  unfolding verify_media_def verify_native_def Let_def by (simp_all only: checks_iff)

lemma has_condition_iff:
  "has_condition v \<longleftrightarrow> phas v ''decision_condition'' \<or> phas v ''condition_binding''"
  by (simp add: has_condition_def keys_meet_def)

lemma verification_read:
  assumes "plan_verification value action version inputs = Inr ()"
    and "pget action ''kind'' = PStr ''read_text''"
  shows "\<not> has_condition value"
  using assms(1)
proof (cases rule: verification_cases)
  case agent
  then have "check_binding value action inputs = Inr ()" "check_decision_condition value action = Inr ()"
    by (simp_all only: verify_judgment_iff)
  then show ?thesis
    using assms(2) by (auto simp: check_binding_def check_decision_condition_def has_condition_iff split: if_splits)
next
  case (media kind)
  then show ?thesis using media_native_navigate(1)[OF media(3)] assms(2) by (simp add: navigating_action_def)
next
  case native
  then show ?thesis using media_native_navigate(2)[OF native(2)] assms(2) by (simp add: navigating_action_def)
qed

section \<open>Versions\<close>

lemma verification_same_version:
  assumes "newer_version version = newer_version version'"
  shows "plan_verification value action version inputs = plan_verification value action version' inputs"
proof -
  have j: "verify_judgment v a version i = verify_judgment v a version' i" for v a i
    unfolding verify_judgment_def judgment_fields_def assms ..
  show ?thesis
    unfolding plan_verification_def verify_media_def verify_native_def assms j ..
qed

lemma keys_within_more: "keys_within v ks \<Longrightarrow> set ks \<subseteq> set ls \<Longrightarrow> keys_within v ls"
  by (auto simp: keys_within_def)

lemma judgment_upgrade:
  assumes "verify_judgment value action version inputs = Inr ()" and "newer_version version'"
  shows "verify_judgment value action version' inputs = Inr ()"
proof -
  have "set (judgment_fields version) \<subseteq> set (judgment_fields version')"
    using assms(2) by (auto simp: judgment_fields_def)
  with assms(1) show ?thesis
    unfolding verify_judgment_iff using keys_within_more by blast
qed

lemma native_upgrade:
  assumes "verify_native value action version inputs = Inr ()" and "newer_version version'"
  shows "verify_native value action version' inputs = Inr ()"
proof -
  have fields: "keys_within value ([''kind'', ''condition''] @ (if newer_version version then native_options else []))
      \<Longrightarrow> keys_within value ([''kind'', ''condition''] @ (if newer_version version' then native_options else []))"
    using assms(2) by (erule_tac keys_within_more) auto
  show ?thesis
    using assms(1) fields judgment_upgrade[OF _ assms(2)] unfolding verify_native_def
    by (auto simp only: checks_iff split: if_splits)
qed

lemma verification_upgrade:
  assumes "plan_verification value action version inputs = Inr ()" and "newer_version version'"
  shows "plan_verification value action version' inputs = Inr ()"
proof (cases "newer_version version")
  case True
  with assms verification_same_version show ?thesis by metis
next
  case False
  have d: "is_dict value"
    using assms(1) unfolding plan_verification_def by (simp only: checks_iff)
  from assms(1) show ?thesis
  proof (cases rule: verification_cases)
    case agent
    then show ?thesis using d judgment_upgrade[OF agent(2) assms(2)] by (simp add: plan_verification_def)
  next
    case (media kind)
    then have "newer_version version" unfolding verify_media_def Let_def by (simp only: checks_iff)
    with False show ?thesis ..
  next
    case native
    then show ?thesis using d native_upgrade[OF native(2) assms(2)] by (simp add: plan_verification_def)
  qed
qed


lemma step_checked_facts:
  assumes "step_checked version inputs step"
  shows "action_sound (pget step ''action'') inputs version"
    and "pget (pget step ''action'') ''kind'' = PStr ''read_text'' \<Longrightarrow> \<not> has_condition (pget step ''verification'')"
    and "grace_bounded (pget step ''verification'') (pget step ''action'')"
proof -
  have a: "plan_action (pget step ''action'') inputs version = Inr ()"
    and v: "plan_verification (pget step ''verification'') (pget step ''action'') version inputs = Inr ()"
    using assms by (simp_all add: step_checked_def)
  show "action_sound (pget step ''action'') inputs version" using a by (rule plan_action_sound)
  show "\<not> has_condition (pget step ''verification'')" if "pget (pget step ''action'') ''kind'' = PStr ''read_text''"
    using v that by (rule verification_read)
  show "grace_bounded (pget step ''verification'') (pget step ''action'')" using v by (rule verification_grace)
qed

section \<open>Completion of a goal\<close>

lemma py_eq_str_right: "py_eq v (PStr s) \<longleftrightarrow> v = PStr s"
  by (cases v) auto

text \<open>What a rule lets the runtime look for.\<close>

definition observable :: "pyval \<Rightarrow> bool" where
  "observable value = (has_condition value \<or> phas value ''condition'')"

lemma keys_include_has: "keys_include v ks \<Longrightarrow> k \<in> set ks \<Longrightarrow> phas v k"
  by (auto simp: keys_include_def phas_def)

lemma verification_observable:
  assumes "plan_verification value action version inputs = Inr ()"
    and "\<not> (pget value ''kind'' = PStr ''agent_judgment'' \<and> \<not> has_condition value)"
  shows "observable value"
  using assms(1)
proof (cases rule: verification_cases)
  case agent
  with assms(2) show ?thesis by (simp add: observable_def)
next
  case (media kind)
  then have "keys_include value ([''kind'', ''decision_condition'']
      @ (if kind = ''dynamic_content'' then [''target_description''] else []))"
    unfolding verify_media_def Let_def by (simp only: checks_iff)
  then have "phas value ''decision_condition''" by (rule keys_include_has) simp
  then show ?thesis by (simp add: observable_def has_condition_iff)
next
  case native
  then have "keys_include value [''kind'', ''condition'']"
    unfolding verify_native_def by (simp only: checks_iff)
  then have "phas value ''condition''" by (rule keys_include_has) simp
  then show ?thesis by (simp add: observable_def)
qed

lemma completion_parts:
  assumes "check_completion completion version inputs last_step = Inr ()"
  shows "py_eq (pget completion ''step_id'') (pget last_step ''step_id'')"
    and "observable (pget completion ''verification'')"
  using assms verification_observable unfolding check_completion_def Let_def
  by (simp_all only: checks_iff) blast

lemma completion_proof_parts:
  assumes "goal_completion_proof plan result = Inr p" and "p \<noteq> PNone"
  shows "pget plan ''schema_version'' = PStr ''task_plan.v3''"
    and "py_eq (pget result ''step_id'') (pget (pget plan ''completion'') ''step_id'')"
    and "pget p ''proof'' = PStr (completion_proof_kind result
      (py_eq (pget (pget plan ''completion'') ''verification'')
        (pget (last (plist (pget plan ''steps''))) ''verification'')))"
  using assms unfolding goal_completion_proof_def completion_snapshot_def Let_def
  by (auto simp: rbind_eq_Inr_iff item_eq_Inr_iff dict_get_def split: if_splits)

section \<open>Samples\<close>

definition sample_rule :: pyval where
  "sample_rule = PDict [(''kind'', PStr ''agent_judgment''), (''decision_condition'', PStr ''A detail is open''),
     (''wait_policy'', PDict [(''loading_condition'', PStr ''A spinner''), (''completion_excludes_loading'', PBool True)]),
     (''render_grace_ms'', PInt 500)]"

definition sample_step :: pyval where
  "sample_step = PDict [(''step_id'', PStr ''open''), (''action'', PDict [(''kind'', PStr ''click''), (''goal'', PStr ''First row'')]),
     (''verification'', sample_rule)]"

definition sample_plan :: pyval where
  "sample_plan = PDict [(''schema_version'', PStr ''task_plan.v3''), (''title'', PStr ''Open''), (''goal'', PStr ''See the detail''),
     (''inputs'', PDict []), (''steps'', PList [sample_step]),
     (''completion'', PDict [(''step_id'', PStr ''open''), (''verification'', sample_rule)])]"

lemma sample_plan_ok: "validate_task_plan sample_plan = Inr sample_plan"
  by code_simp


definition sample_result :: pyval where
  "sample_result = PDict [(''step_id'', PStr ''open''), (''judged_by'', PStr ''decision''),
     (''verdict'', PStr ''success''), (''execution_request_id'', PStr ''request-1'')]"

lemma sample_proof: "\<exists>p. goal_completion_proof sample_plan sample_result = Inr p \<and> p \<noteq> PNone
    \<and> pget p ''proof'' = PStr ''final_step''"
proof -
  obtain s where s: "completion_snapshot sample_plan = Inr s" "all_finite s" "s \<noteq> PNone"
      "pget s ''step_id'' = PStr ''open''" "pget s ''verification'' = sample_rule"
    by (auto simp: completion_snapshot_def sample_plan_def sample_rule_def dict_get_def Let_def
        resolve_plan_condition_def phas_def)
  obtain h where "ct_digest s = Inr h" using ct_digest_ok[OF s(2)] by blast
  with s show ?thesis
    by (simp add: goal_completion_proof_def Let_def sample_result_def dict_get_def item_def completion_proof_kind_def
        sample_plan_def sample_step_def sample_rule_def)
qed

section \<open>Properties\<close>

text \<open>C30: Every step of an accepted plan is one of the three supported actions and carries its own
  data: the text of an input is a literal of the plan, a declared constant or an input given
  with the plan, of 1 to 20000 characters; a target identity appears only in version 3 plans and
  is a well-formed specification; no step refers to remembered targets; a step that only reads
  has no decision condition. The step identifiers are distinct and there is at least one step.\<close>

theorem plan_steps_sound:
  assumes "validate_task_plan plan = Inr w"
  shows "w = plan \<and> plist (pget plan ''steps'') \<noteq> []
    \<and> distinct (map step_name (plist (pget plan ''steps'')))
    \<and> list_all (\<lambda>step. action_sound (pget step ''action'') (pget plan ''inputs'') (py_str (pget plan ''schema_version''))
        \<and> (pget (pget step ''action'') ''kind'' = PStr ''read_text'' \<longrightarrow> \<not> has_condition (pget step ''verification'')))
      (plist (pget plan ''steps''))"
  using assms
proof (rule plan_parts)
  fix version
  assume "w = plan" "plist (pget plan ''steps'') \<noteq> []" and version: "pget plan ''schema_version'' = PStr version"
    and "check_steps version (pget plan ''inputs'') (plist (pget plan ''steps'')) [] = Inr ()"
  with check_steps_sound[of version] step_checked_facts(1,2)[of version] show ?thesis
    unfolding version py_str_PStr list_all_iff by blast
qed

theorem plan_steps_sound_witness:
  "sample_plan = sample_plan \<and> plist (pget sample_plan ''steps'') \<noteq> []
    \<and> distinct (map step_name (plist (pget sample_plan ''steps'')))
    \<and> list_all (\<lambda>step. action_sound (pget step ''action'') (pget sample_plan ''inputs'') (py_str (pget sample_plan ''schema_version''))
        \<and> (pget (pget step ''action'') ''kind'' = PStr ''read_text'' \<longrightarrow> \<not> has_condition (pget step ''verification'')))
      (plist (pget sample_plan ''steps''))"
  by (rule plan_steps_sound[OF sample_plan_ok])

text \<open>A wait after an action is bounded: in an accepted plan a step that declares
  \<^verbatim>\<open>render_grace_ms\<close> declares a whole number between 0 and 2000, and its action is one that
  navigates, a click or a submitted input.\<close>

theorem plan_render_grace_bounded:
  assumes "validate_task_plan plan = Inr w"
  shows "list_all (\<lambda>step. grace_bounded (pget step ''verification'') (pget step ''action'')) (plist (pget plan ''steps''))"
  using assms
proof (rule plan_parts)
  fix version
  assume "check_steps version (pget plan ''inputs'') (plist (pget plan ''steps'')) [] = Inr ()"
  with check_steps_sound[of version] step_checked_facts(3)[of version] show ?thesis
    unfolding list_all_iff by blast
qed

theorem plan_render_grace_bounded_witness:
  "list_all (\<lambda>step. grace_bounded (pget step ''verification'') (pget step ''action'')) (plist (pget sample_plan ''steps''))"
  by (rule plan_render_grace_bounded[OF sample_plan_ok])

text \<open>The versions of the plan contract agree on verification rules: versions 2 and 3 give the
  same answer, the same exception included, on every rule, and a rule that version 1 accepts
  is accepted by both.\<close>

theorem plan_versions_agree:
  "plan_verification rule action ''task_plan.v2'' inputs = plan_verification rule action ''task_plan.v3'' inputs
    \<and> (plan_verification rule action ''task_plan.v1'' inputs = Inr ()
      \<longrightarrow> plan_verification rule action ''task_plan.v2'' inputs = Inr ())"
  using verification_same_version[of "''task_plan.v2''" "''task_plan.v3''"]
    verification_upgrade[of rule action "''task_plan.v1''" inputs "''task_plan.v2''"]
  by (auto simp: newer_version_def)

definition older_rule :: pyval where
  "older_rule = PDict [(''kind'', PStr ''agent_judgment''), (''decision_condition'', PStr ''A detail is open'')]"

definition click_action :: pyval where
  "click_action = PDict [(''kind'', PStr ''click''), (''goal'', PStr ''First row'')]"

theorem plan_versions_agree_witness:
  "plan_verification older_rule click_action ''task_plan.v1'' (PDict []) = Inr ()
   \<and> plan_verification older_rule click_action ''task_plan.v2'' (PDict []) = Inr ()"
proof -
  have "plan_verification older_rule click_action ''task_plan.v1'' (PDict []) = Inr ()" by code_simp
  with plan_versions_agree[of older_rule click_action "PDict []"] show ?thesis by metis
qed

text \<open>C31: A completed goal is tied to the last step: for an accepted version 3 plan, a proof is made
  only for a result of the last step, the condition of the completion is one that can be observed,
  and the proof says \<^verbatim>\<open>final_step\<close> only when that step succeeded without an agent's review
  and the completion asks for exactly what the last step verified.\<close>

theorem plan_completion_is_final_step:
  assumes "validate_task_plan plan = Inr w" and "goal_completion_proof plan result = Inr p" and "p \<noteq> PNone"
  shows "pget result ''step_id'' = pget (last (plist (pget plan ''steps''))) ''step_id''
    \<and> observable (pget (pget plan ''completion'') ''verification'')
    \<and> (pget p ''proof'' = PStr ''final_step'' \<longrightarrow> pget result ''verdict'' = PStr ''success''
       \<and> pget result ''judged_by'' \<noteq> PStr ''agent''
       \<and> py_eq (pget (pget plan ''completion'') ''verification'')
           (pget (last (plist (pget plan ''steps''))) ''verification''))"
  using assms(1)
proof (rule plan_parts)
  fix version
  assume version: "pget plan ''schema_version'' = PStr version" and some: "plist (pget plan ''steps'') \<noteq> []"
    and steps: "check_steps version (pget plan ''inputs'') (plist (pget plan ''steps'')) [] = Inr ()"
    and completion: "version = ''task_plan.v3'' \<Longrightarrow> check_completion (pget plan ''completion'') version
      (pget plan ''inputs'') (last (plist (pget plan ''steps''))) = Inr ()"
  note made = completion_proof_parts[OF assms(2,3)]
  have c: "check_completion (pget plan ''completion'') version (pget plan ''inputs'')
      (last (plist (pget plan ''steps''))) = Inr ()"
    using made(1) version completion by simp
  have "step_checked version (pget plan ''inputs'') (last (plist (pget plan ''steps'')))"
    using check_steps_sound[OF steps] some by (auto simp: list_all_iff)
  then obtain i where "pget (last (plist (pget plan ''steps''))) ''step_id'' = PStr i"
    by (auto simp: step_checked_def str_ok_iff)
  moreover from this completion_parts(1)[OF c] have "pget (pget plan ''completion'') ''step_id'' = PStr i"
    by (simp only: py_eq_str_right)
  ultimately show ?thesis
    using made(2,3) completion_parts(2)[OF c] by (auto simp: py_eq_str_right completion_proof_kind_def)
qed

theorem plan_completion_is_final_step_witness:
  "pget sample_result ''step_id'' = pget (last (plist (pget sample_plan ''steps''))) ''step_id''
    \<and> observable (pget (pget sample_plan ''completion'') ''verification'')
    \<and> py_eq (pget (pget sample_plan ''completion'') ''verification'')
           (pget (last (plist (pget sample_plan ''steps''))) ''verification'')"
proof -
  obtain p where "goal_completion_proof sample_plan sample_result = Inr p" "p \<noteq> PNone"
      "pget p ''proof'' = PStr ''final_step''"
    using sample_proof by blast
  with plan_completion_is_final_step[OF sample_plan_ok] show ?thesis by blast
qed

end
