(* ===== verification/WorkflowProgram.thy ===== *)
theory WorkflowProgram
  imports ConditionTemplates
begin

text \<open>
  The editable task program: \<^verbatim>\<open>validate_definition\<close> of \<^verbatim>\<open>app/learning_memory/workflow_program.py\<close>
  with everything it calls (variables, references, conditions, verification and read rules, target and
  image checks, template revisions) and the depth-first search that refuses a cycle of branches.
  A reference to an output sees only the outputs of the steps before it in the list.
\<close>

section \<open>Names and values\<close>

definition check_id :: "string \<Rightarrow> pyval \<Rightarrow> string res" where
  "check_id label v = (case v of
       PStr s \<Rightarrow> if identifier_re 159 s then Inr s else Inl (ValueError (label @ ''_invalid''))
     | _ \<Rightarrow> Inl (ValueError (label @ ''_invalid'')))"

definition program_types :: "string list" where
  "program_types = [''text'', ''number'', ''boolean'']"

definition has_program_type :: "pyval \<Rightarrow> string \<Rightarrow> bool" where
  "has_program_type v kind = (if kind = ''boolean'' then is_bool v
     else if kind = ''number'' then is_int v \<or> is_float v
     else str_ok (\<lambda>s. length s \<le> 20000) v)"

text \<open>\<^verbatim>\<open>isinstance(v, (str, int, float, bool))\<close>.\<close>

definition is_scalar :: "pyval \<Rightarrow> bool" where
  "is_scalar v = (is_str v \<or> is_int v \<or> is_float v \<or> is_bool v)"

definition has_text :: "pyval \<Rightarrow> bool" where
  "has_text v = str_ok (\<lambda>s. \<not> blank s) v"

text \<open>\<^verbatim>\<open>str(v)\<close> refuses an integer of more than 4300 digits.\<close>

definition text_length :: "pyval \<Rightarrow> nat res" where
  "text_length v = (case v of
       PInt i \<Rightarrow> if 4300 < length (int_text \<bar>i\<bar>) then Inl (ValueError ''Exceeds the limit'')
         else Inr (length (int_text i))
     | _ \<Rightarrow> Inr (length (py_str v)))"

type_synonym scope = "(string \<times> string) list"
type_synonym outputs = "((string \<times> string) \<times> string) list"

section \<open>Variables\<close>

definition variable_fields :: "string \<Rightarrow> string list" where
  "variable_fields label = (if label = ''inputs'' then [''name'', ''type'', ''required'']
     else if label = ''program_outputs'' then [''name'', ''type'', ''step_id''] else [''name'', ''type''])"

definition check_variable :: "string \<Rightarrow> string list \<Rightarrow> pyval \<Rightarrow> (string \<times> string) res" where
  "check_variable label seen entry = (let bad = ValueError (label @ ''_invalid'') in
     rbind (ensure (is_dict entry \<and> keys_are entry (variable_fields label)) bad) (\<lambda>_.
     rbind (check_id label (pget entry ''name'')) (\<lambda>name.
     rbind (ensure (name \<notin> set seen) bad) (\<lambda>_.
     rbind (in_names (pget entry ''type'') program_types) (\<lambda>typed.
     rbind (ensure (typed \<and> (label = ''inputs'' \<longrightarrow> is_bool (pget entry ''required''))) bad) (\<lambda>_.
     Inr (name, py_str (pget entry ''type''))))))))"

fun check_variables :: "string \<Rightarrow> string list \<Rightarrow> pyval list \<Rightarrow> scope res" where
  "check_variables label seen [] = Inr []"
| "check_variables label seen (entry # entries) =
     rbind (check_variable label seen entry) (\<lambda>v.
     rbind (check_variables label (fst v # seen) entries) (\<lambda>vs. Inr (v # vs)))"

definition program_variables :: "string \<Rightarrow> pyval \<Rightarrow> scope res" where
  "program_variables label entries =
     rbind (ensure (is_list entries \<and> length (plist entries) \<le> 128) (ValueError (label @ ''_invalid''))) (\<lambda>_.
     check_variables label [] (plist entries))"

definition check_source_evidence :: "pyval \<Rightarrow> unit res" where
  "check_source_evidence v = ensure (is_dict v
     \<and> keys_are v [''learning_id'', ''event_id'', ''event_sha256'', ''review_sha256'']
     \<and> str_ok (\<lambda>s. take 9 s = ''learning-'' \<and> hex_re 32 (drop 9 s)) (pget v ''learning_id'')
     \<and> str_ok (identifier_re 159) (pget v ''event_id'')
     \<and> str_ok (hex_re 64) (pget v ''event_sha256'') \<and> str_ok (hex_re 64) (pget v ''review_sha256''))
     (ValueError ''task_program_source_evidence_invalid'')"

section \<open>References and conditions\<close>

definition reference_fields :: "string \<Rightarrow> string list" where
  "reference_fields source = (if source = ''constant'' then [''source'', ''value'']
     else if source = ''input'' then [''source'', ''name''] else [''source'', ''name'', ''step_id''])"

definition constant_type :: "string \<Rightarrow> pyval \<Rightarrow> string res" where
  "constant_type label v = (let bad = ValueError (label @ ''_reference_invalid'') in
     rbind (ensure (is_scalar v) bad) (\<lambda>_.
     rbind (text_length v) (\<lambda>n.
     rbind (ensure (n \<le> 20000) bad) (\<lambda>_.
     Inr (if is_str v then ''text'' else if is_bool v then ''boolean'' else ''number'')))))"

definition source_type :: "string \<Rightarrow> pyval \<Rightarrow> scope \<Rightarrow> outputs \<Rightarrow> string \<Rightarrow> string res" where
  "source_type source ref inputs available label =
     (if source = ''constant'' then constant_type label (pget ref ''value'')
      else rbind (check_id label (pget ref ''name'')) (\<lambda>name.
        if source = ''input'' then
          (case map_of inputs name of Some t \<Rightarrow> Inr t | None \<Rightarrow> Inl (ValueError (label @ ''_input_unknown'')))
        else rbind (check_id label (pget ref ''step_id'')) (\<lambda>step_id.
          case map_of available (step_id, name) of Some t \<Rightarrow> Inr t
          | None \<Rightarrow> Inl (ValueError (label @ ''_upstream_output_unknown'')))))"

definition reference_type :: "pyval \<Rightarrow> scope \<Rightarrow> outputs \<Rightarrow> string \<Rightarrow> string res" where
  "reference_type ref inputs available label = (let bad = ValueError (label @ ''_reference_invalid'') in
     rbind (ensure (is_dict ref) bad) (\<lambda>_.
     rbind (in_names (pget ref ''source'') [''constant'', ''input'', ''output'']) (\<lambda>known.
     rbind (ensure known bad) (\<lambda>_.
     let source = py_str (pget ref ''source'') in
     rbind (ensure (keys_are ref (reference_fields source)) bad) (\<lambda>_.
     source_type source ref inputs available label)))))"

text \<open>The type of the left side; an observation has none.\<close>

definition condition_left :: "string \<Rightarrow> pyval \<Rightarrow> scope \<Rightarrow> outputs \<Rightarrow> string option res" where
  "condition_left operator left inputs available =
     rbind (if is_dict left then in_names (pget left ''source'') [''input'', ''output'', ''observation''] else Inr False)
       (\<lambda>known.
     rbind (ensure known (ValueError ''condition_source_invalid'')) (\<lambda>_.
     if pget left ''source'' = PStr ''observation'' then
       rbind (ensure (keys_are left [''source'', ''name'']) (ValueError ''condition_source_invalid'')) (\<lambda>_.
       rbind (check_id ''observation'' (pget left ''name'')) (\<lambda>_. Inr None))
     else
       rbind (ensure (operator \<noteq> ''agent_assertion'')
         (ValueError ''condition_agent_assertion_requires_observation'')) (\<lambda>_.
       rbind (reference_type left inputs available ''condition'') (\<lambda>t. Inr (Some t)))))"

definition condition_right :: "string \<Rightarrow> string option \<Rightarrow> pyval \<Rightarrow> unit res" where
  "condition_right operator left_type entry = (let has = phas entry ''value''; v = pget entry ''value'' in
     rbind (ensure (operator \<in> {''eq'', ''not_eq'', ''contains''} \<longrightarrow> has) (ValueError ''condition_value_required'')) (\<lambda>_.
     rbind (ensure (operator \<in> {''exists'', ''agent_assertion''} \<longrightarrow> \<not> has) (ValueError ''condition_value_unexpected'')) (\<lambda>_.
     rbind (ensure (has \<longrightarrow> is_scalar v) (ValueError ''condition_value_invalid'')) (\<lambda>_.
     rbind (ensure (case left_type of None \<Rightarrow> True
         | Some t \<Rightarrow> operator \<in> {''eq'', ''not_eq''} \<longrightarrow> has_program_type v t)
       (ValueError ''condition_value_type_invalid'')) (\<lambda>_.
     ensure (operator = ''contains'' \<longrightarrow> (left_type = None \<or> left_type = Some ''text'') \<and> is_str v)
       (ValueError ''condition_contains_type_invalid''))))))"

definition check_condition :: "scope \<Rightarrow> outputs \<Rightarrow> pyval \<Rightarrow> unit res" where
  "check_condition inputs available entry =
     rbind (ensure (is_dict entry \<and> (keys_are entry [''left'', ''operator''] \<or> keys_are entry [''left'', ''operator'', ''value'']))
       (ValueError ''condition_invalid'')) (\<lambda>_.
     rbind (in_names (pget entry ''operator'') [''exists'', ''eq'', ''not_eq'', ''contains'', ''agent_assertion'']) (\<lambda>known.
     rbind (ensure known (ValueError ''condition_operator_invalid'')) (\<lambda>_.
     let operator = py_str (pget entry ''operator'') in
     rbind (condition_left operator (pget entry ''left'') inputs available) (\<lambda>left_type.
     condition_right operator left_type entry))))"

section \<open>Verification and read rules\<close>

definition validate_observation_target :: "pyval \<Rightarrow> unit res" where
  "validate_observation_target v = ensure (is_dict v \<and> phas v ''control_type''
     \<and> keys_meet v [''name'', ''automation_id''] \<and> keys_within v [''control_type'', ''name'', ''automation_id'']
     \<and> list_all (\<lambda>k. text_upto 2000 (pget v k)) (pkeys v)) (ValueError ''verification_target_invalid'')"

definition image_size_ok :: "pyval \<Rightarrow> bool" where
  "image_size_ok dims = (case dims of PList [PInt w, PInt h] \<Rightarrow> 0 < w \<and> 0 < h | _ \<Rightarrow> False)"

definition image_box_ok :: "pyval \<Rightarrow> pyval \<Rightarrow> bool" where
  "image_box_ok dims box = (case (dims, box) of
       (PList [PInt sw, PInt sh], PList [PInt x, PInt y, PInt w, PInt h]) \<Rightarrow>
         0 \<le> x \<and> 0 \<le> y \<and> 0 < w \<and> 0 < h \<and> x + w \<le> sw \<and> y + h \<le> sh
     | _ \<Rightarrow> False)"

definition image_box_fits :: "pyval \<Rightarrow> pyval \<Rightarrow> bool" where
  "image_box_fits template roi = (case (template, roi) of
       (PList [_, _, PInt w, PInt h], PList [_, _, PInt rw, PInt rh]) \<Rightarrow> w \<le> rw \<and> h \<le> rh
     | _ \<Rightarrow> False)"

definition validate_image_check :: "pyval \<Rightarrow> unit res" where
  "validate_image_check v =
     rbind (ensure (is_dict v \<and> keys_are v [''contract_version'', ''reference_sha256'', ''reference_size'',
          ''template_bbox'', ''search_roi'', ''threshold'']
        \<and> pget v ''contract_version'' = PStr ''workflow_image_check.v1'' \<and> str_ok (hex_re 64) (pget v ''reference_sha256'')
        \<and> is_float (pget v ''threshold'') \<and> num_between (1 / 2) 1 (pget v ''threshold''))
       (ValueError ''workflow_image_check_invalid'')) (\<lambda>_.
     rbind (ensure (image_size_ok (pget v ''reference_size'')) (ValueError ''workflow_image_size_invalid'')) (\<lambda>_.
     rbind (ensure (list_all (\<lambda>k. image_box_ok (pget v ''reference_size'') (pget v k)) [''template_bbox'', ''search_roi''])
       (ValueError ''workflow_image_bbox_invalid'')) (\<lambda>_.
     ensure (image_box_fits (pget v ''template_bbox'') (pget v ''search_roi''))
       (ValueError ''workflow_image_search_roi_too_small''))))"

text \<open>What a step that reads a value must not also ask of a decision.\<close>

definition dynamic_read :: "pyval \<Rightarrow> bool" where
  "dynamic_read step = (truthy (pget step ''outputs'') \<or> phas step ''read_spec''
     \<or> pget (pget step ''action'') ''kind'' = PStr ''read_text'')"

definition verification_required :: "string \<Rightarrow> string list" where
  "verification_required kind = (if kind = ''agent_judgment'' then [''kind''] else [''kind'', ''target''])
     @ (if kind \<in> {''field_equals'', ''text_equals'', ''text_contains''} then [''expected''] else [])"

definition verification_optional :: "string \<Rightarrow> string list" where
  "verification_optional kind = (if kind = ''agent_judgment''
     then [''output_name'', ''image_check'', ''decision_condition'', ''condition_binding'', ''review_policy'']
     else [''output_name''])"

definition input_types_value :: "scope \<Rightarrow> pyval" where
  "input_types_value inputs = PDict (map (\<lambda>(name, t). (name, PStr (if t = ''text'' then ''string'' else t))) inputs)"

definition judgment_options :: "pyval \<Rightarrow> pyval \<Rightarrow> scope \<Rightarrow> unit res" where
  "judgment_options step verification inputs =
     rbind (if phas verification ''decision_condition'' then
         rbind (ensure (text_upto 4000 (pget verification ''decision_condition''))
           (ValueError ''task_program_decision_condition_invalid'')) (\<lambda>_.
         ensure (\<not> dynamic_read step) (ValueError ''task_program_decision_dynamic_read_forbidden''))
       else Inr ()) (\<lambda>_.
     rbind (if phas verification ''condition_binding'' then
         rbind (ensure (\<not> phas verification ''decision_condition'')
           (ValueError ''task_program_decision_condition_binding_conflict'')) (\<lambda>_.
         rbind (ensure (\<not> dynamic_read step) (ValueError ''task_program_decision_dynamic_read_forbidden'')) (\<lambda>_.
         rbind (validate_condition_binding (pget verification ''condition_binding'') (input_types_value inputs)) (\<lambda>_.
         Inr ())))
       else Inr ()) (\<lambda>_.
     rbind (if phas verification ''review_policy'' then
         rbind (ensure (one_of (pget verification ''review_policy'') [''adaptive'', ''always_main''])
           (ValueError ''task_program_decision_review_policy_invalid'')) (\<lambda>_.
         ensure (\<not> dynamic_read step) (ValueError ''task_program_decision_review_dynamic_read_forbidden''))
       else Inr ()) (\<lambda>_.
     if phas verification ''image_check'' then
       rbind (validate_image_check (pget verification ''image_check'')) (\<lambda>_.
       ensure (\<not> dynamic_read step) (ValueError ''task_program_image_check_dynamic_read_forbidden''))
     else Inr ())))"

definition expected_type_of :: "pyval \<Rightarrow> string \<Rightarrow> scope \<Rightarrow> outputs \<Rightarrow> string option res" where
  "expected_type_of verification kind inputs available =
     (if phas verification ''expected'' then
        rbind (reference_type (pget verification ''expected'') inputs available ''verification'') (\<lambda>t.
        rbind (ensure (kind \<in> {''text_equals'', ''text_contains''} \<longrightarrow> t = ''text'')
          (ValueError ''task_program_verification_text_required'')) (\<lambda>_. Inr (Some t)))
      else Inr None)"

definition declared_type :: "scope \<Rightarrow> pyval \<Rightarrow> string option res" where
  "declared_type declarations name =
     (if hashable name then Inr (case name of PStr s \<Rightarrow> map_of declarations s | _ \<Rightarrow> None) else Inl TypeError)"

definition verification_output :: "pyval \<Rightarrow> string \<Rightarrow> string option \<Rightarrow> scope \<Rightarrow> unit res" where
  "verification_output verification kind expected declarations =
     (if phas verification ''output_name'' then
        rbind (declared_type declarations (pget verification ''output_name'')) (\<lambda>declared.
        rbind (ensure (declared \<noteq> None \<and> kind \<noteq> ''agent_judgment'')
          (ValueError ''task_program_verification_output_invalid'')) (\<lambda>_.
        ensure (declared = (if kind \<in> {''target_present'', ''target_absent''} then Some ''boolean'' else expected))
          (ValueError ''task_program_verification_output_type_invalid'')))
      else Inr ())"

definition verification_kinds :: "string list" where
  "verification_kinds = [''field_equals'', ''text_equals'', ''text_contains'', ''target_present'', ''target_absent'',
     ''agent_judgment'']"

definition check_verification :: "pyval \<Rightarrow> scope \<Rightarrow> outputs \<Rightarrow> scope \<Rightarrow> unit res" where
  "check_verification step inputs available declarations = (let verification = pget step ''verification'' in
     rbind (if is_dict verification then in_names (pget verification ''kind'') verification_kinds else Inr False) (\<lambda>known.
     rbind (ensure known (ValueError ''task_program_verification_invalid'')) (\<lambda>_.
     let kind = py_str (pget verification ''kind'') in
     rbind (ensure (keys_include verification (verification_required kind)
         \<and> keys_within verification (verification_required kind @ verification_optional kind))
       (ValueError ''task_program_verification_fields_invalid'')) (\<lambda>_.
     rbind (judgment_options step verification inputs) (\<lambda>_.
     rbind (if phas verification ''target'' then validate_observation_target (pget verification ''target'') else Inr ()) (\<lambda>_.
     rbind (expected_type_of verification kind inputs available) (\<lambda>expected.
     verification_output verification kind expected declarations)))))))"

definition check_read_spec :: "pyval \<Rightarrow> scope \<Rightarrow> unit res" where
  "check_read_spec step declarations = (let read_spec = pget step ''read_spec''; bad = ValueError ''task_program_read_spec_invalid'' in
     rbind (ensure (is_dict read_spec \<and> keys_are read_spec [''method'', ''output_name'', ''target'']) bad) (\<lambda>_.
     rbind (in_names (pget read_spec ''method'') [''uia_value'', ''visible_text'', ''agent_read'']) (\<lambda>known.
     rbind (ensure known bad) (\<lambda>_.
     rbind (declared_type declarations (pget read_spec ''output_name'')) (\<lambda>declared.
     rbind (ensure (declared \<noteq> None) bad) (\<lambda>_.
     rbind (validate_observation_target (pget read_spec ''target'')) (\<lambda>_.
     rbind (ensure (one_of (pget read_spec ''method'') [''uia_value'', ''visible_text''] \<longrightarrow> declared = Some ''text'')
       (ValueError ''task_program_read_output_text_required'')) (\<lambda>_.
     ensure (phas step ''verification'' \<longrightarrow> py_eq (pget (pget step ''verification'') ''target'') (pget read_spec ''target''))
       (ValueError ''task_program_result_targets_mismatch'')))))))))"

definition step_rules :: "pyval \<Rightarrow> scope \<Rightarrow> outputs \<Rightarrow> scope \<Rightarrow> unit res" where
  "step_rules step inputs available declarations =
     rbind (if phas step ''verification'' then check_verification step inputs available declarations else Inr ()) (\<lambda>_.
     if phas step ''read_spec'' then check_read_spec step declarations else Inr ())"


section \<open>Steps\<close>

definition check_selection_intent :: "pyval \<Rightarrow> unit res" where
  "check_selection_intent action = (if pget action ''selection_intent'' = PNone then Inr ()
     else ensure (pget action ''selection_intent'' = PStr ''ensure_selected'' \<and> pget action ''kind'' = PStr ''click''
       \<and> pget_default action ''click_kind'' (PStr ''single'') = PStr ''single'') (ValueError ''selection_intent_invalid''))"

definition memory_key :: "string \<Rightarrow> bool" where
  "memory_key s = (case s of [] \<Rightarrow> False
     | c # cs \<Rightarrow> is_low_alnum c \<and> length cs \<le> 79 \<and> list_all (\<lambda>x. is_low_alnum x \<or> cp x = 95 \<or> cp x = 45) cs)"

definition validate_target_reference :: "pyval \<Rightarrow> unit res" where
  "validate_target_reference v = ensure (is_dict v \<and> keys_are v [''recipe_id'', ''interface_key'', ''state_key'']
     \<and> str_ok (\<lambda>s. take 14 s = ''target-recipe-'' \<and> hex_re 64 (drop 14 s)) (pget v ''recipe_id'')
     \<and> str_ok memory_key (pget v ''interface_key'') \<and> str_ok memory_key (pget v ''state_key''))
     (ValueError ''target_memory_reference_invalid'')"

definition step_fields :: "string list" where
  "step_fields = [''step_id'', ''title'', ''source_node_id'', ''target_node_id'', ''action'', ''preconditions'',
     ''success_conditions'', ''branches'', ''outputs'', ''review_status'', ''provenance'']"

definition node_known :: "pyval \<Rightarrow> string list \<Rightarrow> bool res" where
  "node_known v node_ids = (if v = PNone then Inr True else in_names v node_ids)"

definition check_step_head :: "string list \<Rightarrow> pyval \<Rightarrow> unit res" where
  "check_step_head node_ids step =
     rbind (ensure (keys_include step step_fields
         \<and> keys_within step (step_fields @ [''verification'', ''read_spec'', ''source_evidence'']))
       (ValueError ''task_program_step_fields_invalid'')) (\<lambda>_.
     rbind (ensure (text_upto 4000 (pget step ''title'')) (ValueError ''task_program_step_title_invalid'')) (\<lambda>_.
     rbind (node_known (pget step ''source_node_id'') node_ids) (\<lambda>source.
     rbind (ensure source (ValueError ''task_program_source_node_invalid'')) (\<lambda>_.
     rbind (node_known (pget step ''target_node_id'') node_ids) (\<lambda>target.
     rbind (ensure target (ValueError ''task_program_target_node_invalid'')) (\<lambda>_.
     rbind (in_names (pget step ''review_status'') [''pending'', ''reviewed'']) (\<lambda>status.
     rbind (ensure status (ValueError ''task_program_review_invalid'')) (\<lambda>_.
     rbind (in_names (pget step ''provenance'') [''observed'', ''editorial'', ''manual'']) (\<lambda>provenance.
     ensure provenance (ValueError ''task_program_review_invalid''))))))))))"

definition action_fields :: "string \<Rightarrow> string list" where
  "action_fields kind = (if kind = ''click'' \<or> kind = ''read_text'' then [''kind'', ''goal'']
     else if kind = ''input_sequence'' then [''kind'', ''field_goal'', ''text'', ''clear_existing'', ''submit_search'']
     else if kind = ''scroll'' then [''kind'', ''direction'', ''amount''] else [''kind'', ''key''])"

definition click_options :: "pyval \<Rightarrow> string list res" where
  "click_options action =
     rbind (if phas action ''click_kind'' then in_names (pget action ''click_kind'') [''single'', ''double''] else Inr True) (\<lambda>known.
     rbind (ensure known (ValueError ''task_program_click_kind_invalid'')) (\<lambda>_.
     rbind (ensure (phas action ''selection_intent'' \<longrightarrow> pget action ''target_memory'' \<noteq> PNone)
       (ValueError ''selection_row_name_reference_required'')) (\<lambda>_.
     Inr (filter (phas action) [''click_kind'', ''selection_intent'']))))"

definition memory_option :: "string \<Rightarrow> pyval \<Rightarrow> string list res" where
  "memory_option kind action =
     (if (kind = ''click'' \<or> kind = ''input_sequence'') \<and> phas action ''target_memory'' then
        rbind (ensure (\<not> (kind = ''click'' \<and> pget action ''click_kind'' = PStr ''double''))
          (ValueError ''task_program_double_click_target_memory_unsupported'')) (\<lambda>_. Inr [''target_memory''])
      else Inr [])"

definition check_action_fields :: "string \<Rightarrow> pyval \<Rightarrow> unit res" where
  "check_action_fields kind action =
     rbind (if kind = ''click'' then click_options action else Inr []) (\<lambda>clicks.
     rbind (memory_option kind action) (\<lambda>memory.
     rbind (ensure (keys_are action (action_fields kind @ clicks @ memory))
       (ValueError ''task_program_action_fields_invalid'')) (\<lambda>_.
     if phas action ''target_memory'' then validate_target_reference (pget action ''target_memory'') else Inr ())))"

definition check_input_action :: "pyval \<Rightarrow> scope \<Rightarrow> outputs \<Rightarrow> unit res" where
  "check_input_action action inputs available =
     rbind (ensure (has_text (pget action ''field_goal'') \<and> is_bool (pget action ''clear_existing'')
         \<and> is_bool (pget action ''submit_search'')) (ValueError ''task_program_input_action_invalid'')) (\<lambda>_.
     rbind (reference_type (pget action ''text'') inputs available ''action'') (\<lambda>t.
     ensure (t = ''text'') (ValueError ''task_program_action_text_type_invalid'')))"

definition check_scroll_action :: "pyval \<Rightarrow> unit res" where
  "check_scroll_action action =
     rbind (in_names (pget action ''direction'') [''up'', ''down'']) (\<lambda>known.
     ensure (known \<and> (case pget action ''amount'' of PInt n \<Rightarrow> 1 \<le> n \<and> n \<le> 20 | _ \<Rightarrow> False))
       (ValueError ''task_program_scroll_invalid''))"

definition check_key_action :: "pyval \<Rightarrow> unit res" where
  "check_key_action action =
     rbind (in_names (pget action ''key'') [''Enter'', ''Escape'', ''Tab'', ''Backspace'']) (\<lambda>known.
     ensure known (ValueError ''task_program_key_invalid''))"

definition check_action_body :: "string \<Rightarrow> pyval \<Rightarrow> scope \<Rightarrow> outputs \<Rightarrow> unit res" where
  "check_action_body kind action inputs available =
     (if kind = ''click'' \<or> kind = ''read_text'' then
        ensure (has_text (pget action ''goal'')) (ValueError ''task_program_goal_invalid'')
      else if kind = ''input_sequence'' then check_input_action action inputs available
      else if kind = ''scroll'' then check_scroll_action action
      else check_key_action action)"

definition action_kinds :: "string list" where
  "action_kinds = [''click'', ''input_sequence'', ''read_text'', ''scroll'', ''press_key'']"

definition check_action :: "pyval \<Rightarrow> scope \<Rightarrow> outputs \<Rightarrow> unit res" where
  "check_action step inputs available = (let action = pget step ''action'' in
     rbind (if is_dict action then in_names (pget action ''kind'') action_kinds else Inr False) (\<lambda>known.
     rbind (ensure known (ValueError ''task_program_action_invalid'')) (\<lambda>_.
     let kind = py_str (pget action ''kind'') in
     rbind (check_selection_intent action) (\<lambda>_.
     rbind (if phas step ''source_evidence'' then
         rbind (ensure (kind = ''read_text'') (ValueError ''task_program_source_evidence_action_invalid'')) (\<lambda>_.
         check_source_evidence (pget step ''source_evidence''))
       else Inr ()) (\<lambda>_.
     rbind (check_action_fields kind action) (\<lambda>_.
     check_action_body kind action inputs available))))))"

definition check_conditions :: "pyval \<Rightarrow> scope \<Rightarrow> outputs \<Rightarrow> unit res" where
  "check_conditions entries inputs available =
     rbind (ensure (is_list entries \<and> length (plist entries) \<le> 32) (ValueError ''condition_list_invalid'')) (\<lambda>_.
     each (check_condition inputs available) (plist entries))"

definition branch_ok :: "string list \<Rightarrow> pyval \<Rightarrow> bool" where
  "branch_ok ids v = (v = PNone \<or> one_of v ids)"

definition check_branches :: "string list \<Rightarrow> pyval \<Rightarrow> unit res" where
  "check_branches ids branches =
     rbind (ensure (is_dict branches \<and> keys_are branches [''success'', ''failure'', ''uncertain'']
         \<and> pget branches ''uncertain'' = PNone) (ValueError ''task_program_branches_invalid'')) (\<lambda>_.
     ensure (branch_ok ids (pget branches ''success'') \<and> branch_ok ids (pget branches ''failure''))
       (ValueError ''task_program_branch_target_invalid''))"

definition own_outputs :: "string \<Rightarrow> scope \<Rightarrow> outputs" where
  "own_outputs step_id declarations = map (\<lambda>(name, t). ((step_id, name), t)) declarations"

text \<open>One turn of the loop over the steps: the outputs known afterwards.\<close>

definition check_program_step :: "string list \<Rightarrow> string list \<Rightarrow> scope \<Rightarrow> pyval \<Rightarrow> outputs \<Rightarrow> outputs res" where
  "check_program_step node_ids ids inputs step available =
     rbind (check_step_head node_ids step) (\<lambda>_.
     rbind (check_action step inputs available) (\<lambda>_.
     rbind (program_variables ''outputs'' (pget step ''outputs'')) (\<lambda>declarations.
     rbind (step_rules step inputs available declarations) (\<lambda>_.
     let own = own_outputs (py_str (pget step ''step_id'')) declarations in
     rbind (check_conditions (pget step ''preconditions'') inputs available) (\<lambda>_.
     rbind (check_conditions (pget step ''success_conditions'') inputs (own @ available)) (\<lambda>_.
     rbind (check_branches ids (pget step ''branches'')) (\<lambda>_.
     Inr (own @ available))))))))"

section \<open>The graph of branches\<close>

type_synonym branches = "(string \<times> string list) list"

definition branch_targets :: "pyval \<Rightarrow> string list" where
  "branch_targets branches = map py_str (filter (\<lambda>v. v \<noteq> PNone) [pget branches ''success'', pget branches ''failure''])"

definition branch_graph :: "pyval list \<Rightarrow> branches" where
  "branch_graph steps = map (\<lambda>s. (py_str (pget s ''step_id''), branch_targets (pget s ''branches''))) steps"

text \<open>
  \<^verbatim>\<open>visit\<close>: the set \<^verbatim>\<open>visiting\<close> is the path from the root, restored on return; \<^verbatim>\<open>visited\<close> grows.
\<close>

function visit_step :: "branches \<Rightarrow> string list \<Rightarrow> string \<Rightarrow> string list \<Rightarrow> string list res" where
  "visit_step graph visiting step_id visited =
     (if step_id \<in> set visiting then Inl (ValueError ''task_program_branch_cycle_invalid'')
      else if step_id \<in> set visited then Inr visited
      else case map_of graph step_id of
          None \<Rightarrow> Inl (KeyError step_id)
        | Some targets \<Rightarrow>
            rbind (fold_res (visit_step graph (step_id # visiting)) targets visited) (\<lambda>v. Inr (step_id # v)))"
  by pat_completeness auto
termination
proof (relation "measure (\<lambda>(graph, visiting, _). card (fst ` set graph - set visiting))")
  fix graph :: branches and visiting step_id visited targets x u
  assume "step_id \<notin> set visiting" and "map_of graph step_id = Some targets"
  then have "step_id \<in> fst ` set graph - set visiting" by (force dest: map_of_SomeD)
  then have "card (fst ` set graph - set (step_id # visiting)) < card (fst ` set graph - set visiting)"
    by (intro psubset_card_mono) auto
  then show "((graph, step_id # visiting, x, u), graph, visiting, step_id, visited)
      \<in> measure (\<lambda>(graph, visiting, _). card (fst ` set graph - set visiting))" by simp
qed simp

declare visit_step.simps [simp del]

definition check_acyclic :: "branches \<Rightarrow> unit res" where
  "check_acyclic graph = rbind (fold_res (visit_step graph []) (map fst graph) []) (\<lambda>_. Inr ())"

section \<open>The definition\<close>

fun template_revisions :: "pyval list \<Rightarrow> ((pyval \<times> pyval) \<times> pyval) list \<Rightarrow> unit res" where
  "template_revisions [] identities = Inr ()"
| "template_revisions (step # steps) identities =
     (let binding = pget (pget step ''verification'') ''condition_binding''; template = pget binding ''template'';
          key = (pget template ''condition_template_id'', pget template ''revision'');
          digest = pget template ''template_sha256'' in
      if binding = PNone then template_revisions steps identities
      else case map_of identities key of
          Some old \<Rightarrow> if old = digest then template_revisions steps identities
            else Inl (ValueError ''workflow_condition_template_revision_conflict'')
        | None \<Rightarrow> template_revisions steps ((key, digest) # identities))"

definition declared_outputs :: "pyval list \<Rightarrow> (string \<times> string) list" where
  "declared_outputs steps = concat (map (\<lambda>s.
     map (\<lambda>e. (py_str (pget s ''step_id''), py_str (pget e ''name''))) (plist (pget s ''outputs''))) steps)"

definition check_program_output :: "pyval list \<Rightarrow> pyval \<Rightarrow> unit res" where
  "check_program_output steps entry =
     (if hashable (pget entry ''step_id'') then
        ensure (case pget entry ''step_id'' of
            PStr s \<Rightarrow> (s, py_str (pget entry ''name'')) \<in> set (declared_outputs steps) | _ \<Rightarrow> False)
          (ValueError ''task_program_output_source_invalid'')
      else Inl TypeError)"

fun step_ids :: "pyval list \<Rightarrow> string list res" where
  "step_ids [] = Inr []"
| "step_ids (step # steps) = rbind (check_id ''step'' (pget step ''step_id'')) (\<lambda>i.
     rbind (step_ids steps) (\<lambda>ids. Inr (i # ids)))"

definition validate_definition :: "pyval \<Rightarrow> string list \<Rightarrow> pyval res" where
  "validate_definition program node_ids =
     rbind (ensure (is_dict program \<and> keys_are program [''title'', ''inputs'', ''outputs'', ''steps''])
       (ValueError ''task_program_definition_invalid'')) (\<lambda>_.
     rbind (ensure (str_ok (\<lambda>s. 1 \<le> length (strip s) \<and> length (strip s) \<le> 4000) (pget program ''title''))
       (ValueError ''task_program_title_invalid'')) (\<lambda>_.
     rbind (program_variables ''inputs'' (pget program ''inputs'')) (\<lambda>inputs.
     rbind (program_variables ''program_outputs'' (pget program ''outputs'')) (\<lambda>_.
     let steps = plist (pget program ''steps'') in
     rbind (ensure (is_list (pget program ''steps'') \<and> length steps \<le> 256) (ValueError ''task_program_steps_invalid'')) (\<lambda>_.
     rbind (step_ids steps) (\<lambda>ids.
     rbind (ensure (distinct ids) (ValueError ''task_program_step_duplicate'')) (\<lambda>_.
     rbind (fold_res (check_program_step node_ids ids inputs) steps []) (\<lambda>_.
     rbind (template_revisions steps []) (\<lambda>_.
     rbind (each (check_program_output steps) (plist (pget program ''outputs''))) (\<lambda>_.
     rbind (check_acyclic (branch_graph steps)) (\<lambda>_. Inr program)))))))))))"


section \<open>The cycle check is exact\<close>

definition branch_edges :: "branches \<Rightarrow> (string \<times> string) set" where
  "branch_edges graph = {(s, t). \<exists>ts. map_of graph s = Some ts \<and> t \<in> set ts}"

definition closed_graph :: "branches \<Rightarrow> bool" where
  "closed_graph graph = (\<forall>(s, t) \<in> branch_edges graph. t \<in> fst ` set graph)"

text \<open>The order in which steps are marked as visited: every target before its source.\<close>

fun topological :: "branches \<Rightarrow> string list \<Rightarrow> bool" where
  "topological graph [] = True"
| "topological graph (s # v) = (topological graph v \<and>
     (\<exists>ts. map_of graph s = Some ts \<and> set ts \<subseteq> set v))"

lemma topological_closed: "topological g v \<Longrightarrow> s \<in> set v \<Longrightarrow> (s, t) \<in> (branch_edges g)\<^sup>* \<Longrightarrow> t \<in> set v"
proof (induction v arbitrary: s t)
  case (Cons a v)
  then obtain ts where ts: "map_of g a = Some ts" "set ts \<subseteq> set v" and v: "topological g v" by auto
  have step: "t' \<in> set (a # v)" if "s' \<in> set (a # v)" "(s', t') \<in> branch_edges g" for s' t'
  proof (cases "s' \<in> set v")
    case True
    from Cons.IH[OF v True r_into_rtrancl[OF that(2)]] show ?thesis by simp
  next
    case False
    with that(1) have "s' = a" by simp
    with that(2) ts show ?thesis by (auto simp: branch_edges_def)
  qed
  from Cons.prems(3) show ?case
    by (induction rule: rtrancl_induct) (use Cons.prems(2) step in blast)+
qed simp

lemma topological_acyclic: "topological g v \<Longrightarrow> s \<in> set v \<Longrightarrow> (s, s) \<notin> (branch_edges g)\<^sup>+"
proof (induction v)
  case (Cons a v)
  then obtain ts where ts: "map_of g a = Some ts" "set ts \<subseteq> set v" and v: "topological g v" by auto
  show ?case
  proof (cases "s \<in> set v")
    case True
    with Cons.IH v show ?thesis by simp
  next
    case False
    with Cons.prems have s: "s = a" by simp
    show ?thesis
    proof
      assume "(s, s) \<in> (branch_edges g)\<^sup>+"
      then obtain t where t: "(s, t) \<in> branch_edges g" "(t, s) \<in> (branch_edges g)\<^sup>*"
        by (blast dest: tranclD)
      then have "t \<in> set v" using ts s by (auto simp: branch_edges_def)
      from topological_closed[OF v this t(2)] False show False by simp
    qed
  qed
qed simp

lemma visit_topological:
  "visit_step g visiting s visited = Inr v \<Longrightarrow> topological g visited \<Longrightarrow>
    topological g v \<and> s \<in> set v \<and> set visited \<subseteq> set v"
proof (induction g visiting s visited arbitrary: v rule: visit_step.induct)
  case (1 g visiting s visited)
  show ?case
  proof (cases "s \<in> set visiting")
    case True
    with "1.prems"(1) show ?thesis by (simp add: visit_step.simps[of g visiting])
  next
    case new: False
    show ?thesis
    proof (cases "s \<in> set visited")
      case True
      with "1.prems" new show ?thesis by (simp add: visit_step.simps[of g visiting])
    next
      case False
      obtain ts u where ts: "map_of g s = Some ts"
        and u: "fold_res (visit_step g (s # visiting)) ts visited = Inr u" and v: "v = s # u"
        using "1.prems"(1) new False
        by (auto simp: visit_step.simps[of g visiting] rbind_eq_Inr_iff split: option.splits)
      have IH: "topological g w' \<and> t \<in> set w' \<and> set w \<subseteq> set w'"
        if "t \<in> set ts" "visit_step g (s # visiting) t w = Inr w'" "topological g w" for t w w'
        using "1.IH"[OF new False ts that(1) that(2,3)] .
      have "topological g u' \<and> set xs \<subseteq> set u' \<and> set w \<subseteq> set u'"
        if "set xs \<subseteq> set ts" "fold_res (visit_step g (s # visiting)) xs w = Inr u'" "topological g w" for xs w u'
        using that
      proof (induction xs arbitrary: w)
        case (Cons x xs)
        then obtain w1 where w1: "visit_step g (s # visiting) x w = Inr w1"
            "fold_res (visit_step g (s # visiting)) xs w1 = Inr u'"
          by (auto simp: rbind_eq_Inr_iff)
        from IH[OF _ w1(1) Cons.prems(3)] Cons.prems(1)
        have h: "topological g w1 \<and> x \<in> set w1 \<and> set w \<subseteq> set w1" by simp
        with Cons.IH[OF _ w1(2)] Cons.prems(1) show ?case by auto
      qed simp
      from this[OF subset_refl u "1.prems"(2)] ts v show ?thesis by auto
    qed
  qed
qed

lemma visit_accepts:
  "acyclic (branch_edges g) \<Longrightarrow> closed_graph g \<Longrightarrow> s \<in> fst ` set g \<Longrightarrow>
    (\<And>u. u \<in> set visiting \<Longrightarrow> (u, s) \<in> (branch_edges g)\<^sup>+) \<Longrightarrow> is_ok (visit_step g visiting s visited)"
proof (induction g visiting s visited rule: visit_step.induct)
  case (1 g visiting s visited)
  note ac = "1.prems"(1) and cl = "1.prems"(2) and path = "1.prems"(4)
  have new: "s \<notin> set visiting" using path[of s] ac by (auto simp: acyclic_def)
  from "1.prems"(3) obtain ts where ts: "map_of g s = Some ts"
    by (metis map_of_eq_None_iff not_None_eq)
  show ?case
  proof (cases "s \<in> set visited")
    case True
    with new show ?thesis by (simp add: visit_step.simps[of g visiting] is_ok_iff)
  next
    case False
    have IH: "is_ok (visit_step g (s # visiting) t w)" if "t \<in> set ts" for t w
    proof (rule "1.IH"[OF new False ts that ac cl])
      have edge: "(s, t) \<in> branch_edges g" using ts that by (auto simp: branch_edges_def)
      with cl show "t \<in> fst ` set g" by (auto simp: closed_graph_def)
      show "(u, t) \<in> (branch_edges g)\<^sup>+" if "u \<in> set (s # visiting)" for u
        using that edge path by (auto intro: trancl_into_trancl)
    qed
    have "is_ok (fold_res (visit_step g (s # visiting)) xs w)" if "set xs \<subseteq> set ts" for xs w
      using that
    proof (induction xs arbitrary: w)
      case (Cons x xs)
      from IH[of x w] Cons.prems obtain w1 where "visit_step g (s # visiting) x w = Inr w1"
        by (auto simp: is_ok_iff)
      with Cons.IH[of w1] Cons.prems show ?case by simp
    qed (simp add: is_ok_iff)
    from this[OF subset_refl, of visited] new False ts show ?thesis
      by (auto simp: visit_step.simps[of g visiting] is_ok_iff)
  qed
qed

lemma roots_topological:
  "fold_res (visit_step g []) xs w = Inr v \<Longrightarrow> topological g w \<Longrightarrow> topological g v \<and> set xs \<subseteq> set v \<and> set w \<subseteq> set v"
proof (induction xs arbitrary: w)
  case (Cons x xs)
  then obtain w1 where w1: "visit_step g [] x w = Inr w1" "fold_res (visit_step g []) xs w1 = Inr v"
    by (auto simp: rbind_eq_Inr_iff)
  from visit_topological[OF w1(1) Cons.prems(2)] Cons.IH[OF w1(2)] show ?case by auto
qed simp

lemma topological_known: "topological g v \<Longrightarrow> set v \<subseteq> fst ` set g"
  by (induction v) (auto dest: map_of_SomeD intro: rev_image_eqI)

lemma edge_source: "(s, t) \<in> branch_edges g \<Longrightarrow> s \<in> fst ` set g"
  by (auto simp: branch_edges_def dest: map_of_SomeD intro: rev_image_eqI)

lemma acyclic_check_iff:
  "check_acyclic graph = Inr () \<longleftrightarrow> closed_graph graph \<and> acyclic (branch_edges graph)"
proof
  assume "check_acyclic graph = Inr ()"
  then obtain v where run: "fold_res (visit_step graph []) (map fst graph) [] = Inr v"
    by (auto simp: check_acyclic_def rbind_eq_Inr_iff)
  from roots_topological[OF run] have v: "topological graph v" "fst ` set graph \<subseteq> set v" by auto
  have "t \<in> fst ` set graph" if "(s, t) \<in> branch_edges graph" for s t
  proof -
    have "s \<in> set v" using edge_source[OF that] v(2) by (rule rev_subsetD)
    from topological_closed[OF v(1) this r_into_rtrancl[OF that]] topological_known[OF v(1)] show ?thesis
      by (rule rev_subsetD)
  qed
  then have "closed_graph graph" unfolding closed_graph_def by fast
  moreover have "(s, s) \<notin> (branch_edges graph)\<^sup>+" for s
  proof
    assume cycle: "(s, s) \<in> (branch_edges graph)\<^sup>+"
    then obtain t where "(s, t) \<in> branch_edges graph" by (blast dest: tranclD)
    from edge_source[OF this] v(2) have "s \<in> set v" by (rule rev_subsetD)
    with topological_acyclic[OF v(1)] cycle show False by simp
  qed
  then have "acyclic (branch_edges graph)" by (simp add: acyclic_def)
  ultimately show "closed_graph graph \<and> acyclic (branch_edges graph)" by (rule conjI)
next
  assume g: "closed_graph graph \<and> acyclic (branch_edges graph)"
  have "is_ok (fold_res (visit_step graph []) xs w)" if "set xs \<subseteq> fst ` set graph" for xs w
    using that
  proof (induction xs arbitrary: w)
    case (Cons x xs)
    then have "is_ok (visit_step graph [] x w)" using visit_accepts[of graph x "[]" w] g by simp
    with Cons show ?case by (auto simp: is_ok_iff)
  qed (simp add: is_ok_iff)
  from this[of "map fst graph" "[]"] show "check_acyclic graph = Inr ()"
    by (auto simp: check_acyclic_def is_ok_iff)
qed

text \<open>C33: the depth-first check accepts a graph of branches exactly when every branch leads to a step of
  the program and no sequence of branches returns to a step.\<close>

theorem cycle_check_exact:
  "check_acyclic graph = Inr () \<longleftrightarrow> closed_graph graph \<and> acyclic (branch_edges graph)"
  by (rule acyclic_check_iff)

section \<open>Runs along the branches\<close>

text \<open>A run: a sequence of steps, each reached by a branch of the one before.\<close>

fun follows_branches :: "branches \<Rightarrow> string list \<Rightarrow> bool" where
  "follows_branches graph [] = True"
| "follows_branches graph [s] = (s \<in> fst ` set graph)"
| "follows_branches graph (s # t # run) = ((s, t) \<in> branch_edges graph \<and> follows_branches graph (t # run))"

lemma follows_reach: "follows_branches g (s # run) \<Longrightarrow> t \<in> set run \<Longrightarrow> (s, t) \<in> (branch_edges g)\<^sup>+"
proof (induction run arbitrary: s)
  case (Cons x run)
  then have e: "(s, x) \<in> branch_edges g" and f: "follows_branches g (x # run)" by simp_all
  show ?case
  proof (cases "t = x")
    case True
    with e show ?thesis by simp
  next
    case False
    with Cons.IH[OF f] Cons.prems(2) e show ?thesis by (auto intro: trancl_into_trancl2)
  qed
qed simp

lemma follows_distinct:
  "follows_branches g run \<Longrightarrow> acyclic (branch_edges g) \<Longrightarrow> distinct run \<and> set run \<subseteq> fst ` set g"
proof (induction g run rule: follows_branches.induct)
  case (3 g s t run)
  moreover have "s \<notin> set (t # run)"
    using follows_reach[of g s "t # run" s] 3 by (auto simp: acyclic_def)
  ultimately show ?case using edge_source by auto
qed simp_all


section \<open>What an accepted program satisfies\<close>

lemma definition_parts:
  assumes "validate_definition program nodes = Inr p"
  obtains inputs ids out where "p = program" and "program_variables ''inputs'' (pget program ''inputs'') = Inr inputs"
    and "length (plist (pget program ''steps'')) \<le> 256"
    and "step_ids (plist (pget program ''steps'')) = Inr ids" and "distinct ids"
    and "fold_res (check_program_step nodes ids inputs) (plist (pget program ''steps'')) [] = Inr out"
    and "check_acyclic (branch_graph (plist (pget program ''steps''))) = Inr ()"
proof -
  note facts = assms[unfolded validate_definition_def Let_def checks_iff sum.inject]
  from facts show ?thesis using that by blast
qed

lemma branch_graph_keys: "map fst (branch_graph steps) = map (\<lambda>s. py_str (pget s ''step_id'')) steps"
  by (simp add: branch_graph_def comp_def)

text \<open>A run of an accepted program is bounded by its acyclic branches; the trial runs use this too.\<close>

lemma accepted_run_bounded:
  assumes "validate_definition program nodes = Inr p"
    and "follows_branches (branch_graph (plist (pget program ''steps''))) run"
  shows "distinct run" and "length run \<le> length (plist (pget program ''steps''))" and "length run \<le> 256"
proof -
  let ?steps = "plist (pget program ''steps'')"
  from assms(1) have len: "length ?steps \<le> 256" and c: "check_acyclic (branch_graph ?steps) = Inr ()"
    by (rule definition_parts, simp)+
  from c have "acyclic (branch_edges (branch_graph ?steps))" by (simp add: acyclic_check_iff)
  with follows_distinct[OF assms(2)] have run: "distinct run" "set run \<subseteq> set (map fst (branch_graph ?steps))"
    by simp_all
  then have bound: "length run \<le> length (map fst (branch_graph ?steps))"
    by (metis card_length card_mono distinct_card le_trans List.finite_set)
  with run(1) len show "distinct run" "length run \<le> length ?steps" "length run \<le> 256"
    by (simp_all add: branch_graph_def)
qed

text \<open>C34: a run of an accepted program that follows its branches, whatever the outcomes, visits no step
  twice and ends after at most as many steps as the program has (256 at most).\<close>

theorem program_run_terminates:
  assumes "validate_definition program nodes = Inr p"
    and "follows_branches (branch_graph (plist (pget program ''steps''))) run"
  shows "distinct run \<and> length run \<le> length (plist (pget program ''steps'')) \<and> length run \<le> 256"
  using accepted_run_bounded[OF assms] by simp

section \<open>References in an accepted program\<close>

lemma check_id_iff: "check_id label v = Inr s \<longleftrightarrow> v = PStr s \<and> identifier_re 159 s"
  by (cases v) (auto simp: check_id_def)

lemma checked_variable:
  "check_variable label seen e = Inr (name, t) \<Longrightarrow> pget e ''name'' = PStr name \<and> pget e ''type'' = PStr t"
  unfolding check_variable_def Let_def checks_iff check_id_iff sum.inject prod.inject
  by (auto simp: in_names_True_iff)

lemma checked_variables:
  "check_variables label seen es = Inr vs \<Longrightarrow> (name, t) \<in> set vs \<Longrightarrow>
    \<exists>e \<in> set es. pget e ''name'' = PStr name \<and> pget e ''type'' = PStr t"
proof (induction es arbitrary: seen vs)
  case (Cons e es)
  then obtain v ws where v: "check_variable label seen e = Inr v"
      and ws: "check_variables label (fst v # seen) es = Inr ws" "vs = v # ws"
    by (auto simp: rbind_eq_Inr_iff)
  from Cons.prems(2) ws(2) consider "(name, t) = v" | "(name, t) \<in> set ws" by auto
  then show ?case
  proof cases
    case 1
    with checked_variable[of label seen e name t] v show ?thesis by simp
  next
    case 2
    from Cons.IH[OF ws(1) this] show ?thesis by auto
  qed
qed simp

lemma program_variables_sound:
  "program_variables label v = Inr vs \<Longrightarrow> (name, t) \<in> set vs \<Longrightarrow>
    \<exists>e \<in> set (plist v). pget e ''name'' = PStr name \<and> pget e ''type'' = PStr t"
  unfolding program_variables_def checks_iff using checked_variables by blast

lemma program_step_parts:
  assumes "check_program_step nodes ids inputs step available = Inr available'"
  obtains declarations where "check_action step inputs available = Inr ()"
    and "program_variables ''outputs'' (pget step ''outputs'') = Inr declarations"
    and "available' = own_outputs (py_str (pget step ''step_id'')) declarations @ available"
proof -
  note facts = assms[unfolded check_program_step_def Let_def checks_iff sum.inject]
  from facts show ?thesis using that by blast
qed

lemma step_ids_str: "step_ids steps = Inr ids \<Longrightarrow> step \<in> set steps \<Longrightarrow> is_str (pget step ''step_id'')"
proof (induction steps arbitrary: ids)
  case (Cons a steps)
  then obtain i rest where "check_id ''step'' (pget a ''step_id'') = Inr i" "step_ids steps = Inr rest"
    by (auto simp: rbind_eq_Inr_iff)
  with Cons show ?case by (auto simp: check_id_iff)
qed simp

lemma available_sound:
  "fold_res (check_program_step nodes ids inputs) steps [] = Inr out \<Longrightarrow> ((sid, name), t) \<in> set out \<Longrightarrow>
    \<exists>step \<in> set steps. py_str (pget step ''step_id'') = sid
      \<and> (\<exists>e \<in> set (plist (pget step ''outputs'')). pget e ''name'' = PStr name \<and> pget e ''type'' = PStr t)"
proof (induction steps arbitrary: out rule: rev_induct)
  case (snoc step steps)
  from snoc.prems(1) obtain mid where mid: "fold_res (check_program_step nodes ids inputs) steps [] = Inr mid"
      and last: "check_program_step nodes ids inputs step mid = Inr out"
    by (auto simp: fold_res_append rbind_eq_Inr_iff)
  from last obtain declarations where d: "program_variables ''outputs'' (pget step ''outputs'') = Inr declarations"
      and out: "out = own_outputs (py_str (pget step ''step_id'')) declarations @ mid"
    by (rule program_step_parts)
  from snoc.prems(2)[unfolded out] consider "((sid, name), t) \<in> set mid"
    | "sid = py_str (pget step ''step_id'')" "(name, t) \<in> set declarations"
    by (auto simp: own_outputs_def)
  then show ?case
  proof cases
    case 1
    from snoc.IH[OF mid this] show ?thesis by auto
  next
    case 2
    from program_variables_sound[OF d 2(2)] 2(1) show ?thesis by auto
  qed
qed simp

lemma reference_sound:
  assumes "reference_type ref inputs available label = Inr t"
  shows "pget ref ''source'' = PStr ''constant'' \<and> constant_type label (pget ref ''value'') = Inr t
    \<or> pget ref ''source'' = PStr ''input''
      \<and> (\<exists>name. pget ref ''name'' = PStr name \<and> map_of inputs name = Some t)
    \<or> pget ref ''source'' = PStr ''output''
      \<and> (\<exists>name sid. pget ref ''name'' = PStr name \<and> pget ref ''step_id'' = PStr sid
        \<and> map_of available (sid, name) = Some t)"
proof -
  note facts = assms[unfolded reference_type_def Let_def checks_iff]
  from facts obtain known where k: "in_names (pget ref ''source'') [''constant'', ''input'', ''output''] = Inr known" known
    by blast
  from k(2) have "known = True" by simp
  with k(1) have "in_names (pget ref ''source'') [''constant'', ''input'', ''output''] = Inr True" by (simp only:)
  then obtain source where s: "pget ref ''source'' = PStr source" "source \<in> set [''constant'', ''input'', ''output'']"
    unfolding in_names_True_iff by blast
  from facts have "source_type (py_str (pget ref ''source'')) ref inputs available label = Inr t" by blast
  then have t: "source_type source ref inputs available label = Inr t" by (simp only: s(1) py_str_PStr)
  consider "source = ''constant''" | "source = ''input''" | "source = ''output''"
    using s(2) by auto
  then show ?thesis
  proof cases
    case 1
    with t s(1) show ?thesis by (simp add: source_type_def)
  next
    case 2
    with t have "\<exists>name. pget ref ''name'' = PStr name \<and> map_of inputs name = Some t"
      by (auto simp: source_type_def check_id_iff rbind_eq_Inr_iff split: option.splits)
    with s(1) 2 show ?thesis by blast
  next
    case 3
    with t have "\<exists>name sid. pget ref ''name'' = PStr name \<and> pget ref ''step_id'' = PStr sid
        \<and> map_of available (sid, name) = Some t"
      by (auto simp: source_type_def check_id_iff rbind_eq_Inr_iff split: option.splits)
    with s(1) 3 show ?thesis by blast
  qed
qed

lemma constant_text: "constant_type label v = Inr ''text'' \<Longrightarrow> is_str v"
  unfolding constant_type_def Let_def checks_iff sum.inject by (auto split: if_splits)

lemma input_action_text:
  assumes "check_action step inputs available = Inr ()"
    and "pget (pget step ''action'') ''kind'' = PStr ''input_sequence''"
  shows "reference_type (pget (pget step ''action'') ''text'') inputs available ''action'' = Inr ''text''"
proof -
  have "check_action_body ''input_sequence'' (pget step ''action'') inputs available = Inr ()"
    using assms(1) unfolding check_action_def Let_def checks_iff assms(2) py_str_PStr by blast
  then have "check_input_action (pget step ''action'') inputs available = Inr ()"
    by (simp add: check_action_body_def)
  then show ?thesis unfolding check_input_action_def checks_iff by blast
qed

text \<open>C35: in an accepted program the text of every input step has a value of type text: a constant string,
  a declared text input, or a declared text output of an earlier step.\<close>

theorem program_text_references_resolve:
  assumes "validate_definition program nodes = Inr p"
    and "i < length (plist (pget program ''steps''))"
    and "pget (pget (plist (pget program ''steps'') ! i) ''action'') ''kind'' = PStr ''input_sequence''"
    and "ref = pget (pget (plist (pget program ''steps'') ! i) ''action'') ''text''"
  shows "pget ref ''source'' = PStr ''constant'' \<and> is_str (pget ref ''value'')
    \<or> pget ref ''source'' = PStr ''input'' \<and> (\<exists>e \<in> set (plist (pget program ''inputs'')).
        pget e ''name'' = pget ref ''name'' \<and> pget e ''type'' = PStr ''text'')
    \<or> pget ref ''source'' = PStr ''output'' \<and> (\<exists>j < i. pget (plist (pget program ''steps'') ! j) ''step_id'' = pget ref ''step_id''
        \<and> (\<exists>e \<in> set (plist (pget (plist (pget program ''steps'') ! j) ''outputs'')).
          pget e ''name'' = pget ref ''name'' \<and> pget e ''type'' = PStr ''text''))"
proof -
  let ?steps = "plist (pget program ''steps'')"
  from assms(1) obtain inputs ids out where inputs: "program_variables ''inputs'' (pget program ''inputs'') = Inr inputs"
      and ids: "step_ids ?steps = Inr ids"
      and run: "fold_res (check_program_step nodes ids inputs) ?steps [] = Inr out"
    by (rule definition_parts)
  from fold_res_at[OF run assms(2)] obtain available after where
    before: "fold_res (check_program_step nodes ids inputs) (take i ?steps) [] = Inr available"
    and at: "check_program_step nodes ids inputs (?steps ! i) available = Inr after" by blast
  from at have "check_action (?steps ! i) inputs available = Inr ()" by (rule program_step_parts)
  from input_action_text[OF this assms(3)] have ref: "reference_type ref inputs available ''action'' = Inr ''text''"
    by (simp only: assms(4))
  from reference_sound[OF this] show ?thesis
  proof (elim disjE conjE exE)
    assume "pget ref ''source'' = PStr ''constant''" "constant_type ''action'' (pget ref ''value'') = Inr ''text''"
    then show ?thesis using constant_text by blast
  next
    fix name
    assume "pget ref ''source'' = PStr ''input''" "pget ref ''name'' = PStr name" "map_of inputs name = Some ''text''"
    then show ?thesis using program_variables_sound[OF inputs map_of_SomeD] by fastforce
  next
    fix name sid
    assume r: "pget ref ''source'' = PStr ''output''" "pget ref ''name'' = PStr name" "pget ref ''step_id'' = PStr sid"
      "map_of available (sid, name) = Some ''text''"
    from available_sound[OF before map_of_SomeD[OF r(4)]] obtain step e where
      step: "step \<in> set (take i ?steps)" "py_str (pget step ''step_id'') = sid"
      and e: "e \<in> set (plist (pget step ''outputs''))" "pget e ''name'' = PStr name" "pget e ''type'' = PStr ''text''"
      by blast
    from step(1) obtain j where j: "j < i" "step = ?steps ! j" by (auto simp: in_set_conv_nth)
    have "pget step ''step_id'' = PStr sid"
      using step_ids_str[OF ids, of step] step in_set_takeD[OF step(1)] by (auto simp: is_type_iff)
    with r(1-3) j e show ?thesis by metis
  qed
qed


section \<open>The steps of an accepted program\<close>

lemma accepted_step_ids: "step_ids steps = Inr ids \<Longrightarrow> step \<in> set steps \<Longrightarrow>
  \<exists>s. pget step ''step_id'' = PStr s \<and> identifier_re 159 s \<and> s \<in> set ids"
proof (induction steps arbitrary: ids)
  case (Cons a steps)
  then obtain i rest where "check_id ''step'' (pget a ''step_id'') = Inr i" "step_ids steps = Inr rest" "ids = i # rest"
    by (auto simp: rbind_eq_Inr_iff)
  with Cons show ?case by (cases "pget a ''step_id''") (auto simp: check_id_def split: if_splits)
qed simp

lemma step_ids_names: "step_ids steps = Inr ids \<Longrightarrow> ids = map (\<lambda>s. py_str (pget s ''step_id'')) steps"
proof (induction steps arbitrary: ids)
  case (Cons a steps)
  then obtain i rest where "check_id ''step'' (pget a ''step_id'') = Inr i" "step_ids steps = Inr rest" "ids = i # rest"
    by (auto simp: rbind_eq_Inr_iff)
  with Cons.IH show ?case by (cases "pget a ''step_id''") (auto simp: check_id_def split: if_splits)
qed simp

lemma checked_step_branches:
  assumes "check_program_step nodes ids inputs step available = Inr available'"
  shows "branch_ok ids (pget (pget step ''branches'') ''success'')" and "branch_ok ids (pget (pget step ''branches'') ''failure'')"
proof -
  note facts = assms[unfolded check_program_step_def Let_def checks_iff sum.inject]
  from facts have "check_branches ids (pget step ''branches'') = Inr ()" by blast
  then show "branch_ok ids (pget (pget step ''branches'') ''success'')" "branch_ok ids (pget (pget step ''branches'') ''failure'')"
    unfolding check_branches_def checks_iff by blast+
qed

lemma accepted_step:
  assumes "validate_definition program nodes = Inr p" and "step \<in> set (plist (pget program ''steps''))"
  obtains s where "pget step ''step_id'' = PStr s" and "identifier_re 159 s"
    and "branch_ok (map (\<lambda>s. py_str (pget s ''step_id'')) (plist (pget program ''steps''))) (pget (pget step ''branches'') ''success'')"
    and "branch_ok (map (\<lambda>s. py_str (pget s ''step_id'')) (plist (pget program ''steps''))) (pget (pget step ''branches'') ''failure'')"
proof -
  let ?steps = "plist (pget program ''steps'')"
  from assms(1) obtain inputs ids out where ids: "step_ids ?steps = Inr ids"
    and run: "fold_res (check_program_step nodes ids inputs) ?steps [] = Inr out" by (rule definition_parts)
  from assms(2) obtain i where i: "i < length ?steps" "?steps ! i = step" by (auto simp: in_set_conv_nth)
  from fold_res_at[OF run i(1)] obtain u w where "check_program_step nodes ids inputs step u = Inr w"
    unfolding i(2) by blast
  from checked_step_branches[OF this] accepted_step_ids[OF ids assms(2)] show thesis
    unfolding step_ids_names[OF ids] using that by blast
qed


section \<open>A program that is accepted\<close>

definition sample_branches :: "pyval \<Rightarrow> pyval" where
  "sample_branches success = PDict [(''success'', success), (''failure'', PNone), (''uncertain'', PNone)]"

definition reading_step :: pyval where
  "reading_step = PDict [(''step_id'', PStr ''read''), (''title'', PStr ''Read the city''), (''source_node_id'', PNone),
     (''target_node_id'', PStr ''n1''), (''action'', PDict [(''kind'', PStr ''read_text''), (''goal'', PStr ''city'')]),
     (''preconditions'', PList []), (''success_conditions'', PList []), (''branches'', sample_branches (PStr ''type'')),
     (''outputs'', PList [PDict [(''name'', PStr ''city''), (''type'', PStr ''text'')]]),
     (''review_status'', PStr ''reviewed''), (''provenance'', PStr ''manual'')]"

definition typing_step :: pyval where
  "typing_step = PDict [(''step_id'', PStr ''type''), (''title'', PStr ''Enter it''), (''source_node_id'', PStr ''n1''),
     (''target_node_id'', PNone), (''action'', PDict [(''kind'', PStr ''input_sequence''), (''field_goal'', PStr ''where''),
       (''text'', PDict [(''source'', PStr ''output''), (''name'', PStr ''city''), (''step_id'', PStr ''read'')]),
       (''clear_existing'', PBool True), (''submit_search'', PBool False)]),
     (''preconditions'', PList []), (''success_conditions'', PList []), (''branches'', sample_branches PNone),
     (''outputs'', PList []), (''review_status'', PStr ''pending''), (''provenance'', PStr ''editorial'')]"

definition two_step_program :: pyval where
  "two_step_program = PDict [(''title'', PStr ''Search''), (''inputs'', PList []), (''outputs'', PList []),
     (''steps'', PList [reading_step, typing_step])]"

lemma two_step_accepted: "validate_definition two_step_program [''n1''] = Inr two_step_program"
proof -
  have "is_ok (validate_definition two_step_program [''n1''])" by code_simp
  then obtain p where p: "validate_definition two_step_program [''n1''] = Inr p" unfolding is_ok_iff by blast
  from p have "p = two_step_program" by (rule definition_parts)
  with p show ?thesis by simp
qed

theorem program_run_terminates_witness:
  "distinct [''read'', ''type''] \<and> length [''read'', ''type''] \<le> length (plist (pget two_step_program ''steps''))"
proof -
  have "map_of (branch_graph (plist (pget two_step_program ''steps''))) ''read'' = Some [''type'']" by code_simp
  then have "(''read'', ''type'') \<in> branch_edges (branch_graph (plist (pget two_step_program ''steps'')))"
    by (simp add: branch_edges_def)
  moreover have "''type'' \<in> fst ` set (branch_graph (plist (pget two_step_program ''steps'')))" by code_simp
  ultimately have "follows_branches (branch_graph (plist (pget two_step_program ''steps''))) [''read'', ''type'']"
    by simp
  from program_run_terminates[OF two_step_accepted this] show ?thesis by blast
qed

theorem program_text_references_resolve_witness:
  "pget (pget (pget typing_step ''action'') ''text'') ''source'' = PStr ''output''
   \<and> pget reading_step ''step_id'' = pget (pget (pget typing_step ''action'') ''text'') ''step_id''"
proof -
  let ?steps = "plist (pget two_step_program ''steps'')"
  let ?ref = "pget (pget typing_step ''action'') ''text''"
  have at: "?steps ! 1 = typing_step" "?steps ! 0 = reading_step" "1 < length ?steps"
    by (simp_all add: two_step_program_def dict_get_def)
  have kind: "pget (pget typing_step ''action'') ''kind'' = PStr ''input_sequence''"
    and source: "pget ?ref ''source'' = PStr ''output''"
    by (simp_all add: typing_step_def dict_get_def)
  from program_text_references_resolve[OF two_step_accepted at(3), unfolded at(1), OF kind refl] source
  have "\<exists>j < 1. pget (?steps ! j) ''step_id'' = pget ?ref ''step_id''" by auto
  with at(2) source show ?thesis by simp
qed

end
