(* ===== verification/ProgramReview.thy ===== *)
theory ProgramReview
  imports WorkflowProgram
begin

text \<open>
  What an edit of a task program does to its reviews: \<^verbatim>\<open>_derive_provenance\<close> and
  \<^verbatim>\<open>_target_dependencies\<close> of \<^verbatim>\<open>app/learning_memory/workflow_program.py\<close>. A step whose content changed
  makes every step that reads its outputs, directly or through other steps, wait for a new review.
  The definition has passed \<open>validate_definition\<close>, so names and step identifiers are strings.
\<close>

section \<open>What changed\<close>

text \<open>\<^verbatim>\<open>next((item for item in items if item["name"] == name), None)\<close>.\<close>

definition declared_item :: "pyval list \<Rightarrow> string \<Rightarrow> pyval" where
  "declared_item items name = (case find (\<lambda>e. pget e ''name'' = PStr name) items of None \<Rightarrow> PNone | Some e \<Rightarrow> e)"

definition item_texts :: "string \<Rightarrow> pyval list \<Rightarrow> string list" where
  "item_texts key items = map (\<lambda>e. py_str (pget e key)) items"

definition changed_inputs :: "pyval \<Rightarrow> pyval \<Rightarrow> string list" where
  "changed_inputs baseline checked = (let old = plist (pget baseline ''inputs''); new = plist (pget checked ''inputs'') in
     filter (\<lambda>name. \<not> py_eq (declared_item old name) (declared_item new name))
       (item_texts ''name'' old @ item_texts ''name'' new))"

definition outputs_of :: "pyval list \<Rightarrow> string \<Rightarrow> pyval" where
  "outputs_of items step_id = PList (filter (\<lambda>e. pget e ''step_id'' = PStr step_id) items)"

definition changed_program_outputs :: "pyval \<Rightarrow> pyval \<Rightarrow> string list" where
  "changed_program_outputs baseline checked =
     (let old = plist (pget baseline ''outputs''); new = plist (pget checked ''outputs'') in
      filter (\<lambda>step_id. \<not> py_eq (outputs_of old step_id) (outputs_of new step_id))
        (item_texts ''step_id'' old @ item_texts ''step_id'' new))"

definition program_steps :: "pyval \<Rightarrow> pyval list" where
  "program_steps program = plist (pget program ''steps'')"

definition step_name :: "pyval \<Rightarrow> string" where
  "step_name step = py_str (pget step ''step_id'')"

text \<open>\<^verbatim>\<open>{step["step_id"]: step for step in steps}.get(step_id)\<close>: the last one wins.\<close>

definition old_step :: "pyval \<Rightarrow> string \<Rightarrow> pyval option" where
  "old_step baseline step_id = map_of (rev (map (\<lambda>s. (step_name s, s)) (program_steps baseline))) step_id"

definition review_keys :: "string list" where
  "review_keys = [''title'', ''review_status'', ''provenance'']"

definition step_content :: "pyval \<Rightarrow> pyval" where
  "step_content step = (case step of PDict d \<Rightarrow> PDict (filter (\<lambda>kv. fst kv \<notin> set review_keys) d) | v \<Rightarrow> v)"

definition step_changed :: "pyval \<Rightarrow> pyval \<Rightarrow> bool" where
  "step_changed baseline step = (case old_step baseline (step_name step) of
       None \<Rightarrow> True | Some old \<Rightarrow> \<not> py_eq (step_content step) (step_content old))"

section \<open>What a step reads\<close>

type_synonym step_references = "(string \<times> pyval list) list"

definition binding_references :: "pyval \<Rightarrow> pyval list" where
  "binding_references step = (let binding = pget (pget step ''verification'') ''condition_binding'' in
     if binding = PNone then [] else (case pget binding ''typed_parameters'' of PDict d \<Rightarrow> map snd d | _ \<Rightarrow> []))"

definition own_references :: "pyval \<Rightarrow> pyval list" where
  "own_references step =
     (if is_dict (pget step ''action'') then [pget (pget step ''action'') ''text''] else [])
     @ [pget (pget step ''verification'') ''expected'']
     @ map (\<lambda>c. pget c ''left'') (plist (pget step ''preconditions'') @ plist (pget step ''success_conditions''))
     @ binding_references step"

definition references_by_step :: "pyval list \<Rightarrow> step_references \<Rightarrow> step_references" where
  "references_by_step steps dependencies = map (\<lambda>s. (step_name s, own_references s
     @ (case map_of dependencies (step_name s) of None \<Rightarrow> [] | Some refs \<Rightarrow> refs))) steps"

definition reads_from :: "string \<Rightarrow> string \<Rightarrow> string list \<Rightarrow> pyval \<Rightarrow> bool" where
  "reads_from source key names ref = (is_dict ref \<and> pget ref ''source'' = PStr source \<and> one_of (pget ref key) names)"

definition reading_steps :: "string \<Rightarrow> string \<Rightarrow> string list \<Rightarrow> step_references \<Rightarrow> string list" where
  "reading_steps source key names references =
     map fst (filter (\<lambda>(step_id, refs). list_ex (reads_from source key names) refs) references)"

text \<open>The \<^verbatim>\<open>while\<close> loop: steps that read an output of an affected step are affected too.\<close>

function spread_affected :: "step_references \<Rightarrow> string list \<Rightarrow> string list" where
  "spread_affected references affected =
     (let new = filter (\<lambda>i. i \<notin> set affected) (reading_steps ''output'' ''step_id'' affected references) in
      if new = [] then affected else spread_affected references (affected @ new))"
  by pat_completeness auto
termination
proof (relation "measure (\<lambda>(references, affected). card (fst ` set references - set affected))")
  fix references :: step_references and affected new
  assume new: "new = filter (\<lambda>i. i \<notin> set affected) (reading_steps ''output'' ''step_id'' affected references)"
    and some: "new \<noteq> []"
  have "set new \<subseteq> fst ` set references - set affected"
    by (auto simp: new reading_steps_def)
  moreover obtain i where "i \<in> set new" using some by (meson list.set_sel(1))
  ultimately have "fst ` set references - set (affected @ new) \<subset> fst ` set references - set affected" by auto
  then have "card (fst ` set references - set (affected @ new)) < card (fst ` set references - set affected)"
    by (intro psubset_card_mono) auto
  then show "((references, affected @ new), references, affected)
      \<in> measure (\<lambda>(references, affected). card (fst ` set references - set affected))" by simp
qed simp

declare spread_affected.simps [simp del]

definition first_affected :: "pyval \<Rightarrow> pyval \<Rightarrow> step_references \<Rightarrow> string list" where
  "first_affected baseline checked references =
     map step_name (filter (step_changed baseline) (program_steps checked))
     @ changed_program_outputs baseline checked
     @ reading_steps ''input'' ''name'' (changed_inputs baseline checked) references"

definition affected_steps :: "pyval \<Rightarrow> pyval \<Rightarrow> step_references \<Rightarrow> string list" where
  "affected_steps baseline checked dependencies =
     (let references = references_by_step (program_steps checked) dependencies in
      spread_affected references (first_affected baseline checked references))"

section \<open>The derived definition\<close>

definition derived_provenance :: "string list \<Rightarrow> string list \<Rightarrow> pyval option \<Rightarrow> bool \<Rightarrow> string \<Rightarrow> pyval" where
  "derived_provenance verified editorial old affected step_id =
     (if step_id \<in> set editorial \<or> step_id \<in> set verified then PStr ''editorial''
      else case old of None \<Rightarrow> PStr ''manual''
        | Some o' \<Rightarrow>
            if pget o' ''source_evidence'' \<noteq> PNone then PStr ''manual''
            else if pget o' ''provenance'' = PStr ''observed''
            then PStr (if affected then ''editorial'' else ''observed'')
            else pget o' ''provenance'')"

definition needs_review :: "string list \<Rightarrow> string list \<Rightarrow> pyval option \<Rightarrow> bool \<Rightarrow> pyval \<Rightarrow> bool" where
  "needs_review verified editorial old affected step =
     (affected \<or> step_name step \<notin> set editorial \<and> step_name step \<in> set verified
        \<and> (case old of None \<Rightarrow> True
            | Some o' \<Rightarrow> \<not> py_eq (pget o' ''source_evidence'') (pget step ''source_evidence'')))"

definition derive_step :: "pyval \<Rightarrow> string list \<Rightarrow> string list \<Rightarrow> string list \<Rightarrow> pyval \<Rightarrow> pyval" where
  "derive_step baseline verified editorial affected step =
     (let old = old_step baseline (step_name step); hit = (step_name step \<in> set affected);
          marked = pset ''provenance'' (derived_provenance verified editorial old hit (step_name step)) step
      in if needs_review verified editorial old hit step then pset ''review_status'' (PStr ''pending'') marked else marked)"

definition derive_provenance :: "pyval \<Rightarrow> pyval \<Rightarrow> string list \<Rightarrow> step_references \<Rightarrow> string list \<Rightarrow> pyval" where
  "derive_provenance checked baseline verified dependencies editorial =
     pset ''steps'' (PList (map (derive_step baseline verified editorial (affected_steps baseline checked dependencies))
       (program_steps checked))) checked"

section \<open>What the target rules read\<close>

definition row_constraints :: "pyval \<Rightarrow> pyval list" where
  "row_constraints recipe = concat (map (\<lambda>s. if pget s ''kind'' = PStr ''visible_row''
     then map (\<lambda>c. pget c ''value'') (plist (pget s ''constraints'')) else []) (plist (pget recipe ''strategies'')))"

definition check_row_reference :: "scope \<Rightarrow> outputs \<Rightarrow> pyval \<Rightarrow> unit res" where
  "check_row_reference inputs available ref =
     rbind (reference_type ref inputs available ''target'') (\<lambda>t.
     ensure (t = ''text'') (ValueError ''target_row_requires_text''))"

definition declared_of :: "pyval list \<Rightarrow> scope" where
  "declared_of items = map (\<lambda>e. (py_str (pget e ''name''), py_str (pget e ''type''))) items"

fun collect_dependencies :: "(string \<Rightarrow> pyval option) \<Rightarrow> scope \<Rightarrow> pyval list \<Rightarrow> outputs \<Rightarrow> step_references res" where
  "collect_dependencies recipes inputs [] available = Inr []"
| "collect_dependencies recipes inputs (step # steps) available =
     (let refs = (case recipes (step_name step) of None \<Rightarrow> [] | Some recipe \<Rightarrow> row_constraints recipe);
          own = own_outputs (step_name step) (declared_of (plist (pget step ''outputs''))) in
      rbind (each (check_row_reference inputs available) refs) (\<lambda>_.
      rbind (collect_dependencies recipes inputs steps (rev own @ available)) (\<lambda>rest.
      Inr ((step_name step, refs) # rest))))"

definition target_dependencies :: "pyval \<Rightarrow> (string \<Rightarrow> pyval option) \<Rightarrow> step_references res" where
  "target_dependencies program recipes =
     collect_dependencies recipes (rev (declared_of (plist (pget program ''inputs'')))) (program_steps program) []"


section \<open>The affected steps are those that depend on a change\<close>

text \<open>One step reads an output of another.\<close>

definition reads_edge :: "step_references \<Rightarrow> (string \<times> string) set" where
  "reads_edge references = {(a, b). b \<in> set (reading_steps ''output'' ''step_id'' [a] references)}"

definition affected_by_edit :: "pyval \<Rightarrow> pyval \<Rightarrow> step_references \<Rightarrow> string \<Rightarrow> bool" where
  "affected_by_edit baseline checked dependencies step_id =
     (let references = references_by_step (program_steps checked) dependencies in
      \<exists>a \<in> set (first_affected baseline checked references). (a, step_id) \<in> (reads_edge references)\<^sup>*)"

lemma one_of_singletons: "one_of v names \<longleftrightarrow> (\<exists>a \<in> set names. one_of v [a])"
  by (auto simp: one_of_iff)

lemma reads_from_each: "reads_from source key names ref \<longleftrightarrow> (\<exists>a \<in> set names. reads_from source key [a] ref)"
  unfolding reads_from_def using one_of_singletons[of _ names] by blast

lemma reading_steps_mem:
  "i \<in> set (reading_steps source key names references) \<longleftrightarrow>
    (\<exists>refs. (i, refs) \<in> set references \<and> (\<exists>r \<in> set refs. reads_from source key names r))"
  by (force simp: reading_steps_def list_ex_iff)

lemma reading_steps_iff:
  "i \<in> set (reading_steps source key names references) \<longleftrightarrow>
    (\<exists>a \<in> set names. i \<in> set (reading_steps source key [a] references))"
  unfolding reading_steps_mem using reads_from_each[of source key names] by blast

lemma reads_edge_iff: "i \<in> set (reading_steps ''output'' ''step_id'' A references) \<longleftrightarrow> (\<exists>a \<in> set A. (a, i) \<in> reads_edge references)"
  unfolding reads_edge_def using reading_steps_iff[of i _ _ A] by blast

lemma spread_reach:
  "set (spread_affected references A) = {b. \<exists>a \<in> set A. (a, b) \<in> (reads_edge references)\<^sup>*}"
proof (induction references A rule: spread_affected.induct)
  case (1 references A)
  define new where "new = filter (\<lambda>i. i \<notin> set A) (reading_steps ''output'' ''step_id'' A references)"
  have new: "i \<in> set new \<longleftrightarrow> i \<notin> set A \<and> (\<exists>a \<in> set A. (a, i) \<in> reads_edge references)" for i
    by (auto simp: new_def reads_edge_iff)
  show ?case
  proof (cases "new = []")
    case True
    then have "spread_affected references A = A"
      by (simp add: spread_affected.simps[of references A] new_def)
    moreover have "b \<in> set A" if "a \<in> set A" "(a, b) \<in> (reads_edge references)\<^sup>*" for a b
      using that(2,1) by (induction rule: rtrancl_induct) (use new True in auto)
    ultimately show ?thesis by auto
  next
    case False
    have "set (spread_affected references A) = {b. \<exists>a \<in> set (A @ new). (a, b) \<in> (reads_edge references)\<^sup>*}"
      using "1.IH"[OF new_def False] False by (simp add: spread_affected.simps[of references A] new_def)
    also have "\<dots> = {b. \<exists>a \<in> set A. (a, b) \<in> (reads_edge references)\<^sup>*}"
      using new by (auto intro: converse_rtrancl_into_rtrancl)
    finally show ?thesis .
  qed
qed

lemma affected_steps_iff:
  "i \<in> set (affected_steps baseline checked dependencies) \<longleftrightarrow> affected_by_edit baseline checked dependencies i"
  by (simp add: affected_steps_def affected_by_edit_def Let_def spread_reach)

lemma definition_dict: "validate_definition program nodes = Inr p \<Longrightarrow> is_dict program"
  unfolding validate_definition_def checks_iff by blast

lemma definition_step_dict:
  assumes "validate_definition program nodes = Inr p" and "step \<in> set (program_steps program)"
  shows "is_dict step"
proof -
  from assms(1) obtain ids where "step_ids (plist (pget program ''steps'')) = Inr ids" by (rule definition_parts)
  from step_ids_str[OF this] assms(2) have "is_str (pget step ''step_id'')" by (simp add: program_steps_def)
  then show ?thesis by (cases step) simp_all
qed

lemma derive_step_gets:
  assumes "is_dict step"
  shows "pget (derive_step b ver ed aff step) ''review_status'' =
      (if needs_review ver ed (old_step b (step_name step)) (step_name step \<in> set aff) step
       then PStr ''pending'' else pget step ''review_status'')"
    and "k \<noteq> ''review_status'' \<Longrightarrow> k \<noteq> ''provenance'' \<Longrightarrow> pget (derive_step b ver ed aff step) k = pget step k"
  using assms by (simp_all add: derive_step_def Let_def)

text \<open>after an edit of a program, exactly the steps that changed, that show a changed program output or
  read a changed input, and all steps that read their outputs directly or through other steps, wait for a
  new review; the others keep their review, apart from newly verified reading steps, and nothing else in a
  step changes.\<close>

theorem edit_invalidates_reviews:
  assumes "validate_definition checked nodes = Inr p" and "i < length (program_steps checked)"
    and "step = program_steps checked ! i"
    and "new = program_steps (derive_provenance checked baseline verified dependencies editorial) ! i"
  shows "(affected_by_edit baseline checked dependencies (step_name step) \<longrightarrow> pget new ''review_status'' = PStr ''pending'')
    \<and> (\<not> affected_by_edit baseline checked dependencies (step_name step) \<and> step_name step \<notin> set verified
        \<longrightarrow> pget new ''review_status'' = pget step ''review_status'')
    \<and> (k \<noteq> ''review_status'' \<and> k \<noteq> ''provenance'' \<longrightarrow> pget new k = pget step k)"
proof -
  have dict: "is_dict step"
    using definition_step_dict[OF assms(1)] assms(2,3) by simp
  have "program_steps (derive_provenance checked baseline verified dependencies editorial)
      = map (derive_step baseline verified editorial (affected_steps baseline checked dependencies)) (program_steps checked)"
    using definition_dict[OF assms(1)] by (simp add: derive_provenance_def program_steps_def)
  then have new: "new = derive_step baseline verified editorial (affected_steps baseline checked dependencies) step"
    using assms(2-4) by simp
  show ?thesis
    unfolding new derive_step_gets(1)[OF dict] needs_review_def affected_steps_iff
    using derive_step_gets(2)[OF dict] by simp
qed

definition retyped_program :: pyval where
  "retyped_program = pset ''steps'' (PList [pset ''action'' (PDict [(''kind'', PStr ''read_text''), (''goal'', PStr ''town'')])
     reading_step, typing_step]) two_step_program"

text \<open>The goal of the reading step was edited: the typing step, which reads its output, must be reviewed again.\<close>

theorem edit_invalidates_reviews_witness:
  "pget (program_steps (derive_provenance two_step_program retyped_program [] [] []) ! 1) ''review_status'' = PStr ''pending''
   \<and> pget (program_steps (derive_provenance two_step_program two_step_program [] [] []) ! 0) ''review_status'' = PStr ''reviewed''"
proof -
  have len: "length (program_steps two_step_program) = 2" and at: "program_steps two_step_program ! 1 = typing_step"
      "program_steps two_step_program ! 0 = reading_step"
    by (simp_all add: program_steps_def two_step_program_def dict_get_def)
  have "step_name typing_step \<in> set (affected_steps retyped_program two_step_program [])" by code_simp
  then have a: "affected_by_edit retyped_program two_step_program [] (step_name typing_step)"
    unfolding affected_steps_iff .
  have "step_name reading_step \<notin> set (affected_steps two_step_program two_step_program [])" by code_simp
  then have n: "\<not> affected_by_edit two_step_program two_step_program [] (step_name reading_step)"
    unfolding affected_steps_iff .
  have r: "pget reading_step ''review_status'' = PStr ''reviewed''" by (simp add: reading_step_def dict_get_def)
  from edit_invalidates_reviews[OF two_step_accepted _ at(1)[symmetric] refl] len a
  have "pget (program_steps (derive_provenance two_step_program retyped_program [] [] []) ! 1) ''review_status'' = PStr ''pending''"
    by simp
  moreover from edit_invalidates_reviews[OF two_step_accepted _ at(2)[symmetric] refl] len n r
  have "pget (program_steps (derive_provenance two_step_program two_step_program [] [] []) ! 0) ''review_status'' = PStr ''reviewed''"
    by simp
  ultimately show ?thesis by (rule conjI)
qed

end
