(* ===== verification/StepVerification.thy ===== *)
theory StepVerification
  imports ProgramReview
begin

text \<open>
  How a step's result is judged: \<^verbatim>\<open>_resolve\<close> and \<^verbatim>\<open>_conditions\<close> of \<^verbatim>\<open>workflow_trial.py\<close>,
  \<^verbatim>\<open>workflow_verification.py\<close> with the row-selection evidence of \<^verbatim>\<open>selection_satisfaction.py\<close>, the identity
  facts of \<^verbatim>\<open>app/agent/native_identity.py\<close> and \<^verbatim>\<open>image_proof_current\<close> of \<^verbatim>\<open>image_verification.py\<close>.
  Paths are read as Python 3.11 reads Windows paths. The definition of the step has passed
  \<open>validate_definition\<close>, so names and step identifiers are strings.
\<close>

section \<open>References and conditions\<close>

definition trial_resolve :: "pyval \<Rightarrow> pyval \<Rightarrow> pyval \<Rightarrow> pyval res" where
  "trial_resolve ref inputs outputs =
     rbind (item ref ''source'') (\<lambda>source.
     if source = PStr ''constant'' then item ref ''value''
     else if source = PStr ''input'' then rbind (item ref ''name'') (\<lambda>name. Inr (pget inputs (py_str name)))
     else rbind (item ref ''step_id'') (\<lambda>step_id. rbind (item ref ''name'') (\<lambda>name.
       let key = py_str step_id @ ''.'' @ py_str name in
       if phas outputs key then Inr (pget outputs key)
       else Inl (ValueError (''workflow_trial_upstream_output_missing:'' @ key)))))"

definition condition_matches :: "string \<Rightarrow> pyval \<Rightarrow> pyval \<Rightarrow> bool res" where
  "condition_matches operator v entry =
     (if operator = ''exists'' then Inr (v \<noteq> PNone)
      else rbind (if operator = ''contains'' \<and> \<not> is_str v then Inr PNone else item entry ''value'') (\<lambda>w.
        if operator = ''contains'' then Inr (is_str v \<and> is_str w \<and> occurs (py_str w) (py_str v))
        else Inr (py_eq v w = (operator \<noteq> ''not_eq''))))"

datatype seen = Seen pyval | Unseen string

definition condition_value :: "pyval \<Rightarrow> pyval \<Rightarrow> pyval \<Rightarrow> pyval \<Rightarrow> seen res" where
  "condition_value left inputs outputs observations =
     rbind (item left ''source'') (\<lambda>source.
     if source = PStr ''observation'' then rbind (item left ''name'') (\<lambda>name.
       Inr (if phas observations (py_str name) then Seen (pget observations (py_str name)) else Unseen ''unknown''))
     else (case trial_resolve left inputs outputs of
         Inr v \<Rightarrow> Inr (Seen v)
       | Inl (ValueError _) \<Rightarrow> Inr (Unseen ''missing_output'')
       | Inl e \<Rightarrow> Inl e))"

definition trial_condition :: "pyval \<Rightarrow> pyval \<Rightarrow> pyval \<Rightarrow> pyval \<Rightarrow> string res" where
  "trial_condition entry inputs outputs observations =
     rbind (item entry ''left'') (\<lambda>left.
     rbind (condition_value left inputs outputs observations) (\<lambda>seen. case seen of
       Unseen why \<Rightarrow> Inr why
     | Seen v \<Rightarrow> rbind (item entry ''operator'') (\<lambda>operator.
         if operator = PStr ''agent_assertion'' then
           Inr (if is_bool v then if v = PBool True then ''true'' else ''false'' else ''unknown'')
         else rbind (condition_matches (py_str operator) v entry) (\<lambda>m. Inr (if m then ''true'' else ''false'')))))"

fun trial_conditions :: "pyval list \<Rightarrow> pyval \<Rightarrow> pyval \<Rightarrow> pyval \<Rightarrow> string res" where
  "trial_conditions [] inputs outputs observations = Inr ''true''"
| "trial_conditions (entry # entries) inputs outputs observations =
     rbind (trial_condition entry inputs outputs observations) (\<lambda>r.
     if r = ''true'' then trial_conditions entries inputs outputs observations else Inr r)"

fun pdel :: "string \<Rightarrow> pyval \<Rightarrow> pyval" where
  "pdel k (PDict d) = PDict (filter (\<lambda>kv. fst kv \<noteq> k) d)" | "pdel k v = v"

definition selection_requested :: "pyval \<Rightarrow> bool" where
  "selection_requested action = (pget action ''selection_intent'' = PStr ''ensure_selected'')"

section \<open>Facts about windows and processes\<close>

definition backslash :: char where
  "backslash = CHR 0x5C"

text \<open>\<^verbatim>\<open>_split_extended_path\<close>: whether the path has the extended prefix, and the rest.\<close>

definition split_extended :: "string \<Rightarrow> bool \<times> string" where
  "split_extended s = (if take 4 s = [backslash, backslash, CHR ''?'', backslash] then
       (let rest = drop 4 s in (True, if take 4 rest = ''UNC'' @ [backslash] then backslash # drop 3 rest else rest))
     else (False, s))"

text \<open>\<^verbatim>\<open>\\machine\share\<close>, without two separators in a row after the machine.\<close>

definition network_share :: "string \<Rightarrow> bool" where
  "network_share s = (take 2 s = [backslash, backslash] \<and> (let rest = drop 2 s; after = dropWhile (\<lambda>c. c \<noteq> backslash) rest in
     after \<noteq> [] \<and> take 2 after \<noteq> [backslash, backslash]))"

definition drive_letter :: "char \<Rightarrow> bool" where
  "drive_letter c = (65 \<le> cp c \<and> cp c \<le> 90 \<or> 97 \<le> cp c \<and> cp c \<le> 122)"

definition absolute_windows_path :: "string \<Rightarrow> bool" where
  "absolute_windows_path s = (case split_extended s of (extended, part) \<Rightarrow>
     network_share part
     \<or> (case part of c # d # e # _ \<Rightarrow> drive_letter c \<and> d = CHR '':'' \<and> e = backslash | _ \<Rightarrow> False)
     \<or> extended \<and> take 1 part = [backslash])"

definition windows_path :: "pyval \<Rightarrow> string" where
  "windows_path v = map (\<lambda>c. if c = CHR ''/'' then backslash else c) (strip (text_or_empty v))"

definition native_fields :: "string list" where
  "native_fields = [''contract_version'', ''provider'', ''status'', ''target_window_handle'', ''process_id'',
     ''process_create_time'', ''executable_path'']"

definition positive_int :: "pyval \<Rightarrow> bool" where
  "positive_int v = (case v of PInt i \<Rightarrow> 0 < i | _ \<Rightarrow> False)"

text \<open>A time: a positive finite number. \<^verbatim>\<open>float\<close> and \<^verbatim>\<open>isfinite\<close> raise on an integer out of range.\<close>

definition time_ok :: "pyval \<Rightarrow> bool res" where
  "time_ok v = (if is_int v \<or> is_float v then rbind (isfinite_num v) (\<lambda>f. Inr (f \<and> 0 < num_rat v)) else Inr False)"

definition native_identity_fact :: "pyval \<Rightarrow> pyval \<Rightarrow> pyval \<Rightarrow> bool res" where
  "native_identity_fact claim handle process =
     (if is_dict claim \<and> keys_are claim native_fields \<and> positive_int handle
         \<and> pget claim ''contract_version'' = PStr ''windows_native_identity_observation_v1''
         \<and> pget claim ''provider'' = PStr ''windows_native_identity'' \<and> pget claim ''status'' = PStr ''observed''
         \<and> is_int (pget claim ''target_window_handle'') \<and> py_eq (pget claim ''target_window_handle'') handle
         \<and> positive_int (pget claim ''process_id'') then
       rbind (time_ok (pget claim ''process_create_time'')) (\<lambda>timed.
       Inr (timed \<and> absolute_windows_path (windows_path (pget claim ''executable_path''))
         \<and> (process \<noteq> PNone \<longrightarrow> py_eq (pget claim ''process_id'') process)))
      else Inr False)"

definition window_identity_ok :: "pyval \<Rightarrow> bool res" where
  "window_identity_ok v =
     (if is_dict v \<and> keys_are v [''handle'', ''process_id'', ''process_create_time'']
         \<and> positive_int (pget v ''handle'') \<and> positive_int (pget v ''process_id'')
      then time_ok (pget v ''process_create_time'') else Inr False)"

definition digest_ok :: "pyval \<Rightarrow> bool" where
  "digest_ok v = str_ok (hex_re 64) v"

section \<open>The evidence of a row selection\<close>

definition box_fields :: "string list" where
  "box_fields = [''x'', ''y'', ''w'', ''h'']"

definition box_inside :: "pyval \<Rightarrow> pyval \<Rightarrow> bool" where
  "box_inside box parent = (is_dict box \<and> keys_are box box_fields
     \<and> (case (map (pget box) box_fields, map (pget parent) box_fields) of
         ([PInt x, PInt y, PInt w, PInt h], [PInt px, PInt py, PInt pw, PInt ph]) \<Rightarrow>
           0 < w \<and> 0 < h \<and> px \<le> x \<and> py \<le> y \<and> x + w \<le> px + pw \<and> y + h \<le> py + ph
       | _ \<Rightarrow> False))"

definition box_value :: "int \<Rightarrow> int \<Rightarrow> int \<Rightarrow> int \<Rightarrow> pyval" where
  "box_value x y w h = PDict [(''x'', PInt x), (''y'', PInt y), (''w'', PInt w), (''h'', PInt h)]"

definition int_list :: "pyval \<Rightarrow> bool" where
  "int_list v = (is_list v \<and> list_all is_int (plist v))"

definition selection_unavailable :: pyexc where
  "selection_unavailable = ValueError ''selection_state_unavailable_or_editing''"

definition selection_state_shown :: "pyval \<Rightarrow> pyval \<Rightarrow> pyval \<Rightarrow> unit res" where
  "selection_state_shown resolution state candidate =
     rbind (ensure (pget resolution ''status'' = PStr ''matched'' \<and> pget resolution ''context_verified'' = PBool True
         \<and> is_dict state \<and> pget state ''source'' = PStr ''windows_uia'' \<and> pget state ''kind'' = PStr ''row_selection''
         \<and> pget state ''state_available'' = PBool True \<and> is_bool (pget state ''selected'')
         \<and> pget state ''editing'' = PBool False) selection_unavailable) (\<lambda>_.
     let scan = pget_default state ''scan'' (PDict []) in
     rbind (ensure (is_dict scan) AttributeError) (\<lambda>_.
     rbind (ensure (pget scan ''graph_scan_complete'' = PBool True \<and> pget scan ''provider_tree_valid'' = PBool True)
       selection_unavailable) (\<lambda>_.
     rbind (ensure (is_dict candidate) AttributeError) (\<lambda>_.
     ensure (py_eq (pget state ''label'') (pget candidate ''label'')) selection_unavailable))))"

definition selection_row_same :: "pyval \<Rightarrow> pyval \<Rightarrow> string \<Rightarrow> unit res" where
  "selection_row_same state row key = (let v = pget state key; changed = ValueError ''selection_row_identity_changed'' in
     rbind (ensure (int_list v \<and> plist v \<noteq> []) changed) (\<lambda>_.
     rbind (get_or_raise row key) (\<lambda>known. ensure (py_eq v known) changed)))"

definition selection_window_same :: "pyval \<Rightarrow> pyval \<Rightarrow> unit res" where
  "selection_window_same state frame =
     (let identity = pget_default frame ''window_identity'' (PDict []); native = pget_default state ''window_identity'' (PDict []);
          changed = ValueError ''selection_window_identity_changed'' in
      rbind (ensure (is_dict frame) AttributeError) (\<lambda>_.
      rbind (window_identity_ok identity) (\<lambda>known.
      rbind (ensure known changed) (\<lambda>_.
      rbind (native_identity_fact native (pget identity ''handle'') (pget identity ''process_id'')) (\<lambda>observed.
      rbind (ensure observed changed) (\<lambda>_.
      ensure (py_eq (pget native ''target_window_handle'') (pget identity ''handle'')
        \<and> py_eq (pget native ''process_id'') (pget identity ''process_id'')
        \<and> py_eq (pget native ''process_create_time'') (pget identity ''process_create_time'')) changed))))))"

definition selection_geometry :: "pyval \<Rightarrow> pyval \<Rightarrow> pyval \<Rightarrow> (int \<times> int \<times> int \<times> int \<times> int \<times> int) res" where
  "selection_geometry state frame candidate =
     (let dims = pget frame ''image_size''; bad = ValueError ''selection_capture_geometry_invalid'' in
      case (pget frame ''window_rect'', pget state ''window_rect'') of
        (PList [PInt x0, PInt y0, PInt x1, PInt y1], PList [PInt wx, PInt wy, PInt ww, PInt wh]) \<Rightarrow>
          rbind (ensure (x0 < x1 \<and> y0 < y1 \<and> py_eq dims (PDict [(''width'', PInt (x1 - x0)), (''height'', PInt (y1 - y0))])
              \<and> 0 < ww \<and> 0 < wh \<and> has_text (pget state ''label'')
              \<and> py_eq (pget candidate ''capture_id'') (pget frame ''capture_id'')
              \<and> str_ok (\<lambda>s. s \<noteq> []) (pget frame ''capture_id'') \<and> py_eq (pget candidate ''viewport_size'') dims
              \<and> pget candidate ''source'' = PStr ''memory_visible_row'') bad) (\<lambda>_.
          Inr (x1 - x0, y1 - y0, wx - x0, wy - y0, ww, wh))
      | _ \<Rightarrow> Inl bad)"

definition int_of :: "pyval \<Rightarrow> int" where
  "int_of v = (case v of PInt i \<Rightarrow> i | _ \<Rightarrow> 0)"

definition point_in :: "pyval \<Rightarrow> pyval \<Rightarrow> bool" where
  "point_in point box = (is_dict point \<and> is_int (pget point ''x'') \<and> is_int (pget point ''y'')
     \<and> int_of (pget box ''x'') \<le> int_of (pget point ''x'')
     \<and> int_of (pget point ''x'') < int_of (pget box ''x'') + int_of (pget box ''w'')
     \<and> int_of (pget box ''y'') \<le> int_of (pget point ''y'')
     \<and> int_of (pget point ''y'') < int_of (pget box ''y'') + int_of (pget box ''h''))"

definition moved_box :: "pyval \<Rightarrow> int \<Rightarrow> int \<Rightarrow> pyval" where
  "moved_box box dx dy = pset ''y'' (PInt (int_of (pget box ''y'') + dy)) (pset ''x'' (PInt (int_of (pget box ''x'') + dx)) box)"

definition selection_boxes :: "pyval \<Rightarrow> pyval \<Rightarrow> int \<times> int \<times> int \<times> int \<times> int \<times> int \<Rightarrow> unit res" where
  "selection_boxes state candidate geometry = (case geometry of (width, height, dx, dy, ww, wh) \<Rightarrow>
     let box = pget state ''bbox''; captured = moved_box box dx dy; action_box = pget candidate ''bbox'' in
     rbind (ensure (box_inside box (box_value 0 0 ww wh)) (ValueError ''selection_row_bbox_invalid'')) (\<lambda>_.
     ensure (box_inside captured (box_value 0 0 width height) \<and> box_inside action_box captured
         \<and> point_in (pget candidate ''click_point'') action_box)
       (ValueError ''selection_point_geometry_invalid'')))"

definition selection_unchanged :: "pyval \<Rightarrow> pyval \<Rightarrow> unit res" where
  "selection_unchanged state expected = each (\<lambda>key. ensure (py_eq (pget state key) (pget expected key))
       (ValueError (''selection_'' @ key @ ''_changed'')))
     [''runtime_id'', ''container_runtime_id'', ''window_identity'', ''window_rect'', ''label'', ''bbox'']"

definition validate_selection_state :: "pyval \<Rightarrow> pyval \<Rightarrow> pyval res" where
  "validate_selection_state resolution expected =
     (let state = pget resolution ''row_selection''; frame = pget_default resolution ''frame'' (PDict []);
          candidate = pget_default resolution ''candidate'' (PDict []); evidence = pget_default resolution ''evidence'' (PDict []);
          row = pget_default evidence ''row'' (PDict []) in
      rbind (ensure (is_dict resolution \<and> is_dict evidence) AttributeError) (\<lambda>_.
      rbind (selection_state_shown resolution state candidate) (\<lambda>_.
      rbind (each (selection_row_same state row) [''runtime_id'', ''container_runtime_id'']) (\<lambda>_.
      rbind (selection_window_same state frame) (\<lambda>_.
      rbind (selection_geometry state frame candidate) (\<lambda>geometry.
      rbind (selection_boxes state candidate geometry) (\<lambda>_.
      rbind (if expected = PNone then Inr () else selection_unchanged state expected) (\<lambda>_.
      Inr state))))))))"

definition request_digest :: "pyval \<Rightarrow> string res" where
  "request_digest request = ct_digest (PDict [(''goal'', pget request ''goal''), (''target_memory'', pget request ''target_memory''),
     (''selection_intent'', pget request ''selection_intent''),
     (''click_kind'', pget_default request ''click_kind'' (PStr ''single''))])"

text \<open>\<^verbatim>\<open>except (KeyError, TypeError, ValueError): return False\<close>.\<close>

definition refuse_errors :: "bool res \<Rightarrow> bool res" where
  "refuse_errors r = (case r of Inl (ValueError _) \<Rightarrow> Inr False | Inl (KeyError _) \<Rightarrow> Inr False
     | Inl TypeError \<Rightarrow> Inr False | _ \<Rightarrow> r)"

definition binding_matches :: "pyval \<Rightarrow> pyval \<Rightarrow> pyval \<Rightarrow> pyval \<Rightarrow> pyval \<Rightarrow> bool" where
  "binding_matches binding step inputs outputs receipt =
     (digest_ok (pget binding ''command_sha256'') \<and> has_text (pget binding ''session_directory'')
      \<and> py_eq (pget binding ''run_id'') (pget receipt ''run_id'') \<and> py_eq (pget binding ''step_id'') (pget step ''step_id'')
      \<and> py_eq (pget binding ''execution_request_id'') (pget receipt ''execution_request_id'')
      \<and> py_eq (pget binding ''action'') (pget step ''action'')
      \<and> py_eq (pget binding ''inputs'') inputs \<and> py_eq (pget binding ''outputs'') outputs)"

definition proof_head_ok :: "pyval \<Rightarrow> pyval \<Rightarrow> pyval \<Rightarrow> string \<Rightarrow> bool" where
  "proof_head_ok evidence action actual request_sha =
     (pget evidence ''contract_version'' = PStr ''row_selection_effect.v1'' \<and> pget evidence ''state_satisfied'' = PBool True
      \<and> pget evidence ''action_executed'' = actual \<and> pget evidence ''action_required'' = actual
      \<and> pget evidence ''status'' = PStr (if truthy actual then ''selected_after_dispatch'' else ''already_satisfied'')
      \<and> pget evidence ''request_sha256'' = PStr request_sha
      \<and> py_eq (pget evidence ''reference'') (pget action ''target_memory''))"

definition frames_agree :: "pyval \<Rightarrow> pyval \<Rightarrow> pyval \<Rightarrow> pyval \<Rightarrow> bool" where
  "frames_agree before after reference receipt =
     (let f = pget before ''frame''; g = pget after ''frame'' in
      py_eq (pget before ''reference'') reference \<and> py_eq reference (pget after ''reference'')
      \<and> \<not> py_eq (pget f ''capture_id'') (pget g ''capture_id'')
      \<and> py_eq (pget f ''window_identity'') (pget g ''window_identity'')
      \<and> py_eq (pget g ''window_identity'') (pget receipt ''window_identity'')
      \<and> py_eq (pget f ''window_rect'') (pget g ''window_rect'')
      \<and> list_all (\<lambda>key. py_eq (pget (pget before ''candidate'') key) (pget (pget after ''candidate'') key))
          [''bbox'', ''click_point'', ''label'', ''source'', ''viewport_size''])"

definition selection_effect :: "pyval \<Rightarrow> pyval \<Rightarrow> pyval \<Rightarrow> pyval \<Rightarrow> bool res" where
  "selection_effect step inputs outputs receipt = (let action = pget step ''action'' in
     rbind (ensure (is_dict action) (ValueError ''selection_action_invalid'')) (\<lambda>_.
     rbind (check_selection_intent action) (\<lambda>_.
     rbind (item receipt ''row_selection_proof'') (\<lambda>evidence.
     rbind (item receipt ''action_executed'') (\<lambda>actual.
     rbind (item evidence ''binding'') (\<lambda>binding.
     rbind (request_digest action) (\<lambda>request_sha.
     if \<not> proof_head_ok evidence action actual request_sha then Inr False
     else rbind (ensure (is_dict binding) AttributeError) (\<lambda>_.
       if \<not> binding_matches binding step inputs outputs receipt then Inr False
       else rbind (ct_digest (pdel ''sha256'' evidence)) (\<lambda>sha.
         if pget evidence ''sha256'' \<noteq> PStr sha then Inr False
         else rbind (item evidence ''before'') (\<lambda>before.
           rbind (item evidence ''after'') (\<lambda>after.
           rbind (validate_selection_state before PNone) (\<lambda>original.
           rbind (validate_selection_state after original) (\<lambda>final.
           rbind (item evidence ''reference'') (\<lambda>reference.
           Inr (pget final ''selected'' = PBool True \<and> pget original ''selected'' \<noteq> actual
             \<and> frames_agree before after reference receipt)))))))))))))))"

definition selection_effect_current :: "pyval \<Rightarrow> pyval \<Rightarrow> pyval \<Rightarrow> pyval \<Rightarrow> bool res" where
  "selection_effect_current step inputs outputs receipt = refuse_errors (selection_effect step inputs outputs receipt)"

section \<open>The evidence of an image rule\<close>

definition image_bbox_ok :: "pyval \<Rightarrow> pyval \<Rightarrow> pyval \<Rightarrow> bool" where
  "image_bbox_ok bbox template roi = (case (bbox, template, roi) of
       (PList [PInt x, PInt y, PInt w, PInt h], PList [_, _, tw, th], PList [PInt rx, PInt ry, PInt rw, PInt rh]) \<Rightarrow>
         py_eq (PInt w) tw \<and> py_eq (PInt h) th \<and> rx \<le> x \<and> ry \<le> y \<and> x + w \<le> rx + rw \<and> y + h \<le> ry + rh
     | _ \<Rightarrow> False)"

definition image_proof_current :: "pyval \<Rightarrow> pyval \<Rightarrow> bool res" where
  "image_proof_current check observation =
     rbind (validate_image_check check) (\<lambda>_.
     let evidence = pget (pget observation ''values'') ''image_check''; roi = pget check ''search_roi'' in
     if \<not> is_dict evidence then Inr False
     else rbind (ct_digest check) (\<lambda>sha.
       Inr (pget observation ''source'' = PStr ''image_template''
         \<and> pget evidence ''contract_version'' = PStr ''workflow_image_match.v1''
         \<and> pget evidence ''matched'' = PBool True \<and> pget evidence ''ambiguous'' = PBool False
         \<and> pget evidence ''check_sha256'' = PStr sha
         \<and> py_eq (pget evidence ''reference_sha256'') (pget check ''reference_sha256'')
         \<and> py_eq (pget evidence ''capture_id'') (pget observation ''capture_id'')
         \<and> py_eq (pget evidence ''capture_sha256'') (pget observation ''capture_sha256'')
         \<and> py_eq (pget evidence ''threshold'') (pget check ''threshold'')
         \<and> py_eq (pget evidence ''template_bbox'') (pget check ''template_bbox'')
         \<and> py_eq (pget evidence ''search_roi'') roi
         \<and> is_float (pget evidence ''score'')
         \<and> num_between (num_rat (pget check ''threshold'')) (near64 (1000001 / 1000000)) (pget evidence ''score'')
         \<and> image_bbox_ok (pget evidence ''bbox'') (pget check ''template_bbox'') roi)))"

section \<open>The result of a rule\<close>

definition evidence_refs :: "pyval \<Rightarrow> pyval \<Rightarrow> pyval list" where
  "evidence_refs receipt observation =
     (if has_text (pget receipt ''evidence_ref'') then [pget receipt ''evidence_ref''] else [])
     @ (if has_text (pget observation ''evidence_ref'') then [pget observation ''evidence_ref''] else [])"

text \<open>\<^verbatim>\<open>_result\<close>; \<open>PNone\<close> stands for an observation that is not given.\<close>

definition rule_result :: "string \<Rightarrow> string \<Rightarrow> pyval \<Rightarrow> pyval \<Rightarrow> pydict \<Rightarrow> pyval" where
  "rule_result verdict reason receipt observation values_read = PDict [(''verdict'', PStr verdict), (''source'', PStr ''rule''),
     (''observations'', if observation = PNone then PDict [] else observation),
     (''outputs'', if verdict = ''success'' then PDict values_read else PDict []),
     (''evidence_refs'', PList (evidence_refs receipt observation)), (''reason'', PStr reason)]"

definition expected_value :: "pyval \<Rightarrow> pyval \<Rightarrow> pyval \<Rightarrow> pyval \<Rightarrow> seen res" where
  "expected_value ref inputs outputs run_id = (let bad = ValueError ''verification_expected_invalid'' in
     rbind (ensure (is_dict ref) bad) (\<lambda>_.
     let source = pget ref ''source''; name = py_str (pget ref ''name''); key = py_str (pget ref ''step_id'') @ ''.'' @ name in
     rbind (if source = PStr ''constant'' \<and> keys_are ref [''source'', ''value''] then Inr (Seen (pget ref ''value''))
       else if source = PStr ''input'' \<and> keys_are ref [''source'', ''name''] \<and> has_text (pget ref ''name'') then
         Inr (if phas inputs name then Seen (pget inputs name) else Unseen ''missing_input'')
       else if source = PStr ''output'' \<and> keys_are ref [''source'', ''step_id'', ''name''] \<and> has_text (pget ref ''step_id'')
           \<and> has_text (pget ref ''name'') then
         Inr (let entry = pget outputs key in
           if entry = PNone then Unseen ''missing_output''
           else if is_dict entry \<and> keys_are entry [''run_id'', ''value''] \<and> py_eq (pget entry ''run_id'') run_id
             then Seen (pget entry ''value'') else Unseen ''stale_output'')
       else Inl bad) (\<lambda>found. case found of
         Unseen why \<Rightarrow> Inr (Unseen why)
       | Seen v \<Rightarrow> rbind (ensure (is_scalar v) (ValueError ''verification_expected_value_invalid'')) (\<lambda>_. Inr (Seen v)))))"

definition evidence_current :: "pyval \<Rightarrow> pyval \<Rightarrow> bool" where
  "evidence_current receipt observation = (is_dict observation
     \<and> list_all (\<lambda>key. py_eq (pget observation key) (pget receipt key))
         [''run_id'', ''step_id'', ''request_id'', ''execution_request_id'']
     \<and> pget observation ''complete'' = PBool True \<and> has_text (pget observation ''capture_id'')
     \<and> pget observation ''capture_id'' \<noteq> pget receipt ''pre_capture_id''
     \<and> pget observation ''capture_id'' = pget receipt ''post_capture_id''
     \<and> digest_ok (pget observation ''capture_sha256'')
     \<and> pget observation ''capture_sha256'' = pget receipt ''post_capture_sha256''
     \<and> py_eq (pget observation ''window_identity'') (pget receipt ''window_identity'')
     \<and> py_eq (pget observation ''scope_id'') (pget receipt ''scope_id'')
     \<and> has_text (pget observation ''source'') \<and> has_text (pget observation ''evidence_ref'')
     \<and> is_dict (pget observation ''values''))"

definition observed_key :: "string \<Rightarrow> string" where
  "observed_key kind = (if kind = ''field_equals'' then ''field_value''
     else if kind \<in> {''text_equals'', ''text_contains''} then ''text'' else ''target_present'')"

definition observation_value :: "string \<Rightarrow> pyval \<Rightarrow> pyval option" where
  "observation_value kind observation =
     (let key = observed_key kind; seen = pget observation ''values''; actual = pget seen key in
      if phas seen key \<and> (kind \<in> {''text_equals'', ''text_contains''} \<longrightarrow> is_str actual)
        \<and> (kind \<in> {''target_present'', ''target_absent''} \<longrightarrow> is_bool actual)
        \<and> (kind = ''field_equals'' \<longrightarrow> is_scalar actual)
      then Some actual else None)"

definition read_value :: "pyval \<Rightarrow> pyval \<Rightarrow> pyval option" where
  "read_value read_spec observation =
     (let method = pget read_spec ''method''; key = (if method = PStr ''uia_value'' then ''field_value'' else ''text'');
          seen = pget observation ''values'' in
      if pget observation ''source'' = method \<and> phas seen key \<and> is_scalar (pget seen key) then Some (pget seen key) else None)"

fun same_type :: "pyval \<Rightarrow> pyval \<Rightarrow> bool" where
  "same_type (PStr _) v = is_str v"
| "same_type (PBool _) v = is_bool v"
| "same_type (PInt _) v = is_int v"
| "same_type (PFloat _) v = is_float v"
| "same_type (PList _) v = is_list v"
| "same_type (PDict _) v = is_dict v"
| "same_type PNone v = (v = PNone)"

definition output_type_ok :: "pyval \<Rightarrow> string \<Rightarrow> bool res" where
  "output_type_ok v kind =
     (if kind = ''text'' then Inr (is_str v)
      else if kind = ''number'' then if is_int v \<or> is_float v then isfinite_num v else Inr False
      else Inr (kind = ''boolean'' \<and> is_bool v))"

definition read_methods :: "string list" where
  "read_methods = [''uia_value'', ''visible_text'', ''agent_read'']"

section \<open>Judging the rules of a step\<close>

text \<open>What a part of the judgment gives: a verdict that is final, or the values read so far.\<close>

datatype judged = Final string string | Reading pydict

definition check_verification_rule :: "pyval \<Rightarrow> unit res" where
  "check_verification_rule v = (let bad = ValueError ''verification_rule_invalid'' in
     if v = PNone then Inr ()
     else rbind (ensure (is_dict v) bad) (\<lambda>_.
       rbind (in_names (pget v ''kind'') verification_kinds) (\<lambda>known. ensure known bad)))"

definition check_read_rule :: "pyval \<Rightarrow> unit res" where
  "check_read_rule v = (let bad = ValueError ''read_spec_invalid'' in
     if v = PNone then Inr ()
     else rbind (ensure (is_dict v \<and> keys_within v [''method'', ''output_name'', ''target'']) bad) (\<lambda>_.
       rbind (in_names (pget v ''method'') read_methods) (\<lambda>known.
       ensure (known \<and> has_text (pget v ''output_name'')) bad)))"

text \<open>The outputs of this run, without their run id.\<close>

definition own_values :: "pyval \<Rightarrow> pyval \<Rightarrow> pyval" where
  "own_values outputs run_id = PDict (map (\<lambda>(k, v). (k, pget v ''value''))
     (filter (\<lambda>(_, v). is_dict v \<and> py_eq (pget v ''run_id'') run_id \<and> phas v ''value'') (pitems outputs)))"

text \<open>An agent judgment is left to the agent, unless an image rule without outputs decides it.\<close>

definition judgment_result :: "pyval \<Rightarrow> pyval \<Rightarrow> pyval \<Rightarrow> pyval \<Rightarrow> pyval \<Rightarrow> (string \<times> string) res" where
  "judgment_result step inputs outputs run_id observation =
     (let check = pget (pget step ''verification'') ''image_check''; agent = (''uncertain'', ''agent_judgment_required'') in
      if check = PNone \<or> truthy (pget step ''outputs'') \<or> phas step ''read_spec'' then Inr agent
      else rbind (get_or_raise (pget_default step ''action'' (PDict [])) ''kind'') (\<lambda>kind.
        if kind = PStr ''read_text'' then Inr agent
        else rbind (image_proof_current check observation) (\<lambda>shown.
          if \<not> shown then Inr agent
          else rbind (trial_conditions (plist (pget step ''success_conditions'')) inputs (own_values outputs run_id)
              (pget observation ''values'')) (\<lambda>condition.
            Inr (if condition \<noteq> ''true'' then (''uncertain'', ''image_success_conditions_require_agent'')
              else (''success'', ''image_rule_verified''))))))"

definition rule_passes :: "string \<Rightarrow> pyval \<Rightarrow> pyval \<Rightarrow> bool res" where
  "rule_passes kind expected actual =
     (if kind = ''text_contains'' then
        rbind (ensure (is_str expected) (ValueError ''verification_contains_expected_invalid'')) (\<lambda>_.
        Inr (occurs (py_str expected) (py_str actual)))
      else if kind \<in> {''field_equals'', ''text_equals''} then Inr (same_type actual expected \<and> py_eq actual expected)
      else Inr (actual = PBool (kind = ''target_present'')))"

definition rule_expected :: "pyval \<Rightarrow> string \<Rightarrow> pyval \<Rightarrow> pyval \<Rightarrow> pyval \<Rightarrow> seen res" where
  "rule_expected verification kind inputs outputs run_id =
     (if kind \<in> {''field_equals'', ''text_equals'', ''text_contains''} then
        rbind (ensure (phas verification ''expected'') (ValueError ''verification_expected_missing'')) (\<lambda>_.
        expected_value (pget verification ''expected'') inputs outputs run_id)
      else Inr (Seen PNone))"

definition judge_verification :: "pyval \<Rightarrow> pyval \<Rightarrow> pyval \<Rightarrow> pyval \<Rightarrow> pyval \<Rightarrow> judged res" where
  "judge_verification verification inputs outputs run_id observation =
     (if verification = PNone then Inr (Reading [])
      else let kind = py_str (pget verification ''kind''); name = pget verification ''output_name'' in
        rbind (rule_expected verification kind inputs outputs run_id) (\<lambda>expected. case expected of
          Unseen why \<Rightarrow> Inr (Final ''uncertain'' why)
        | Seen wanted \<Rightarrow> (case observation_value kind observation of
              None \<Rightarrow> Inr (Final ''uncertain'' ''observed_value_missing'')
            | Some actual \<Rightarrow> rbind (rule_passes kind wanted actual) (\<lambda>passed.
                if \<not> passed then Inr (Final ''failure'' ''observed_value_conflict'')
                else if name = PNone then Inr (Reading [])
                else rbind (ensure (has_text name) (ValueError ''verification_output_name_invalid'')) (\<lambda>_.
                  Inr (Reading [(py_str name, actual)]))))))"

definition judge_reading :: "pyval \<Rightarrow> pyval \<Rightarrow> pydict \<Rightarrow> judged" where
  "judge_reading read_spec observation captured =
     (if read_spec = PNone then Reading captured
      else let name = py_str (pget read_spec ''output_name'') in
        case read_value read_spec observation of
          None \<Rightarrow> Final ''uncertain'' ''read_observation_missing''
        | Some actual \<Rightarrow> (case map_of captured name of
              Some old \<Rightarrow> if same_type old actual \<and> py_eq old actual then Reading (dput name actual captured)
                else Final ''failure'' ''read_output_conflict''
            | None \<Rightarrow> Reading (dput name actual captured)))"

definition declared_outputs_of :: "pyval \<Rightarrow> (string \<times> string) list res" where
  "declared_outputs_of step =
     (let declarations = pget_default step ''outputs'' (PList []); bad = ValueError ''verification_output_declarations_invalid'';
          named = map (\<lambda>e. (py_str (pget e ''name''), py_str (pget e ''type''))) (plist declarations) in
      rbind (ensure (is_list declarations) bad) (\<lambda>_.
      rbind (each (\<lambda>e. rbind (ensure (is_dict e \<and> keys_are e [''name'', ''type''] \<and> has_text (pget e ''name'')) bad) (\<lambda>_.
          rbind (in_names (pget e ''type'') program_types) (\<lambda>known. ensure known bad))) (plist declarations)) (\<lambda>_.
      rbind (ensure (distinct (map fst named)) bad) (\<lambda>_. Inr named))))"

fun outputs_fit :: "(string \<times> string) list \<Rightarrow> pydict \<Rightarrow> bool res" where
  "outputs_fit [] captured = Inr True"
| "outputs_fit ((name, kind) # declared) captured =
     rbind (output_type_ok (dict_get captured name) kind) (\<lambda>ok. if ok then outputs_fit declared captured else Inr False)"

text \<open>\<^verbatim>\<open>_verify_rules\<close>: \<open>current\<close> for the effect seen now, without an execution receipt.\<close>

definition finish_rules :: "pyval \<Rightarrow> pyval \<Rightarrow> pyval \<Rightarrow> bool \<Rightarrow> judged \<Rightarrow> pyval res" where
  "finish_rules step receipt observation current judged = (case judged of
       Final verdict reason \<Rightarrow> Inr (rule_result verdict reason receipt observation [])
     | Reading captured \<Rightarrow>
         rbind (declared_outputs_of step) (\<lambda>declared.
         rbind (if set (map fst captured) = set (map fst declared) then outputs_fit declared captured else Inr False) (\<lambda>fit.
         Inr (if fit then rule_result ''success'' (if current then ''current_effect_rule_verified'' else ''rule_verified'')
             receipt observation captured
           else rule_result ''uncertain'' ''required_output_missing_or_wrong_type'' receipt observation []))))"

definition apply_rules :: "pyval \<Rightarrow> pyval \<Rightarrow> pyval \<Rightarrow> pyval \<Rightarrow> pyval \<Rightarrow> pyval \<Rightarrow> bool \<Rightarrow> pyval res" where
  "apply_rules step inputs outputs receipt observation run_id current =
     (let read_spec = pget step ''read_spec'' in
      if current \<and> pget read_spec ''method'' = PStr ''agent_read'' then
        Inr (rule_result ''uncertain'' ''agent_read_required'' receipt observation [])
      else rbind (judge_verification (pget step ''verification'') inputs outputs run_id observation) (\<lambda>judged.
        finish_rules step receipt observation current (case judged of
            Final verdict reason \<Rightarrow> Final verdict reason
          | Reading captured \<Rightarrow> judge_reading read_spec observation captured)))"

definition verify_rules :: "pyval \<Rightarrow> pyval \<Rightarrow> pyval \<Rightarrow> pyval \<Rightarrow> pyval \<Rightarrow> pyval \<Rightarrow> bool \<Rightarrow> pyval res" where
  "verify_rules step inputs outputs receipt observation run_id current =
     (let verification = pget step ''verification''; read_spec = pget step ''read_spec'' in
      if verification = PNone \<and> read_spec = PNone then
        Inr (rule_result ''uncertain'' ''verification_rule_missing'' receipt observation [])
      else rbind (check_verification_rule verification) (\<lambda>_.
        rbind (check_read_rule read_spec) (\<lambda>_.
        if pget verification ''kind'' = PStr ''agent_judgment'' then
          rbind (judgment_result step inputs outputs run_id observation) (\<lambda>(verdict, reason).
          Inr (rule_result verdict reason receipt observation []))
        else apply_rules step inputs outputs receipt observation run_id current)))"

section \<open>A step with its receipt\<close>

definition check_receipt_head :: "pyval \<Rightarrow> pyval \<Rightarrow> unit res" where
  "check_receipt_head step receipt = (let bad = ValueError ''verification_receipt_identity_invalid'';
       status = ValueError ''verification_receipt_status_invalid'' in
     rbind (ensure (list_all (\<lambda>key. has_text (pget receipt key)) [''run_id'', ''step_id'', ''request_id'',
         ''execution_request_id'', ''pre_capture_id'', ''post_capture_id'', ''scope_id'']
       \<and> pget receipt ''step_id'' = pget step ''step_id'') bad) (\<lambda>_.
     rbind (window_identity_ok (pget receipt ''window_identity'')) (\<lambda>known.
     rbind (ensure known bad) (\<lambda>_.
     rbind (in_names (pget receipt ''status'') [''completed'', ''failed'', ''pending'']) (\<lambda>listed.
     ensure (listed \<and> is_bool (pget receipt ''action_executed'')) status)))))"

definition input_proven :: "pyval \<Rightarrow> pyval \<Rightarrow> pyval \<Rightarrow> pyval \<Rightarrow> string option res" where
  "input_proven step inputs outputs receipt =
     (if selection_requested (pget step ''action'') then
        rbind (selection_effect_current step inputs outputs receipt) (\<lambda>shown.
        Inr (if shown then None else Some ''selection_effect_unproven''))
      else rbind (get_or_raise (pget_default step ''action'' (PDict [])) ''kind'') (\<lambda>kind.
        Inr (if kind \<noteq> PStr ''read_text'' \<and> pget receipt ''action_executed'' \<noteq> PBool True
          then Some ''input_not_executed'' else None)))"

definition verify_step :: "pyval \<Rightarrow> pyval \<Rightarrow> pyval \<Rightarrow> pyval \<Rightarrow> pyval \<Rightarrow> pyval res" where
  "verify_step step inputs outputs receipt observation =
     rbind (ensure (is_dict step \<and> has_text (pget step ''step_id'') \<and> is_dict inputs \<and> is_dict outputs \<and> is_dict receipt)
       (ValueError ''verification_input_invalid'')) (\<lambda>_.
     rbind (check_receipt_head step receipt) (\<lambda>_.
     if \<not> (digest_ok (pget receipt ''post_capture_sha256'') \<and> has_text (pget receipt ''evidence_ref'')) then
       Inr (rule_result ''uncertain'' ''receipt_evidence_missing'' receipt PNone [])
     else if pget receipt ''status'' = PStr ''failed'' then
       Inr (rule_result ''failure'' ''execution_failed'' receipt PNone [])
     else if pget receipt ''status'' = PStr ''pending'' then
       Inr (rule_result ''uncertain'' ''execution_pending'' receipt PNone [])
     else rbind (input_proven step inputs outputs receipt) (\<lambda>unproven. case unproven of
         Some why \<Rightarrow> Inr (rule_result ''failure'' why receipt PNone [])
       | None \<Rightarrow>
           if \<not> evidence_current receipt observation then
             Inr (rule_result ''uncertain'' ''current_observation_missing_or_mismatched'' receipt
               (if is_dict observation then observation else PNone) [])
           else verify_rules step inputs outputs receipt observation (pget receipt ''run_id'') False)))"

section \<open>The effect a step has now\<close>

definition effect_fields :: "string list" where
  "effect_fields = [''contract_version'', ''source_run_id'', ''source_step_id'', ''source_execution_request_id'',
     ''source_receipt_sha256'', ''source_settlement_sha256'', ''source_program_sha256'', ''source_action_executed'',
     ''session_name'', ''request_id'', ''capture_id'', ''capture_sha256'', ''window_identity'', ''scope_id'', ''evidence_ref'']"

definition observed_fields :: "string list" where
  "observed_fields = [''session_name'', ''step_id'', ''request_id'', ''capture_id'', ''capture_sha256'', ''window_identity'',
     ''scope_id'', ''complete'', ''source'', ''values'', ''evidence_ref'']"

definition check_effect :: "pyval \<Rightarrow> pyval \<Rightarrow> unit res" where
  "check_effect step effect = (let bad = ValueError ''verification_current_effect_binding_invalid'';
       executed = pget effect ''source_action_executed'' in
     rbind (ensure (list_all (\<lambda>key. has_text (pget effect key)) [''source_run_id'', ''source_step_id'',
           ''source_execution_request_id'', ''request_id'', ''capture_id'', ''scope_id'', ''evidence_ref'']
         \<and> pget effect ''source_step_id'' = pget step ''step_id''
         \<and> list_all (\<lambda>key. digest_ok (pget effect key)) [''source_receipt_sha256'', ''source_settlement_sha256'',
           ''source_program_sha256'', ''capture_sha256'']
         \<and> str_ok (\<lambda>s. take 8 s = ''session-'' \<and> hex_re 32 (drop 8 s)) (pget effect ''session_name'')) bad) (\<lambda>_.
     rbind (window_identity_ok (pget effect ''window_identity'')) (\<lambda>known.
     ensure (known \<and> (executed = PNone \<or> is_bool executed)) bad)))"

definition effect_current :: "pyval \<Rightarrow> pyval \<Rightarrow> bool" where
  "effect_current effect observation = (is_dict observation \<and> keys_are observation observed_fields
     \<and> pget observation ''step_id'' = pget effect ''source_step_id''
     \<and> list_all (\<lambda>key. py_eq (pget observation key) (pget effect key)) [''session_name'', ''request_id'', ''capture_id'',
         ''capture_sha256'', ''window_identity'', ''scope_id'', ''evidence_ref'']
     \<and> pget observation ''complete'' = PBool True \<and> has_text (pget observation ''source'')
     \<and> is_dict (pget observation ''values''))"

definition verify_current_effect :: "pyval \<Rightarrow> pyval \<Rightarrow> pyval \<Rightarrow> pyval \<Rightarrow> pyval \<Rightarrow> pyval res" where
  "verify_current_effect step inputs outputs effect observation =
     rbind (ensure (is_dict step \<and> has_text (pget step ''step_id'') \<and> is_dict inputs \<and> is_dict outputs
         \<and> is_dict effect \<and> keys_are effect effect_fields
         \<and> pget effect ''contract_version'' = PStr ''workflow_current_effect.v1'')
       (ValueError ''verification_current_effect_invalid'')) (\<lambda>_.
     rbind (check_effect step effect) (\<lambda>_.
     if \<not> effect_current effect observation then
       Inr (rule_result ''uncertain'' ''current_observation_missing_or_mismatched'' effect
         (if is_dict observation then observation else PNone) [])
     else verify_rules step inputs outputs effect observation (pget effect ''source_run_id'') True))"

section \<open>What a verdict of success rests on\<close>

lemma rule_result_get:
  "pget (rule_result verdict reason receipt observation captured) ''verdict'' = PStr verdict"
  "pget (rule_result verdict reason receipt observation captured) ''source'' = PStr ''rule''"
  "pget (rule_result verdict reason receipt observation captured) ''outputs''
    = (if verdict = ''success'' then PDict captured else PDict [])"
  "pget (rule_result verdict reason receipt observation captured) ''observations''
    = (if observation = PNone then PDict [] else observation)"
  by (simp_all add: rule_result_def dict_get_def)

text \<open>The outputs of a result are exactly the declared ones, each with its type.\<close>

definition outputs_declared :: "pyval \<Rightarrow> pyval \<Rightarrow> bool" where
  "outputs_declared step outputs = (set (pkeys outputs) = set (item_texts ''name'' (plist (pget step ''outputs'')))
     \<and> (\<forall>e \<in> set (plist (pget step ''outputs'')).
          output_type_ok (pget outputs (py_str (pget e ''name''))) (py_str (pget e ''type'')) = Inr True))"

lemma outputs_fit_iff:
  "outputs_fit declared captured = Inr True \<longleftrightarrow>
    (\<forall>(name, kind) \<in> set declared. output_type_ok (dict_get captured name) kind = Inr True)"
  by (induction declared captured rule: outputs_fit.induct) (auto simp: rbind_eq_Inr_iff split: if_splits)

lemma declared_outputs_of_iff:
  "declared_outputs_of step = Inr declared \<Longrightarrow>
    declared = map (\<lambda>e. (py_str (pget e ''name''), py_str (pget e ''type''))) (plist (pget step ''outputs''))"
  unfolding declared_outputs_of_def Let_def checks_iff
  by (cases "phas step ''outputs''") (auto simp: pget_default_def not_phas_pget)

lemma finish_success:
  assumes "finish_rules step receipt observation current judged = Inr r" and "pget r ''verdict'' = PStr ''success''"
    and "\<And>verdict reason. judged = Final verdict reason \<Longrightarrow> verdict \<noteq> ''success''"
  shows "\<exists>captured. judged = Reading captured \<and> pget r ''outputs'' = PDict captured \<and> outputs_declared step (PDict captured)"
proof (cases judged)
  case (Final verdict reason)
  with assms show ?thesis by (auto simp: finish_rules_def rule_result_get)
next
  case (Reading captured)
  from assms(1) obtain declared fit where d: "declared_outputs_of step = Inr declared"
    and f: "(if set (map fst captured) = set (map fst declared) then outputs_fit declared captured else Inr False) = Inr fit"
    and r: "r = (if fit then rule_result ''success'' (if current then ''current_effect_rule_verified'' else ''rule_verified'')
             receipt observation captured
           else rule_result ''uncertain'' ''required_output_missing_or_wrong_type'' receipt observation [])"
    by (auto simp: finish_rules_def Reading rbind_eq_Inr_iff)
  have fit: "fit" using assms(2) r by (auto simp: rule_result_get split: if_splits)
  with f have keys: "set (map fst captured) = set (map fst declared)" and typed: "outputs_fit declared captured = Inr True"
    by (auto split: if_splits)
  have "outputs_declared step (PDict captured)"
    unfolding outputs_declared_def using keys typed[unfolded outputs_fit_iff] declared_outputs_of_iff[OF d]
    by (auto simp: item_texts_def image_image)
  then show ?thesis using Reading fit r by (simp add: rule_result_get)
qed

lemma judged_not_success:
  assumes "judge_verification verification inputs outputs run_id observation = Inr (Final verdict reason)"
  shows "verdict \<noteq> ''success''"
proof -
  let ?kind = "py_str (pget verification ''kind'')"
  from assms obtain expected where rest: "(case expected of
          Unseen why \<Rightarrow> Inr (Final ''uncertain'' why)
        | Seen wanted \<Rightarrow> (case observation_value ?kind observation of
              None \<Rightarrow> Inr (Final ''uncertain'' ''observed_value_missing'')
            | Some actual \<Rightarrow> rbind (rule_passes ?kind wanted actual) (\<lambda>passed.
                if \<not> passed then Inr (Final ''failure'' ''observed_value_conflict'')
                else if pget verification ''output_name'' = PNone then Inr (Reading [])
                else rbind (ensure (has_text (pget verification ''output_name'')) (ValueError ''verification_output_name_invalid''))
                  (\<lambda>_. Inr (Reading [(py_str (pget verification ''output_name''), actual)]))))) = Inr (Final verdict reason)"
    by (auto simp: judge_verification_def Let_def rbind_eq_Inr_iff split: if_split_asm)
  then show ?thesis
    by (cases expected; cases "observation_value ?kind observation") (auto simp: rbind_eq_Inr_iff split: if_split_asm)
qed

lemma read_not_success: "judge_reading read_spec observation captured = Final verdict reason \<Longrightarrow> verdict \<noteq> ''success''"
  by (auto simp: judge_reading_def Let_def split: if_split_asm option.split_asm)

lemma rules_success:
  assumes "verify_rules step inputs outputs receipt observation run_id current = Inr r" and "pget r ''verdict'' = PStr ''success''"
  shows "outputs_declared step (pget r ''outputs'')"
    and "current \<Longrightarrow> pget (pget step ''read_spec'') ''method'' = PStr ''agent_read'' \<Longrightarrow>
      pget (pget step ''verification'') ''kind'' = PStr ''agent_judgment''"
    and "pget (pget step ''verification'') ''kind'' \<noteq> PStr ''agent_judgment'' \<Longrightarrow> pget step ''verification'' \<noteq> PNone \<Longrightarrow>
      \<exists>captured. judge_verification (pget step ''verification'') inputs outputs run_id observation = Inr (Reading captured)"
proof -
  let ?v = "pget step ''verification''"
  have some: "\<not> (?v = PNone \<and> pget step ''read_spec'' = PNone)"
    using assms by (auto simp: verify_rules_def rule_result_get)
  show "outputs_declared step (pget r ''outputs'')"
  proof (cases "pget ?v ''kind'' = PStr ''agent_judgment''")
    case True
    then obtain verdict reason where j: "judgment_result step inputs outputs run_id observation = Inr (verdict, reason)"
      and r: "r = rule_result verdict reason receipt observation []"
      using assms(1) some by (auto simp: verify_rules_def Let_def rbind_eq_Inr_iff)
    from assms(2) r have "verdict = ''success''" by (simp add: rule_result_get)
    with j have "\<not> truthy (pget step ''outputs'')"
      by (auto simp: judgment_result_def Let_def rbind_eq_Inr_iff split: if_splits)
    then have "plist (pget step ''outputs'') = []" by (cases "pget step ''outputs''") auto
    then show ?thesis using r \<open>verdict = ''success''\<close> by (simp add: rule_result_get outputs_declared_def item_texts_def)
  next
    case False
    then have "apply_rules step inputs outputs receipt observation run_id current = Inr r"
      using assms(1) some by (auto simp: verify_rules_def Let_def rbind_eq_Inr_iff)
    then obtain judged where j: "judge_verification ?v inputs outputs run_id observation = Inr judged"
      and f: "finish_rules step receipt observation current (case judged of
            Final verdict reason \<Rightarrow> Final verdict reason
          | Reading captured \<Rightarrow> judge_reading (pget step ''read_spec'') observation captured) = Inr r"
      using assms(2) by (auto simp: apply_rules_def Let_def rbind_eq_Inr_iff rule_result_get split: if_splits)
    from finish_success[OF f assms(2)] j show ?thesis
      using judged_not_success read_not_success by (cases judged) fastforce+
  qed
next
  assume "current" "pget (pget step ''read_spec'') ''method'' = PStr ''agent_read''"
  then show "pget (pget step ''verification'') ''kind'' = PStr ''agent_judgment''"
    using assms by (auto simp: verify_rules_def apply_rules_def Let_def rbind_eq_Inr_iff rule_result_get split: if_splits)
next
  assume k: "pget (pget step ''verification'') ''kind'' \<noteq> PStr ''agent_judgment''" "pget step ''verification'' \<noteq> PNone"
  then have a: "apply_rules step inputs outputs receipt observation run_id current = Inr r"
    using assms(1) by (auto simp: verify_rules_def Let_def rbind_eq_Inr_iff)
  then obtain judged where j: "judge_verification (pget step ''verification'') inputs outputs run_id observation = Inr judged"
    and f: "finish_rules step receipt observation current (case judged of
          Final verdict reason \<Rightarrow> Final verdict reason
        | Reading captured \<Rightarrow> judge_reading (pget step ''read_spec'') observation captured) = Inr r"
    using assms(2) by (auto simp: apply_rules_def Let_def rbind_eq_Inr_iff rule_result_get split: if_splits)
  show "\<exists>captured. judge_verification (pget step ''verification'') inputs outputs run_id observation = Inr (Reading captured)"
  proof (cases judged)
    case (Final verdict reason)
    with f assms(2) judged_not_success[of _ _ _ _ _ verdict reason] j show ?thesis
      by (auto simp: finish_rules_def rule_result_get)
  next
    case (Reading captured)
    with j show ?thesis by blast
  qed
qed

lemma step_success:
  assumes "verify_step step inputs outputs receipt observation = Inr r" and "pget r ''verdict'' = PStr ''success''"
  shows "check_receipt_head step receipt = Inr ()" and "pget receipt ''status'' = PStr ''completed''"
    and "input_proven step inputs outputs receipt = Inr None" and "evidence_current receipt observation"
    and "verify_rules step inputs outputs receipt observation (pget receipt ''run_id'') False = Inr r"
proof -
  from assms(1) have head: "check_receipt_head step receipt = Inr ()" unfolding verify_step_def checks_iff by blast
  then show "check_receipt_head step receipt = Inr ()" .
  have listed: "one_of (pget receipt ''status'') [''completed'', ''failed'', ''pending'']"
    using head unfolding check_receipt_head_def Let_def checks_iff by (auto simp: one_of_iff in_names_True_iff)
  from assms have unproven: "input_proven step inputs outputs receipt = Inr (Some why) \<Longrightarrow> False" for why
    unfolding verify_step_def checks_iff by (auto simp: rule_result_get split: if_split_asm)
  have steps: "pget receipt ''status'' \<noteq> PStr ''failed'' \<and> pget receipt ''status'' \<noteq> PStr ''pending''
    \<and> input_proven step inputs outputs receipt = Inr None \<and> evidence_current receipt observation
    \<and> verify_rules step inputs outputs receipt observation (pget receipt ''run_id'') False = Inr r"
  proof -
    from assms obtain proven where "input_proven step inputs outputs receipt = Inr proven"
      and "pget receipt ''status'' \<noteq> PStr ''failed'' \<and> pget receipt ''status'' \<noteq> PStr ''pending''"
      unfolding verify_step_def checks_iff by (auto simp: rbind_eq_Inr_iff rule_result_get split: if_split_asm)
    moreover from this(1) unproven have "proven = None" by (cases proven) auto
    ultimately show ?thesis using assms unfolding verify_step_def checks_iff
      by (auto simp: rbind_eq_Inr_iff rule_result_get split: if_split_asm)
  qed
  show "pget receipt ''status'' = PStr ''completed''" using listed steps by (auto simp: one_of_iff)
  show "input_proven step inputs outputs receipt = Inr None" "evidence_current receipt observation"
    "verify_rules step inputs outputs receipt observation (pget receipt ''run_id'') False = Inr r" using steps by blast+
qed

text \<open>C36: a step is judged successful only from a completed receipt of the same run, step and request, whose input was
  sent (or needs none), and from a complete observation of the capture taken after the input in the same window; and
  then exactly the declared outputs are given, each with its type.\<close>

theorem verified_success_is_current:
  assumes "verify_step step inputs outputs receipt observation = Inr r" and "pget r ''verdict'' = PStr ''success''"
  shows "pget receipt ''status'' = PStr ''completed'' \<and> pget receipt ''step_id'' = pget step ''step_id''
    \<and> (pget (pget step ''action'') ''kind'' = PStr ''read_text'' \<or> pget receipt ''action_executed'' = PBool True
        \<or> selection_effect_current step inputs outputs receipt = Inr True)
    \<and> list_all (\<lambda>key. py_eq (pget observation key) (pget receipt key)) [''run_id'', ''step_id'', ''request_id'', ''execution_request_id'']
    \<and> pget observation ''capture_id'' = pget receipt ''post_capture_id''
    \<and> pget observation ''capture_id'' \<noteq> pget receipt ''pre_capture_id''
    \<and> pget observation ''capture_sha256'' = pget receipt ''post_capture_sha256''
    \<and> py_eq (pget observation ''window_identity'') (pget receipt ''window_identity'')
    \<and> pget observation ''complete'' = PBool True \<and> outputs_declared step (pget r ''outputs'')"
proof -
  note parts = step_success[OF assms]
  have id: "pget receipt ''step_id'' = pget step ''step_id''"
    using parts(1) unfolding check_receipt_head_def Let_def checks_iff by blast
  have sent: "pget (pget step ''action'') ''kind'' = PStr ''read_text'' \<or> pget receipt ''action_executed'' = PBool True
      \<or> selection_effect_current step inputs outputs receipt = Inr True"
  proof (cases "selection_requested (pget step ''action'')")
    case True
    then show ?thesis using parts(3) by (auto simp: input_proven_def rbind_eq_Inr_iff split: if_splits)
  next
    case False
    then obtain kind where "get_or_raise (pget_default step ''action'' (PDict [])) ''kind'' = Inr kind"
      and "kind = PStr ''read_text'' \<or> pget receipt ''action_executed'' = PBool True"
      using parts(3) by (auto simp: input_proven_def rbind_eq_Inr_iff split: if_splits)
    then show ?thesis
      by (cases "phas step ''action''") (auto simp: pget_default_def get_or_raise_def dict_get_def split: pyval.splits)
  qed
  show ?thesis using parts(2,4) id sent rules_success(1)[OF parts(5) assms(2)] unfolding evidence_current_def by blast
qed

lemma judged_value:
  assumes "judge_verification verification inputs outputs run_id observation = Inr (Reading captured)"
    and "verification \<noteq> PNone" and "pget verification ''kind'' = PStr kind"
    and "kind \<in> {''field_equals'', ''text_equals'', ''text_contains''}"
  obtains wanted actual where "expected_value (pget verification ''expected'') inputs outputs run_id = Inr (Seen wanted)"
    and "observation_value kind observation = Some actual" and "rule_passes kind wanted actual = Inr True"
proof -
  from assms obtain expected where e: "rule_expected verification kind inputs outputs run_id = Inr expected"
    and rest: "(case expected of
          Unseen why \<Rightarrow> Inr (Final ''uncertain'' why)
        | Seen wanted \<Rightarrow> (case observation_value kind observation of
              None \<Rightarrow> Inr (Final ''uncertain'' ''observed_value_missing'')
            | Some actual \<Rightarrow> rbind (rule_passes kind wanted actual) (\<lambda>passed.
                if \<not> passed then Inr (Final ''failure'' ''observed_value_conflict'')
                else if pget verification ''output_name'' = PNone then Inr (Reading [])
                else rbind (ensure (has_text (pget verification ''output_name'')) (ValueError ''verification_output_name_invalid''))
                  (\<lambda>_. Inr (Reading [(py_str (pget verification ''output_name''), actual)]))))) = Inr (Reading captured)"
    by (auto simp: judge_verification_def Let_def rbind_eq_Inr_iff)
  have "expected_value (pget verification ''expected'') inputs outputs run_id = Inr expected"
    using e unfolding rule_expected_def if_P[OF assms(4)] checks_iff by blast
  with rest show thesis using that
    by (auto simp: rbind_eq_Inr_iff split: seen.split_asm option.split_asm if_split_asm)
qed

lemma expected_output_run:
  assumes "expected_value ref inputs outputs run_id = Inr (Seen wanted)" and "pget ref ''source'' = PStr ''output''"
  shows "py_eq (pget (pget outputs (py_str (pget ref ''step_id'') @ ''.'' @ py_str (pget ref ''name''))) ''run_id'') run_id"
  using assms unfolding expected_value_def Let_def
  by (auto simp: rbind_eq_Inr_iff split: if_split_asm seen.split_asm)

text \<open>where a rule compares a value, success means that the observed value is the expected one (or contains it); an
  expected output was written by the same run.\<close>

theorem verified_value_matches:
  assumes "verify_step step inputs outputs receipt observation = Inr r" and "pget r ''verdict'' = PStr ''success''"
    and "verification = pget step ''verification''" and "pget verification ''kind'' = PStr kind"
    and "kind \<in> {''field_equals'', ''text_equals'', ''text_contains''}"
  shows "\<exists>wanted actual. expected_value (pget verification ''expected'') inputs outputs (pget receipt ''run_id'') = Inr (Seen wanted)
    \<and> actual = pget (pget observation ''values'') (if kind = ''field_equals'' then ''field_value'' else ''text'')
    \<and> (if kind = ''text_contains'' then \<exists>part whole. wanted = PStr part \<and> actual = PStr whole \<and> occurs part whole
        else same_type actual wanted \<and> py_eq actual wanted)
    \<and> (pget (pget verification ''expected'') ''source'' = PStr ''output'' \<longrightarrow>
        py_eq (pget (pget outputs (py_str (pget (pget verification ''expected'') ''step_id'') @ ''.''
          @ py_str (pget (pget verification ''expected'') ''name''))) ''run_id'') (pget receipt ''run_id''))"
proof -
  note parts = step_success[OF assms(1,2)]
  have v: "verification \<noteq> PNone" and k: "pget verification ''kind'' \<noteq> PStr ''agent_judgment''"
    using assms(4,5) by auto
  from rules_success(3)[OF parts(5) assms(2)] v k obtain captured where
    "judge_verification verification inputs outputs (pget receipt ''run_id'') observation = Inr (Reading captured)"
    unfolding assms(3) by blast
  from judged_value[OF this v assms(4,5)] obtain wanted actual where
    w: "expected_value (pget verification ''expected'') inputs outputs (pget receipt ''run_id'') = Inr (Seen wanted)"
    and a: "observation_value kind observation = Some actual" and p: "rule_passes kind wanted actual = Inr True" .
  from a assms(5) have actual: "actual = pget (pget observation ''values'') (if kind = ''field_equals'' then ''field_value'' else ''text'')"
    and str: "kind \<noteq> ''field_equals'' \<longrightarrow> is_str actual"
    by (auto simp: observation_value_def observed_key_def Let_def split: if_split_asm)
  have passed: "if kind = ''text_contains'' then \<exists>part whole. wanted = PStr part \<and> actual = PStr whole \<and> occurs part whole
      else same_type actual wanted \<and> py_eq actual wanted"
    using p str assms(5) by (auto simp: rule_passes_def rbind_eq_Inr_iff is_type_iff)
  show ?thesis using w actual passed expected_output_run[OF w] by blast
qed

text \<open>the effect seen now counts as a success only for the step it is bound to, in a complete observation of the bound
  capture and window; it never stands in for a value that the agent must read.\<close>

theorem effect_success_is_current:
  assumes "verify_current_effect step inputs outputs effect observation = Inr r" and "pget r ''verdict'' = PStr ''success''"
  shows "pget effect ''source_step_id'' = pget step ''step_id'' \<and> pget observation ''step_id'' = pget step ''step_id''
    \<and> list_all (\<lambda>key. py_eq (pget observation key) (pget effect key))
        [''session_name'', ''request_id'', ''capture_id'', ''capture_sha256'', ''window_identity'', ''scope_id'', ''evidence_ref'']
    \<and> pget observation ''complete'' = PBool True
    \<and> (pget (pget step ''read_spec'') ''method'' \<noteq> PStr ''agent_read''
        \<or> pget (pget step ''verification'') ''kind'' = PStr ''agent_judgment'')
    \<and> outputs_declared step (pget r ''outputs'')"
proof -
  have checked: "check_effect step effect = Inr ()" using assms(1) unfolding verify_current_effect_def checks_iff by blast
  have now: "effect_current effect observation"
    and rules: "verify_rules step inputs outputs effect observation (pget effect ''source_run_id'') True = Inr r"
    using assms unfolding verify_current_effect_def checks_iff by (auto simp: rule_result_get split: if_split_asm)
  have id: "pget effect ''source_step_id'' = pget step ''step_id''"
    using checked unfolding check_effect_def Let_def checks_iff by blast
  show ?thesis using now id rules_success(1,2)[OF rules assms(2)] unfolding effect_current_def by auto
qed

section \<open>The form of a result\<close>

text \<open>The outputs of a result are a value Python can hold, and its verdict is a string.\<close>

lemma scalar_wf: "is_scalar v \<Longrightarrow> wf_py v"
  by (cases v) (simp_all add: is_scalar_def)

lemma observed_scalar:
  assumes "observation_value kind observation = Some actual"
    and "kind \<in> {''field_equals'', ''text_equals'', ''text_contains'', ''target_present'', ''target_absent''}"
  shows "wf_py actual"
proof -
  have "is_str actual \<or> is_bool actual \<or> is_scalar actual"
    using assms by (auto simp: observation_value_def Let_def split: if_split_asm)
  then show ?thesis by (cases actual) (simp_all add: is_scalar_def)
qed

lemma rule_kinds:
  assumes "check_verification_rule v = Inr ()" and "v \<noteq> PNone" and "pget v ''kind'' \<noteq> PStr ''agent_judgment''"
  shows "py_str (pget v ''kind'') \<in> {''field_equals'', ''text_equals'', ''text_contains'', ''target_present'', ''target_absent''}"
proof -
  have "one_of (pget v ''kind'') verification_kinds"
    using assms(1,2) unfolding check_verification_rule_def Let_def by (auto simp: checks_iff in_names_True_iff one_of_iff)
  then show ?thesis using assms(3) by (auto simp: one_of_iff verification_kinds_def)
qed

lemma judged_wf:
  assumes "judge_verification verification inputs outputs run_id observation = Inr (Reading captured)"
    and "check_verification_rule verification = Inr ()" and "pget verification ''kind'' \<noteq> PStr ''agent_judgment''"
  shows "wf_py (PDict captured)"
proof (cases "verification = PNone")
  case False
  let ?kind = "py_str (pget verification ''kind'')"
  from assms(1) False obtain expected where rest: "(case expected of
          Unseen why \<Rightarrow> Inr (Final ''uncertain'' why)
        | Seen wanted \<Rightarrow> (case observation_value ?kind observation of
              None \<Rightarrow> Inr (Final ''uncertain'' ''observed_value_missing'')
            | Some actual \<Rightarrow> rbind (rule_passes ?kind wanted actual) (\<lambda>passed.
                if \<not> passed then Inr (Final ''failure'' ''observed_value_conflict'')
                else if pget verification ''output_name'' = PNone then Inr (Reading [])
                else rbind (ensure (has_text (pget verification ''output_name'')) (ValueError ''verification_output_name_invalid''))
                  (\<lambda>_. Inr (Reading [(py_str (pget verification ''output_name''), actual)]))))) = Inr (Reading captured)"
    by (auto simp: judge_verification_def Let_def rbind_eq_Inr_iff)
  have seen: "wf_py actual" if "observation_value ?kind observation = Some actual" for actual
    using observed_scalar[OF that rule_kinds[OF assms(2) False assms(3)]] .
  from rest seen show ?thesis
    by (cases expected; cases "observation_value ?kind observation") (auto simp: rbind_eq_Inr_iff split: if_split_asm)
qed (use assms(1) in \<open>simp add: judge_verification_def\<close>)

lemma read_wf:
  assumes "judge_reading read_spec observation captured = Reading after" and "wf_py (PDict captured)"
  shows "wf_py (PDict after)"
proof -
  have "wf_py actual" if "read_value read_spec observation = Some actual" for actual
    using that by (auto simp: read_value_def Let_def intro: scalar_wf split: if_split_asm)
  with assms show ?thesis
    by (auto simp: judge_reading_def Let_def wf_dput split: if_split_asm option.split_asm)
qed

lemma finish_wf:
  "finish_rules step receipt observation current judged = Inr r \<Longrightarrow>
    (\<And>captured. judged = Reading captured \<Longrightarrow> wf_py (PDict captured)) \<Longrightarrow> wf_py (pget r ''outputs'')"
  by (auto simp: finish_rules_def rule_result_get rbind_eq_Inr_iff split: judged.split_asm)

lemma rules_wf:
  assumes "verify_rules step inputs outputs receipt observation run_id current = Inr r"
  shows "wf_py (pget r ''outputs'')"
proof -
  let ?v = "pget step ''verification''"
  consider verdict reason where "r = rule_result verdict reason receipt observation []"
    | judged where "check_verification_rule ?v = Inr ()" "pget ?v ''kind'' \<noteq> PStr ''agent_judgment''"
      "judge_verification ?v inputs outputs run_id observation = Inr judged"
      "finish_rules step receipt observation current (case judged of
            Final verdict reason \<Rightarrow> Final verdict reason
          | Reading captured \<Rightarrow> judge_reading (pget step ''read_spec'') observation captured) = Inr r"
    using assms by (auto simp: verify_rules_def apply_rules_def Let_def rbind_eq_Inr_iff split: if_split_asm)
  then show ?thesis
  proof cases
    case 2
    show ?thesis
      by (rule finish_wf[OF 2(4)]) (use 2(3) judged_wf[OF _ 2(1,2)] read_wf in \<open>auto split: judged.split_asm\<close>)
  qed (simp add: rule_result_get)
qed

lemma verified_wf: "verify_step step inputs outputs receipt observation = Inr r \<Longrightarrow> wf_py (pget r ''outputs'')"
  unfolding verify_step_def checks_iff
  by (auto simp: rbind_eq_Inr_iff rule_result_get rules_wf split: if_split_asm option.split_asm)

lemma finish_verdict:
  "finish_rules step receipt observation current judged = Inr r \<Longrightarrow> \<exists>s. pget r ''verdict'' = PStr s"
  by (auto simp: finish_rules_def rule_result_get rbind_eq_Inr_iff split: judged.split_asm)

lemma rules_verdict:
  assumes "verify_rules step inputs outputs receipt observation run_id current = Inr r"
  shows "\<exists>s. pget r ''verdict'' = PStr s"
proof -
  consider verdict reason where "r = rule_result verdict reason receipt observation []"
    | judged where "finish_rules step receipt observation current judged = Inr r"
    using assms by (auto simp: verify_rules_def apply_rules_def Let_def rbind_eq_Inr_iff split: if_split_asm)
  then show ?thesis by cases (simp_all add: rule_result_get finish_verdict)
qed

lemma verified_verdict:
  assumes "verify_step step inputs outputs receipt observation = Inr r"
  obtains verdict where "pget r ''verdict'' = PStr verdict"
proof -
  have "\<exists>s. pget r ''verdict'' = PStr s"
    using assms rules_verdict unfolding verify_step_def checks_iff
    by (auto simp: rbind_eq_Inr_iff rule_result_get rules_verdict split: if_split_asm option.split_asm)
  with that show thesis by blast
qed

section \<open>A step that is verified\<close>

definition verified_digest :: pyval where
  "verified_digest = PStr (replicate 64 (CHR ''a''))"

definition verified_window :: pyval where
  "verified_window = PDict [(''handle'', PInt 1), (''process_id'', PInt 2), (''process_create_time'', PInt 3)]"

definition verified_step :: pyval where
  "verified_step = PDict [(''step_id'', PStr ''s''), (''action'', PDict [(''kind'', PStr ''click''), (''goal'', PStr ''open'')]),
     (''verification'', PDict [(''kind'', PStr ''text_equals''), (''target'', PDict []),
       (''expected'', PDict [(''source'', PStr ''output''), (''step_id'', PStr ''r''), (''name'', PStr ''city'')]),
       (''output_name'', PStr ''shown'')]),
     (''outputs'', PList [PDict [(''name'', PStr ''shown''), (''type'', PStr ''text'')]])]"

definition verified_outputs :: pyval where
  "verified_outputs = PDict [(''r.city'', PDict [(''run_id'', PStr ''run''), (''value'', PStr ''Oslo'')])]"

definition verified_receipt :: pyval where
  "verified_receipt = PDict [(''run_id'', PStr ''run''), (''step_id'', PStr ''s''), (''request_id'', PStr ''q''),
     (''execution_request_id'', PStr ''x''), (''pre_capture_id'', PStr ''before''), (''post_capture_id'', PStr ''after''),
     (''scope_id'', PStr ''window''), (''window_identity'', verified_window), (''status'', PStr ''completed''),
     (''action_executed'', PBool True), (''post_capture_sha256'', verified_digest), (''evidence_ref'', PStr ''responses/x.json'')]"

definition verified_observation_value :: pyval where
  "verified_observation_value = PDict [(''run_id'', PStr ''run''), (''step_id'', PStr ''s''), (''request_id'', PStr ''q''),
     (''execution_request_id'', PStr ''x''), (''complete'', PBool True), (''capture_id'', PStr ''after''),
     (''capture_sha256'', verified_digest), (''window_identity'', verified_window), (''scope_id'', PStr ''window''),
     (''source'', PStr ''uia_value''), (''evidence_ref'', PStr ''observations/o.json''),
     (''values'', PDict [(''text'', PStr ''Oslo'')])]"

definition verified_effect :: pyval where
  "verified_effect = PDict [(''contract_version'', PStr ''workflow_current_effect.v1''), (''source_run_id'', PStr ''run''),
     (''source_step_id'', PStr ''s''), (''source_execution_request_id'', PStr ''x''), (''source_receipt_sha256'', verified_digest),
     (''source_settlement_sha256'', verified_digest), (''source_program_sha256'', verified_digest),
     (''source_action_executed'', PNone), (''session_name'', PStr (''session-'' @ replicate 32 (CHR ''0''))),
     (''request_id'', PStr ''q''), (''capture_id'', PStr ''after''), (''capture_sha256'', verified_digest),
     (''window_identity'', verified_window), (''scope_id'', PStr ''window''), (''evidence_ref'', PStr ''observations/o.json'')]"

definition verified_effect_observation :: pyval where
  "verified_effect_observation = PDict [(''session_name'', PStr (''session-'' @ replicate 32 (CHR ''0''))), (''step_id'', PStr ''s''),
     (''request_id'', PStr ''q''), (''capture_id'', PStr ''after''), (''capture_sha256'', verified_digest),
     (''window_identity'', verified_window), (''scope_id'', PStr ''window''), (''complete'', PBool True),
     (''source'', PStr ''uia_value''), (''values'', PDict [(''text'', PStr ''Oslo'')]), (''evidence_ref'', PStr ''observations/o.json'')]"

lemma verified_runs:
  "case verify_step verified_step (PDict []) verified_outputs verified_receipt verified_observation_value of
     Inr r \<Rightarrow> pget r ''verdict'' = PStr ''success'' \<and> pget r ''outputs'' = PDict [(''shown'', PStr ''Oslo'')] | Inl _ \<Rightarrow> False"
  "case verify_current_effect verified_step (PDict []) verified_outputs verified_effect verified_effect_observation of
     Inr r \<Rightarrow> pget r ''verdict'' = PStr ''success'' | Inl _ \<Rightarrow> False"
  by code_simp+

theorem verified_success_is_current_witness:
  "pget verified_observation_value ''capture_id'' = pget verified_receipt ''post_capture_id''
    \<and> outputs_declared verified_step (PDict [(''shown'', PStr ''Oslo'')])"
proof -
  from verified_runs(1) obtain r where r: "verify_step verified_step (PDict []) verified_outputs verified_receipt
      verified_observation_value = Inr r" "pget r ''verdict'' = PStr ''success''" "pget r ''outputs'' = PDict [(''shown'', PStr ''Oslo'')]"
    by (auto split: sum.splits)
  from verified_success_is_current[OF r(1,2)] r(3) show ?thesis by simp
qed

theorem verified_value_matches_witness:
  "py_eq (pget (pget verified_outputs ''r.city'') ''run_id'') (pget verified_receipt ''run_id'')
    \<and> pget (pget verified_observation_value ''values'') ''text'' = PStr ''Oslo''"
proof -
  let ?v = "pget verified_step ''verification''"
  have parts: "pget ?v ''kind'' = PStr ''text_equals''" "pget (pget ?v ''expected'') ''source'' = PStr ''output''"
    "pget (pget ?v ''expected'') ''step_id'' = PStr ''r''" "pget (pget ?v ''expected'') ''name'' = PStr ''city''"
    "pget (pget verified_observation_value ''values'') ''text'' = PStr ''Oslo''"
    by code_simp+
  from verified_runs(1) obtain r where r: "verify_step verified_step (PDict []) verified_outputs verified_receipt
      verified_observation_value = Inr r" "pget r ''verdict'' = PStr ''success''"
    by (auto split: sum.splits)
  from verified_value_matches[OF r refl parts(1)] parts show ?thesis by auto
qed

theorem effect_success_is_current_witness:
  "pget verified_effect_observation ''step_id'' = pget verified_step ''step_id'' \<and> pget verified_effect_observation ''complete'' = PBool True"
proof -
  from verified_runs(2) obtain r where r: "verify_current_effect verified_step (PDict []) verified_outputs verified_effect
      verified_effect_observation = Inr r" "pget r ''verdict'' = PStr ''success''"
    by (auto split: sum.splits)
  from effect_success_is_current[OF r] show ?thesis by simp
qed

end
