(* ===== verification/WorkflowTrial.thy ===== *)
theory WorkflowTrial
  imports StepVerification
begin

text \<open>
  Trial runs of a task program: \<^verbatim>\<open>app/learning_memory/workflow_trial.py\<close> with the receipt reader of
  \<^verbatim>\<open>receipt_adapter.py\<close> and the execution strategy. A trial names one current step; \<^verbatim>\<open>prepare\<close> turns it
  into a command ticket, \<^verbatim>\<open>_review\<close> accepts a verdict against the receipt of that ticket, records it and
  moves along the branch; \<^verbatim>\<open>record_verified_result\<close> first recomputes the verdict with \<open>verify_step\<close> from the
  evidence that the session kept.

  A trial is a record of the keys of its file. The files other processes write (commands, responses, terminal
  snapshots, captures, observation envelopes) are an input of every operation (\<open>trial_world\<close>); the saved programs,
  the target recipes and the client's vision model are \<open>trial_library\<close>. Writing the trial file succeeds; an
  operation that raises leaves the store as it was. Trials that a takeover imports are not modelled. Programs have
  passed \<open>validate_definition\<close>, so names and step identifiers are strings.
\<close>

section \<open>Commands\<close>

definition copied :: "pyval \<Rightarrow> string \<Rightarrow> (string \<times> pyval) list" where
  "copied action key = (if phas action key then [(key, pget action key)] else [])"

definition exact_wait :: "pyval \<Rightarrow> (string \<times> pyval) list" where
  "exact_wait step = (let verification = py_or (pget step ''verification'') (PDict []) in
     if pget step ''review_status'' = PStr ''reviewed'' \<and> pget verification ''kind'' = PStr ''agent_judgment''
         \<and> truthy (pget verification ''image_check'')
     then [(''observation_wait_ms'', PInt 0)] else [])"

definition click_command :: "pyval \<Rightarrow> (string \<times> pyval) list \<Rightarrow> pyval" where
  "click_command action wait = PDict ([(''kind'', PStr ''step''), (''operation'', PStr ''execute_recognition_plan''),
     (''request'', PDict ([(''goal'', pget action ''goal''),
         (''click_kind'', pget_default action ''click_kind'' (PStr ''single''))]
       @ copied action ''selection_intent'' @ copied action ''target_memory''))] @ wait)"

definition input_command :: "pyval \<Rightarrow> pyval \<Rightarrow> (string \<times> pyval) list \<Rightarrow> pyval" where
  "input_command action typed wait = PDict ([(''kind'', PStr ''input_sequence''),
     (''request'', PDict ([(''field_goal'', pget action ''field_goal''), (''text'', typed),
         (''clear_existing'', pget action ''clear_existing''), (''submit_search'', pget action ''submit_search'')]
       @ copied action ''target_memory''))] @ wait)"

definition scroll_command :: "pyval \<Rightarrow> (string \<times> pyval) list \<Rightarrow> pyval" where
  "scroll_command action wait = PDict ([(''kind'', PStr ''step''), (''operation'', PStr ''scroll''),
     (''request'', PDict [(''direction'', pget action ''direction''), (''wheel_clicks'', pget action ''amount'')])] @ wait)"

definition trial_command :: "pyval \<Rightarrow> pyval \<Rightarrow> pyval \<Rightarrow> pyval res" where
  "trial_command step inputs outputs =
     (let action = pget step ''action''; kind = pget action ''kind''; wait = exact_wait step in
      if kind = PStr ''click'' then Inr (click_command action wait)
      else if kind = PStr ''input_sequence'' then
        rbind (trial_resolve (pget action ''text'') inputs outputs) (\<lambda>typed.
        rbind (ensure (str_ok (\<lambda>s. 1 \<le> length s \<and> length s \<le> 20000) typed)
          (ValueError ''workflow_trial_input_text_missing_or_invalid'')) (\<lambda>_.
        Inr (input_command action typed wait)))
      else if kind = PStr ''read_text'' then
        Inr (PDict [(''kind'', PStr ''read_text''), (''max_chars'', PInt 10000)])
      else if kind = PStr ''scroll'' then Inr (scroll_command action wait)
      else Inl (ValueError ''workflow_trial_press_key_requires_live_target''))"

section \<open>The files of other processes\<close>

text \<open>
  \<open>tw_takeover\<close> is \<^verbatim>\<open>ensure_session_takeover_ready\<close>; commands, responses and terminal snapshots are read by
  request id, with the digest of the response's bytes; \<open>tw_image\<close> gives the resolved path and the bytes of a capture
  inside the session. \<open>tw_zero_input\<close> is \<^verbatim>\<open>local_receipt_zero_input_verified\<close>, \<open>tw_selection\<close> whether
  \<^verbatim>\<open>validate_selection_receipt\<close> passes, \<open>tw_evidence\<close> the observation envelope of a reference inside the
  session, \<open>tw_names_receipt\<close> whether a reference resolves to the response of an execution, \<open>tw_image_match\<close> the
  image matcher, \<open>tw_decision\<close> the saved decision of the request once it is authenticated, and \<open>tw_always_main\<close> says
  that the decision profile asks for the main agent.
\<close>

record trial_world =
  tw_takeover :: "unit res"
  tw_command :: "string \<Rightarrow> pyval option"
  tw_response :: "string \<Rightarrow> pyval option"
  tw_response_sha :: "string \<Rightarrow> string"
  tw_terminal :: "string \<Rightarrow> pyval option"
  tw_terminal_path :: "string \<Rightarrow> string"
  tw_image :: "string \<Rightarrow> (string \<times> nat list) option"
  tw_zero_input :: "pyval \<Rightarrow> pyval \<Rightarrow> bool"
  tw_selection :: "pyval \<Rightarrow> pyval \<Rightarrow> bool \<Rightarrow> pyval \<Rightarrow> bool"
  tw_evidence :: "string \<Rightarrow> pyval res"
  tw_names_receipt :: "string \<Rightarrow> string \<Rightarrow> bool"
  tw_image_match :: "pyval \<Rightarrow> pyval \<Rightarrow> pyval res"
  tw_decision :: "pyval \<Rightarrow> pyval \<Rightarrow> pyval res"
  tw_always_main :: bool

section \<open>Receipts\<close>

definition final_statuses :: "string list" where
  "final_statuses = [''completed'', ''failed'', ''cancelled'']"

definition pending_receipt :: pyexc where
  "pending_receipt = ValueError ''awaiting_execution_result''"

text \<open>The receipt as it counts, and the reference to the terminal snapshot that replaced its result.\<close>

definition terminal_receipt :: "trial_world \<Rightarrow> string \<Rightarrow> pyval \<Rightarrow> pyval \<Rightarrow> (pyval \<times> pyval) res" where
  "terminal_receipt w request_id response terminal =
     rbind (get_or_raise terminal ''contract_version'') (\<lambda>version.
     rbind (ensure (version = PStr ''agent_command.v1'' \<and> pget terminal ''command_id'' = PStr request_id)
       (ValueError ''learning terminal receipt identity mismatch'')) (\<lambda>_.
     rbind (in_names (pget terminal ''status'') final_statuses) (\<lambda>final.
     rbind (ensure final pending_receipt) (\<lambda>_.
     rbind (get_or_raise (py_or (pget terminal ''observation'') (PDict [])) ''capture'') (\<lambda>capture.
     rbind (ct_digest terminal) (\<lambda>sha.
     Inr (pset ''status'' (PStr (if pget terminal ''status'' = PStr ''completed'' then ''returned'' else ''failed''))
         (pset ''observation'' capture (pset ''result'' (py_or (pget terminal ''result'') (PDict [])) response)),
       PDict [(''path'', PStr (tw_terminal_path w request_id)), (''sha256'', PStr sha),
         (''status'', pget terminal ''status''), (''hash_scope'', PStr ''canonical_json'')])))))))"

definition resolve_execution_receipt :: "trial_world \<Rightarrow> pyval \<Rightarrow> string \<Rightarrow> (pyval \<times> pyval) res" where
  "resolve_execution_receipt w response request_id =
     (let result = py_or (pget response ''result'') (PDict []) in
      rbind (get_or_raise result ''contract_version'') (\<lambda>version.
      if version \<noteq> PStr ''agent_command.v1'' then Inr (response, PNone)
      else rbind (ensure (pget result ''command_id'' = PStr request_id)
          (ValueError ''learning async receipt identity mismatch'')) (\<lambda>_.
        case tw_terminal w request_id of
          None \<Rightarrow> Inl pending_receipt
        | Some terminal \<Rightarrow> terminal_receipt w request_id response terminal)))"

definition png_signature :: "nat list" where
  "png_signature = [137, 80, 78, 71, 13, 10, 26, 10]"

definition verified_observation :: "trial_world \<Rightarrow> pyval \<Rightarrow> pyval res" where
  "verified_observation w receipt =
     rbind (if is_dict (pget receipt ''observation'') then Inr (pget receipt ''observation'')
       else get_or_raise (py_or (pget receipt ''result'') (PDict [])) ''capture'') (\<lambda>capture.
     rbind (ensure (is_dict capture \<and> is_str (pget capture ''image_path'') \<and> is_str (pget capture ''sha256''))
       (ValueError ''workflow_trial_read_observation_missing'')) (\<lambda>_.
     let bad = ValueError ''workflow_trial_read_observation_invalid'' in
     case tw_image w (py_str (pget capture ''image_path'')) of
       None \<Rightarrow> Inl bad
     | Some (path, raw) \<Rightarrow>
         rbind (ensure (take 8 raw = png_signature \<and> PStr (sha256_hex raw) = pget capture ''sha256'') bad) (\<lambda>_.
         Inr (PDict [(''sha256'', pget capture ''sha256''), (''image_path'', PStr path),
           (''capture_id'', pget capture ''capture_id'')]))))"

text \<open>\<^verbatim>\<open>(api.get("data") or {}).get("result", api.get("data") or {})\<close> and the input it reports.\<close>

definition api_executed :: "pyval \<Rightarrow> pyval res" where
  "api_executed api = (let data = py_or (pget api ''data'') (PDict []) in
     rbind (ensure (is_dict data) AttributeError) (\<lambda>_.
     let action = pget_default data ''result'' data in
     rbind (ensure (is_dict action) AttributeError) (\<lambda>_.
     let path = py_or (pget action ''execution_path'') (PDict []) in
     rbind (ensure (is_dict path) AttributeError) (\<lambda>_.
     Inr (pget_default path ''action_executed'' (pget action ''action_executed''))))))"

definition bool_claim :: "pyval \<Rightarrow> bool list" where
  "bool_claim v = (case v of PBool b \<Rightarrow> [b] | _ \<Rightarrow> [])"

definition response_claim :: "pyval \<Rightarrow> bool list" where
  "response_claim result = (let data = pget (pget result ''response'') ''data'';
       action = pget_default data ''result'' data; path = pget action ''execution_path'' in
     if is_dict action then bool_claim (if is_dict path then pget path ''action_executed'' else pget action ''action_executed'')
     else [])"

definition steps_claim :: "pyval \<Rightarrow> bool list" where
  "steps_claim steps = (let rows = plist steps; answers = map (\<lambda>r. pget r ''action_executed'') (filter is_dict rows) in
     if rows = [] then []
     else if list_ex (\<lambda>v. v = PBool True) answers then [True]
     else if length answers = length rows \<and> list_all (\<lambda>v. v = PBool False) answers then [False] else [])"

definition zero_input_row :: "trial_world \<Rightarrow> pyval \<Rightarrow> bool" where
  "zero_input_row w row = (let receipt = pget row ''receipt'' in
     is_dict row \<and> pget row ''action_executed'' = PBool False \<and> is_dict receipt
     \<and> py_eq (pget row ''status'') (pget receipt ''phase'')
     \<and> tw_zero_input w receipt (pget_default row ''operation'' (PStr ''execute_recognition_plan'')))"

definition zero_input_proven :: "trial_world \<Rightarrow> pyval \<Rightarrow> bool" where
  "zero_input_proven w result =
     ((pget result ''contract_version'' = PStr ''local_direct_step_v1'' \<longrightarrow> tw_zero_input w result PNone)
      \<and> (is_list (pget result ''steps'') \<longrightarrow>
          plist (pget result ''steps'') \<noteq> [] \<and> list_all (zero_input_row w) (plist (pget result ''steps''))))"

text \<open>Whether input was sent: the claims of the receipt agree, and a claim that nothing was sent is proven.\<close>

definition actual_action_executed :: "trial_world \<Rightarrow> string \<Rightarrow> pyval \<Rightarrow> pyval \<Rightarrow> pyval res" where
  "actual_action_executed w request_id result terminal =
     rbind (if terminal = PNone then Inr []
       else case tw_terminal w request_id of
           Some original \<Rightarrow> if is_dict original then Inr (bool_claim (pget original ''action_executed''))
             else Inl (ValueError ''workflow_trial_file_invalid'')
         | None \<Rightarrow> Inl (ValueError ''workflow_trial_file_invalid'')) (\<lambda>from_terminal.
     let claims = bool_claim (pget result ''action_executed'') @ from_terminal
         @ response_claim result @ steps_claim (pget result ''steps'') in
     if claims \<noteq> [] \<and> list_all (\<lambda>b. b = hd claims) claims then
       if hd claims then Inr (PBool True)
       else if is_dict result then Inr (if zero_input_proven w result then PBool False else PNone)
       else Inl AttributeError
     else Inr PNone)"

definition input_statuses :: "string list" where
  "input_statuses = [''running'', ''awaiting_grounding'', ''pending'', ''result_unknown'']"

text \<open>What a receipt says of the command: whether it was carried out, the terminal reference, the observation read.\<close>

type_synonym receipt_state = "bool \<times> pyval \<times> pyval"

definition read_receipt :: "trial_world \<Rightarrow> pyval \<Rightarrow> pyval \<Rightarrow> pyval \<Rightarrow> receipt_state res" where
  "read_receipt w receipt terminal result =
     rbind (in_names (pget result ''status'') [''agent_read_required'', ''text_observed'', ''no_text_detected'']) (\<lambda>known.
     rbind (ensure known (ValueError ''workflow_trial_read_status_invalid'')) (\<lambda>_.
     rbind (ensure (pget result ''status'' \<noteq> PStr ''agent_read_required''
         \<longrightarrow> pget result ''contract_version'' = PStr ''captured_text_v1'')
       (ValueError ''workflow_trial_read_contract_invalid'')) (\<lambda>_.
     rbind (verified_observation w receipt) (\<lambda>seen. Inr (True, terminal, seen)))))"

definition selection_receipt :: "trial_world \<Rightarrow> string \<Rightarrow> pyval \<Rightarrow> pyval \<Rightarrow> pyval \<Rightarrow> pyval \<Rightarrow> receipt_state res" where
  "selection_receipt w request_id command context result terminal =
     rbind (actual_action_executed w request_id result terminal) (\<lambda>actual.
     rbind (ensure (is_bool actual \<and> is_dict context \<and> pget context ''execution_request_id'' = PStr request_id
         \<and> tw_selection w result command (actual = PBool True) context)
       (ValueError ''workflow_trial_selection_receipt_unproven'')) (\<lambda>_.
     Inr (True, terminal, PNone)))"

definition step_receipt :: "pyval \<Rightarrow> pyval \<Rightarrow> receipt_state res" where
  "step_receipt result terminal = (let api = pget result ''response'' in
     rbind (if is_dict api then api_executed api else Inr PNone) (\<lambda>executed.
     if pget result ''phase'' = PStr ''returned'' then
       rbind (get_or_raise api ''success'') (\<lambda>success.
       Inr (success = PBool True \<and> executed = PBool True, terminal, PNone))
     else Inr (False, terminal, PNone)))"

definition input_receipt :: "trial_world \<Rightarrow> string \<Rightarrow> pyval \<Rightarrow> pyval \<Rightarrow> pyval \<Rightarrow> pyval \<Rightarrow> receipt_state res" where
  "input_receipt w request_id command context result terminal =
     (let status = pget result ''status''; kind = pget command ''kind'';
          recognition = kind = PStr ''step'' \<and> pget command ''operation'' = PStr ''execute_recognition_plan'' in
      rbind (ensure (status = PNone \<longrightarrow> pget result ''phase'' = PStr ''returned'')
        (ValueError ''workflow_trial_receipt_terminal_unproven'')) (\<lambda>_.
      rbind (ensure (recognition \<longrightarrow> is_dict (pget result ''response''))
        (ValueError ''workflow_trial_input_result_unproven'')) (\<lambda>_.
      if kind = PStr ''input_sequence'' then
        Inr (status = PStr ''completed'' \<and> pget result ''action_executed'' = PBool True, terminal, PNone)
      else if recognition \<and> selection_requested (pget command ''request'') then
        selection_receipt w request_id command context result terminal
      else if kind = PStr ''step'' then step_receipt result terminal
      else rbind (in_names status [''completed'', ''ok'']) (\<lambda>good.
        Inr (good \<or> pget result ''success'' = PBool True, terminal, PNone)))))"

definition result_failed :: "pyval \<Rightarrow> bool res" where
  "result_failed result =
     (if pget result ''success'' = PBool False then Inr True
      else rbind (in_names (pget result ''phase'') [''failed'', ''rejected'', ''result_unknown'']) (\<lambda>phase.
        Inr (phase \<or> pget (pget result ''response'') ''success'' = PBool False)))"

definition settled_receipt :: "trial_world \<Rightarrow> string \<Rightarrow> pyval \<Rightarrow> pyval \<Rightarrow> pyval \<Rightarrow> pyval \<Rightarrow> receipt_state res" where
  "settled_receipt w request_id command context receipt terminal =
     (let result = pget receipt ''result''; failed = pget receipt ''status'' = PStr ''failed'' in
      if \<not> is_dict result then
        if result = PNone \<and> failed then Inr (False, terminal, PNone)
        else Inl (ValueError ''workflow_trial_receipt_result_missing'')
      else
        rbind (ensure (pget result ''contract_version'' \<noteq> PStr ''agent_command.v1'')
          (ValueError ''workflow_trial_agent_command_terminal_result_invalid'')) (\<lambda>_.
        rbind (in_names (pget result ''status'') input_statuses) (\<lambda>running.
        rbind (ensure (\<not> running) (ValueError ''workflow_trial_receipt_not_terminal'')) (\<lambda>_.
        if failed \<or> (terminal \<noteq> PNone \<and> pget terminal ''status'' \<noteq> PStr ''completed'') then Inr (False, terminal, PNone)
        else rbind (result_failed result) (\<lambda>bad.
          if bad then Inr (False, terminal, PNone)
          else if pget command ''kind'' = PStr ''read_text'' then read_receipt w receipt terminal result
          else input_receipt w request_id command context result terminal)))))"

definition receipt_state :: "trial_world \<Rightarrow> pyval \<Rightarrow> string \<Rightarrow> pyval \<Rightarrow> pyval \<Rightarrow> receipt_state res" where
  "receipt_state w receipt request_id command context =
     rbind (ensure (case tw_command w request_id of Some c \<Rightarrow> py_eq c command | None \<Rightarrow> False)
       (ValueError ''workflow_trial_dispatched_command_mismatch'')) (\<lambda>_.
     rbind (ensure (py_eq (pget receipt ''command'') command) (ValueError ''workflow_trial_receipt_command_mismatch'')) (\<lambda>_.
     rbind (case resolve_execution_receipt w receipt request_id of
         Inl e \<Rightarrow> Inl (if e = pending_receipt then ValueError ''workflow_trial_receipt_not_terminal'' else e)
       | Inr r \<Rightarrow> Inr r) (\<lambda>(effective, terminal).
     rbind (in_names (pget effective ''status'') [''returned'', ''failed'']) (\<lambda>returned.
     rbind (ensure returned (ValueError ''workflow_trial_receipt_not_returned'')) (\<lambda>_.
     settled_receipt w request_id command context effective terminal)))))"

section \<open>The trial and the store\<close>

text \<open>
  \<open>tr_requests\<close> and \<open>tr_prepares\<close> remember the digest of every accepted request; a key the file may lack is
  \<^verbatim>\<open>None\<close> or an option. \<open>tr_settlement\<close> is the mark terminal recovery leaves.
\<close>

record trial =
  tr_run :: string
  tr_workflow :: string
  tr_program :: string
  tr_strategy :: string
  tr_snapshot :: pyval
  tr_start :: string
  tr_current :: pyval
  tr_inputs :: pyval
  tr_outputs :: pyval
  tr_status :: string
  tr_pending :: pyval
  tr_history :: "pyval list"
  tr_requests :: "(string \<times> string) list"
  tr_prepares :: "(string \<times> string \<times> pyval) list"
  tr_conditions :: "pyval option"
  tr_reason :: string
  tr_blocked :: "(string \<times> string) option"
  tr_cancel :: string
  tr_settlement :: pyval

record trial_library =
  tl_session :: string
  tl_program :: "string \<Rightarrow> string \<Rightarrow> pyval res"
  tl_goal :: "pyval \<Rightarrow> pyval \<Rightarrow> pyval \<Rightarrow> pyval res"
  tl_vision :: "pyval \<Rightarrow> pyval res"

record trial_store =
  ts_trials :: "(string \<times> trial) list"
  ts_index :: "(string \<times> string \<times> string) list"

fun put :: "string \<Rightarrow> 'a \<Rightarrow> (string \<times> 'a) list \<Rightarrow> (string \<times> 'a) list" where
  "put k v [] = [(k, v)]"
| "put k v ((k', u) # d) = (if k' = k then (k, v) # d else (k', u) # put k v d)"

definition trial_strategies :: "string list" where
  "trial_strategies = [''learned'', ''steps_only'']"

definition validate_execution_strategy :: "pyval \<Rightarrow> string res" where
  "validate_execution_strategy v =
     rbind (ensure (str_ok (\<lambda>s. s \<in> set trial_strategies) v) (ValueError ''workflow_trial_execution_strategy_invalid''))
       (\<lambda>_. Inr (py_str v))"

definition execution_strategy :: "pyval \<Rightarrow> string res" where
  "execution_strategy state = validate_execution_strategy (pget_default state ''execution_strategy'' (PStr ''learned''))"

definition program_definition :: "pyval \<Rightarrow> pyval" where
  "program_definition program = pget program ''definition''"

definition find_step :: "pyval \<Rightarrow> pyval \<Rightarrow> pyval res" where
  "find_step program step_id =
     (case find (\<lambda>s. pget s ''step_id'' = step_id) (program_steps (program_definition program)) of
       None \<Rightarrow> Inl StopIteration | Some s \<Rightarrow> Inr s)"

section \<open>Frozen conditions\<close>

definition step_condition_snapshot :: "pyval \<Rightarrow> pyval \<Rightarrow> pyval res" where
  "step_condition_snapshot step inputs = (let binding = pget (pget step ''verification'') ''condition_binding'' in
     if binding = PNone then Inr PNone else resolve_condition_binding binding inputs)"

fun snapshot_items :: "pyval list \<Rightarrow> pyval \<Rightarrow> (string \<times> pyval) list res" where
  "snapshot_items [] inputs = Inr []"
| "snapshot_items (step # steps) inputs =
     (if phas (pget step ''verification'') ''condition_binding'' then
        rbind (step_condition_snapshot step inputs) (\<lambda>v.
        rbind (snapshot_items steps inputs) (\<lambda>vs. Inr ((step_name step, v) # vs)))
      else snapshot_items steps inputs)"

definition program_condition_snapshots :: "pyval \<Rightarrow> pyval \<Rightarrow> (string \<times> pyval) list res" where
  "program_condition_snapshots program inputs = snapshot_items (program_steps (program_definition program)) inputs"

definition start_values :: "string \<Rightarrow> string \<Rightarrow> string \<Rightarrow> pyval \<Rightarrow> string \<Rightarrow> pyval" where
  "start_values workflow program start inputs strategy =
     PList ([PStr workflow, PStr program, PStr start, inputs] @ (if strategy \<noteq> ''learned'' then [PStr strategy] else []))"

definition trial_id :: "trial_library \<Rightarrow> string \<Rightarrow> string \<Rightarrow> string res" where
  "trial_id lib request_id sha =
     rbind (ct_digest (PList [PStr (tl_session lib), PStr request_id, PStr sha])) (\<lambda>d. Inr (''trial-'' @ d))"

definition validate_frozen_conditions :: "trial_library \<Rightarrow> trial_store \<Rightarrow> trial \<Rightarrow> pyval \<Rightarrow> unit res" where
  "validate_frozen_conditions lib store state program =
     rbind (program_condition_snapshots program (tr_inputs state)) (\<lambda>expected.
     if expected = [] \<and> tr_conditions state = None then Inr ()
     else rbind (ensure (expected \<noteq> [] \<and> (case tr_conditions state of
             None \<Rightarrow> False | Some c \<Rightarrow> py_eq c (PDict expected)))
         (ValueError ''workflow_condition_snapshots_mismatch'')) (\<lambda>_.
       rbind (ct_digest (start_values (tr_workflow state) (tr_program state) (tr_start state) (tr_inputs state)
         (tr_strategy state))) (\<lambda>sha.
       let bad = ValueError ''workflow_condition_original_inputs_changed'' in
       case filter (\<lambda>(_, _, run). run = tr_run state) (ts_index store) of
         [(request, old, _)] \<Rightarrow> rbind (ensure (old = sha) bad) (\<lambda>_.
           rbind (trial_id lib request sha) (\<lambda>run. ensure (tr_run state = run) bad))
       | _ \<Rightarrow> Inl bad)))"

section \<open>Loading a trial\<close>

definition trial_name_ok :: "string \<Rightarrow> bool" where
  "trial_name_ok run = (take 6 run = ''trial-'' \<and> hex_re 64 (drop 6 run))"

definition check_pending :: "trial \<Rightarrow> unit res" where
  "check_pending state = (let pending = tr_pending state in
     if is_dict pending then
       rbind (execution_strategy pending) (\<lambda>strategy.
       rbind (ensure (strategy = tr_strategy state) (ValueError ''workflow_trial_execution_strategy_mismatch'')) (\<lambda>_.
       ensure (tr_strategy state = ''steps_only'' \<longrightarrow>
           \<not> phas (pget (pget pending ''suggested_command'') ''request'') ''target_memory''
           \<and> \<not> phas (pget (pget pending ''preview'') ''action'') ''target_memory'')
         (ValueError ''workflow_trial_steps_only_target_memory_forbidden'')))
     else Inr ())"

definition trial_load :: "trial_library \<Rightarrow> trial_store \<Rightarrow> string \<Rightarrow> (trial \<times> pyval) res" where
  "trial_load lib store run =
     rbind (ensure (trial_name_ok run) (ValueError ''run_id_invalid'')) (\<lambda>_.
     case map_of (ts_trials store) run of
       None \<Rightarrow> Inl (ValueError ''workflow_trial_file_invalid'')
     | Some state \<Rightarrow>
         rbind (ensure (tr_run state = run) (ValueError ''workflow_trial_identity_mismatch'')) (\<lambda>_.
         rbind (tl_program lib (tr_workflow state) (tr_program state)) (\<lambda>program.
         rbind (validate_frozen_conditions lib store state program) (\<lambda>_.
         rbind (check_pending state) (\<lambda>_. Inr (state, program))))))"

definition keep_trial :: "trial_store \<Rightarrow> trial \<Rightarrow> trial_store" where
  "keep_trial store state = store\<lparr>ts_trials := put (tr_run state) state (ts_trials store)\<rparr>"

section \<open>Starting a trial\<close>

datatype reply = State trial | Ticket pyval

definition json_digest :: "pyval list \<Rightarrow> string res" where
  "json_digest values = ct_digest (PList values)"

definition check_trial_input :: "pyval \<Rightarrow> pyval \<Rightarrow> unit res" where
  "check_trial_input inputs entry = (let name = py_str (pget entry ''name'') in
     rbind (ensure (truthy (pget entry ''required'') \<longrightarrow> phas inputs name)
       (ValueError (''workflow_trial_required_input_missing:'' @ name))) (\<lambda>_.
     ensure (phas inputs name \<longrightarrow> has_program_type (pget inputs name) (py_str (pget entry ''type'')))
       (ValueError (''workflow_trial_input_type_invalid:'' @ name))))"

definition new_trial :: "string \<Rightarrow> string \<Rightarrow> string \<Rightarrow> string \<Rightarrow> string \<Rightarrow> pyval \<Rightarrow> pyval \<Rightarrow> (string \<times> pyval) list \<Rightarrow> trial" where
  "new_trial run workflow program start strategy snapshot inputs snapshots = \<lparr>
     tr_run = run, tr_workflow = workflow, tr_program = program, tr_strategy = strategy, tr_snapshot = snapshot,
     tr_start = start, tr_current = PStr start, tr_inputs = inputs, tr_outputs = PDict [], tr_status = ''ready'',
     tr_pending = PNone, tr_history = [], tr_requests = [], tr_prepares = [],
     tr_conditions = (if snapshots = [] then None else Some (PDict snapshots)),
     tr_reason = [], tr_blocked = None, tr_cancel = [], tr_settlement = PNone\<rparr>"

definition check_start :: "pyval \<Rightarrow> string \<Rightarrow> pyval \<Rightarrow> unit res" where
  "check_start program start inputs = (let declarations = plist (pget (program_definition program) ''inputs'') in
     rbind (ensure (pget program ''program_id'' \<noteq> PNone) (ValueError ''workflow_trial_save_program_first'')) (\<lambda>_.
     rbind (ensure (start \<in> set (map step_name (program_steps (program_definition program))))
       (ValueError ''workflow_trial_start_step_unknown'')) (\<lambda>_.
     rbind (ensure (is_dict inputs \<and> keys_within inputs (item_texts ''name'' declarations))
       (ValueError ''workflow_trial_inputs_invalid'')) (\<lambda>_.
     each (check_trial_input inputs) declarations))))"

definition unresolved_trial :: "trial_store \<Rightarrow> (string \<times> trial) option" where
  "unresolved_trial store = find (\<lambda>(_, t). tr_pending t \<noteq> PNone) (ts_trials store)"

definition trial_start :: "trial_library \<Rightarrow> trial_world \<Rightarrow> trial_store \<Rightarrow> string \<Rightarrow> string \<Rightarrow> string \<Rightarrow> pyval \<Rightarrow> string \<Rightarrow> pyval
    \<Rightarrow> (trial_store \<times> reply) res" where
  "trial_start lib w store workflow program_id start inputs request_id strategy_value =
     rbind (check_id ''request_id'' (PStr request_id)) (\<lambda>_.
     rbind (tw_takeover w) (\<lambda>_.
     rbind (validate_execution_strategy strategy_value) (\<lambda>strategy.
     rbind (ct_digest (start_values workflow program_id start inputs strategy)) (\<lambda>sha.
     case map_of (ts_index store) request_id of
       Some (old, run) \<Rightarrow>
         rbind (ensure (old = sha) (ValueError ''workflow_trial_idempotency_conflict'')) (\<lambda>_.
         rbind (trial_load lib store run) (\<lambda>(state, _). Inr (store, State state)))
     | None \<Rightarrow>
         rbind (case unresolved_trial store of None \<Rightarrow> Inr ()
           | Some (run, _) \<Rightarrow> Inl (ValueError (''workflow_trial_session_has_unresolved_execution:'' @ run))) (\<lambda>_.
         rbind (tl_program lib workflow program_id) (\<lambda>program.
         rbind (check_start program start inputs) (\<lambda>_.
         rbind (program_condition_snapshots program inputs) (\<lambda>snapshots.
         rbind (trial_id lib request_id sha) (\<lambda>run.
         let state = new_trial run workflow program_id start strategy (pget program ''project_snapshot_id'') inputs snapshots in
         Inr (store\<lparr>ts_trials := put run state (ts_trials store), ts_index := put request_id (sha, run) (ts_index store)\<rparr>,
              State state))))))))))"

section \<open>Preparing a command\<close>

definition remember_prepare :: "trial_store \<Rightarrow> trial \<Rightarrow> string \<Rightarrow> string \<Rightarrow> pyval \<Rightarrow> trial_store \<times> reply" where
  "remember_prepare store state request_id sha result =
     (keep_trial store (state\<lparr>tr_prepares := put request_id (sha, result) (tr_prepares state)\<rparr>), Ticket result)"

definition blocked_result :: "trial \<Rightarrow> string \<Rightarrow> pyval" where
  "blocked_result state reason = PDict [(''run_id'', PStr (tr_run state)), (''status'', PStr ''blocked''),
     (''reason'', PStr reason), (''execution_strategy'', PStr (tr_strategy state)),
     (''current_step_id'', tr_current state), (''input_executed'', PBool False)]"

definition block_trial :: "trial_store \<Rightarrow> trial \<Rightarrow> string \<Rightarrow> string \<Rightarrow> string \<Rightarrow> trial_store \<times> reply" where
  "block_trial store state reason request_id sha =
     remember_prepare store
       (state\<lparr>tr_status := ''blocked'', tr_reason := reason, tr_blocked := Some (request_id, sha)\<rparr>)
       request_id sha (blocked_result state reason)"

definition pending_result :: "string \<Rightarrow> pyval \<Rightarrow> pyval" where
  "pending_result run ticket = (case ticket of
       PDict d \<Rightarrow> pset ''input_executed'' (PBool False)
         (PDict (fold (\<lambda>(k, v). dput k v) d [(''run_id'', PStr run), (''status'', PStr ''pending'')]))
     | v \<Rightarrow> v)"

text \<open>\<^verbatim>\<open>_outputs\<close> of \<^verbatim>\<open>workflow_target_bindings.py\<close>: the outputs recomputed from the accepted steps.\<close>

definition declared_output_types :: "pyval \<Rightarrow> (string \<times> string) list" where
  "declared_output_types step =
     map (\<lambda>e. (py_str (pget e ''name''), py_str (pget e ''type''))) (plist (pget step ''outputs''))"

definition outputs_typed :: "(string \<times> string) list \<Rightarrow> pyval \<Rightarrow> bool" where
  "outputs_typed types outputs = list_all (\<lambda>name. case map_of types name of
       Some t \<Rightarrow> has_program_type (pget outputs name) t | None \<Rightarrow> False) (pkeys outputs)"

definition output_key :: "string \<Rightarrow> string \<Rightarrow> string" where
  "output_key step_id name = step_id @ ''.'' @ name"

definition step_outputs :: "string \<Rightarrow> pyval \<Rightarrow> (string \<times> pyval) list" where
  "step_outputs step_id outputs = map (\<lambda>(name, v). (output_key step_id name, v)) (pitems outputs)"

definition replay_entry :: "pyval \<Rightarrow> pyval \<Rightarrow> (string \<times> pyval) list \<Rightarrow> (string \<times> pyval) list res" where
  "replay_entry program entry expected =
     rbind (ensure (is_dict entry \<and> one_of (pget entry ''step_id'') (map step_name (program_steps (program_definition program))))
       (ValueError ''workflow_target_history_invalid'')) (\<lambda>_.
     if pget entry ''verdict'' \<noteq> PStr ''success'' then Inr expected
     else rbind (find_step program (pget entry ''step_id'')) (\<lambda>step.
       let types = declared_output_types step; outputs = pget entry ''outputs'' in
       rbind (ensure (is_dict outputs \<and> keys_are outputs (map fst types) \<and> outputs_typed types outputs)
         (ValueError ''workflow_target_history_outputs_invalid'')) (\<lambda>_.
       let added = step_outputs (step_name step) outputs in
       rbind (ensure (list_all (\<lambda>(k, _). k \<notin> set (map fst expected)) added)
         (ValueError ''workflow_target_output_duplicate'')) (\<lambda>_.
       Inr (expected @ added)))))"

definition history_outputs :: "pyval \<Rightarrow> pyval list \<Rightarrow> (string \<times> pyval) list res" where
  "history_outputs program history = fold_res (replay_entry program) history []"

definition bound_values :: "string \<Rightarrow> (string \<times> pyval) list \<Rightarrow> pyval" where
  "bound_values run outputs = PDict (map (\<lambda>(k, v). (k, PDict [(''run_id'', PStr run), (''value'', v)])) outputs)"

definition target_outputs :: "trial \<Rightarrow> pyval \<Rightarrow> pyval res" where
  "target_outputs state program =
     rbind (history_outputs program (tr_history state)) (\<lambda>expected.
     rbind (ensure (py_eq (tr_outputs state) (PDict expected)) (ValueError ''workflow_target_outputs_mismatch'')) (\<lambda>_.
     Inr (bound_values (tr_run state) expected)))"

text \<open>With \<^verbatim>\<open>steps_only\<close> the memory locator is left out and the goal is described instead.\<close>

definition command_step :: "trial_library \<Rightarrow> pyval \<Rightarrow> trial \<Rightarrow> pyval res" where
  "command_step lib step state =
     (if tr_strategy state = ''learned'' then Inr step
      else
        let action = pget step ''action''; reference = pget action ''target_memory'';
            bare = (if is_dict (pget step ''verification'')
              then pset ''verification'' (pdel ''image_check'' (pget step ''verification'')) step else step);
            acting = pdel ''target_memory'' action in
        if reference = PNone then Inr (pset ''action'' acting bare)
        else rbind (tl_goal lib reference action (PDict [(''run_id'', PStr (tr_run state)), (''inputs'', tr_inputs state),
              (''outputs'', bound_values (tr_run state) (pitems (tr_outputs state)))])) (\<lambda>goal.
          Inr (pset ''action'' (pset (if pget action ''kind'' = PStr ''click'' then ''goal'' else ''field_goal'') goal acting) bare)))"

definition compile_command :: "trial_library \<Rightarrow> trial \<Rightarrow> pyval \<Rightarrow> pyval \<Rightarrow> (pyval \<times> pyval) res" where
  "compile_command lib state program step =
     rbind (if tr_strategy state = ''steps_only'' then rbind (target_outputs state program) (\<lambda>_. Inr ()) else Inr ()) (\<lambda>_.
     rbind (command_step lib step state) (\<lambda>effective.
     rbind (trial_command effective (tr_inputs state) (tr_outputs state)) (\<lambda>command. Inr (effective, command))))"

definition add_vision :: "trial_library \<Rightarrow> pyval \<Rightarrow> pyval \<Rightarrow> pyval res" where
  "add_vision lib vision command =
     (if vision = PNone then Inr command
      else rbind (ensure (one_of (pget command ''kind'') [''step'', ''input_sequence''])
          (ValueError ''workflow_trial_vision_capabilities_not_supported_for_action'')) (\<lambda>_.
        rbind (tl_vision lib vision) (\<lambda>v. Inr (pset ''vision_capabilities'' v command))))"

definition trial_ticket :: "string \<Rightarrow> pyval \<Rightarrow> pyval \<Rightarrow> pyval \<Rightarrow> string \<Rightarrow> pyval \<Rightarrow> pyval" where
  "trial_ticket ticket_id step effective command strategy observations = PDict [
     (''execution_request_id'', PStr ticket_id), (''step_id'', pget step ''step_id''), (''suggested_command'', command),
     (''execution_strategy'', PStr strategy),
     (''preview'', PDict [(''title'', pget step ''title''), (''action'', pget effective ''action''),
       (''execution_strategy'', PStr strategy), (''program_review_status'', pget step ''review_status''),
       (''source_node_id'', pget step ''source_node_id''), (''target_node_id'', pget step ''target_node_id''),
       (''provenance'', pget step ''provenance''),
       (''review_status'', if strategy = ''learned'' then pget step ''review_status'' else PStr ''pending'')]),
     (''observations'', observations)]"

definition ticket_name :: "trial \<Rightarrow> pyval \<Rightarrow> string \<Rightarrow> string res" where
  "ticket_name state step request_id =
     rbind (json_digest [PStr (tr_run state), pget step ''step_id'', PInt (int (length (tr_history state))), PStr request_id])
       (\<lambda>d. Inr (''trial-exec-'' @ take 32 d))"

definition issue_ticket :: "trial_library \<Rightarrow> trial_store \<Rightarrow> trial \<Rightarrow> pyval \<Rightarrow> pyval \<Rightarrow> pyval \<Rightarrow> string \<Rightarrow> string \<Rightarrow> pyval \<Rightarrow> pyval
    \<Rightarrow> (trial_store \<times> reply) res" where
  "issue_ticket lib store state step effective command request_id sha observations vision =
     rbind (add_vision lib vision command) (\<lambda>sent.
     rbind (ticket_name state step request_id) (\<lambda>ticket_id.
     let ticket = trial_ticket ticket_id step effective sent (tr_strategy state) observations in
     Inr (remember_prepare store
       (state\<lparr>tr_pending := ticket, tr_status := ''pending'', tr_reason := [], tr_blocked := None\<rparr>)
       request_id sha (pending_result (tr_run state) ticket))))"

definition prepare_step :: "trial_library \<Rightarrow> trial_store \<Rightarrow> trial \<Rightarrow> pyval \<Rightarrow> string \<Rightarrow> string \<Rightarrow> pyval \<Rightarrow> pyval
    \<Rightarrow> (trial_store \<times> reply) res" where
  "prepare_step lib store state program request_id sha observations vision =
     rbind (find_step program (tr_current state)) (\<lambda>step.
     rbind (trial_conditions (plist (pget step ''preconditions'')) (tr_inputs state) (tr_outputs state) observations) (\<lambda>condition.
     if condition \<noteq> ''true'' then Inr (block_trial store state (''precondition_'' @ condition) request_id sha)
     else (case compile_command lib state program step of
         Inl (ValueError reason) \<Rightarrow> Inr (block_trial store state reason request_id sha)
       | Inl e \<Rightarrow> Inl e
       | Inr (effective, command) \<Rightarrow>
           issue_ticket lib store state step effective command request_id sha observations vision)))"

definition prepare_conflict :: pyexc where
  "prepare_conflict = ValueError ''workflow_trial_idempotency_conflict''"

text \<open>A request that was answered before gets its answer again; a ticket that is out is shown again.\<close>

definition prepare_answer :: "trial_library \<Rightarrow> trial_store \<Rightarrow> trial \<Rightarrow> pyval \<Rightarrow> string \<Rightarrow> string \<Rightarrow> pyval \<Rightarrow> pyval
    \<Rightarrow> (trial_store \<times> reply) res" where
  "prepare_answer lib store state program request_id sha observations vision =
     (case map_of (tr_prepares state) request_id of
       Some (old, result) \<Rightarrow> rbind (ensure (old = sha) prepare_conflict) (\<lambda>_. Inr (store, Ticket result))
     | None \<Rightarrow>
         if tr_pending state \<noteq> PNone then
           Inr (remember_prepare store state request_id sha (pending_result (tr_run state) (tr_pending state)))
         else rbind (ensure (tr_status state \<in> {''ready'', ''blocked''}) (ValueError ''workflow_trial_not_preparable'')) (\<lambda>_.
           case tr_blocked state of
             Some (prior, old) \<Rightarrow>
               if prior = request_id then rbind (ensure (old = sha) prepare_conflict) (\<lambda>_.
                 Inr (remember_prepare store state request_id sha (blocked_result state (tr_reason state))))
               else prepare_step lib store state program request_id sha observations vision
           | None \<Rightarrow> prepare_step lib store state program request_id sha observations vision))"

definition trial_prepare :: "trial_library \<Rightarrow> trial_store \<Rightarrow> string \<Rightarrow> string \<Rightarrow> pyval \<Rightarrow> pyval \<Rightarrow> (trial_store \<times> reply) res" where
  "trial_prepare lib store run request_id observations vision =
     rbind (check_id ''request_id'' (PStr request_id)) (\<lambda>_.
     rbind (trial_load lib store run) (\<lambda>(state, program).
     rbind (ensure (\<not> truthy (tr_settlement state)) (ValueError ''workflow_trial_recovery_paused'')) (\<lambda>_.
     rbind (ensure (is_dict observations \<or> observations = PNone) (ValueError ''workflow_trial_observations_invalid'')) (\<lambda>_.
     rbind (ensure (vision = PNone \<or> is_dict vision) (ValueError ''workflow_trial_vision_capabilities_invalid'')) (\<lambda>_.
     rbind (json_digest [py_or observations (PDict []), vision]) (\<lambda>sha.
     prepare_answer lib store state program request_id sha (py_or observations (PDict [])) vision))))))"

section \<open>Reviewing a command\<close>

definition selection_context :: "trial \<Rightarrow> pyval \<Rightarrow> pyval \<Rightarrow> pyval \<Rightarrow> pyval res" where
  "selection_context state step command execution_id =
     rbind (trial_command step (tr_inputs state) (tr_outputs state)) (\<lambda>base.
     rbind (ensure (py_eq (pdel ''vision_capabilities'' command) base)
       (ValueError ''workflow_trial_selection_command_mismatch'')) (\<lambda>_.
     rbind (ct_digest command) (\<lambda>sha.
     Inr (PDict [(''run_id'', PStr (tr_run state)), (''step_id'', pget step ''step_id''),
       (''execution_request_id'', execution_id), (''command_sha256'', PStr sha), (''action'', pget step ''action''),
       (''inputs'', tr_inputs state), (''outputs'', bound_values (tr_run state) (pitems (tr_outputs state)))]))))"

text \<open>\<^verbatim>\<open>None\<close> for a command that asks for no selection.\<close>

definition receipt_context :: "trial \<Rightarrow> pyval \<Rightarrow> pyval res" where
  "receipt_context state program = (let pending = tr_pending state; command = pget pending ''suggested_command'' in
     if \<not> selection_requested (pget command ''request'') then Inr PNone
     else (case filter (\<lambda>s. pget s ''step_id'' = pget pending ''step_id'') (program_steps (program_definition program)) of
         [step] \<Rightarrow> rbind (ensure (py_eq (pget (pget pending ''preview'') ''action'') (pget step ''action'')
               \<and> tr_current state = pget pending ''step_id'') (ValueError ''workflow_trial_selection_step_mismatch'')) (\<lambda>_.
             selection_context state step command (pget pending ''execution_request_id''))
       | _ \<Rightarrow> Inl (ValueError ''workflow_trial_selection_step_mismatch'')))"

definition review_verdicts :: "string list" where
  "review_verdicts = [''success'', ''failure'', ''uncertain'']"

definition read_response :: "trial_world \<Rightarrow> string \<Rightarrow> pyval res" where
  "read_response w execution_id = (case tw_response w execution_id of
       None \<Rightarrow> Inl (ValueError ''workflow_trial_receipt_missing'')
     | Some receipt \<Rightarrow> rbind (ensure (is_dict receipt) (ValueError ''workflow_trial_file_invalid'')) (\<lambda>_. Inr receipt))"

definition check_outputs :: "pyval \<Rightarrow> string \<Rightarrow> pyval \<Rightarrow> unit res" where
  "check_outputs step verdict outputs = (let types = declared_output_types step in
     rbind (ensure (keys_within outputs (map fst types) \<and> outputs_typed types outputs)
       (ValueError ''workflow_trial_outputs_invalid'')) (\<lambda>_.
     ensure (verdict = ''success'' \<longrightarrow> keys_are outputs (map fst types))
       (ValueError ''workflow_trial_required_output_missing'')))"

definition all_outputs :: "trial \<Rightarrow> pyval \<Rightarrow> pyval \<Rightarrow> pyval" where
  "all_outputs state step outputs = PDict (fold (\<lambda>(k, v). dput k v)
     (step_outputs (py_str (pget step ''step_id'')) outputs) (pitems (tr_outputs state)))"

definition effective_verdict :: "string \<Rightarrow> string \<Rightarrow> string" where
  "effective_verdict verdict condition = (if verdict \<noteq> ''success'' then verdict
     else if condition = ''true'' then ''success'' else if condition = ''false'' then ''failure'' else ''uncertain'')"

definition if_given :: "string \<Rightarrow> pyval \<Rightarrow> pyval \<Rightarrow> pyval" where
  "if_given key v entry = (if v = PNone then entry else pset key v entry)"

fun pset_all :: "(string \<times> pyval) list \<Rightarrow> pyval \<Rightarrow> pyval" where
  "pset_all [] v = v" | "pset_all ((k, x) # kvs) v = pset_all kvs (pset k x v)"

definition basic_entry :: "trial \<Rightarrow> pyval \<Rightarrow> string \<Rightarrow> string \<Rightarrow> string \<Rightarrow> string \<Rightarrow> string \<Rightarrow> pyval \<Rightarrow> pyval
    \<Rightarrow> string \<Rightarrow> receipt_state \<Rightarrow> pyval" where
  "basic_entry state step request_id execution_id verdict effective condition observations outputs sha receipt =
     (case receipt of (dispatched, terminal, seen) \<Rightarrow> PDict [
       (''step_id'', pget step ''step_id''), (''execution_request_id'', PStr execution_id),
       (''review_request'', PDict [(''request_id'', PStr request_id), (''submitted_outputs'', outputs)]),
       (''execution_strategy'', PStr (tr_strategy state)), (''receipt_sha256'', PStr sha), (''terminal_receipt'', terminal),
       (''input_route_succeeded'', if seen = PNone then PBool dispatched else PNone),
       (''agent_verdict'', PStr verdict), (''verdict'', PStr effective), (''condition_result'', PStr condition),
       (''judged_by'', PStr ''agent''), (''observations'', observations),
       (''outputs'', if effective = ''success'' then outputs else PDict [])])"

definition sent_entry :: "bool \<Rightarrow> pyval \<Rightarrow> pyval \<Rightarrow> pyval" where
  "sent_entry dispatched actual entry = pset_all [(''command_succeeded'', PBool dispatched), (''action_executed'', actual),
     (''input_route_succeeded'', PBool (dispatched \<and> actual = PBool True))] entry"

text \<open>What a selection receipt adds: the input really sent, and the digest of its proof.\<close>

definition selection_entry :: "trial_world \<Rightarrow> string \<Rightarrow> pyval \<Rightarrow> pyval \<Rightarrow> receipt_state \<Rightarrow> pyval \<Rightarrow> pyval res" where
  "selection_entry w execution_id context receipt state entry = (case state of (dispatched, terminal, _) \<Rightarrow>
     if context = PNone then Inr entry
     else rbind (resolve_execution_receipt w receipt execution_id) (\<lambda>(original, _).
       rbind (actual_action_executed w execution_id (pget original ''result'') terminal) (\<lambda>actual.
       let added = sent_entry dispatched actual entry in
       if dispatched then
         rbind (item (pget original ''result'') ''row_selection_proof'') (\<lambda>proof.
         rbind (item proof ''sha256'') (\<lambda>sha. Inr (pset ''selection_proof_sha256'' sha added)))
       else Inr added)))"

definition runtime_entry :: "string \<Rightarrow> pyval \<Rightarrow> pyval \<Rightarrow> pyval" where
  "runtime_entry verdict verification entry =
     (let added = pset_all [(''runtime_verdict'', PStr verdict), (''judged_by'', PStr ''runtime''),
         (''action_executed'', pget verification ''action_executed''), (''runtime_reason'', pget verification ''reason''),
         (''runtime_settlement_request_id'', pget verification ''runtime_settlement_request_id''),
         (''terminal_status'', pget verification ''terminal_status'')] entry;
          reasoned = (if pget verification ''reason'' = PStr ''cancel_requested_original_execution_terminal''
            then pset ''cancel_reason'' (pget verification ''reason'') added else added) in
      if_given ''error'' (pget verification ''error'') (if_given ''error_type'' (pget verification ''error_type'') reasoned))"

definition judged_entry :: "string \<Rightarrow> pyval \<Rightarrow> pyval \<Rightarrow> pyval" where
  "judged_entry verdict verification entry =
     (let bare = pdel ''agent_verdict'' entry; source = pget verification ''source'' in
      if verification = PNone then entry
      else if source = PStr ''runtime'' then runtime_entry verdict verification bare
      else let decided = source = PStr ''decision'' in
        pset_all [(''judged_by'', PStr (if decided then ''decision'' else ''rule'')), (''verification'', verification),
          (if decided then ''decision_verdict'' else ''rule_verdict'', PStr verdict)] bare)"

definition review_entry :: "trial_world \<Rightarrow> trial \<Rightarrow> pyval \<Rightarrow> string \<Rightarrow> string \<Rightarrow> string \<Rightarrow> string \<Rightarrow> pyval \<Rightarrow> pyval
    \<Rightarrow> pyval \<Rightarrow> pyval \<Rightarrow> pyval \<Rightarrow> receipt_state \<Rightarrow> pyval res" where
  "review_entry w state step request_id execution_id verdict condition observations outputs verification context receipt received =
     (let effective = effective_verdict verdict condition;
          base = basic_entry state step request_id execution_id verdict effective condition observations outputs
            (tw_response_sha w execution_id) received in
      rbind (selection_entry w execution_id context receipt received base) (\<lambda>entry.
      let seen = snd (snd received) in
      Inr (judged_entry verdict verification (if_given ''read_observation'' seen entry))))"

definition branch_status :: "trial \<Rightarrow> pyval \<Rightarrow> string \<Rightarrow> string" where
  "branch_status state target ended = (if tr_status state = ''cancel_requested'' then ''cancelled''
     else if truthy target then ''ready'' else ended)"

definition settle_review :: "trial \<Rightarrow> pyval \<Rightarrow> string \<Rightarrow> pyval \<Rightarrow> pyval \<Rightarrow> string \<Rightarrow> string \<Rightarrow> trial" where
  "settle_review state step effective outputs entry request_id sha =
     (let target = pget (pget step ''branches'') effective;
          recorded = state\<lparr>tr_history := tr_history state @ [entry], tr_pending := PNone,
            tr_requests := put request_id sha (tr_requests state)\<rparr> in
      if effective = ''success'' then
        recorded\<lparr>tr_outputs := all_outputs state step outputs, tr_current := target,
          tr_status := branch_status state target ''completed''\<rparr>
      else if effective = ''failure'' then
        recorded\<lparr>tr_current := target, tr_status := branch_status state target ''failed''\<rparr>
      else recorded\<lparr>tr_status := (if tr_status state = ''cancel_requested'' then ''cancelled'' else ''paused_uncertain'')\<rparr>)"

definition accept_review :: "trial_world \<Rightarrow> trial \<Rightarrow> pyval \<Rightarrow> string \<Rightarrow> string \<Rightarrow> string \<Rightarrow> pyval \<Rightarrow> pyval \<Rightarrow> pyval \<Rightarrow> string
    \<Rightarrow> trial res" where
  "accept_review w state program request_id execution_id verdict observations outputs verification sha =
     rbind (read_response w execution_id) (\<lambda>receipt.
     rbind (receipt_context state program) (\<lambda>context.
     rbind (receipt_state w receipt execution_id (pget (tr_pending state) ''suggested_command'') context) (\<lambda>received.
     rbind (ensure (verdict = ''success'' \<longrightarrow> fst received) (ValueError ''workflow_trial_input_not_succeeded'')) (\<lambda>_.
     rbind (find_step program (pget (tr_pending state) ''step_id'')) (\<lambda>step.
     rbind (check_outputs step verdict outputs) (\<lambda>_.
     rbind (trial_conditions (plist (pget step ''success_conditions'')) (tr_inputs state) (all_outputs state step outputs)
       observations) (\<lambda>condition.
     rbind (review_entry w state step request_id execution_id verdict condition observations outputs verification
       context receipt received) (\<lambda>entry.
     Inr (settle_review state step (effective_verdict verdict condition) outputs entry request_id sha)))))))))"

definition review_values :: "string \<Rightarrow> string \<Rightarrow> pyval \<Rightarrow> pyval \<Rightarrow> pyval \<Rightarrow> pyval list" where
  "review_values execution_id verdict observations outputs verification =
     [PStr execution_id, PStr verdict, observations, outputs] @ (if verification = PNone then [] else [verification])"

definition review_answer :: "trial_world \<Rightarrow> trial_store \<Rightarrow> trial \<Rightarrow> pyval \<Rightarrow> string \<Rightarrow> string \<Rightarrow> string \<Rightarrow> pyval
    \<Rightarrow> pyval \<Rightarrow> pyval \<Rightarrow> string \<Rightarrow> (trial_store \<times> reply) res" where
  "review_answer w store state program request_id execution_id verdict observations outputs verification sha =
     (case map_of (tr_requests state) request_id of
       Some old \<Rightarrow> rbind (ensure (old = sha) (ValueError ''workflow_trial_idempotency_conflict'')) (\<lambda>_. Inr (store, State state))
     | None \<Rightarrow>
         rbind (ensure (is_dict (tr_pending state) \<and> pget (tr_pending state) ''execution_request_id'' = PStr execution_id)
           (ValueError ''workflow_trial_pending_ticket_mismatch'')) (\<lambda>_.
         rbind (ensure (verdict \<in> set review_verdicts \<and> is_dict observations \<and> is_dict outputs)
           (ValueError ''workflow_trial_review_invalid'')) (\<lambda>_.
         rbind (accept_review w state program request_id execution_id verdict observations outputs verification sha) (\<lambda>after.
         Inr (keep_trial store after, State after)))))"

definition trial_review :: "trial_library \<Rightarrow> trial_world \<Rightarrow> trial_store \<Rightarrow> string \<Rightarrow> string \<Rightarrow> string \<Rightarrow> string \<Rightarrow> pyval
    \<Rightarrow> pyval \<Rightarrow> pyval \<Rightarrow> (trial_store \<times> reply) res" where
  "trial_review lib w store run request_id execution_id verdict observations outputs verification =
     rbind (check_id ''request_id'' (PStr request_id)) (\<lambda>_.
     rbind (check_id ''execution_request_id'' (PStr execution_id)) (\<lambda>_.
     rbind (trial_load lib store run) (\<lambda>(state, program).
     rbind (ensure (\<not> truthy (tr_settlement state)) (ValueError ''workflow_trial_recovery_paused'')) (\<lambda>_.
     rbind (json_digest (review_values execution_id verdict observations outputs verification)) (\<lambda>sha.
     review_answer w store state program request_id execution_id verdict observations outputs verification sha)))))"

section \<open>Settling an execution that failed or was cancelled\<close>

definition settled_before :: "trial \<Rightarrow> string \<Rightarrow> string \<Rightarrow> bool" where
  "settled_before state request_id execution_id = (tr_history state \<noteq> []
     \<and> pget (last (tr_history state)) ''execution_request_id'' = PStr execution_id
     \<and> pget (last (tr_history state)) ''runtime_settlement_request_id'' = PStr request_id)"

definition pending_receipt_state :: "trial_world \<Rightarrow> trial \<Rightarrow> pyval \<Rightarrow> string \<Rightarrow> (pyval \<times> pyval \<times> pyval) res" where
  "pending_receipt_state w state program execution_id =
     rbind (ensure (is_dict (tr_pending state) \<and> pget (tr_pending state) ''execution_request_id'' = PStr execution_id)
       (ValueError ''workflow_trial_pending_ticket_mismatch'')) (\<lambda>_.
     rbind (read_response w execution_id) (\<lambda>receipt.
     rbind (receipt_context state program) (\<lambda>context.
     rbind (receipt_state w receipt execution_id (pget (tr_pending state) ''suggested_command'') context) (\<lambda>(_, terminal, _).
     Inr (receipt, context, terminal)))))"

definition runtime_result :: "string \<Rightarrow> string \<Rightarrow> pyval \<Rightarrow> pyval \<Rightarrow> string \<Rightarrow> pyval \<Rightarrow> pyval" where
  "runtime_result verdict reason status executed request_id fault = PDict [(''source'', PStr ''runtime''),
     (''verdict'', PStr verdict), (''reason'', PStr reason), (''terminal_status'', status), (''action_executed'', executed),
     (''runtime_settlement_request_id'', PStr request_id), (''error_type'', pget fault ''error_type''),
     (''error'', pget fault ''error'')]"

definition failure_source :: "trial_world \<Rightarrow> string \<Rightarrow> pyval \<Rightarrow> pyval res" where
  "failure_source w execution_id receipt = (if pget receipt ''status'' = PStr ''failed'' then Inr receipt
     else case tw_terminal w execution_id of
         Some t \<Rightarrow> if is_dict t then Inr t else Inl (ValueError ''workflow_trial_file_invalid'')
       | None \<Rightarrow> Inl (ValueError ''workflow_trial_file_invalid''))"

definition record_failed_execution :: "trial_library \<Rightarrow> trial_world \<Rightarrow> trial_store \<Rightarrow> string \<Rightarrow> string \<Rightarrow> string
    \<Rightarrow> (trial_store \<times> reply) res" where
  "record_failed_execution lib w store run request_id execution_id =
     rbind (check_id ''request_id'' (PStr request_id)) (\<lambda>_.
     rbind (check_id ''execution_request_id'' (PStr execution_id)) (\<lambda>_.
     rbind (trial_load lib store run) (\<lambda>(state, program).
     if map_of (tr_requests state) request_id \<noteq> None then
       rbind (ensure (settled_before state request_id execution_id) (ValueError ''workflow_trial_idempotency_conflict''))
         (\<lambda>_. Inr (store, State state))
     else
       rbind (pending_receipt_state w state program execution_id) (\<lambda>(receipt, _, terminal).
       rbind (ensure (pget receipt ''status'' = PStr ''failed'' \<or> pget terminal ''status'' = PStr ''failed'')
         (ValueError ''workflow_trial_original_failure_required'')) (\<lambda>_.
       rbind (resolve_execution_receipt w receipt execution_id) (\<lambda>(effective, _).
       rbind (failure_source w execution_id receipt) (\<lambda>fault.
       rbind (actual_action_executed w execution_id (pget effective ''result'') terminal) (\<lambda>executed.
       trial_review lib w store run request_id execution_id ''failure'' (PDict []) (PDict [])
         (runtime_result ''failure'' ''original_execution_failed'' (PStr ''failed'') executed request_id fault)))))))))"

definition cancelled_status :: "pyval \<Rightarrow> pyval \<Rightarrow> pyval res" where
  "cancelled_status effective terminal =
     (if terminal \<noteq> PNone then Inr (pget terminal ''status'')
      else if pget effective ''status'' = PStr ''failed'' then Inr (PStr ''failed'')
      else rbind (get_or_raise (pget_default effective ''result'' (PDict [])) ''status'') (\<lambda>status.
        if status = PStr ''failed'' then Inr (PStr ''failed'')
        else if status = PStr ''cancelled'' then Inr (PStr ''cancelled'')
        else if status = PStr ''completed'' \<or> pget (pget effective ''result'') ''phase'' = PStr ''returned''
          then Inr (PStr ''completed'')
        else Inl (ValueError ''workflow_trial_receipt_not_terminal'')))"

definition record_cancelled_execution :: "trial_library \<Rightarrow> trial_world \<Rightarrow> trial_store \<Rightarrow> string \<Rightarrow> string \<Rightarrow> string
    \<Rightarrow> (trial_store \<times> reply) res" where
  "record_cancelled_execution lib w store run request_id execution_id =
     rbind (check_id ''request_id'' (PStr request_id)) (\<lambda>_.
     rbind (check_id ''execution_request_id'' (PStr execution_id)) (\<lambda>_.
     rbind (trial_load lib store run) (\<lambda>(state, program).
     if map_of (tr_requests state) request_id \<noteq> None then
       rbind (ensure (settled_before state request_id execution_id) (ValueError ''workflow_trial_idempotency_conflict''))
         (\<lambda>_. Inr (store, State state))
     else
       rbind (ensure (tr_status state = ''cancel_requested'') (ValueError ''workflow_trial_cancel_requested_required'')) (\<lambda>_.
       rbind (pending_receipt_state w state program execution_id) (\<lambda>(receipt, _, terminal).
       rbind (resolve_execution_receipt w receipt execution_id) (\<lambda>(effective, _).
       rbind (cancelled_status effective terminal) (\<lambda>status.
       rbind (actual_action_executed w execution_id (pget effective ''result'') terminal) (\<lambda>executed.
       trial_review lib w store run request_id execution_id ''uncertain'' (PDict []) (PDict [])
         (runtime_result ''uncertain'' ''cancel_requested_original_execution_terminal'' status executed request_id receipt)))))))))"

section \<open>Results that the host verified\<close>

text \<open>\<^verbatim>\<open>_execution_identity\<close>: the window and process the execution worked on.\<close>

definition identity_value :: "pyval \<Rightarrow> pyval res" where
  "identity_value identity = rbind (ensure (is_dict identity) AttributeError) (\<lambda>_.
     Inr (PDict [(''handle'', pget identity ''target_window_handle''), (''process_id'', pget identity ''process_id''),
       (''process_create_time'', pget identity ''process_create_time'')]))"

definition row_identities :: "pyval list \<Rightarrow> pyval list res" where
  "row_identities rows = rbind (ensure (list_all (\<lambda>row. is_dict (pget_default row ''receipt'' (PDict [])) \<and> is_dict row) rows)
     AttributeError) (\<lambda>_. Inr (map (\<lambda>row. pget (pget row ''receipt'') ''target_identity'') rows))"

definition execution_identity :: "pyval \<Rightarrow> pyval res" where
  "execution_identity receipt = (let result = py_or (pget receipt ''result'') (PDict []) in
     rbind (get_or_raise result ''target_identity'') (\<lambda>identity.
     if identity \<noteq> PNone then identity_value identity
     else if truthy (pget result ''steps'') then
       rbind (row_identities (plist (pget result ''steps''))) (\<lambda>identities.
       rbind (ensure (identities \<noteq> [] \<and> list_all (\<lambda>v. v \<noteq> PNone \<and> py_eq v (hd identities)) identities)
         (ValueError ''workflow_verification_execution_identity_changed'')) (\<lambda>_.
       identity_value (last identities)))
     else get_or_raise (py_or (pget receipt ''observation'') (PDict [])) ''window_identity''))"

text \<open>\<^verbatim>\<open>adopted_verification\<close> after the decision is authenticated: only a judgment that the rules leave open.\<close>

definition adopted_verification :: "trial_world \<Rightarrow> pyval \<Rightarrow> pyval \<Rightarrow> pyval \<Rightarrow> pyval \<Rightarrow> pyval res" where
  "adopted_verification w step inputs outputs envelope =
     (let receipt = pget envelope ''receipt''; observation = pget envelope ''observation'' in
      rbind (tw_decision w step envelope) (\<lambda>decision.
      rbind (verify_step step inputs outputs receipt observation) (\<lambda>own.
      rbind (ensure (pget own ''verdict'' = PStr ''uncertain'' \<and> pget own ''reason'' = PStr ''agent_judgment_required'')
        (ValueError ''workflow_decision_local_result_ineligible'')) (\<lambda>_.
      rbind (if pget decision ''verdict'' = PStr ''success'' then
          trial_conditions (plist (pget step ''success_conditions'')) inputs (own_values outputs (pget receipt ''run_id''))
            (pget observation ''values'') else Inr ''true'') (\<lambda>condition.
      rbind (ensure (condition = ''true'') (ValueError ''workflow_decision_success_conditions_require_agent'')) (\<lambda>_.
      Inr (pset ''source'' (PStr ''decision'')
        (rule_result (py_str (pget decision ''verdict'')) ''decision_condition_verified'' receipt observation []))))))))"

definition check_verified_shape :: "pyval \<Rightarrow> unit res" where
  "check_verified_shape result = (let bad = ValueError ''workflow_verification_result_invalid'' in
     rbind (ensure (is_dict result \<and> keys_are result [''verdict'', ''source'', ''observations'', ''outputs'', ''evidence_refs'', ''reason''])
       bad) (\<lambda>_.
     rbind (in_names (pget result ''source'') [''rule'', ''decision'']) (\<lambda>known.
     ensure (known \<and> is_dict (pget result ''observations'') \<and> is_dict (pget result ''outputs'')) bad)))"

definition main_review_required :: "trial_world \<Rightarrow> pyval \<Rightarrow> bool" where
  "main_review_required w step = (let verification = pget step ''verification'' in
     pget verification ''review_policy'' = PStr ''always_main''
     \<or> pget (pget (pget verification ''condition_binding'') ''template'') ''review_policy'' = PStr ''always_main''
     \<or> tw_always_main w)"

text \<open>What ties the evidence to the execution: its ids, its window, the capture taken afterwards and its receipt.\<close>

definition evidence_bound :: "trial_world \<Rightarrow> trial \<Rightarrow> string \<Rightarrow> string \<Rightarrow> pyval \<Rightarrow> pyval \<Rightarrow> bool \<Rightarrow> pyval \<Rightarrow> pyval \<Rightarrow> pyval \<Rightarrow> bool" where
  "evidence_bound w state request_id execution_id normalized frame dispatched executed selection identity =
     (pget normalized ''run_id'' = PStr (tr_run state) \<and> py_eq (pget normalized ''step_id'') (pget (tr_pending state) ''step_id'')
      \<and> pget normalized ''request_id'' = PStr request_id \<and> pget normalized ''execution_request_id'' = PStr execution_id
      \<and> py_eq (pget normalized ''window_identity'') identity
      \<and> py_eq (pget frame ''window_identity'') (pget normalized ''window_identity'')
      \<and> py_eq (pget normalized ''post_capture_id'') (pget frame ''capture_id'')
      \<and> py_eq (pget normalized ''post_capture_sha256'') (pget frame ''sha256'')
      \<and> pget normalized ''status'' = PStr (if dispatched then ''completed'' else ''failed'')
      \<and> pget normalized ''action_executed'' = executed \<and> py_eq (pget normalized ''row_selection_proof'') selection
      \<and> tw_names_receipt w (py_str (pget_default normalized ''evidence_ref'' (PStr []))) execution_id)"

definition check_evidence :: "trial_world \<Rightarrow> trial \<Rightarrow> pyval \<Rightarrow> string \<Rightarrow> string \<Rightarrow> pyval \<Rightarrow> unit res" where
  "check_evidence w state program request_id execution_id evidence =
     rbind (case tw_response w execution_id of
         None \<Rightarrow> Inl (ValueError ''workflow_trial_file_invalid'')
       | Some r \<Rightarrow> rbind (ensure (is_dict r) (ValueError ''workflow_trial_file_invalid'')) (\<lambda>_. Inr r)) (\<lambda>receipt.
     rbind (ensure (pget evidence ''source_receipt_sha256'' = PStr (tw_response_sha w execution_id))
       (ValueError ''workflow_verification_receipt_changed'')) (\<lambda>_.
     rbind (receipt_context state program) (\<lambda>context.
     rbind (receipt_state w receipt execution_id (pget (tr_pending state) ''suggested_command'') context)
       (\<lambda>(dispatched, terminal, _).
     rbind (resolve_execution_receipt w receipt execution_id) (\<lambda>(effective, _).
     rbind (ensure (py_eq (pget evidence ''terminal_receipt'') terminal) (ValueError ''workflow_verification_terminal_changed'')) (\<lambda>_.
     let normalized = pget evidence ''receipt''; frame = pget evidence ''frame'' in
     rbind (ensure (is_dict normalized \<and> is_dict frame) (ValueError ''workflow_verification_evidence_invalid'')) (\<lambda>_.
     rbind (verified_observation w (PDict [(''observation'', frame)])) (\<lambda>_.
     rbind (if pget (pget (tr_pending state) ''suggested_command'') ''kind'' = PStr ''read_text'' then Inr (PBool False)
       else actual_action_executed w execution_id (pget effective ''result'') terminal) (\<lambda>executed.
     rbind (if context \<noteq> PNone \<and> dispatched then get_or_raise (pget effective ''result'') ''row_selection_proof'' else Inr PNone)
       (\<lambda>selection.
     rbind (execution_identity effective) (\<lambda>identity.
     ensure (evidence_bound w state request_id execution_id normalized frame dispatched executed selection identity)
       (ValueError ''workflow_verification_receipt_binding_mismatch''))))))))))))"

definition check_image_evidence :: "trial_world \<Rightarrow> pyval \<Rightarrow> pyval \<Rightarrow> pyval \<Rightarrow> pyval \<Rightarrow> unit res" where
  "check_image_evidence w step source observations frame =
     (let check = pget (pget step ''verification'') ''image_check'' in
      if check = PNone then Inr ()
      else rbind (case tw_image_match w check frame of
            Inl (ValueError _) \<Rightarrow> Inl (ValueError ''workflow_verification_image_evidence_unavailable'')
          | Inl OSError \<Rightarrow> Inl (ValueError ''workflow_verification_image_evidence_unavailable'')
          | r \<Rightarrow> r) (\<lambda>evidence.
        let missed = source = PStr ''decision'' \<and> pget evidence ''reason'' = PStr ''image_not_matched''
              \<and> pget evidence ''matched'' = PBool False in
        ensure ((pget evidence ''matched'' = PBool True \<or> missed)
            \<and> py_eq evidence (pget (pget_default observations ''values'' (PDict [])) ''image_check''))
          (ValueError ''workflow_verification_image_proof_mismatch'')))"

definition recompute_result :: "trial_world \<Rightarrow> trial \<Rightarrow> pyval \<Rightarrow> pyval \<Rightarrow> pyval \<Rightarrow> pyval res" where
  "recompute_result w state program evidence result =
     (let outputs = bound_values (tr_run state) (pitems (tr_outputs state)); source = pget result ''source'' in
      rbind (find_step program (pget (tr_pending state) ''step_id'')) (\<lambda>step.
      rbind (ensure (source = PStr ''rule'' \<longrightarrow> \<not> main_review_required w step) (ValueError ''workflow_decision_always_main'')) (\<lambda>_.
      rbind (check_image_evidence w step source (pget result ''observations'') (pget evidence ''frame'')) (\<lambda>_.
      rbind (if source = PStr ''decision'' then adopted_verification w step (tr_inputs state) outputs evidence
        else verify_step step (tr_inputs state) outputs (pget evidence ''receipt'') (pget result ''observations'')) (\<lambda>computed.
      rbind (ensure (py_eq computed result) (ValueError ''workflow_verification_result_mismatch'')) (\<lambda>_. Inr computed))))))"

definition read_evidence :: "trial_world \<Rightarrow> pyval \<Rightarrow> pyval res" where
  "read_evidence w observations =
     rbind (ensure (is_str (pget observations ''evidence_ref'')) (ValueError ''workflow_verification_evidence_missing'')) (\<lambda>_.
     rbind (tw_evidence w (py_str (pget observations ''evidence_ref''))) (\<lambda>evidence.
     rbind (ensure (pget evidence ''contract_version'' = PStr ''workflow_observation.v1''
         \<and> py_eq (pget evidence ''observation'') observations) (ValueError ''workflow_verification_evidence_mismatch'')) (\<lambda>_.
     Inr evidence)))"

definition accept_verified :: "trial_library \<Rightarrow> trial_world \<Rightarrow> trial_store \<Rightarrow> trial \<Rightarrow> pyval \<Rightarrow> string \<Rightarrow> string \<Rightarrow> pyval
    \<Rightarrow> (trial_store \<times> reply) res" where
  "accept_verified lib w store state program request_id execution_id result =
     (let observations = pget result ''observations''; values_seen = pget_default observations ''values'' (PDict []) in
      rbind (read_evidence w observations) (\<lambda>evidence.
      rbind (check_evidence w state program request_id execution_id evidence) (\<lambda>_.
      rbind (recompute_result w state program evidence result) (\<lambda>computed.
      trial_review lib w store (tr_run state) request_id execution_id (py_str (pget computed ''verdict'')) values_seen
        (pget computed ''outputs'') computed))))"

definition record_verified_result :: "trial_library \<Rightarrow> trial_world \<Rightarrow> trial_store \<Rightarrow> string \<Rightarrow> string \<Rightarrow> string \<Rightarrow> pyval
    \<Rightarrow> (trial_store \<times> reply) res" where
  "record_verified_result lib w store run request_id execution_id result =
     rbind (check_id ''request_id'' (PStr request_id)) (\<lambda>_.
     rbind (check_id ''execution_request_id'' (PStr execution_id)) (\<lambda>_.
     rbind (check_verified_shape result) (\<lambda>_.
     rbind (json_digest [PStr execution_id, pget result ''verdict'', pget_default (pget result ''observations'') ''values'' (PDict []),
       pget result ''outputs'', result]) (\<lambda>sha.
     rbind (trial_load lib store run) (\<lambda>(state, program).
     rbind (ensure (\<not> truthy (tr_settlement state)) (ValueError ''workflow_trial_recovery_paused'')) (\<lambda>_.
     rbind (ensure (tr_strategy state \<noteq> ''steps_only'') (ValueError ''workflow_trial_steps_only_requires_agent_review'')) (\<lambda>_.
     case map_of (tr_requests state) request_id of
       Some old \<Rightarrow> rbind (ensure (old = sha) (ValueError ''workflow_trial_idempotency_conflict'')) (\<lambda>_. Inr (store, State state))
     | None \<Rightarrow>
         rbind (ensure (is_dict (tr_pending state) \<and> pget (tr_pending state) ''execution_request_id'' = PStr execution_id)
           (ValueError ''workflow_trial_pending_ticket_mismatch'')) (\<lambda>_.
         if pget result ''source'' = PStr ''decision'' \<and> tr_status state = ''cancel_requested''
         then record_cancelled_execution lib w store run request_id execution_id
         else accept_verified lib w store state program request_id execution_id result))))))))"

section \<open>Cancelling\<close>

definition trial_cancel :: "trial_library \<Rightarrow> trial_store \<Rightarrow> string \<Rightarrow> string \<Rightarrow> (trial_store \<times> reply) res" where
  "trial_cancel lib store run request_id =
     rbind (check_id ''request_id'' (PStr request_id)) (\<lambda>_.
     rbind (trial_load lib store run) (\<lambda>(state, _).
     rbind (ensure (\<not> truthy (tr_settlement state)) (ValueError ''workflow_trial_recovery_paused'')) (\<lambda>_.
     if tr_status state \<in> {''cancelled'', ''cancel_requested''} then Inr (store, State state)
     else let after = state\<lparr>tr_status := (if tr_pending state \<noteq> PNone then ''cancel_requested'' else ''cancelled''), tr_cancel := request_id\<rparr> in
       Inr (keep_trial store after, State after))))"

section \<open>Runs\<close>

text \<open>\<open>Settle\<close> is the mark of \<^verbatim>\<open>workflow_terminal_recovery.py\<close>, which writes the trial file itself.\<close>

datatype trial_event =
    Start string string string pyval string pyval
  | Prepare string string pyval pyval
  | Review string string string string pyval pyval
  | RecordFailed string string string
  | RecordCancelled string string string
  | RecordVerified string string string pyval
  | Cancel string string
  | Settle string pyval

fun trial_step :: "trial_library \<Rightarrow> trial_world \<Rightarrow> trial_event \<Rightarrow> trial_store \<Rightarrow> (trial_store \<times> reply) res" where
  "trial_step lib w (Start workflow program start inputs request strategy) store =
     trial_start lib w store workflow program start inputs request strategy"
| "trial_step lib w (Prepare run request observations vision) store =
     trial_prepare lib store run request observations vision"
| "trial_step lib w (Review run request execution verdict observations outputs) store =
     trial_review lib w store run request execution verdict observations outputs PNone"
| "trial_step lib w (RecordFailed run request execution) store = record_failed_execution lib w store run request execution"
| "trial_step lib w (RecordCancelled run request execution) store =
     record_cancelled_execution lib w store run request execution"
| "trial_step lib w (RecordVerified run request execution result) store =
     record_verified_result lib w store run request execution result"
| "trial_step lib w (Cancel run request) store = trial_cancel lib store run request"
| "trial_step lib w (Settle run mark) store =
     rbind (trial_load lib store run) (\<lambda>(state, _).
       Inr (keep_trial store (state\<lparr>tr_settlement := mark\<rparr>), State state))"

definition trial_after :: "trial_library \<Rightarrow> trial_world \<times> trial_event \<Rightarrow> trial_store \<Rightarrow> trial_store" where
  "trial_after lib we store = (case trial_step lib (fst we) (snd we) store of Inl _ \<Rightarrow> store | Inr (after, _) \<Rightarrow> after)"

definition trial_run :: "trial_library \<Rightarrow> (trial_world \<times> trial_event) list \<Rightarrow> trial_store \<Rightarrow> trial_store" where
  "trial_run lib events store = fold (trial_after lib) events store"

definition no_trials :: trial_store where
  "no_trials = \<lparr>ts_trials = [], ts_index = []\<rparr>"

end
