(* ===== verification/TrialRuns.thy ===== *)
theory TrialRuns
  imports WorkflowTrial
begin

text \<open>
  What holds of every trial of \<open>WorkflowTrial\<close>, whatever is requested and whatever files appear: each operation
  is one of six moves of a trial (\<open>trial_move\<close>) or starts a new one; the recorded steps follow the branches of
  the program, the outputs are those of the accepted reviews, and a success rests on the receipt of the command
  that was handed out. The saved programs have passed \<open>validate_definition\<close> (\<open>accepted_library\<close>), which
  \<^verbatim>\<open>WorkflowProgramService.save\<close> checks before it writes one.
\<close>

section \<open>What an operation does to a trial\<close>

text \<open>The six ways a trial changes, \<open>p\<close> being its program.\<close>

inductive trial_move :: "pyval \<Rightarrow> trial \<Rightarrow> trial \<Rightarrow> bool" for p where
  move_remembered: "trial_move p t (t\<lparr>tr_prepares := ps\<rparr>)"
| move_blocked: "tr_pending t = PNone \<Longrightarrow> tr_status t \<in> {''ready'', ''blocked''} \<Longrightarrow>
    trial_move p t (t\<lparr>tr_status := ''blocked'', tr_reason := why, tr_blocked := request, tr_prepares := ps\<rparr>)"
| move_ticket: "tr_pending t = PNone \<Longrightarrow> tr_status t \<in> {''ready'', ''blocked''} \<Longrightarrow>
    find_step p (tr_current t) = Inr step \<Longrightarrow> is_dict ticket \<Longrightarrow> pget ticket ''step_id'' = pget step ''step_id'' \<Longrightarrow>
    trial_move p t (t\<lparr>tr_pending := ticket, tr_status := ''pending'', tr_reason := [], tr_blocked := None, tr_prepares := ps\<rparr>)"
| move_reviewed: "is_dict (tr_pending t) \<Longrightarrow> find_step p (pget (tr_pending t) ''step_id'') = Inr step \<Longrightarrow>
    is_dict entry \<Longrightarrow> pget entry ''step_id'' = pget step ''step_id'' \<Longrightarrow> pget entry ''verdict'' = PStr effective \<Longrightarrow>
    pget entry ''outputs'' = (if effective = ''success'' then outputs else PDict []) \<Longrightarrow>
    effective \<in> set review_verdicts \<Longrightarrow> is_dict outputs \<Longrightarrow> wf_py outputs \<Longrightarrow> all_finite outputs \<Longrightarrow>
    (effective = ''success'' \<Longrightarrow> check_outputs step ''success'' outputs = Inr ()) \<Longrightarrow>
    trial_move p t (settle_review t step effective outputs entry request sha)"
| move_cancelled: "s = (if tr_pending t \<noteq> PNone then ''cancel_requested'' else ''cancelled'') \<Longrightarrow>
    trial_move p t (t\<lparr>tr_status := s, tr_cancel := request\<rparr>)"
| move_settled: "trial_move p t (t\<lparr>tr_settlement := mark\<rparr>)"

lemma is_dict_pset_all: "is_dict (pset_all kvs v) = is_dict v"
  by (induction kvs v rule: pset_all.induct) auto

lemma map_of_drop_key: "k \<noteq> k' \<Longrightarrow> map_of (filter (\<lambda>kv. fst kv \<noteq> k') d) k = map_of d k"
  by (induction d) auto

lemma pget_pdel: "k \<noteq> k' \<Longrightarrow> pget (pdel k' v) k = pget v k"
  by (cases v) (simp_all add: dict_get_def map_of_drop_key)

lemma is_dict_pdel [simp]: "is_dict (pdel k v) = is_dict v"
  by (cases v) auto

lemma pget_if_given: "k \<noteq> k' \<Longrightarrow> pget (if_given k' x v) k = pget v k"
  by (simp add: if_given_def pget_pset_other)

lemma is_dict_if_given [simp]: "is_dict (if_given k x v) = is_dict v"
  by (simp add: if_given_def)

text \<open>The keys of an entry that no later part of the review rewrites.\<close>

definition entry_keys :: "string list" where
  "entry_keys = [''step_id'', ''execution_request_id'', ''receipt_sha256'', ''verdict'', ''condition_result'',
     ''observations'', ''outputs'']"

definition added_keys :: "string list" where
  "added_keys = [''command_succeeded'', ''action_executed'', ''input_route_succeeded'', ''selection_proof_sha256'',
     ''runtime_verdict'', ''judged_by'', ''runtime_reason'', ''runtime_settlement_request_id'', ''terminal_status'',
     ''cancel_reason'', ''error'', ''error_type'', ''verification'', ''decision_verdict'', ''rule_verdict'',
     ''agent_verdict'', ''read_observation'']"

lemma added_not_entry: "set added_keys \<inter> set entry_keys = {}"
  by code_simp

lemma entry_key_other:
  "k \<in> set entry_keys \<Longrightarrow> k' \<in> set added_keys \<Longrightarrow> pget (pset k' v e) k = pget e k"
  "k \<in> set entry_keys \<Longrightarrow> k' \<in> set added_keys \<Longrightarrow> pget (if_given k' v e) k = pget e k"
  "k \<in> set entry_keys \<Longrightarrow> k' \<in> set added_keys \<Longrightarrow> pget (pdel k' e) k = pget e k"
  using added_not_entry by (auto intro!: pget_pset_other pget_if_given pget_pdel)

lemma entry_keys_all:
  "k \<in> set entry_keys \<Longrightarrow> list_all (\<lambda>kv. fst kv \<in> set added_keys) kvs \<Longrightarrow> pget (pset_all kvs e) k = pget e k"
  by (induction kvs e rule: pset_all.induct) (simp_all add: entry_key_other)

lemma added_keys_list [simp]:
  "''command_succeeded'' \<in> set added_keys" "''action_executed'' \<in> set added_keys"
  "''input_route_succeeded'' \<in> set added_keys" "''selection_proof_sha256'' \<in> set added_keys"
  "''runtime_verdict'' \<in> set added_keys" "''judged_by'' \<in> set added_keys" "''runtime_reason'' \<in> set added_keys"
  "''runtime_settlement_request_id'' \<in> set added_keys" "''terminal_status'' \<in> set added_keys"
  "''cancel_reason'' \<in> set added_keys" "''error'' \<in> set added_keys" "''error_type'' \<in> set added_keys"
  "''verification'' \<in> set added_keys" "''decision_verdict'' \<in> set added_keys" "''rule_verdict'' \<in> set added_keys"
  "''agent_verdict'' \<in> set added_keys" "''read_observation'' \<in> set added_keys"
  by (simp_all add: added_keys_def)

lemma selection_entry_keeps:
  assumes "selection_entry w execution context receipt received entry = Inr e"
  shows "is_dict e = is_dict entry \<and> (k \<in> set entry_keys \<longrightarrow> pget e k = pget entry k)"
proof (cases "context = PNone")
  case True
  with assms show ?thesis by (simp add: selection_entry_def split: prod.splits)
next
  case False
  obtain dispatched terminal seen where r: "received = (dispatched, terminal, seen)" by (cases received)
  let ?add = "\<lambda>actual. sent_entry dispatched actual entry"
  have added: "is_dict (?add actual) = is_dict entry \<and> (k \<in> set entry_keys \<longrightarrow> pget (?add actual) k = pget entry k)" for actual
    unfolding sent_entry_def
    by (intro conjI impI is_dict_pset_all entry_keys_all) (simp_all only: list.pred_inject fst_conv added_keys_list simp_thms)
  note facts = assms[unfolded selection_entry_def r prod.case if_not_P[OF False] Let_def rbind_eq_Inr_iff]
  from facts have "\<exists>actual. e = ?add actual \<or> (\<exists>sha. e = pset ''selection_proof_sha256'' sha (?add actual))"
    by (auto simp: rbind_eq_Inr_iff split: if_splits prod.splits) blast?
  then obtain actual where "e = ?add actual \<or> (\<exists>sha. e = pset ''selection_proof_sha256'' sha (?add actual))" by blast
  then show ?thesis
  proof (elim disjE exE)
    fix sha
    assume e: "e = pset ''selection_proof_sha256'' sha (?add actual)"
    show ?thesis using added[of actual] by (simp add: e entry_key_other)
  qed (use added in simp)
qed

lemma judged_entry_keeps:
  "is_dict (judged_entry verdict verification entry) = is_dict entry"
  "k \<in> set entry_keys \<Longrightarrow> pget (judged_entry verdict verification entry) k = pget entry k"
  unfolding judged_entry_def runtime_entry_def Let_def
  by (simp_all add: is_dict_pset_all entry_keys_all entry_key_other del: pset_all.simps)

lemma basic_entry_get:
  "is_dict (basic_entry state step request execution verdict effective condition observations outputs sha received)"
  "pget (basic_entry state step request execution verdict effective condition observations outputs sha received) ''step_id''
    = pget step ''step_id''"
  "pget (basic_entry state step request execution verdict effective condition observations outputs sha received) ''verdict''
    = PStr effective"
  "pget (basic_entry state step request execution verdict effective condition observations outputs sha received) ''outputs''
    = (if effective = ''success'' then outputs else PDict [])"
  "pget (basic_entry state step request execution verdict effective condition observations outputs sha received)
    ''execution_request_id'' = PStr execution"
  by (simp_all add: basic_entry_def dict_get_def split: prod.split)

lemma review_entry_get:
  assumes "review_entry w state step request execution verdict condition observations outputs verification context
    receipt received = Inr e"
  shows "is_dict e" and "pget e ''step_id'' = pget step ''step_id''"
    and "pget e ''verdict'' = PStr (effective_verdict verdict condition)"
    and "pget e ''outputs'' = (if effective_verdict verdict condition = ''success'' then outputs else PDict [])"
    and "pget e ''execution_request_id'' = PStr execution"
proof -
  let ?base = "basic_entry state step request execution verdict (effective_verdict verdict condition) condition
    observations outputs (tw_response_sha w execution) received"
  from assms obtain entry where
    s: "selection_entry w execution context receipt received ?base = Inr entry"
    and e: "e = judged_entry verdict verification (if_given ''read_observation'' (snd (snd received)) entry)"
    unfolding review_entry_def Let_def checks_iff sum.inject by blast
  have d: "is_dict e" using selection_entry_keeps[OF s] by (simp add: e judged_entry_keeps(1) basic_entry_get)
  have k: "pget e k = pget ?base k" if "k \<in> set entry_keys" for k
  proof -
    show ?thesis using that selection_entry_keeps[OF s, of k] by (simp add: e judged_entry_keeps(2) entry_key_other)
  qed
  show "is_dict e" by (rule d)
  show "pget e ''step_id'' = pget step ''step_id''" by (simp add: k entry_keys_def basic_entry_get)
  show "pget e ''verdict'' = PStr (effective_verdict verdict condition)" by (simp add: k entry_keys_def basic_entry_get)
  show "pget e ''outputs'' = (if effective_verdict verdict condition = ''success'' then outputs else PDict [])"
    by (simp add: k entry_keys_def basic_entry_get)
  show "pget e ''execution_request_id'' = PStr execution" by (simp add: k entry_keys_def basic_entry_get)
qed

lemma effective_verdict_cases:
  "verdict \<in> set review_verdicts \<Longrightarrow> effective_verdict verdict condition \<in> set review_verdicts"
  "effective_verdict verdict condition = ''success'' \<Longrightarrow> verdict = ''success'' \<and> condition = ''true''"
  by (auto simp: effective_verdict_def review_verdicts_def split: if_splits)

lemma accepted_review:
  assumes "accept_review w t p request execution verdict observations outputs verification sha = Inr t'"
  obtains receipt cxt received step condition entry where
    "tw_response w execution = Some receipt" "receipt_context t p = Inr cxt"
    "receipt_state w receipt execution (pget (tr_pending t) ''suggested_command'') cxt = Inr received"
    "verdict = ''success'' \<longrightarrow> fst received"
    "find_step p (pget (tr_pending t) ''step_id'') = Inr step" "check_outputs step verdict outputs = Inr ()"
    "trial_conditions (plist (pget step ''success_conditions'')) (tr_inputs t) (all_outputs t step outputs) observations
      = Inr condition"
    "review_entry w t step request execution verdict condition observations outputs verification cxt receipt received
      = Inr entry"
    "t' = settle_review t step (effective_verdict verdict condition) outputs entry request sha"
proof -
  note facts = assms[unfolded accept_review_def checks_iff sum.inject]
  from facts obtain receipt where r: "read_response w execution = Inr receipt" by blast
  then have "tw_response w execution = Some receipt"
    by (auto simp: read_response_def checks_iff split: option.splits)
  with facts r show ?thesis using that by (metis sum.inject(2))
qed
text \<open>The outputs of a review are a value Python can hold.\<close>

fun event_ok :: "trial_event \<Rightarrow> bool" where
  "event_ok (Review _ _ _ _ _ outputs) = wf_py outputs"
| "event_ok _ = True"

definition trial_changed :: "trial_library \<Rightarrow> trial_store \<Rightarrow> trial_store \<Rightarrow> bool" where
  "trial_changed lib store after = (after = store \<or> (\<exists>t p t'. map_of (ts_trials store) (tr_run t) = Some t
     \<and> tl_program lib (tr_workflow t) (tr_program t) = Inr p \<and> trial_move p t t' \<and> after = keep_trial store t'))"

lemma trial_load_parts:
  assumes "trial_load lib store run = Inr (t, p)"
  shows "map_of (ts_trials store) run = Some t" and "tr_run t = run"
    and "tl_program lib (tr_workflow t) (tr_program t) = Inr p" and "check_pending t = Inr ()"
    and "trial_name_ok run" and "validate_frozen_conditions lib store t p = Inr ()"
  using assms unfolding trial_load_def checks_iff by (auto split: option.splits simp: checks_iff)

lemma trial_changedI:
  assumes "trial_load lib store run = Inr (t, p)" and "trial_move p t t'"
  shows "trial_changed lib store (keep_trial store t')"
proof -
  note parts = trial_load_parts[OF assms(1)]
  have "map_of (ts_trials store) (tr_run t) = Some t" by (simp add: parts(1,2))
  with parts(3) assms(2) show ?thesis unfolding trial_changed_def by blast
qed

lemma trial_changed_same [simp]: "trial_changed lib store store"
  by (simp add: trial_changed_def)

lemma issue_ticket_moves:
  assumes "issue_ticket lib store t step effective command request sha observations vision = Inr (after, reply)"
    and "find_step p (tr_current t) = Inr step" and "tr_pending t = PNone" and "tr_status t \<in> {''ready'', ''blocked''}"
  shows "\<exists>t'. trial_move p t t' \<and> after = keep_trial store t'"
proof -
  from assms(1) obtain ticket_id sent where
    "after = keep_trial store (t\<lparr>tr_pending := trial_ticket ticket_id step effective sent (tr_strategy t) observations,
       tr_status := ''pending'', tr_reason := [], tr_blocked := None,
       tr_prepares := put request (sha, pending_result (tr_run t) (trial_ticket ticket_id step effective sent (tr_strategy t) observations)) (tr_prepares t)\<rparr>)"
    by (auto simp: issue_ticket_def remember_prepare_def Let_def rbind_eq_Inr_iff)
  moreover have "is_dict (trial_ticket ticket_id step effective sent (tr_strategy t) observations)"
    and "pget (trial_ticket ticket_id step effective sent (tr_strategy t) observations) ''step_id'' = pget step ''step_id''"
    by (simp_all add: trial_ticket_def dict_get_def)
  ultimately show ?thesis using move_ticket[OF assms(3,4,2)] by blast
qed

lemma prepare_step_moves:
  assumes "prepare_step lib store t p request sha observations vision = Inr (after, reply)"
    and "tr_pending t = PNone" and "tr_status t \<in> {''ready'', ''blocked''}"
  shows "\<exists>t'. trial_move p t t' \<and> after = keep_trial store t'"
proof -
  from assms(1) obtain step condition where step: "find_step p (tr_current t) = Inr step"
    and rest: "(if condition \<noteq> ''true'' then Inr (block_trial store t (''precondition_'' @ condition) request sha)
     else (case compile_command lib t p step of
         Inl (ValueError reason) \<Rightarrow> Inr (block_trial store t reason request sha)
       | Inl e \<Rightarrow> Inl e
       | Inr (effective, command) \<Rightarrow>
           issue_ticket lib store t step effective command request sha observations vision)) = Inr (after, reply)"
    unfolding prepare_step_def rbind_eq_Inr_iff by blast
  consider (blocked) why where "block_trial store t why request sha = (after, reply)"
    | (ticket) effective command where
      "issue_ticket lib store t step effective command request sha observations vision = Inr (after, reply)"
    using rest by (auto split: if_splits sum.splits pyexc.splits)
  then show ?thesis
  proof cases
    case blocked
    then have "after = keep_trial store (t\<lparr>tr_status := ''blocked'', tr_reason := why, tr_blocked := Some (request, sha),
        tr_prepares := put request (sha, blocked_result t why) (tr_prepares t)\<rparr>)"
      by (simp add: block_trial_def remember_prepare_def)
    with move_blocked[OF assms(2,3)] show ?thesis by blast
  next
    case ticket
    from issue_ticket_moves[OF this step assms(2,3)] show ?thesis .
  qed
qed

lemma prepare_answer_moves:
  assumes "trial_load lib store run = Inr (t, p)"
    and "prepare_answer lib store t p request sha observations vision = Inr (after, reply)"
  shows "trial_changed lib store after"
proof (cases "map_of (tr_prepares t) request")
  case (Some prior)
  with assms(2) show ?thesis by (cases prior) (simp add: prepare_answer_def rbind_eq_Inr_iff)
next
  case None
  have kept: "trial_changed lib store after" if "remember_prepare store t request sha result = (after, reply)" for result
    using that trial_changedI[OF assms(1) move_remembered] by (auto simp: remember_prepare_def)
  show ?thesis
  proof (cases "tr_pending t = PNone")
    case False
    with assms(2) None kept show ?thesis by (simp add: prepare_answer_def)
  next
    case True
    then have status: "tr_status t \<in> {''ready'', ''blocked''}"
      using assms(2) None by (simp add: prepare_answer_def rbind_eq_Inr_iff)
    consider (again) result where "remember_prepare store t request sha result = (after, reply)"
      | (fresh) "prepare_step lib store t p request sha observations vision = Inr (after, reply)"
      using assms(2) None True by (auto simp: prepare_answer_def rbind_eq_Inr_iff split: option.splits if_splits)
    then show ?thesis
    proof cases
      case again
      then show ?thesis by (rule kept)
    next
      case fresh
      from prepare_step_moves[OF this True status] show ?thesis using trial_changedI[OF assms(1)] by blast
    qed
  qed
qed

lemma prepare_moves:
  "trial_prepare lib store run request observations vision = Inr (after, reply) \<Longrightarrow> trial_changed lib store after"
  unfolding trial_prepare_def checks_iff using prepare_answer_moves by (auto simp: checks_iff)

lemma json_digest_finite: "json_digest vs = Inr sha \<Longrightarrow> v \<in> set vs \<Longrightarrow> all_finite v"
  by (auto simp: json_digest_def ct_digest_def strict_json_def rbind_eq_Inr_iff list_all_iff split: if_splits)

lemma accepted_review_moves:
  assumes "accept_review w t p request execution verdict observations outputs verification sha = Inr t'"
    and "is_dict (tr_pending t)" and "verdict \<in> set review_verdicts" and "is_dict outputs"
    and "wf_py outputs" and "all_finite outputs"
  shows "trial_move p t t'"
proof -
  from assms(1) obtain receipt cxt received step condition entry where
    step: "find_step p (pget (tr_pending t) ''step_id'') = Inr step" and out: "check_outputs step verdict outputs = Inr ()"
    and entry: "review_entry w t step request execution verdict condition observations outputs verification cxt receipt received
      = Inr entry"
    and t': "t' = settle_review t step (effective_verdict verdict condition) outputs entry request sha"
    by (rule accepted_review) blast
  show ?thesis unfolding t'
  proof (rule move_reviewed[OF assms(2) step])
    show "is_dict entry" "pget entry ''step_id'' = pget step ''step_id''"
      "pget entry ''verdict'' = PStr (effective_verdict verdict condition)"
      "pget entry ''outputs'' = (if effective_verdict verdict condition = ''success'' then outputs else PDict [])"
      using review_entry_get[OF entry] by simp_all
    show "effective_verdict verdict condition \<in> set review_verdicts" by (rule effective_verdict_cases(1)[OF assms(3)])
    show "is_dict outputs" "wf_py outputs" "all_finite outputs" by (rule assms(4) assms(5) assms(6))+
    show "check_outputs step ''success'' outputs = Inr ()" if "effective_verdict verdict condition = ''success''"
      using effective_verdict_cases(2)[OF that] out by simp
  qed
qed

lemma review_cases:
  assumes "trial_review lib w store run request execution verdict observations outputs verification = Inr (after, reply)"
  obtains t p sha where "trial_load lib store run = Inr (t, p)"
    and "json_digest (review_values execution verdict observations outputs verification) = Inr sha"
    and "map_of (tr_requests t) request = Some sha" and "after = store" and "reply = State t"
  | t p sha t' where "trial_load lib store run = Inr (t, p)"
    and "json_digest (review_values execution verdict observations outputs verification) = Inr sha"
    and "map_of (tr_requests t) request = None"
    and "is_dict (tr_pending t)" and "pget (tr_pending t) ''execution_request_id'' = PStr execution"
    and "verdict \<in> set review_verdicts" and "is_dict observations" and "is_dict outputs"
    and "accept_review w t p request execution verdict observations outputs verification sha = Inr t'"
    and "after = keep_trial store t'" and "reply = State t'"
proof -
  from assms obtain t p sha where load: "trial_load lib store run = Inr (t, p)"
    and sha: "json_digest (review_values execution verdict observations outputs verification) = Inr sha"
    and answer: "review_answer w store t p request execution verdict observations outputs verification sha = Inr (after, reply)"
    unfolding trial_review_def checks_iff by (auto simp: checks_iff)
  show thesis
  proof (cases "map_of (tr_requests t) request")
    case (Some old)
    with answer that(1)[OF load sha] show thesis by (simp add: review_answer_def rbind_eq_Inr_iff)
  next
    case None
    note facts = answer[unfolded review_answer_def None option.case checks_iff sum.inject prod.inject]
    from facts show thesis using that(2)[OF load sha None] by blast
  qed
qed

lemma review_moves:
  assumes "trial_review lib w store run request execution verdict observations outputs verification = Inr (after, reply)"
    and "wf_py outputs"
  shows "trial_changed lib store after"
  using assms(1)
proof (cases rule: review_cases)
  case 1
  then show ?thesis by simp
next
  case (2 t p sha t')
  have "all_finite outputs" using json_digest_finite[OF 2(2), of outputs] by (simp add: review_values_def)
  with accepted_review_moves[OF 2(9,4,6,8) assms(2)] have "trial_move p t t'" by simp
  from trial_changedI[OF 2(1) this] show ?thesis by (simp only: 2(10))
qed

lemma failed_moves:
  assumes "record_failed_execution lib w store run request execution = Inr (after, reply)"
  shows "trial_changed lib store after"
proof -
  note facts = assms[unfolded record_failed_execution_def checks_iff]
  from facts obtain tp where tp: "trial_load lib store run = Inr tp" by blast
  obtain t p where tp': "tp = (t, p)" by (cases tp)
  have "after = store \<or> (\<exists>v. trial_review lib w store run request execution ''failure'' (PDict []) (PDict []) v = Inr (after, reply))"
    using facts tp tp' by (auto simp: checks_iff split: if_splits)
  then show ?thesis using review_moves by fastforce
qed

lemma cancelled_moves:
  assumes "record_cancelled_execution lib w store run request execution = Inr (after, reply)"
  shows "trial_changed lib store after"
proof -
  note facts = assms[unfolded record_cancelled_execution_def checks_iff]
  from facts obtain tp where tp: "trial_load lib store run = Inr tp" by blast
  obtain t p where tp': "tp = (t, p)" by (cases tp)
  have "after = store \<or> (\<exists>v. trial_review lib w store run request execution ''uncertain'' (PDict []) (PDict []) v = Inr (after, reply))"
    using facts tp tp' by (auto simp: checks_iff split: if_splits)
  then show ?thesis using review_moves by fastforce
qed

lemma adopted_wf: "adopted_verification w step inputs outputs envelope = Inr r \<Longrightarrow> wf_py (pget r ''outputs'')"
  unfolding adopted_verification_def Let_def checks_iff by (auto simp: rule_result_def dict_get_def)

lemma recomputed:
  assumes "recompute_result w state program evidence result = Inr computed"
  obtains step where "find_step program (pget (tr_pending state) ''step_id'') = Inr step" and "py_eq computed result"
    and "(if pget result ''source'' = PStr ''decision''
        then adopted_verification w step (tr_inputs state) (bound_values (tr_run state) (pitems (tr_outputs state))) evidence
        else verify_step step (tr_inputs state) (bound_values (tr_run state) (pitems (tr_outputs state)))
          (pget evidence ''receipt'') (pget result ''observations'')) = Inr computed"
  using assms unfolding recompute_result_def Let_def checks_iff by blast

lemma accepted_verified:
  assumes "accept_verified lib w store state program request execution result = Inr (after, reply)"
  obtains evidence computed where "read_evidence w (pget result ''observations'') = Inr evidence"
    and "check_evidence w state program request execution evidence = Inr ()"
    and "recompute_result w state program evidence result = Inr computed" and "wf_py (pget computed ''outputs'')"
    and "trial_review lib w store (tr_run state) request execution (py_str (pget computed ''verdict''))
      (pget_default (pget result ''observations'') ''values'' (PDict [])) (pget computed ''outputs'') computed = Inr (after, reply)"
proof -
  from assms obtain evidence computed where parts: "read_evidence w (pget result ''observations'') = Inr evidence"
    "check_evidence w state program request execution evidence = Inr ()"
    "recompute_result w state program evidence result = Inr computed"
    "trial_review lib w store (tr_run state) request execution (py_str (pget computed ''verdict''))
      (pget_default (pget result ''observations'') ''values'' (PDict [])) (pget computed ''outputs'') computed = Inr (after, reply)"
    unfolding accept_verified_def Let_def checks_iff by blast
  from recomputed[OF parts(3)] have "wf_py (pget computed ''outputs'')"
    by (metis adopted_wf verified_wf)
  with parts that show thesis by blast
qed

lemma verified_cases:
  assumes "record_verified_result lib w store run request execution result = Inr (after, reply)"
  obtains t p where "trial_load lib store run = Inr (t, p)" and "after = store" and "reply = State t"
  | "record_cancelled_execution lib w store run request execution = Inr (after, reply)" and "pget result ''source'' = PStr ''decision''"
  | t p where "trial_load lib store run = Inr (t, p)"
    and "accept_verified lib w store t p request execution result = Inr (after, reply)"
proof -
  note facts = assms[unfolded record_verified_result_def checks_iff]
  from facts obtain sha tp where tp: "trial_load lib store run = Inr tp"
    and rest: "(case tp of (state, program) \<Rightarrow>
      rbind (ensure (\<not> truthy (tr_settlement state)) (ValueError ''workflow_trial_recovery_paused'')) (\<lambda>_.
      rbind (ensure (tr_strategy state \<noteq> ''steps_only'') (ValueError ''workflow_trial_steps_only_requires_agent_review'')) (\<lambda>_.
      case map_of (tr_requests state) request of
       Some old \<Rightarrow> rbind (ensure (old = sha) (ValueError ''workflow_trial_idempotency_conflict'')) (\<lambda>_. Inr (store, State state))
     | None \<Rightarrow>
         rbind (ensure (is_dict (tr_pending state) \<and> pget (tr_pending state) ''execution_request_id'' = PStr execution)
           (ValueError ''workflow_trial_pending_ticket_mismatch'')) (\<lambda>_.
         if pget result ''source'' = PStr ''decision'' \<and> tr_status state = ''cancel_requested''
         then record_cancelled_execution lib w store run request execution
         else accept_verified lib w store state program request execution result)))) = Inr (after, reply)"
    by blast
  obtain t p where tp': "tp = (t, p)" by (cases tp)
  from rest that tp show thesis unfolding tp' prod.case
    by (auto simp: rbind_eq_Inr_iff split: option.split_asm if_split_asm)
qed

lemma verified_moves:
  assumes "record_verified_result lib w store run request execution result = Inr (after, reply)"
  shows "trial_changed lib store after"
  using assms
proof (cases rule: verified_cases)
  case 2
  show ?thesis by (rule cancelled_moves[OF 2(1)])
next
  case (3 t p)
  from accepted_verified[OF 3(2)] review_moves show ?thesis by metis
qed simp

lemma cancel_moves:
  assumes "trial_cancel lib store run request = Inr (after, reply)"
  shows "trial_changed lib store after"
proof -
  from assms obtain t p where load: "trial_load lib store run = Inr (t, p)"
    and after: "after = store \<or> after = keep_trial store (t\<lparr>tr_status :=
        (if tr_pending t \<noteq> PNone then ''cancel_requested'' else ''cancelled''), tr_cancel := request\<rparr>)"
    unfolding trial_cancel_def checks_iff Let_def by (auto simp: checks_iff split: if_splits)
  from after trial_changedI[OF load move_cancelled[OF refl]] show ?thesis by auto
qed

lemma settle_moves:
  assumes "trial_step lib w (Settle run mark) store = Inr (after, reply)"
  shows "trial_changed lib store after"
  using assms by (auto simp: rbind_eq_Inr_iff intro: trial_changedI move_settled)

definition trial_started :: "trial_library \<Rightarrow> trial_store \<Rightarrow> trial_store \<Rightarrow> bool" where
  "trial_started lib store after = (\<exists>run workflow program_id start strategy program inputs snapshots index.
     tl_program lib workflow program_id = Inr program \<and> check_start program start inputs = Inr ()
     \<and> after = store\<lparr>ts_trials := put run (new_trial run workflow program_id start strategy
         (pget program ''project_snapshot_id'') inputs snapshots) (ts_trials store), ts_index := index\<rparr>)"

lemma trial_startedI:
  "tl_program lib workflow program_id = Inr program \<Longrightarrow> check_start program start inputs = Inr () \<Longrightarrow>
    trial_started lib store (store\<lparr>ts_trials := put run (new_trial run workflow program_id start strategy
       (pget program ''project_snapshot_id'') inputs snapshots) (ts_trials store), ts_index := index\<rparr>)"
  unfolding trial_started_def by blast

lemma start_cases:
  assumes "trial_start lib w store workflow program_id start inputs request strategy = Inr (after, reply)"
  shows "after = store \<or> trial_started lib store after"
proof -
  note facts = assms[unfolded trial_start_def checks_iff]
  from facts obtain how sha where "validate_execution_strategy strategy = Inr how"
    and "ct_digest (start_values workflow program_id start inputs how) = Inr sha" by blast
  with facts show ?thesis
    by (cases "map_of (ts_index store) request") (auto simp: checks_iff Let_def intro: trial_startedI)
qed

theorem trial_step_moves:
  assumes "trial_step lib w ev store = Inr (after, reply)" and "event_ok ev"
  shows "trial_changed lib store after \<or> trial_started lib store after"
proof (cases ev)
  case (Start workflow program start inputs request strategy)
  with assms(1) start_cases show ?thesis by fastforce
next
  case (Settle run mark)
  with assms(1) settle_moves show ?thesis by blast
qed (use assms prepare_moves review_moves failed_moves cancelled_moves verified_moves cancel_moves in auto)

section \<open>The path of a trial\<close>

text \<open>Where a trial stands: from the first step along the branch that each recorded verdict chose.\<close>

inductive trial_path :: "pyval \<Rightarrow> string \<Rightarrow> pyval list \<Rightarrow> pyval \<Rightarrow> bool" for p start where
  path_start: "trial_path p start [] (PStr start)"
| path_branch: "trial_path p start history current \<Longrightarrow> find_step p current = Inr step \<Longrightarrow>
    is_dict entry \<Longrightarrow> pget entry ''step_id'' = current \<Longrightarrow> pget entry ''verdict'' = PStr verdict \<Longrightarrow>
    verdict \<in> {''success'', ''failure''} \<Longrightarrow>
    trial_path p start (history @ [entry]) (pget (pget step ''branches'') verdict)"

definition entry_step :: "pyval \<Rightarrow> string" where
  "entry_step entry = py_str (pget entry ''step_id'')"

definition trial_graph :: "pyval \<Rightarrow> branches" where
  "trial_graph p = branch_graph (program_steps (program_definition p))"

definition accepted_program :: "pyval \<Rightarrow> bool" where
  "accepted_program p = (\<exists>nodes q. validate_definition (program_definition p) nodes = Inr q)"

definition accepted_library :: "trial_library \<Rightarrow> bool" where
  "accepted_library lib = (\<forall>workflow program p. tl_program lib workflow program = Inr p \<longrightarrow> accepted_program p)"

lemma find_step_iff:
  assumes "find_step p current = Inr step"
  shows "step \<in> set (program_steps (program_definition p))" and "pget step ''step_id'' = current"
  using assms by (auto simp: find_step_def find_Some_iff split: option.splits)

lemma find_in_graph:
  "find (\<lambda>x. pget x ''step_id'' = PStr s) steps = Some step \<Longrightarrow> (\<forall>x \<in> set steps. is_str (pget x ''step_id'')) \<Longrightarrow>
    map_of (branch_graph steps) s = Some (branch_targets (pget step ''branches''))"
proof (induction steps)
  case (Cons a steps)
  from Cons.prems(2) obtain i where "pget a ''step_id'' = PStr i" by (auto simp: is_type_iff)
  with Cons show ?case by (auto simp: branch_graph_def split: if_splits)
qed simp

lemma accepted_find_step:
  assumes "accepted_program p" and "find_step p current = Inr step"
  obtains s where "current = PStr s" and "step_name step = s" and "identifier_re 159 s"
    and "map_of (trial_graph p) s = Some (branch_targets (pget step ''branches''))"
    and "\<And>verdict. verdict \<in> {''success'', ''failure''} \<Longrightarrow>
      branch_ok (map step_name (program_steps (program_definition p))) (pget (pget step ''branches'') verdict)"
proof -
  let ?steps = "program_steps (program_definition p)"
  from assms(1) obtain nodes q where v: "validate_definition (program_definition p) nodes = Inr q"
    by (auto simp: accepted_program_def)
  have named: "\<forall>x \<in> set ?steps. is_str (pget x ''step_id'')"
    using accepted_step[OF v] unfolding program_steps_def by (metis is_str.simps(1))
  from find_step_iff[OF assms(2)] have step: "step \<in> set ?steps" "pget step ''step_id'' = current" .
  from accepted_step[OF v step(1)[unfolded program_steps_def]] obtain s where
    s: "pget step ''step_id'' = PStr s" "identifier_re 159 s"
    and b: "branch_ok (map step_name ?steps) (pget (pget step ''branches'') ''success'')"
      "branch_ok (map step_name ?steps) (pget (pget step ''branches'') ''failure'')"
    unfolding step_name_def program_steps_def by blast
  have "find (\<lambda>x. pget x ''step_id'' = PStr s) ?steps = Some step"
    using assms(2) s(1) step(2) by (simp add: find_step_def split: option.splits)
  from find_in_graph[OF this named] have "map_of (trial_graph p) s = Some (branch_targets (pget step ''branches''))"
    by (simp add: trial_graph_def)
  with s step(2) b show thesis using that[of s] by (auto simp: step_name_def)
qed

text \<open>The step ids of a position: none after the end.\<close>

definition at_step :: "pyval \<Rightarrow> string list" where
  "at_step current = (case current of PStr s \<Rightarrow> [s] | _ \<Rightarrow> [])"

lemma follows_snoc:
  "follows_branches g (run @ [s]) \<Longrightarrow> (s, t) \<in> branch_edges g \<Longrightarrow> t \<in> fst ` set g \<Longrightarrow>
    follows_branches g (run @ [s, t])"
proof (induction run)
  case (Cons a run)
  then show ?case by (cases run) auto
qed simp

lemma follows_prefix: "follows_branches g (run @ [s]) \<Longrightarrow> follows_branches g run"
proof (induction run)
  case (Cons a run)
  then show ?case by (cases run) (auto simp: edge_source)
qed simp

lemma path_follows:
  assumes "trial_path p start history current" and "accepted_program p"
    and "start \<in> set (map step_name (program_steps (program_definition p)))"
  shows "follows_branches (trial_graph p) (map entry_step history @ at_step current)"
    and "current = PNone \<or> one_of current (map step_name (program_steps (program_definition p)))"
  using assms(1)
proof (induction)
  case path_start
  from assms(3) show "follows_branches (trial_graph p) (map entry_step [] @ at_step (PStr start))"
    by (auto simp: at_step_def trial_graph_def branch_graph_def step_name_def image_image)
  from assms(3) show "PStr start = PNone \<or> one_of (PStr start) (map step_name (program_steps (program_definition p)))"
    by (simp add: one_of_iff)
next
  case (path_branch history current step entry verdict)
  let ?target = "pget (pget step ''branches'') verdict"
  let ?names = "map step_name (program_steps (program_definition p))"
  from accepted_find_step[OF assms(2) path_branch(2)] obtain s where s: "current = PStr s"
    "map_of (trial_graph p) s = Some (branch_targets (pget step ''branches''))"
    and b: "branch_ok ?names ?target"
    using path_branch(6) by metis
  from path_branch(4) s(1) have e: "entry_step entry = s" by (simp add: entry_step_def)
  have run: "follows_branches (trial_graph p) (map entry_step history @ [s])"
    using path_branch.IH(1) by (simp add: s(1) at_step_def)
  show t: "?target = PNone \<or> one_of ?target ?names" using b by (simp add: branch_ok_def)
  show "follows_branches (trial_graph p) (map entry_step (history @ [entry]) @ at_step ?target)"
  proof (cases "?target = PNone")
    case True
    with run e show ?thesis by (simp add: at_step_def)
  next
    case False
    with t obtain u where u: "?target = PStr u" "u \<in> set ?names" by (auto simp: one_of_iff)
    have "u \<in> set (branch_targets (pget step ''branches''))"
      using u(1) path_branch(6) by (auto simp: branch_targets_def)
    with s(2) have "(s, u) \<in> branch_edges (trial_graph p)" by (simp add: branch_edges_def)
    moreover have "u \<in> fst ` set (trial_graph p)"
      using u(2) by (auto simp: trial_graph_def branch_graph_def step_name_def image_image)
    ultimately show ?thesis using follows_snoc[OF run] e u(1) by (simp add: at_step_def)
  qed
qed

lemma path_distinct:
  assumes "trial_path p start history current" and "accepted_program p"
    and "start \<in> set (map step_name (program_steps (program_definition p)))"
  shows "distinct (map entry_step history @ at_step current)"
    and "length history + length (at_step current) \<le> 256"
proof -
  from assms(2) obtain nodes q where v: "validate_definition (program_definition p) nodes = Inr q"
    by (auto simp: accepted_program_def)
  note b = accepted_run_bounded[OF v path_follows(1)[OF assms, unfolded trial_graph_def program_steps_def]]
  show "distinct (map entry_step history @ at_step current)" by (rule b(1))
  show "length history + length (at_step current) \<le> 256" using b(3) by simp
qed

section \<open>The outputs of a trial\<close>

lemma identifier_no_dot: "identifier_re n s \<Longrightarrow> CHR ''.'' \<notin> set s"
proof -
  have "\<not> is_alnum (CHR ''.'')" "\<not> is_word_dash (CHR ''.'')" by code_simp+
  then show "identifier_re n s \<Longrightarrow> CHR ''.'' \<notin> set s" by (cases s) (auto simp: identifier_re_def list_all_iff)
qed

lemma output_key_step:
  "output_key a m = output_key b n \<Longrightarrow> CHR ''.'' \<notin> set a \<Longrightarrow> CHR ''.'' \<notin> set b \<Longrightarrow> a = b"
proof (induction a arbitrary: b)
  case Nil
  then show ?case by (cases b) (auto simp: output_key_def)
next
  case (Cons c a)
  then show ?case by (cases b) (auto simp: output_key_def)
qed

lemma output_key_inj: "output_key a m = output_key a n \<Longrightarrow> m = n"
  by (simp add: output_key_def)

lemma fold_dput_fresh:
  "distinct (map fst kvs) \<Longrightarrow> set (map fst kvs) \<inter> set (map fst d) = {} \<Longrightarrow> fold (\<lambda>(k, v). dput k v) kvs d = d @ kvs"
proof (induction kvs arbitrary: d)
  case (Cons kv kvs)
  obtain k v where kv: "kv = (k, v)" by (cases kv)
  have put: "dput k v d = d @ [(k, v)]" if "k \<notin> set (map fst d)" for k v and d :: pydict
    using that by (induction k v d rule: dput.induct) auto
  from Cons.prems kv have "k \<notin> set (map fst d)" by auto
  from put[OF this, of v] Cons.prems kv Cons.IH[of "d @ [(k, v)]"] show ?case by auto
qed simp

definition outputs_from :: "pyval \<Rightarrow> pyval list \<Rightarrow> (string \<times> pyval) list \<Rightarrow> bool" where
  "outputs_from p history out = (history_outputs p history = Inr out \<and> wf_py (PDict out) \<and> all_finite (PDict out)
     \<and> (\<forall>k \<in> set (map fst out). \<exists>e \<in> set history. \<exists>name. k = output_key (entry_step e) name))"

lemma outputs_from_other:
  assumes "outputs_from p history out" and "is_dict e" and "pget e ''step_id'' = PStr s"
    and "s \<in> set (map step_name (program_steps (program_definition p)))" and "pget e ''verdict'' \<noteq> PStr ''success''"
  shows "outputs_from p (history @ [e]) out"
proof -
  have "replay_entry p e out = Inr out"
    using assms(2-5) by (auto simp: replay_entry_def checks_iff one_of_iff)
  then have "history_outputs p (history @ [e]) = Inr out"
    using assms(1) by (simp add: history_outputs_def fold_res_append outputs_from_def)
  then show ?thesis using assms(1) by (auto simp: outputs_from_def)
qed

lemma step_outputs_keys: "map fst (step_outputs s outputs) = map (output_key s) (map fst (pitems outputs))"
  by (simp add: step_outputs_def case_prod_beta comp_def)

lemma outputs_from_success:
  assumes "outputs_from p history out" and "accepted_program p" and "find_step p (PStr s) = Inr step"
    and "\<forall>e \<in> set history. CHR ''.'' \<notin> set (entry_step e) \<and> entry_step e \<noteq> s"
    and "is_dict e" and "pget e ''step_id'' = PStr s" and "pget e ''verdict'' = PStr ''success''"
    and "pget e ''outputs'' = outputs" and "is_dict outputs" and "wf_py outputs" and "all_finite outputs"
    and "check_outputs step ''success'' outputs = Inr ()"
  shows "outputs_from p (history @ [e]) (out @ step_outputs s outputs)"
    and "fold (\<lambda>(k, v). dput k v) (step_outputs s outputs) out = out @ step_outputs s outputs"
proof -
  let ?added = "step_outputs s outputs"
  from accepted_find_step[OF assms(2,3)] have s: "step_name step = s" "identifier_re 159 s" by auto
  from find_step_iff[OF assms(3)] have mem: "s \<in> set (map step_name (program_steps (program_definition p)))"
    using s(1) by auto
  from assms(9) obtain d where d: "outputs = PDict d" by (auto simp: is_type_iff)
  have distinct: "distinct (map fst ?added)"
    using assms(10) d by (simp add: step_outputs_keys distinct_map inj_on_def output_key_inj)
  have fresh: "k \<notin> set (map fst out)" if "k \<in> set (map fst ?added)" for k
  proof
    assume "k \<in> set (map fst out)"
    with assms(1) obtain e' name where e': "e' \<in> set history" "k = output_key (entry_step e') name"
      unfolding outputs_from_def by blast
    from that obtain m where m: "k = output_key s m" by (auto simp: step_outputs_keys)
    from e' m have "output_key (entry_step e') name = output_key s m" by simp
    from output_key_step[OF this] assms(4) e'(1) identifier_no_dot[OF s(2)] show False by blast
  qed
  then have free: "set (map fst ?added) \<inter> set (map fst out) = {}" by blast
  show "fold (\<lambda>(k, v). dput k v) ?added out = out @ ?added" by (rule fold_dput_fresh[OF distinct free])
  have typed: "keys_are outputs (map fst (declared_output_types step))" "outputs_typed (declared_output_types step) outputs"
    using assms(12) by (simp_all add: check_outputs_def Let_def checks_iff)
  have none: "list_all (\<lambda>(k, _). k \<notin> set (map fst out)) ?added"
    unfolding list_all_iff using fresh by force
  have "replay_entry p e out = Inr (out @ ?added)"
    unfolding replay_entry_def Let_def checks_iff
    using assms(3,5-9) typed mem none s(1) by (simp add: one_of_iff)
  then have run: "history_outputs p (history @ [e]) = Inr (out @ ?added)"
    using assms(1) by (simp add: history_outputs_def fold_res_append outputs_from_def)
  have keys: "\<exists>e' \<in> set (history @ [e]). \<exists>name. k = output_key (entry_step e') name" if "k \<in> set (map fst (out @ ?added))" for k
  proof -
    from that consider "k \<in> set (map fst out)" | "k \<in> set (map fst ?added)" by auto
    then show ?thesis
    proof cases
      case 1
      with assms(1) show ?thesis unfolding outputs_from_def by auto
    next
      case 2
      then show ?thesis using assms(6) by (auto simp: step_outputs_keys entry_step_def)
    qed
  qed
  have "distinct (map fst (out @ ?added))" using assms(1) distinct free by (auto simp: outputs_from_def)
  moreover have "list_all (\<lambda>kv. wf_py (snd kv)) (out @ ?added)"
    using assms(1,10) d by (auto simp: outputs_from_def step_outputs_def list_all_iff)
  ultimately have wf: "wf_py (PDict (out @ ?added))" by simp
  have fin: "all_finite (PDict (out @ ?added))"
    using assms(1,11) d by (auto simp: outputs_from_def step_outputs_def list_all_iff)
  show "outputs_from p (history @ [e]) (out @ ?added)"
    unfolding outputs_from_def using run wf fin keys by blast
qed

section \<open>What every trial keeps\<close>

definition trial_active :: "pyval \<Rightarrow> trial \<Rightarrow> bool" where
  "trial_active p t = (trial_path p (tr_start t) (tr_history t) (tr_current t)
     \<and> (tr_pending t = PNone \<or> pget (tr_pending t) ''step_id'' = tr_current t))"

text \<open>After an uncertain verdict the trial stands still.\<close>

definition trial_paused :: "pyval \<Rightarrow> trial \<Rightarrow> bool" where
  "trial_paused p t = (\<exists>history entry current step. tr_history t = history @ [entry]
     \<and> trial_path p (tr_start t) history current \<and> find_step p current = Inr step \<and> pget entry ''step_id'' = current
     \<and> tr_pending t = PNone \<and> tr_status t \<notin> {''ready'', ''blocked''})"

definition trial_ok :: "trial_library \<Rightarrow> trial \<Rightarrow> bool" where
  "trial_ok lib t = (\<exists>p out. tl_program lib (tr_workflow t) (tr_program t) = Inr p
     \<and> tr_start t \<in> set (map step_name (program_steps (program_definition p)))
     \<and> (trial_active p t \<or> trial_paused p t)
     \<and> outputs_from p (tr_history t) out \<and> tr_outputs t = PDict out)"

lemma trial_ok_same:
  assumes "trial_ok lib t" and "tr_workflow t' = tr_workflow t" "tr_program t' = tr_program t" "tr_start t' = tr_start t"
    "tr_history t' = tr_history t" "tr_outputs t' = tr_outputs t" "tr_current t' = tr_current t" "tr_pending t' = tr_pending t"
    and "tr_status t' = tr_status t \<or> tr_status t' \<notin> {''ready'', ''blocked''}
      \<or> tr_pending t = PNone \<and> tr_status t \<in> {''ready'', ''blocked''}"
  shows "trial_ok lib t'"
  using assms unfolding trial_ok_def trial_active_def trial_paused_def by auto

lemma path_entries:
  "trial_path p start history current \<Longrightarrow> accepted_program p \<Longrightarrow> e \<in> set history \<Longrightarrow> CHR ''.'' \<notin> set (entry_step e)"
proof (induction rule: trial_path.induct)
  case (path_branch history current step entry verdict)
  from accepted_find_step[OF path_branch(8) path_branch(2)] obtain s where "current = PStr s" "identifier_re 159 s" by metis
  with path_branch identifier_no_dot show ?case by (auto simp: entry_step_def)
qed simp

lemma settled_trial_ok:
  assumes ok: "trial_ok lib t" and p: "tl_program lib (tr_workflow t) (tr_program t) = Inr p" and acc: "accepted_program p"
    and m: "is_dict (tr_pending t)" "find_step p (pget (tr_pending t) ''step_id'') = Inr step" "is_dict entry"
      "pget entry ''step_id'' = pget step ''step_id''" "pget entry ''verdict'' = PStr effective"
      "pget entry ''outputs'' = (if effective = ''success'' then outputs else PDict [])"
      "effective \<in> set review_verdicts" "is_dict outputs" "wf_py outputs" "all_finite outputs"
      "effective = ''success'' \<Longrightarrow> check_outputs step ''success'' outputs = Inr ()"
  shows "trial_ok lib (settle_review t step effective outputs entry request sha)"
proof -
  let ?t = "settle_review t step effective outputs entry request sha"
  from ok p obtain out where start: "tr_start t \<in> set (map step_name (program_steps (program_definition p)))"
    and where_: "trial_active p t \<or> trial_paused p t"
    and out: "outputs_from p (tr_history t) out" "tr_outputs t = PDict out" by (auto simp: trial_ok_def)
  have "tr_pending t \<noteq> PNone" using m(1) by auto
  with where_ have path: "trial_path p (tr_start t) (tr_history t) (tr_current t)"
    and cur: "pget (tr_pending t) ''step_id'' = tr_current t"
    by (auto simp: trial_active_def trial_paused_def)
  note step = m(2)[unfolded cur]
  from accepted_find_step[OF acc step] obtain s where s: "tr_current t = PStr s" "step_name step = s" by metis
  have id: "pget step ''step_id'' = PStr s" using find_step_iff(2)[OF step] s(1) by simp
  then have entry: "pget entry ''step_id'' = PStr s" using m(4) by simp
  have mem: "s \<in> set (map step_name (program_steps (program_definition p)))"
    using find_step_iff(1)[OF step] s(2) by auto
  have fields: "tr_workflow ?t = tr_workflow t" "tr_program ?t = tr_program t" "tr_start ?t = tr_start t"
    "tr_history ?t = tr_history t @ [entry]" "tr_pending ?t = PNone"
    by (simp_all add: settle_review_def Let_def)
  have old: "\<forall>e \<in> set (tr_history t). CHR ''.'' \<notin> set (entry_step e) \<and> entry_step e \<noteq> s"
    using path_distinct(1)[OF path acc start] path_entries[OF path acc] by (auto simp: s(1) at_step_def)
  consider "effective = ''success''" | "effective = ''failure''" | "effective = ''uncertain''"
    using m(7) by (auto simp: review_verdicts_def)
  then show ?thesis
  proof cases
    case 1
    note success = outputs_from_success[OF out(1) acc step[unfolded s(1)] old m(3) entry m(5)[unfolded 1]
        m(6)[unfolded if_P[OF 1]] m(8-10) m(11)[OF 1]]
    have "trial_path p (tr_start t) (tr_history t @ [entry]) (pget (pget step ''branches'') ''success'')"
      by (rule path_branch[OF path step m(3)]) (simp_all add: entry s(1) m(5) 1)
    then have "trial_active p ?t" unfolding trial_active_def fields using 1 by (simp add: settle_review_def Let_def)
    moreover have "tr_outputs ?t = PDict (out @ step_outputs s outputs)"
      using 1 success(2) by (simp add: settle_review_def Let_def all_outputs_def out(2) id)
    ultimately show ?thesis unfolding trial_ok_def fields using p start success(1) by blast
  next
    case 2
    have "trial_path p (tr_start t) (tr_history t @ [entry]) (pget (pget step ''branches'') ''failure'')"
      by (rule path_branch[OF path step m(3)]) (simp_all add: entry s(1) m(5) 2)
    then have "trial_active p ?t" unfolding trial_active_def fields using 2 by (simp add: settle_review_def Let_def)
    moreover have "tr_outputs ?t = PDict out" using 2 by (simp add: settle_review_def Let_def out(2))
    moreover have "outputs_from p (tr_history t @ [entry]) out"
      by (rule outputs_from_other[OF out(1) m(3) entry mem]) (simp add: m(5) 2)
    ultimately show ?thesis unfolding trial_ok_def fields using p start by blast
  next
    case 3
    have still: "tr_status ?t \<notin> {''ready'', ''blocked''}" using 3 by (simp add: settle_review_def Let_def)
    have "trial_paused p ?t" unfolding trial_paused_def fields
      by (rule exI[of _ "tr_history t"], rule exI[of _ entry], rule exI[of _ "tr_current t"], rule exI[of _ step])
        (intro conjI refl path step still entry[folded s(1)])
    moreover have "tr_outputs ?t = PDict out" using 3 by (simp add: settle_review_def Let_def out(2))
    moreover have "outputs_from p (tr_history t @ [entry]) out"
      by (rule outputs_from_other[OF out(1) m(3) entry mem]) (simp add: m(5) 3)
    ultimately show ?thesis unfolding trial_ok_def fields using p start by blast
  qed
qed

lemma move_ok:
  assumes "trial_move p t t'" and "trial_ok lib t" and "tl_program lib (tr_workflow t) (tr_program t) = Inr p"
    and "accepted_program p"
  shows "trial_ok lib t'"
  using assms(1)
proof cases
  case (move_ticket step ticket ps)
  have "trial_active p t" using assms(2,3) move_ticket by (auto simp: trial_ok_def trial_paused_def)
  then have "trial_active p t'"
    using move_ticket(1,6) find_step_iff(2)[OF move_ticket(4)] by (simp add: trial_active_def)
  with assms(2,3) move_ticket(1) show ?thesis by (auto simp: trial_ok_def)
next
  case (move_reviewed step entry effective outputs request sha)
  show ?thesis unfolding move_reviewed(1)
    by (rule settled_trial_ok[OF assms(2-4) move_reviewed(2-)])
next
  case (move_blocked why request ps)
  show ?thesis unfolding move_blocked(1) by (rule trial_ok_same[OF assms(2)]) (use move_blocked in simp_all)
next
  case (move_cancelled s request)
  show ?thesis unfolding move_cancelled(1) by (rule trial_ok_same[OF assms(2)]) (use move_cancelled in simp_all)
next
  case (move_remembered ps)
  show ?thesis unfolding move_remembered(1) by (rule trial_ok_same[OF assms(2)]) simp_all
next
  case (move_settled mark)
  show ?thesis unfolding move_settled(1) by (rule trial_ok_same[OF assms(2)]) simp_all
qed

lemma put_values: "snd ` set (put k v d) \<subseteq> insert v (snd ` set d)"
  by (induction k v d rule: put.induct) auto

lemma map_of_put [simp]: "map_of (put k v d) k' = (if k' = k then Some v else map_of d k')"
  by (induction k v d rule: put.induct) auto

lemma new_trial_ok:
  assumes "tl_program lib workflow program_id = Inr p" and "check_start p start inputs = Inr ()"
  shows "trial_ok lib (new_trial run workflow program_id start strategy snapshot inputs snapshots)"
proof -
  have "start \<in> set (map step_name (program_steps (program_definition p)))"
    using assms(2) unfolding check_start_def Let_def checks_iff by blast
  with assms(1) show ?thesis
    unfolding trial_ok_def trial_active_def
    by (auto simp: new_trial_def outputs_from_def history_outputs_def intro: path_start)
qed

definition store_ok :: "trial_library \<Rightarrow> trial_store \<Rightarrow> bool" where
  "store_ok lib store = (\<forall>t \<in> snd ` set (ts_trials store). trial_ok lib t)"

lemma store_ok_put:
  "store_ok lib store \<Longrightarrow> trial_ok lib t \<Longrightarrow> store_ok lib (store\<lparr>ts_trials := put k t (ts_trials store), ts_index := i\<rparr>)"
  "store_ok lib store \<Longrightarrow> trial_ok lib t \<Longrightarrow> store_ok lib (keep_trial store t)"
  unfolding store_ok_def keep_trial_def
  using put_values[of k t "ts_trials store"] put_values[of "tr_run t" t "ts_trials store"] by fastforce+

lemma trial_after_ok:
  assumes "store_ok lib store" and "accepted_library lib" and "event_ok (snd we)"
  shows "store_ok lib (trial_after lib we store)"
proof (cases "trial_step lib (fst we) (snd we) store")
  case (Inl e)
  with assms(1) show ?thesis by (simp add: trial_after_def)
next
  case (Inr r)
  obtain after reply where r: "r = (after, reply)" by (cases r)
  then have after: "trial_after lib we store = after" using Inr by (simp add: trial_after_def)
  from trial_step_moves[OF Inr[unfolded r] assms(3)] show ?thesis unfolding after
  proof
    assume "trial_changed lib store after"
    then consider "after = store" | t p t' where "map_of (ts_trials store) (tr_run t) = Some t"
      "tl_program lib (tr_workflow t) (tr_program t) = Inr p" "trial_move p t t'" "after = keep_trial store t'"
      unfolding trial_changed_def by blast
    then show "store_ok lib after"
    proof cases
      case 2
      have "trial_ok lib t" using assms(1) map_of_SomeD[OF 2(1)] by (force simp: store_ok_def)
      moreover have "accepted_program p" using assms(2) 2(2) by (auto simp: accepted_library_def)
      ultimately have "trial_ok lib t'" using move_ok[OF 2(3)] 2(2) by blast
      with assms(1) show ?thesis unfolding 2(4) by (rule store_ok_put(2))
    qed (use assms(1) in simp)
  next
    assume "trial_started lib store after"
    then show "store_ok lib after"
      unfolding trial_started_def using store_ok_put(1)[OF assms(1) new_trial_ok] by blast
  qed
qed

lemma trial_run_ok:
  "accepted_library lib \<Longrightarrow> list_all (\<lambda>we. event_ok (snd we)) events \<Longrightarrow> store_ok lib store \<Longrightarrow>
    store_ok lib (trial_run lib events store)"
  unfolding trial_run_def
  by (induction events arbitrary: store) (auto simp: trial_after_ok)

lemma run_trial_ok:
  assumes "accepted_library lib" and "list_all (\<lambda>we. event_ok (snd we)) events"
    and "map_of (ts_trials (trial_run lib events no_trials)) run = Some t"
  shows "trial_ok lib t"
proof -
  have "store_ok lib no_trials" by (simp add: store_ok_def no_trials_def)
  from trial_run_ok[OF assms(1,2) this] map_of_SomeD[OF assms(3)] show ?thesis by (force simp: store_ok_def)
qed

section \<open>Properties\<close>

text \<open>The step a trial may still carry out.\<close>

definition to_do :: "trial \<Rightarrow> string list" where
  "to_do t = (if tr_pending t \<noteq> PNone \<or> tr_status t \<in> {''ready'', ''blocked''} then at_step (tr_current t) else [])"

text \<open>C37: whatever is requested of a trial and whatever receipts arrive, the steps it recorded, with the step it may
  still carry out, follow the branches of its program; so no step is carried out twice and it records at most 256.\<close>

theorem trial_follows_program:
  assumes "accepted_library lib" and "list_all (\<lambda>we. event_ok (snd we)) events"
    and "map_of (ts_trials (trial_run lib events no_trials)) run = Some t"
  shows "\<exists>p. tl_program lib (tr_workflow t) (tr_program t) = Inr p
    \<and> follows_branches (trial_graph p) (map entry_step (tr_history t) @ to_do t)
    \<and> distinct (map entry_step (tr_history t) @ to_do t) \<and> length (tr_history t) + length (to_do t) \<le> 256"
proof -
  from run_trial_ok[OF assms] obtain p where p: "tl_program lib (tr_workflow t) (tr_program t) = Inr p"
    and start: "tr_start t \<in> set (map step_name (program_steps (program_definition p)))"
    and where_: "trial_active p t \<or> trial_paused p t"
    unfolding trial_ok_def by blast
  have acc: "accepted_program p" using assms(1) p by (auto simp: accepted_library_def)
  have "follows_branches (trial_graph p) (map entry_step (tr_history t) @ to_do t)"
    using where_
  proof
    assume "trial_active p t"
    then have "trial_path p (tr_start t) (tr_history t) (tr_current t)" by (simp add: trial_active_def)
    from path_follows(1)[OF this acc start]
    show ?thesis by (auto simp: to_do_def at_step_def dest: follows_prefix split: pyval.splits)
  next
    assume "trial_paused p t"
    then obtain history entry current step where h: "tr_history t = history @ [entry]"
      and path: "trial_path p (tr_start t) history current" and step: "find_step p current = Inr step"
      and e: "pget entry ''step_id'' = current" and idle: "to_do t = []"
      unfolding trial_paused_def to_do_def by auto
    from accepted_find_step[OF acc step] obtain s where s: "current = PStr s" by metis
    have "entry_step entry = s" using e s by (simp add: entry_step_def)
    with path_follows(1)[OF path acc start] show ?thesis by (simp add: h idle s at_step_def)
  qed
  moreover from acc obtain nodes q where v: "validate_definition (program_definition p) nodes = Inr q"
    by (auto simp: accepted_program_def)
  ultimately show ?thesis
    using p accepted_run_bounded(1,3)[OF v, folded program_steps_def, folded trial_graph_def] by fastforce
qed

text \<open>C38: at any time the host can recompute the outputs of a trial from its history, as it does before it binds a
  target: the recomputation accepts every entry and gives exactly the recorded outputs.\<close>

theorem trial_outputs_recompute:
  assumes "accepted_library lib" and "list_all (\<lambda>we. event_ok (snd we)) events"
    and "map_of (ts_trials (trial_run lib events no_trials)) run = Some t"
  shows "\<exists>p. tl_program lib (tr_workflow t) (tr_program t) = Inr p
    \<and> target_outputs t p = Inr (bound_values (tr_run t) (pitems (tr_outputs t)))"
proof -
  from run_trial_ok[OF assms] obtain p out where p: "tl_program lib (tr_workflow t) (tr_program t) = Inr p"
    and out: "outputs_from p (tr_history t) out" "tr_outputs t = PDict out" unfolding trial_ok_def by blast
  have "py_eq (PDict out) (PDict out)" using out(1) unfolding outputs_from_def by (intro py_eq_refl) blast+
  with out have "target_outputs t p = Inr (bound_values (tr_run t) (pitems (tr_outputs t)))"
    by (simp add: target_outputs_def outputs_from_def)
  with p show ?thesis by blast
qed

lemma reviewed_success:
  assumes "trial_review lib w store run request execution verdict observations outputs verification = Inr (after, State now)"
    and "map_of (ts_trials store) run = Some before" and "tr_history now \<noteq> tr_history before"
    and "pget (last (tr_history now)) ''verdict'' = PStr ''success''"
  obtains p step receipt cxt terminal seen where "trial_load lib store run = Inr (before, p)"
    and "find_step p (pget (tr_pending before) ''step_id'') = Inr step" and "verdict = ''success''"
    and "tw_response w execution = Some receipt" and "receipt_context before p = Inr cxt"
    and "pget (tr_pending before) ''execution_request_id'' = PStr execution"
    and "receipt_state w receipt execution (pget (tr_pending before) ''suggested_command'') cxt = Inr (True, terminal, seen)"
    and "keys_are outputs (map fst (declared_output_types step))" and "outputs_typed (declared_output_types step) outputs"
    and "tr_outputs now = all_outputs before step outputs"
    and "trial_conditions (plist (pget step ''success_conditions'')) (tr_inputs before) (tr_outputs now) observations
      = Inr ''true''"
  using assms(1)
proof (cases rule: review_cases)
  case (1 t p sha)
  with trial_load_parts(1)[OF 1(1)] assms(2,3) show thesis by simp
next
  case (2 t p sha t')
  have t: "t = before" and now: "now = t'" using trial_load_parts(1)[OF 2(1)] assms(2) 2(11) by simp_all
  from 2(9) obtain receipt cxt received step condition entry where
    r: "tw_response w execution = Some receipt"
      "receipt_state w receipt execution (pget (tr_pending t) ''suggested_command'') cxt = Inr received"
      "receipt_context t p = Inr cxt" "verdict = ''success'' \<longrightarrow> fst received"
    and step: "find_step p (pget (tr_pending t) ''step_id'') = Inr step" "check_outputs step verdict outputs = Inr ()"
    and cond: "trial_conditions (plist (pget step ''success_conditions'')) (tr_inputs t) (all_outputs t step outputs) observations
      = Inr condition"
    and entry: "review_entry w t step request execution verdict condition observations outputs verification cxt receipt received
      = Inr entry"
    and t': "t' = settle_review t step (effective_verdict verdict condition) outputs entry request sha"
    by (rule accepted_review) blast
  have "last (tr_history t') = entry" by (simp add: t' settle_review_def Let_def)
  with assms(4) now review_entry_get(3)[OF entry] have eff: "effective_verdict verdict condition = ''success''" by simp
  from effective_verdict_cases(2)[OF eff] have vc: "verdict = ''success''" "condition = ''true''" by simp_all
  have out: "tr_outputs t' = all_outputs t step outputs" by (simp add: t' eff settle_review_def Let_def)
  obtain terminal seen where rec: "received = (True, terminal, seen)" using r(4)[rule_format, OF vc(1)] by (cases received) auto
  have typed: "keys_are outputs (map fst (declared_output_types step)) \<and> outputs_typed (declared_output_types step) outputs"
    using step(2) vc(1) by (simp add: check_outputs_def Let_def checks_iff)
  show thesis
    using that[of p step receipt cxt terminal seen] 2(1,5) step(1) r(1,2,3) rec typed cond vc unfolding t[symmetric] now out by blast
qed

text \<open>What a receipt shows of a command that was carried out: it was returned and settled, and by the kind of the command it read
  an image that is on disk, proved a selection, or says itself that input was sent.\<close>

definition shows_done :: "trial_world \<Rightarrow> string \<Rightarrow> pyval \<Rightarrow> pyval \<Rightarrow> pyval \<Rightarrow> pyval \<Rightarrow> bool" where
  "shows_done w request_id command cxt receipt terminal =
     (let result = pget receipt ''result''; api = pget result ''response''; kind = pget command ''kind'' in
      pget receipt ''status'' = PStr ''returned'' \<and> is_dict result \<and> pget result ''success'' \<noteq> PBool False
      \<and> (terminal = PNone \<or> pget terminal ''status'' = PStr ''completed'')
      \<and> (if kind = PStr ''read_text'' then is_ok (verified_observation w receipt)
         else if kind = PStr ''input_sequence'' then pget result ''status'' = PStr ''completed'' \<and> pget result ''action_executed'' = PBool True
         else if kind = PStr ''step'' then
           (if pget command ''operation'' = PStr ''execute_recognition_plan'' \<and> selection_requested (pget command ''request'')
            then \<exists>sent. actual_action_executed w request_id result terminal = Inr (PBool sent)
              \<and> pget cxt ''execution_request_id'' = PStr request_id \<and> tw_selection w result command sent cxt
            else pget result ''phase'' = PStr ''returned'' \<and> pget api ''success'' = PBool True \<and> api_executed api = Inr (PBool True))
         else pget result ''status'' \<in> {PStr ''completed'', PStr ''ok''} \<or> pget result ''success'' = PBool True))"

lemma settled_done:
  assumes "settled_receipt w request_id command cxt receipt terminal = Inr (True, t, seen)"
    and "in_names (pget receipt ''status'') [''returned'', ''failed''] = Inr True"
  shows "t = terminal \<and> shows_done w request_id command cxt receipt terminal"
proof -
  let ?result = "pget receipt ''result''"
  have head: "pget receipt ''status'' = PStr ''returned''" "is_dict ?result" "pget ?result ''success'' \<noteq> PBool False"
    "terminal = PNone \<or> pget terminal ''status'' = PStr ''completed''"
    and rest: "(if pget command ''kind'' = PStr ''read_text'' then read_receipt w receipt terminal ?result
       else input_receipt w request_id command cxt ?result terminal) = Inr (True, t, seen)"
    using assms by (auto simp: settled_receipt_def result_failed_def Let_def rbind_eq_Inr_iff in_names_True_iff split: if_split_asm)
  show ?thesis
  proof (cases "pget command ''kind'' = PStr ''read_text''")
    case True
    then show ?thesis
      using head rest by (auto simp: shows_done_def read_receipt_def rbind_eq_Inr_iff Let_def is_ok_def)
  next
    case False
    then have input: "input_receipt w request_id command cxt ?result terminal = Inr (True, t, seen)" using rest by simp
    show ?thesis
    proof (cases "pget command ''kind'' = PStr ''step''")
      case True
      then show ?thesis
        using head input unfolding shows_done_def input_receipt_def Let_def
        by (auto simp: selection_receipt_def step_receipt_def rbind_eq_Inr_iff get_or_raise_def Let_def is_type_iff split: if_split_asm)
    next
      case other: False
      then show ?thesis
        using head input False unfolding shows_done_def input_receipt_def Let_def
        by (auto simp: rbind_eq_Inr_iff in_names_True_iff split: if_split_asm)
    qed
  qed
qed

lemma received_done:
  assumes "receipt_state w receipt request_id command cxt = Inr (True, terminal, seen)"
  obtains c effective where "tw_command w request_id = Some c" and "py_eq c command" and "py_eq (pget receipt ''command'') command"
    and "resolve_execution_receipt w receipt request_id = Inr (effective, terminal)"
    and "shows_done w request_id command cxt effective terminal"
proof -
  from assms obtain effective t where checks: "case tw_command w request_id of Some c \<Rightarrow> py_eq c command | None \<Rightarrow> False"
      "py_eq (pget receipt ''command'') command" "resolve_execution_receipt w receipt request_id = Inr (effective, t)"
      "in_names (pget effective ''status'') [''returned'', ''failed''] = Inr True"
      "settled_receipt w request_id command cxt effective t = Inr (True, terminal, seen)"
    by (auto simp: receipt_state_def rbind_eq_Inr_iff split: sum.split_asm if_split_asm)
  with settled_done[OF checks(5,4)] show thesis by (auto intro: that split: option.split_asm)
qed

text \<open>C39: a verdict of success is recorded only for the command that was handed out: the ticket that was pending names this
  execution, the command on file and that of the receipt are the command of the ticket, the receipt shows that it was carried
  out, every declared output is given with its type, and the success conditions of the step hold of the recorded values.\<close>

theorem trial_success_is_evidenced:
  assumes "trial_review lib w store run request execution verdict observations outputs verification = Inr (after, State now)"
    and "map_of (ts_trials store) run = Some before" and "tr_history now \<noteq> tr_history before"
    and "pget (last (tr_history now)) ''verdict'' = PStr ''success''"
  shows "\<exists>p step command sent receipt cxt effective terminal. tl_program lib (tr_workflow before) (tr_program before) = Inr p
    \<and> find_step p (pget (tr_pending before) ''step_id'') = Inr step
    \<and> pget (tr_pending before) ''execution_request_id'' = PStr execution \<and> command = pget (tr_pending before) ''suggested_command''
    \<and> tw_command w execution = Some sent \<and> py_eq sent command
    \<and> tw_response w execution = Some receipt \<and> py_eq (pget receipt ''command'') command \<and> receipt_context before p = Inr cxt
    \<and> resolve_execution_receipt w receipt execution = Inr (effective, terminal)
    \<and> shows_done w execution command cxt effective terminal
    \<and> keys_are outputs (map fst (declared_output_types step)) \<and> outputs_typed (declared_output_types step) outputs
    \<and> tr_outputs now = all_outputs before step outputs
    \<and> trial_conditions (plist (pget step ''success_conditions'')) (tr_inputs before) (tr_outputs now) observations
      = Inr ''true''"
proof (rule reviewed_success[OF assms])
  fix p step receipt cxt terminal seen
  assume load: "trial_load lib store run = Inr (before, p)" and "find_step p (pget (tr_pending before) ''step_id'') = Inr step"
    "tw_response w execution = Some receipt" "receipt_context before p = Inr cxt"
    "pget (tr_pending before) ''execution_request_id'' = PStr execution"
    and state: "receipt_state w receipt execution (pget (tr_pending before) ''suggested_command'') cxt = Inr (True, terminal, seen)"
    and "keys_are outputs (map fst (declared_output_types step))" "outputs_typed (declared_output_types step) outputs"
    "tr_outputs now = all_outputs before step outputs"
    "trial_conditions (plist (pget step ''success_conditions'')) (tr_inputs before) (tr_outputs now) observations = Inr ''true''"
  moreover obtain c effective where "tw_command w execution = Some c" "py_eq c (pget (tr_pending before) ''suggested_command'')"
      "py_eq (pget receipt ''command'') (pget (tr_pending before) ''suggested_command'')"
      "resolve_execution_receipt w receipt execution = Inr (effective, terminal)"
      "shows_done w execution (pget (tr_pending before) ''suggested_command'') cxt effective terminal"
    by (rule received_done[OF state])
  ultimately show ?thesis using trial_load_parts(3)[OF load] by blast
qed

lemma observation_image:
  assumes "verified_observation w (PDict [(''observation'', frame)]) = Inr seen" and "is_dict frame"
  obtains path raw where "tw_image w (py_str (pget frame ''image_path'')) = Some (path, raw)"
    and "take 8 raw = png_signature" and "pget frame ''sha256'' = PStr (sha256_hex raw)"
  using assms by (auto simp: verified_observation_def Let_def dict_get_def rbind_eq_Inr_iff split: option.split_asm prod.split_asm)

text \<open>What the evidence of a verified result is bound to.\<close>

lemma checked_evidence:
  assumes "check_evidence w t p request execution evidence = Inr ()"
  obtains frame normalized path raw dispatched executed selection identity where
    "frame = pget evidence ''frame''" "normalized = pget evidence ''receipt''"
    "evidence_bound w t request execution normalized frame dispatched executed selection identity"
    "tw_image w (py_str (pget frame ''image_path'')) = Some (path, raw)" "pget frame ''sha256'' = PStr (sha256_hex raw)"
proof -
  note facts = assms[unfolded check_evidence_def Let_def checks_iff split_beta]
  from facts obtain seen where seen: "verified_observation w (PDict [(''observation'', pget evidence ''frame'')]) = Inr seen"
    and d: "is_dict (pget evidence ''frame'')" by blast
  from observation_image[OF seen d] obtain path raw where
    image: "tw_image w (py_str (pget (pget evidence ''frame'') ''image_path'')) = Some (path, raw)"
      "pget (pget evidence ''frame'') ''sha256'' = PStr (sha256_hex raw)" by blast
  from facts obtain dispatched executed selection identity where
    "evidence_bound w t request execution (pget evidence ''receipt'') (pget evidence ''frame'') dispatched executed selection identity"
    by blast
  with image that show thesis by blast
qed

lemma py_eq_text: "py_eq v (PStr s) \<longleftrightarrow> v = PStr s"
  by (cases v) auto

text \<open>C40: a success that the host records by rule was recomputed from the evidence of the session: the evidence names
  this run, the pending step and the two request ids, the observation is of the capture taken after the input in the same
  window, and the digest of that capture is the digest of the image file that is on disk.\<close>

theorem recorded_success_rests_on_image:
  assumes "record_verified_result lib w store run request execution result = Inr (after, State now)"
    and "map_of (ts_trials store) run = Some before" and "tr_history now \<noteq> tr_history before"
    and "pget (last (tr_history now)) ''verdict'' = PStr ''success''" and "pget result ''source'' = PStr ''rule''"
  shows "\<exists>p step evidence normalized computed path raw. tl_program lib (tr_workflow before) (tr_program before) = Inr p
    \<and> find_step p (pget (tr_pending before) ''step_id'') = Inr step
    \<and> tw_evidence w (py_str (pget (pget result ''observations'') ''evidence_ref'')) = Inr evidence
    \<and> normalized = pget evidence ''receipt''
    \<and> pget normalized ''run_id'' = PStr run \<and> py_eq (pget normalized ''step_id'') (pget (tr_pending before) ''step_id'')
    \<and> pget normalized ''request_id'' = PStr request \<and> pget normalized ''execution_request_id'' = PStr execution
    \<and> verify_step step (tr_inputs before) (bound_values run (pitems (tr_outputs before))) normalized (pget result ''observations'')
      = Inr computed
    \<and> pget computed ''verdict'' = PStr ''success'' \<and> tr_outputs now = all_outputs before step (pget computed ''outputs'')
    \<and> evidence_current normalized (pget result ''observations'')
    \<and> tw_image w (py_str (pget (pget evidence ''frame'') ''image_path'')) = Some (path, raw)
    \<and> pget (pget result ''observations'') ''capture_sha256'' = PStr (sha256_hex raw)"
  using assms(1)
proof (cases rule: verified_cases)
  case (1 t p)
  with trial_load_parts(1)[OF 1(1)] assms(2,3) show ?thesis by simp
next
  case 2
  with assms(5) show ?thesis by simp
next
  case (3 t p)
  have t: "t = before" and run: "tr_run t = run" using trial_load_parts(1,2)[OF 3(1)] assms(2) by simp_all
  from accepted_verified[OF 3(2)] obtain evidence computed where
    e: "read_evidence w (pget result ''observations'') = Inr evidence"
    and c: "check_evidence w t p request execution evidence = Inr ()"
    and r: "recompute_result w t p evidence result = Inr computed"
    and review: "trial_review lib w store (tr_run t) request execution (py_str (pget computed ''verdict''))
      (pget_default (pget result ''observations'') ''values'' (PDict [])) (pget computed ''outputs'') computed = Inr (after, State now)"
    by blast
  have named: "tw_evidence w (py_str (pget (pget result ''observations'') ''evidence_ref'')) = Inr evidence"
    using e unfolding read_evidence_def checks_iff by blast
  from recomputed[OF r] assms(5) obtain step where step: "find_step p (pget (tr_pending t) ''step_id'') = Inr step"
    and v: "verify_step step (tr_inputs t) (bound_values run (pitems (tr_outputs t))) (pget evidence ''receipt'')
      (pget result ''observations'') = Inr computed" by (auto simp: run)
  from checked_evidence[OF c] obtain path raw dispatched executed selection identity where
    bound: "evidence_bound w t request execution (pget evidence ''receipt'') (pget evidence ''frame'') dispatched executed selection identity"
    and image: "tw_image w (py_str (pget (pget evidence ''frame'') ''image_path'')) = Some (path, raw)"
      "pget (pget evidence ''frame'') ''sha256'' = PStr (sha256_hex raw)" by metis
  from reviewed_success[OF review] obtain p' step' where
    s': "trial_load lib store (tr_run t) = Inr (before, p')" "find_step p' (pget (tr_pending before) ''step_id'') = Inr step'"
    and verdict: "py_str (pget computed ''verdict'') = ''success''"
    and out: "tr_outputs now = all_outputs before step' (pget computed ''outputs'')"
    using assms(2,3,4) run by blast
  have same: "step' = step" using s' 3(1) step t run by simp
  obtain verdict' where "pget computed ''verdict'' = PStr verdict'" by (rule verified_verdict[OF v])
  with verdict have success: "pget computed ''verdict'' = PStr ''success''" by simp
  have current: "evidence_current (pget evidence ''receipt'') (pget result ''observations'')"
    by (rule step_success(4)[OF v success])
  have "pget (pget result ''observations'') ''capture_sha256'' = pget (pget evidence ''receipt'') ''post_capture_sha256''"
    using current unfolding evidence_current_def by blast
  moreover have "py_eq (pget (pget evidence ''receipt'') ''post_capture_sha256'') (PStr (sha256_hex raw))"
    using bound unfolding evidence_bound_def image(2) by blast
  ultimately have sha: "pget (pget result ''observations'') ''capture_sha256'' = PStr (sha256_hex raw)"
    by (simp add: py_eq_text)
  have ids: "pget (pget evidence ''receipt'') ''run_id'' = PStr run"
    "py_eq (pget (pget evidence ''receipt'') ''step_id'') (pget (tr_pending before) ''step_id'')"
    "pget (pget evidence ''receipt'') ''request_id'' = PStr request"
    "pget (pget evidence ''receipt'') ''execution_request_id'' = PStr execution"
    using bound[unfolded evidence_bound_def run] unfolding t by blast+
  show ?thesis
    using trial_load_parts(3)[OF 3(1)] step v unfolding t
    by (intro exI[of _ p] exI[of _ step] exI[of _ evidence] exI[of _ "pget evidence ''receipt''"] exI[of _ computed]
      exI[of _ path] exI[of _ raw] conjI refl named ids success current image(1) sha out[unfolded same]) auto
qed

lemma frozen_same:
  "tr_workflow t' = tr_workflow t \<Longrightarrow> tr_program t' = tr_program t \<Longrightarrow> tr_start t' = tr_start t \<Longrightarrow>
    tr_inputs t' = tr_inputs t \<Longrightarrow> tr_strategy t' = tr_strategy t \<Longrightarrow> tr_run t' = tr_run t \<Longrightarrow>
    tr_conditions t' = tr_conditions t \<Longrightarrow> ts_index store' = ts_index store \<Longrightarrow>
    validate_frozen_conditions lib store' t' p = validate_frozen_conditions lib store t p"
  unfolding validate_frozen_conditions_def by (simp only:)

text \<open>a review that was accepted can be sent again, whatever the files say by then: it changes nothing and is
  answered with the same trial.\<close>

theorem trial_review_is_idempotent:
  assumes "trial_review lib w store run request execution verdict observations outputs verification = Inr (after, State now)"
  shows "trial_review lib w' after run request execution verdict observations outputs verification = Inr (after, State now)"
proof -
  have ids: "check_id ''request_id'' (PStr request) = Inr request" "check_id ''execution_request_id'' (PStr execution) = Inr execution"
    using assms by (auto simp: trial_review_def checks_iff check_id_def split: if_splits)
  have again: ?thesis if load: "trial_load lib after run = Inr (now, p)" and old: "map_of (tr_requests now) request = Some sha"
    and sha: "json_digest (review_values execution verdict observations outputs verification) = Inr sha"
    and mark: "\<not> truthy (tr_settlement now)" for p sha
    using ids load old sha mark by (simp add: trial_review_def review_answer_def)
  have mark: "\<not> truthy (tr_settlement t)" if "trial_load lib store run = Inr (t, p)" for t p
    using assms that by (auto simp: trial_review_def checks_iff)
  from assms show ?thesis
  proof (cases rule: review_cases)
    case (1 t p sha)
    then have now: "now = t" and after: "after = store" by simp_all
    show ?thesis by (rule again[of p sha]) (use 1 mark[OF 1(1)] now after in simp_all)
  next
    case (2 t p sha t')
    note parts = trial_load_parts[OF 2(1)]
    have "\<exists>step effective entry. t' = settle_review t step effective outputs entry request sha"
      using 2(9) by (rule accepted_review) blast
    then obtain step effective entry where t': "t' = settle_review t step effective outputs entry request sha" by blast
    have same: "tr_workflow t' = tr_workflow t" "tr_program t' = tr_program t" "tr_start t' = tr_start t"
      "tr_inputs t' = tr_inputs t" "tr_strategy t' = tr_strategy t" "tr_run t' = tr_run t" "tr_conditions t' = tr_conditions t"
      "tr_settlement t' = tr_settlement t" "tr_pending t' = PNone" "map_of (tr_requests t') request = Some sha"
      by (simp_all add: t' settle_review_def Let_def)
    have run: "tr_run t' = run" using same(6) parts(2) by simp
    have index: "ts_index after = ts_index store" by (simp add: 2(10) keep_trial_def)
    have frozen: "validate_frozen_conditions lib after t' p = Inr ()"
      using frozen_same[OF same(1-7) index] parts(6) by simp
    have "map_of (ts_trials after) run = Some t'" by (simp add: 2(10) keep_trial_def run)
    with parts(3,5) run frozen same have "trial_load lib after run = Inr (t', p)"
      by (simp add: trial_load_def check_pending_def)
    moreover have "now = t'" using 2(11) by simp
    ultimately show ?thesis by (intro again[of p sha]) (use same(8,10) mark[OF 2(1)] 2(2) in simp_all)
  qed
qed

section \<open>A trial of the reading program\<close>

definition digest_of :: "pyval \<Rightarrow> string" where
  "digest_of v = sha256_hex (utf8 (compact_json v))"

lemma ct_digest_of: "all_finite v \<Longrightarrow> ct_digest v = Inr (digest_of v)"
  by (simp add: ct_digest_def strict_json_def digest_of_def)

lemma digest_hex: "hex_re 64 (digest_of v)"
  by (simp add: digest_of_def sha256_hex_re)

definition tried_reading :: pyval where
  "tried_reading = pset ''read_spec'' (PDict [(''method'', PStr ''visible_text''), (''output_name'', PStr ''city''),
     (''target'', PDict [(''name'', PStr ''City''), (''control_type'', PStr ''Text'')])]) reading_step"

definition tried_definition :: pyval where
  "tried_definition = pset ''steps'' (PList [tried_reading, typing_step]) two_step_program"

definition tried_program :: pyval where
  "tried_program = PDict [(''program_id'', PStr ''p''), (''project_snapshot_id'', PStr ''snapshot''),
     (''definition'', tried_definition)]"

definition tried_library :: trial_library where
  "tried_library = \<lparr>tl_session = ''session'', tl_program = (\<lambda>_ _. Inr tried_program),
     tl_goal = (\<lambda>_ _ _. Inl AttributeError), tl_vision = Inr\<rparr>"

definition tried_command :: pyval where
  "tried_command = PDict [(''kind'', PStr ''read_text''), (''max_chars'', PInt 10000)]"

definition tried_sha :: string where
  "tried_sha = digest_of (start_values ''w'' ''p'' ''read'' (PDict []) ''learned'')"

definition tried_run :: string where
  "tried_run = ''trial-'' @ digest_of (PList [PStr ''session'', PStr ''r1'', PStr tried_sha])"

definition tried_execution :: string where
  "tried_execution = ''trial-exec-'' @ take 32 (digest_of (PList [PStr tried_run, PStr ''read'', PInt 0, PStr ''r2'']))"

text \<open>The files of a run whose reading step was carried out and observed.\<close>

definition tried_digest :: pyval where
  "tried_digest = PStr (sha256_hex png_signature)"

definition tried_normalized :: pyval where
  "tried_normalized = PDict [(''run_id'', PStr tried_run), (''step_id'', PStr ''read''), (''request_id'', PStr ''r3''),
     (''execution_request_id'', PStr tried_execution), (''pre_capture_id'', PStr ''b''), (''post_capture_id'', PStr ''c''),
     (''scope_id'', PStr ''window''), (''window_identity'', verified_window), (''status'', PStr ''completed''),
     (''action_executed'', PBool False), (''post_capture_sha256'', tried_digest), (''evidence_ref'', PStr ''responses/x.json'')]"

definition tried_observed :: pyval where
  "tried_observed = PDict [(''run_id'', PStr tried_run), (''step_id'', PStr ''read''), (''request_id'', PStr ''r3''),
     (''execution_request_id'', PStr tried_execution), (''complete'', PBool True), (''capture_id'', PStr ''c''),
     (''capture_sha256'', tried_digest), (''window_identity'', verified_window), (''scope_id'', PStr ''window''),
     (''source'', PStr ''visible_text''), (''evidence_ref'', PStr ''observations/o.json''),
     (''values'', PDict [(''text'', PStr ''Oslo'')])]"

definition tried_frame :: pyval where
  "tried_frame = PDict [(''image_path'', PStr ''read.png''), (''sha256'', tried_digest),
     (''capture_id'', PStr ''c''), (''window_identity'', verified_window)]"

definition tried_evidence :: pyval where
  "tried_evidence = PDict [(''contract_version'', PStr ''workflow_observation.v1''), (''observation'', tried_observed),
     (''source_receipt_sha256'', PStr ''sha''), (''terminal_receipt'', PNone), (''receipt'', tried_normalized),
     (''frame'', tried_frame)]"

definition tried_receipt :: pyval where
  "tried_receipt = PDict [(''status'', PStr ''returned''), (''command'', tried_command),
     (''result'', PDict [(''status'', PStr ''agent_read_required'')]), (''observation'', tried_frame)]"

definition tried_world :: trial_world where
  "tried_world = \<lparr>tw_takeover = Inr (), tw_command = (\<lambda>_. Some tried_command), tw_response = (\<lambda>_. Some tried_receipt),
     tw_response_sha = (\<lambda>_. ''sha''), tw_terminal = (\<lambda>_. None), tw_terminal_path = id,
     tw_image = (\<lambda>path. Some (path, png_signature)), tw_zero_input = (\<lambda>_ _. False), tw_selection = (\<lambda>_ _ _ _. False),
     tw_evidence = (\<lambda>_. Inr tried_evidence), tw_names_receipt = (\<lambda>_ _. True),
     tw_image_match = (\<lambda>_ _. Inl OSError), tw_decision = (\<lambda>_ _. Inl AttributeError), tw_always_main = False\<rparr>"

definition tried_new :: trial where
  "tried_new = new_trial tried_run ''w'' ''p'' ''read'' ''learned'' (PStr ''snapshot'') (PDict []) []"

definition tried_store :: "trial \<Rightarrow> trial_store" where
  "tried_store t = \<lparr>ts_trials = [(tried_run, t)], ts_index = [(''r1'', tried_sha, tried_run)]\<rparr>"

lemma tried_accepted: "accepted_library tried_library"
proof -
  have "is_ok (validate_definition tried_definition [''n1''])" by code_simp
  then show ?thesis unfolding is_ok_iff
    by (auto simp: accepted_library_def accepted_program_def tried_library_def tried_program_def program_definition_def
      dict_get_def)
qed

lemma tried_name: "trial_name_ok tried_run"
  by (simp add: trial_name_ok_def tried_run_def digest_hex)

lemma tried_snapshots: "program_condition_snapshots tried_program (PDict []) = Inr []"
  by code_simp

lemma tried_checks: "check_start tried_program ''read'' (PDict []) = Inr ()" "pget tried_program ''project_snapshot_id'' = PStr ''snapshot''"
  "check_id ''request_id'' (PStr ''r1'') = Inr ''r1''" "check_id ''request_id'' (PStr ''r2'') = Inr ''r2''"
  "check_id ''request_id'' (PStr ''r3'') = Inr ''r3''" "check_id ''request_id'' (PStr ''r4'') = Inr ''r4''"
  "validate_execution_strategy (PStr ''learned'') = Inr ''learned''"
  by code_simp+

lemma tried_started:
  "trial_start tried_library tried_world no_trials ''w'' ''p'' ''read'' (PDict []) ''r1'' (PStr ''learned'')
    = Inr (tried_store tried_new, State tried_new)"
proof -
  have d: "ct_digest (start_values ''w'' ''p'' ''read'' (PDict []) ''learned'') = Inr tried_sha"
    by (simp add: tried_sha_def ct_digest_of start_values_def)
  have r: "trial_id tried_library ''r1'' tried_sha = Inr tried_run"
    by (simp add: trial_id_def tried_run_def ct_digest_of tried_library_def)
  note r = r[unfolded tried_library_def]
  show ?thesis
    unfolding trial_start_def
    by (simp add: tried_checks d r no_trials_def tried_world_def unresolved_trial_def tried_library_def Let_def
      tried_snapshots tried_store_def tried_new_def)
qed

lemma tried_keep: "tr_run t' = tried_run \<Longrightarrow> keep_trial (tried_store t) t' = tried_store t'"
  by (simp add: keep_trial_def tried_store_def)

lemma tried_load:
  assumes "tr_run t = tried_run" "tr_inputs t = PDict []" "tr_conditions t = None" "check_pending t = Inr ()"
  shows "trial_load tried_library (tried_store t) tried_run = Inr (t, tried_program)"
  using assms by (simp add: trial_load_def tried_name tried_store_def tried_library_def validate_frozen_conditions_def tried_snapshots)

definition tried_ticket :: "string \<Rightarrow> pyval \<Rightarrow> nat \<Rightarrow> string \<Rightarrow> pyval \<Rightarrow> pyval" where
  "tried_ticket request step n name command = trial_ticket
     (''trial-exec-'' @ take 32 (digest_of (PList [PStr tried_run, PStr name, PInt (int n), PStr request])))
     step step command ''learned'' (PDict [])"

definition with_ticket :: "string \<Rightarrow> pyval \<Rightarrow> trial \<Rightarrow> trial" where
  "with_ticket request ticket t = t\<lparr>tr_pending := ticket, tr_status := ''pending'', tr_reason := [], tr_blocked := None,
     tr_prepares := put request (digest_of (PList [PDict [], PNone]), pending_result (tr_run t) ticket) (tr_prepares t)\<rparr>"

lemma tried_issue:
  assumes "tr_run t = tried_run" "tr_inputs t = PDict []" "tr_conditions t = None" "tr_pending t = PNone"
    and "tr_status t = ''ready''" "tr_blocked t = None" "tr_strategy t = ''learned''" "tr_settlement t = PNone"
    and "map_of (tr_prepares t) request = None" and "check_id ''request_id'' (PStr request) = Inr request"
    and "tr_current t = PStr name" and "find_step tried_program (PStr name) = Inr step" and "pget step ''step_id'' = PStr name"
    and "plist (pget step ''preconditions'') = []"
    and "trial_command step (PDict []) (tr_outputs t) = Inr command"
  shows "trial_prepare tried_library (tried_store t) tried_run request PNone PNone
    = Inr (tried_store (with_ticket request (tried_ticket request step (length (tr_history t)) name command) t),
        Ticket (pending_result tried_run (tried_ticket request step (length (tr_history t)) name command)))"
proof -
  have load: "trial_load tried_library (tried_store t) tried_run = Inr (t, tried_program)"
    by (rule tried_load) (simp_all add: assms check_pending_def)
  have sha: "json_digest [PDict [], PNone] = Inr (digest_of (PList [PDict [], PNone]))"
    by (simp add: json_digest_def ct_digest_of)
  have ticket: "ticket_name t step request
    = Inr (''trial-exec-'' @ take 32 (digest_of (PList [PStr tried_run, PStr name, PInt (int (length (tr_history t))), PStr request])))"
    by (simp add: ticket_name_def json_digest_def ct_digest_of assms)
  have compiled: "compile_command tried_library t tried_program step = Inr (step, command)"
    by (simp add: compile_command_def command_step_def assms)
  show ?thesis
    by (simp add: trial_prepare_def prepare_answer_def prepare_step_def issue_ticket_def add_vision_def load sha ticket compiled
      assms py_or_def Let_def remember_prepare_def tried_keep tried_ticket_def with_ticket_def)
qed

lemma tried_steps:
  "find_step tried_program (PStr ''read'') = Inr tried_reading" "pget tried_reading ''step_id'' = PStr ''read''"
  "plist (pget tried_reading ''preconditions'') = []" "trial_command tried_reading (PDict []) (PDict []) = Inr tried_command"
  "find_step tried_program (PStr ''type'') = Inr typing_step" "pget typing_step ''step_id'' = PStr ''type''"
  "plist (pget typing_step ''preconditions'') = []" "plist (pget tried_reading ''success_conditions'') = []"
  "pget (pget tried_reading ''branches'') ''success'' = PStr ''type''"
  "check_outputs tried_reading ''success'' (PDict [(''city'', PStr ''Oslo'')]) = Inr ()"
  by code_simp+

definition tried_asked :: trial where
  "tried_asked = with_ticket ''r2'' (tried_ticket ''r2'' tried_reading 0 ''read'' tried_command) tried_new"

lemma tried_prepared:
  "trial_prepare tried_library (tried_store tried_new) tried_run ''r2'' PNone PNone
    = Inr (tried_store tried_asked, Ticket (pending_result tried_run (tried_ticket ''r2'' tried_reading 0 ''read'' tried_command)))"
  using tried_issue[of tried_new "''r2''" "''read''" tried_reading tried_command]
  by (simp add: tried_steps tried_checks tried_asked_def tried_new_def new_trial_def)

lemma tried_execution_id: "check_id ''execution_request_id'' (PStr tried_execution) = Inr tried_execution"
proof -
  have hex: "is_word_dash c" if "is_hex c" for c
    using that by (auto simp: is_hex_def is_word_dash_def is_alnum_def)
  let ?d = "digest_of (PList [PStr tried_run, PStr ''read'', PInt 0, PStr ''r2''])"
  have "list_all is_word_dash (take 32 ?d)"
    using digest_hex[of "PList [PStr tried_run, PStr ''read'', PInt 0, PStr ''r2'']"] hex
    by (auto simp: hex_re_def list_all_iff dest: in_set_takeD)
  moreover have "is_alnum (CHR ''t'')" "list_all is_word_dash ''rial-exec-''" by code_simp+
  ultimately have "identifier_re 159 tried_execution" by (simp add: tried_execution_def identifier_re_def)
  then show ?thesis by (simp add: check_id_def)
qed

definition tried_outputs :: pyval where
  "tried_outputs = PDict [(''city'', PStr ''Oslo'')]"

definition tried_seen :: pyval where
  "tried_seen = PDict [(''sha256'', tried_digest), (''image_path'', PStr ''read.png''), (''capture_id'', PStr ''c'')]"

definition tried_entry :: "pyval \<Rightarrow> pyval \<Rightarrow> pyval" where
  "tried_entry shown v = judged_entry ''success'' v (pset ''read_observation'' tried_seen (basic_entry tried_asked tried_reading
     ''r3'' tried_execution ''success'' ''success'' ''true'' shown tried_outputs ''sha'' (True, PNone, tried_seen)))"

definition tried_read :: "pyval \<Rightarrow> pyval \<Rightarrow> trial" where
  "tried_read shown v = settle_review tried_asked tried_reading ''success'' tried_outputs (tried_entry shown v) ''r3''
     (digest_of (PList (review_values tried_execution ''success'' shown tried_outputs v)))"

lemma tried_received:
  "receipt_state tried_world tried_receipt tried_execution tried_command PNone = Inr (True, PNone, tried_seen)"
proof -
  have eq: "py_eq tried_command tried_command" by code_simp
  have parts: "pget tried_receipt ''command'' = tried_command" "pget tried_receipt ''status'' = PStr ''returned''"
    "pget tried_receipt ''result'' = PDict [(''status'', PStr ''agent_read_required'')]" "pget tried_command ''kind'' = PStr ''read_text''"
    "pget tried_receipt ''observation'' = tried_frame" "is_dict tried_frame" "pget tried_frame ''image_path'' = PStr ''read.png''"
    "pget tried_frame ''sha256'' = tried_digest" "pget tried_frame ''capture_id'' = PStr ''c''"
    by (simp_all add: tried_receipt_def tried_command_def tried_frame_def dict_get_def)
  have resolved: "resolve_execution_receipt tried_world tried_receipt tried_execution = Inr (tried_receipt, PNone)"
    by (simp add: resolve_execution_receipt_def parts py_or_def get_or_raise_def dict_get_def Let_def)
  have seen: "verified_observation tried_world tried_receipt = Inr tried_seen"
    by (simp add: verified_observation_def parts dict_get_def tried_world_def tried_seen_def tried_digest_def Let_def)
      (simp add: png_signature_def)
  show ?thesis
    by (simp add: receipt_state_def resolved parts eq settled_receipt_def result_failed_def read_receipt_def seen Let_def
      input_statuses_def dict_get_def in_names_def) (simp add: tried_world_def eq parts dict_get_def in_names_def seen[unfolded tried_world_def])
qed

lemma tried_asked_fields:
  "tr_run tried_asked = tried_run" "tr_inputs tried_asked = PDict []" "tr_conditions tried_asked = None"
  "tr_settlement tried_asked = PNone" "tr_requests tried_asked = []" "tr_outputs tried_asked = PDict []"
  "tr_history tried_asked = []" "tr_strategy tried_asked = ''learned''" "tr_status tried_asked = ''pending''"
  "tr_pending tried_asked = tried_ticket ''r2'' tried_reading 0 ''read'' tried_command"
  "map_of (tr_prepares tried_asked) ''r4'' = None" "tr_blocked tried_asked = None"
  "tr_workflow tried_asked = ''w''" "tr_program tried_asked = ''p''"
  by (simp_all add: tried_asked_def with_ticket_def tried_new_def new_trial_def)

lemma tried_ticket_fields:
  "is_dict (tried_ticket ''r2'' tried_reading 0 ''read'' tried_command)"
  "pget (tried_ticket ''r2'' tried_reading 0 ''read'' tried_command) ''execution_request_id'' = PStr tried_execution"
  "pget (tried_ticket ''r2'' tried_reading 0 ''read'' tried_command) ''suggested_command'' = tried_command"
  "pget (tried_ticket ''r2'' tried_reading 0 ''read'' tried_command) ''step_id'' = PStr ''read''"
  "pget_default (tried_ticket ''r2'' tried_reading 0 ''read'' tried_command) ''execution_strategy'' (PStr ''learned'') = PStr ''learned''"
  by (simp_all add: tried_ticket_def trial_ticket_def dict_get_def tried_execution_def tried_steps(2) pget_default_def)

lemma tried_loads: "trial_load tried_library (tried_store tried_asked) tried_run = Inr (tried_asked, tried_program)"
  by (rule tried_load) (simp_all add: tried_asked_fields check_pending_def tried_ticket_fields execution_strategy_def
    tried_checks Let_def)

lemma tried_context: "receipt_context tried_asked tried_program = Inr PNone"
proof -
  have "\<not> selection_requested (pget tried_command ''request'')"
    by (simp add: selection_requested_def tried_command_def dict_get_def)
  then show ?thesis by (simp add: receipt_context_def tried_asked_fields tried_ticket_fields Let_def)
qed

lemma tried_reviewed:
  assumes "is_dict shown" and "all_finite shown" and "all_finite v"
  shows "trial_review tried_library tried_world (tried_store tried_asked) tried_run ''r3'' tried_execution ''success'' shown
    tried_outputs v = Inr (tried_store (tried_read shown v), State (tried_read shown v))"
proof -
  have finite: "all_finite (PList (review_values tried_execution ''success'' shown tried_outputs v))"
    using assms(2,3) by (simp add: review_values_def tried_outputs_def)
  note sha = ct_digest_of[OF finite]
  have conditions: "trial_conditions (plist (pget tried_reading ''success_conditions'')) i out seen = Inr ''true''" for i out seen
    by (simp add: tried_steps)
  have sha_is: "tw_response_sha tried_world tried_execution = ''sha''" by (simp add: tried_world_def)
  have entry: "review_entry tried_world tried_asked tried_reading ''r3'' tried_execution ''success'' ''true'' shown tried_outputs
      v PNone tried_receipt (True, PNone, tried_seen) = Inr (tried_entry shown v)"
    by (simp add: review_entry_def selection_entry_def effective_verdict_def if_given_def tried_entry_def sha_is Let_def)
      (simp add: tried_seen_def)
  have response: "read_response tried_world tried_execution = Inr tried_receipt"
    by (simp add: read_response_def tried_world_def tried_receipt_def)
  have accepted: "accept_review tried_world tried_asked tried_program ''r3'' tried_execution ''success'' shown tried_outputs v
      (digest_of (PList (review_values tried_execution ''success'' shown tried_outputs v))) = Inr (tried_read shown v)"
    unfolding accept_review_def tried_asked_fields tried_ticket_fields response tried_context rbind_Inr tried_received tried_steps
    by (simp add: tried_steps(10)[folded tried_outputs_def] entry tried_read_def effective_verdict_def)
  have outs: "is_dict tried_outputs" by (simp add: tried_outputs_def)
  have run: "tr_run (tried_read shown v) = tried_run" by (simp add: tried_read_def settle_review_def Let_def tried_asked_fields)
  show ?thesis
    by (simp add: trial_review_def tried_checks tried_execution_id tried_loads tried_asked_fields tried_ticket_fields
      review_answer_def json_digest_def sha accepted run tried_keep review_verdicts_def outs assms(1))
qed

abbreviation tried_plain :: trial where
  "tried_plain \<equiv> tried_read (PDict []) PNone"

lemma tried_plain_reviewed:
  "trial_review tried_library tried_world (tried_store tried_asked) tried_run ''r3'' tried_execution ''success'' (PDict [])
    tried_outputs PNone = Inr (tried_store tried_plain, State tried_plain)"
  by (rule tried_reviewed) simp_all

lemma tried_read_fields:
  "tr_run (tried_read shown v) = tried_run" "tr_inputs (tried_read shown v) = PDict []" "tr_conditions (tried_read shown v) = None"
  "tr_settlement (tried_read shown v) = PNone" "tr_pending (tried_read shown v) = PNone" "tr_status (tried_read shown v) = ''ready''"
  "tr_strategy (tried_read shown v) = ''learned''" "tr_blocked (tried_read shown v) = None" "tr_current (tried_read shown v) = PStr ''type''"
  "map_of (tr_prepares (tried_read shown v)) ''r4'' = None" "tr_history (tried_read shown v) = [tried_entry shown v]"
  "tr_outputs (tried_read shown v) = PDict [(''read.city'', PStr ''Oslo'')]"
  "tr_workflow (tried_read shown v) = ''w''" "tr_program (tried_read shown v) = ''p''"
  by (simp_all add: tried_read_def settle_review_def Let_def tried_asked_fields branch_status_def tried_steps
    all_outputs_def step_outputs_def tried_outputs_def output_key_def)

lemma tried_entry_get:
  "pget (tried_entry shown v) ''step_id'' = PStr ''read''" "pget (tried_entry shown v) ''verdict'' = PStr ''success''"
  by (simp_all add: tried_entry_def judged_entry_keeps(2) entry_keys_def pget_pset_other basic_entry_get tried_steps)

definition tried_typing :: pyval where
  "tried_typing = input_command (pget typing_step ''action'') (PStr ''Oslo'') []"

definition tried_last :: trial where
  "tried_last = with_ticket ''r4'' (tried_ticket ''r4'' typing_step 1 ''type'' tried_typing) tried_plain"

lemma tried_typed:
  "trial_prepare tried_library (tried_store tried_plain) tried_run ''r4'' PNone PNone
    = Inr (tried_store tried_last, Ticket (pending_result tried_run (tried_ticket ''r4'' typing_step 1 ''type'' tried_typing)))"
proof -
  have "trial_command typing_step (PDict []) (PDict [(''read.city'', PStr ''Oslo'')]) = Inr tried_typing" by code_simp
  then show ?thesis
    using tried_issue[of tried_plain "''r4''" "''type''" typing_step tried_typing]
    by (simp add: tried_steps tried_checks tried_last_def tried_read_fields)
qed

definition tried_events :: "(trial_world \<times> trial_event) list" where
  "tried_events = map (\<lambda>e. (tried_world, e)) [Start ''w'' ''p'' ''read'' (PDict []) ''r1'' (PStr ''learned''),
     Prepare tried_run ''r2'' PNone PNone,
     Review tried_run ''r3'' tried_execution ''success'' (PDict []) tried_outputs,
     Prepare tried_run ''r4'' PNone PNone]"

lemma tried_events_run: "trial_run tried_library tried_events no_trials = tried_store tried_last"
  by (simp add: trial_run_def tried_events_def trial_after_def tried_started tried_prepared tried_plain_reviewed tried_typed)

lemma tried_events_ok: "list_all (\<lambda>we. event_ok (snd we)) tried_events"
  by (simp add: tried_events_def tried_outputs_def)

lemma tried_events_last: "map_of (ts_trials (trial_run tried_library tried_events no_trials)) tried_run = Some tried_last"
  by (simp add: tried_events_run tried_store_def)

theorem trial_follows_program_witness:
  "follows_branches (trial_graph tried_program) [''read'', ''type''] \<and> distinct [''read'', ''type'']"
proof -
  have fields: "map entry_step (tr_history tried_last) @ to_do tried_last = [''read'', ''type'']"
    by (simp add: tried_last_def with_ticket_def to_do_def tried_read_fields entry_step_def tried_entry_get at_step_def
      tried_ticket_def trial_ticket_def)
  from trial_follows_program[OF tried_accepted tried_events_ok tried_events_last]
  show ?thesis unfolding fields by (auto simp: tried_library_def)
qed

theorem trial_outputs_recompute_witness:
  "target_outputs tried_last tried_program
    = Inr (PDict [(''read.city'', PDict [(''run_id'', PStr tried_run), (''value'', PStr ''Oslo'')])])"
proof -
  have fields: "tr_outputs tried_last = PDict [(''read.city'', PStr ''Oslo'')]" "tr_run tried_last = tried_run"
    by (simp_all add: tried_last_def with_ticket_def tried_read_fields)
  from trial_outputs_recompute[OF tried_accepted tried_events_ok tried_events_last]
  show ?thesis unfolding fields by (auto simp: tried_library_def bound_values_def)
qed

theorem trial_success_is_evidenced_witness:
  "tr_outputs tried_plain = all_outputs tried_asked tried_reading tried_outputs
    \<and> pget (last (tr_history tried_plain)) ''verdict'' = PStr ''success''"
proof -
  have before: "map_of (ts_trials (tried_store tried_asked)) tried_run = Some tried_asked" by (simp add: tried_store_def)
  have grown: "tr_history tried_plain \<noteq> tr_history tried_asked" by (simp add: tried_read_fields tried_asked_fields)
  have verdict: "pget (last (tr_history tried_plain)) ''verdict'' = PStr ''success''"
    by (simp add: tried_read_fields tried_entry_get)
  from trial_success_is_evidenced[OF tried_plain_reviewed before grown verdict] verdict show ?thesis
    by (auto simp: tried_asked_fields tried_ticket_fields tried_library_def tried_steps)
qed

definition tried_result :: pyval where
  "tried_result = rule_result ''success'' ''rule_verified'' tried_normalized tried_observed [(''city'', PStr ''Oslo'')]"

lemma tried_texts: "has_text (PStr tried_run)" "has_text (PStr tried_execution)"
proof -
  have "\<not> is_space (CHR ''t'')" by code_simp
  then show "has_text (PStr tried_run)" "has_text (PStr tried_execution)"
    by (simp_all add: has_text_def tried_run_def tried_execution_def blank_def strip_def)
qed

lemma tried_window: "window_identity_ok verified_window = Inr True" "is_dict verified_window" "py_eq verified_window verified_window"
  "all_finite verified_window"
  by code_simp+

lemma tried_parts:
  "pget tried_observed ''values'' = PDict [(''text'', PStr ''Oslo'')]" "pget tried_observed ''source'' = PStr ''visible_text''"
  "pget tried_observed ''evidence_ref'' = PStr ''observations/o.json''" "is_dict tried_observed" "tried_observed \<noteq> PNone"
  "pget tried_normalized ''status'' = PStr ''completed''" "pget tried_normalized ''post_capture_sha256'' = tried_digest"
  "has_text (pget tried_normalized ''evidence_ref'')" "is_dict tried_normalized"
proof -
  have "has_text (PStr ''responses/x.json'')" by code_simp
  then show "has_text (pget tried_normalized ''evidence_ref'')" by (simp add: tried_normalized_def dict_get_def)
qed (simp_all add: tried_observed_def tried_normalized_def dict_get_def)

lemma tried_current:
  "check_receipt_head tried_reading tried_normalized = Inr ()" "evidence_current tried_normalized tried_observed"
  "digest_ok tried_digest"
proof -
  show digest: "digest_ok tried_digest" by (simp add: digest_ok_def tried_digest_def sha256_hex_re)
  have texts: "has_text (PStr ''read'')" "has_text (PStr ''r3'')" "has_text (PStr ''b'')" "has_text (PStr ''c'')"
    "has_text (PStr ''window'')" "has_text (PStr ''visible_text'')" "has_text (PStr ''observations/o.json'')"
    by code_simp+
  show "check_receipt_head tried_reading tried_normalized = Inr ()"
    by (simp add: check_receipt_head_def tried_normalized_def dict_get_def tried_texts texts tried_window tried_steps in_names_def Let_def)
  show "evidence_current tried_normalized tried_observed"
    using digest
    by (simp add: evidence_current_def tried_normalized_def tried_observed_def dict_get_def texts tried_window tried_digest_def)
qed

lemma tried_rules:
  "pget tried_reading ''verification'' = PNone" "check_read_rule (pget tried_reading ''read_spec'') = Inr ()"
  "pget tried_reading ''read_spec'' \<noteq> PNone" "py_str (pget (pget tried_reading ''read_spec'') ''output_name'') = ''city''"
  "pget (pget tried_reading ''read_spec'') ''method'' = PStr ''visible_text''"
  "declared_outputs_of tried_reading = Inr [(''city'', ''text'')]" "is_dict tried_reading" "has_text (pget tried_reading ''step_id'')"
  "\<not> selection_requested (pget tried_reading ''action'')"
  "get_or_raise (pget_default tried_reading ''action'' (PDict [])) ''kind'' = Inr (PStr ''read_text'')"
  by code_simp+

lemma tried_verified:
  "verify_step tried_reading (PDict []) (PDict []) tried_normalized tried_observed = Inr tried_result"
proof -
  have reading: "judge_reading (pget tried_reading ''read_spec'') tried_observed [] = Reading [(''city'', PStr ''Oslo'')]"
    by (simp add: judge_reading_def read_value_def tried_rules tried_parts dict_get_def phas_def is_scalar_def Let_def)
  have "verify_rules tried_reading (PDict []) (PDict []) tried_normalized tried_observed r False = Inr tried_result" for r
    by (simp add: verify_rules_def apply_rules_def finish_rules_def judge_verification_def reading check_verification_rule_def
      output_type_ok_def dict_get_def tried_rules tried_result_def Let_def)
  then show ?thesis
    by (simp add: verify_step_def input_proven_def tried_current tried_parts tried_rules)
qed

lemma tried_result_get:
  "pget tried_result ''observations'' = tried_observed" "pget tried_result ''outputs'' = tried_outputs"
  "pget tried_result ''source'' = PStr ''rule''" "pget tried_result ''verdict'' = PStr ''success''"
  by (simp_all add: tried_result_def rule_result_get tried_parts tried_outputs_def)

lemma tried_finite: "all_finite tried_observed" "all_finite tried_normalized" "all_finite tried_result" "wf_py tried_observed"
    "wf_py tried_result" "py_eq tried_observed tried_observed" "py_eq tried_result tried_result"
proof -
  have w: "wf_py verified_window" by code_simp
  show o: "all_finite tried_observed" "wf_py tried_observed"
    by (simp_all add: tried_observed_def tried_window w tried_digest_def)
  show "all_finite tried_normalized" by (simp add: tried_normalized_def tried_window tried_digest_def)
  have refs: "all_finite (PList (evidence_refs tried_normalized tried_observed))" "wf_py (PList (evidence_refs tried_normalized tried_observed))"
    by (simp_all add: evidence_refs_def tried_parts tried_normalized_def dict_get_def)
  show r: "all_finite tried_result" "wf_py tried_result"
    using refs o by (simp_all add: tried_result_def rule_result_def tried_parts)
  show "py_eq tried_observed tried_observed" "py_eq tried_result tried_result" using o r by simp_all
qed

definition tried_shown :: pyval where
  "tried_shown = PDict [(''text'', PStr ''Oslo'')]"

lemma tried_checked: "check_evidence tried_world tried_asked tried_program ''r3'' tried_execution tried_evidence = Inr ()"
proof -
  have world: "tw_response tried_world tried_execution = Some tried_receipt" "tw_response_sha tried_world tried_execution = ''sha''"
    "tw_names_receipt tried_world p e" for p e by (simp_all add: tried_world_def)
  have parts: "pget tried_evidence ''source_receipt_sha256'' = PStr ''sha''" "pget tried_evidence ''terminal_receipt'' = PNone"
    "pget tried_evidence ''receipt'' = tried_normalized" "pget tried_evidence ''frame'' = tried_frame"
    "is_dict tried_receipt" "is_dict tried_frame" "pget tried_command ''kind'' = PStr ''read_text''"
    by (simp_all add: tried_evidence_def tried_receipt_def tried_frame_def tried_command_def dict_get_def)
  have resolved: "resolve_execution_receipt tried_world tried_receipt tried_execution = Inr (tried_receipt, PNone)"
    by (simp add: resolve_execution_receipt_def tried_receipt_def py_or_def get_or_raise_def dict_get_def Let_def)
  have seen: "verified_observation tried_world (PDict [(''observation'', tried_frame)]) = Inr tried_seen"
    by (simp add: verified_observation_def tried_frame_def dict_get_def tried_world_def tried_seen_def tried_digest_def Let_def)
      (simp add: png_signature_def)
  have identity: "execution_identity tried_receipt = Inr verified_window"
    by (simp add: execution_identity_def tried_receipt_def tried_frame_def py_or_def get_or_raise_def dict_get_def Let_def)
  have bound: "evidence_bound tried_world tried_asked ''r3'' tried_execution tried_normalized tried_frame True (PBool False) PNone
      verified_window"
    by (simp add: evidence_bound_def tried_asked_fields tried_ticket_fields tried_normalized_def tried_frame_def dict_get_def
      tried_window world) (simp add: tried_digest_def)
  show ?thesis
    by (simp add: check_evidence_def world parts resolved seen identity bound tried_asked_fields tried_ticket_fields
      tried_context tried_received tried_parts Let_def)
qed

lemma tried_recorded:
  "record_verified_result tried_library tried_world (tried_store tried_asked) tried_run ''r3'' tried_execution tried_result
    = Inr (tried_store (tried_read tried_shown tried_result), State (tried_read tried_shown tried_result))"
proof -
  have shape: "check_verified_shape tried_result = Inr ()"
    by (simp add: check_verified_shape_def tried_result_get tried_parts tried_outputs_def in_names_def Let_def)
      (simp add: tried_result_def rule_result_def keys_are_def)
  have shown: "pget_default tried_observed ''values'' (PDict []) = tried_shown" "is_dict tried_shown" "all_finite tried_shown"
    by (simp_all add: tried_observed_def pget_default_def phas_def dict_get_def tried_shown_def)
  have sha: "json_digest [PStr tried_execution, PStr ''success'', tried_shown, tried_outputs, tried_result]
    = Inr (digest_of (PList [PStr tried_execution, PStr ''success'', tried_shown, tried_outputs, tried_result]))"
    using tried_finite(3) shown(3) by (simp add: json_digest_def ct_digest_of tried_outputs_def)
  have evidence: "read_evidence tried_world tried_observed = Inr tried_evidence"
    by (simp add: read_evidence_def tried_parts) (simp add: tried_world_def tried_evidence_def dict_get_def tried_finite)
  have computed: "recompute_result tried_world tried_asked tried_program tried_evidence tried_result = Inr tried_result"
    by (simp add: recompute_result_def tried_asked_fields tried_ticket_fields tried_steps tried_result_get main_review_required_def
      check_image_evidence_def tried_rules bound_values_def Let_def)
      (simp add: tried_world_def tried_evidence_def dict_get_def tried_verified tried_finite)
  show ?thesis
    by (simp add: record_verified_result_def accept_verified_def tried_checks tried_execution_id shape tried_result_get shown sha
      tried_loads tried_asked_fields tried_ticket_fields evidence tried_checked computed tried_reviewed tried_finite Let_def)
qed

theorem recorded_success_rests_on_image_witness:
  "pget tried_observed ''capture_sha256'' = PStr (sha256_hex png_signature) \<and> evidence_current tried_normalized tried_observed"
proof -
  have before: "map_of (ts_trials (tried_store tried_asked)) tried_run = Some tried_asked" by (simp add: tried_store_def)
  have grown: "tr_history (tried_read tried_shown tried_result) \<noteq> tr_history tried_asked"
    by (simp add: tried_read_fields tried_asked_fields)
  have verdict: "pget (last (tr_history (tried_read tried_shown tried_result))) ''verdict'' = PStr ''success''"
    by (simp add: tried_read_fields tried_entry_get)
  from recorded_success_rests_on_image[OF tried_recorded before grown verdict tried_result_get(3)]
  show ?thesis unfolding tried_result_get
    by (auto simp: tried_world_def tried_evidence_def dict_get_def)
qed

theorem trial_review_is_idempotent_witness:
  "trial_review tried_library tried_world (tried_store tried_plain) tried_run ''r3'' tried_execution ''success'' (PDict [])
    tried_outputs PNone = Inr (tried_store tried_plain, State tried_plain)"
  by (rule trial_review_is_idempotent[OF tried_plain_reviewed])

end
