(* ===== verification/Actions.thy ===== *)
theory Actions
  imports PyPrelude
begin

text \<open>
  Computations that read and change a world and may raise: what was changed before an exception stays
  changed. \<open>triple P m Q E\<close> says that from a world in \<open>P\<close> the computation ends in \<open>Q\<close> of its result, or,
  if it raises, in \<open>E\<close>; the rules follow the program.
\<close>

section \<open>Computations\<close>

type_synonym ('a, 'w) act = "'w \<Rightarrow> 'a res \<times> 'w"

definition areturn :: "'a \<Rightarrow> ('a, 'w) act" where
  "areturn x w = (Inr x, w)"

definition abind :: "('a, 'w) act \<Rightarrow> ('a \<Rightarrow> ('b, 'w) act) \<Rightarrow> ('b, 'w) act" where
  "abind m f w = (case m w of (Inl e, w') \<Rightarrow> (Inl e, w') | (Inr x, w') \<Rightarrow> f x w')"

definition alift :: "'a res \<Rightarrow> ('a, 'w) act" where
  "alift r w = (r, w)"

definition aget :: "('w \<Rightarrow> 'a) \<Rightarrow> ('a, 'w) act" where
  "aget f w = (Inr (f w), w)"

definition amodify :: "('w \<Rightarrow> 'w) \<Rightarrow> (unit, 'w) act" where
  "amodify f w = (Inr (), f w)"

definition awhen :: "bool \<Rightarrow> (unit, 'w) act \<Rightarrow> (unit, 'w) act" where
  "awhen b m = (if b then m else areturn ())"

definition acheck :: "bool \<Rightarrow> pyexc \<Rightarrow> (unit, 'w) act" where
  "acheck b e = alift (ensure b e)"

named_theorems act_defs \<open>unfolding computations\<close>

lemmas [act_defs] = areturn_def alift_def aget_def amodify_def acheck_def

lemma abind_return [simp]: "abind (areturn x) f = f x"
  by (simp add: abind_def areturn_def fun_eq_iff)

lemma abind_lift_Inr [simp]: "abind (alift (Inr x)) f = f x"
  by (simp add: abind_def alift_def fun_eq_iff)

lemma abind_assoc: "abind (abind m f) g = abind m (\<lambda>x. abind (f x) g)"
  by (auto simp: abind_def fun_eq_iff split: prod.split sum.split)

lemma abind_Inr_iff: "abind m f w = (Inr y, w'') \<longleftrightarrow> (\<exists>x w'. m w = (Inr x, w') \<and> f x w' = (Inr y, w''))"
  by (cases "m w"; cases "fst (m w)") (auto simp: abind_def)

lemma abind_Inl_iff: "abind m f w = (Inl e, w'') \<longleftrightarrow> m w = (Inl e, w'') \<or> (\<exists>x w'. m w = (Inr x, w') \<and> f x w' = (Inl e, w''))"
  by (cases "m w"; cases "fst (m w)") (auto simp: abind_def)

lemma abind_cong [fundef_cong]:
  "m w = m' w' \<Longrightarrow> w = w' \<Longrightarrow> (\<And>x v. m' w' = (Inr x, v) \<Longrightarrow> f x v = f' x v) \<Longrightarrow> abind m f w = abind m' f' w'"
  by (auto simp: abind_def split: prod.split sum.split)

section \<open>What a computation keeps and establishes\<close>

definition triple :: "('w \<Rightarrow> bool) \<Rightarrow> ('a, 'w) act \<Rightarrow> ('a \<Rightarrow> 'w \<Rightarrow> bool) \<Rightarrow> ('w \<Rightarrow> bool) \<Rightarrow> bool" where
  "triple P m Q E = (\<forall>w. P w \<longrightarrow> (\<forall>x w'. m w = (Inr x, w') \<longrightarrow> Q x w') \<and> (\<forall>e w'. m w = (Inl e, w') \<longrightarrow> E w'))"

named_theorems tripleI \<open>rules that follow a computation\<close>

lemma tripleD: "triple P m Q E \<Longrightarrow> P w \<Longrightarrow> m w = (Inr x, w') \<Longrightarrow> Q x w'"
  by (simp add: triple_def)

lemma triple_raised: "triple P m Q E \<Longrightarrow> P w \<Longrightarrow> m w = (Inl e, w') \<Longrightarrow> E w'"
  by (simp add: triple_def)

lemma triple_return [tripleI]: "(\<And>w. P w \<Longrightarrow> Q x w) \<Longrightarrow> triple P (areturn x) Q E"
  by (simp add: triple_def areturn_def)

lemma triple_bind: "triple P m R E \<Longrightarrow> (\<And>x. triple (R x) (f x) Q E) \<Longrightarrow> triple P (abind m f) Q E"
  by (simp add: triple_def abind_Inr_iff abind_Inl_iff) blast

lemma triple_lift [tripleI]:
  "(\<And>w x. P w \<Longrightarrow> r = Inr x \<Longrightarrow> Q x w) \<Longrightarrow> (\<And>w e. P w \<Longrightarrow> r = Inl e \<Longrightarrow> E w) \<Longrightarrow> triple P (alift r) Q E"
  by (cases r) (simp_all add: triple_def alift_def)

lemma triple_get [tripleI]: "(\<And>w. P w \<Longrightarrow> Q (f w) w) \<Longrightarrow> triple P (aget f) Q E"
  by (simp add: triple_def aget_def)

lemma triple_modify [tripleI]: "(\<And>w. P w \<Longrightarrow> Q () (f w)) \<Longrightarrow> triple P (amodify f) Q E"
  by (simp add: triple_def amodify_def)

lemma triple_check [tripleI]: "(\<And>w. P w \<Longrightarrow> b \<Longrightarrow> Q () w) \<Longrightarrow> (\<And>w. P w \<Longrightarrow> E w) \<Longrightarrow> triple P (acheck b e) Q E"
  by (cases b) (simp_all add: triple_def acheck_def alift_def)

lemma triple_if: "(b \<Longrightarrow> triple P m Q E) \<Longrightarrow> (\<not> b \<Longrightarrow> triple P n Q E) \<Longrightarrow> triple P (if b then m else n) Q E"
  by simp

lemma triple_when: "(b \<Longrightarrow> triple P m Q E) \<Longrightarrow> (\<And>w. \<not> b \<Longrightarrow> P w \<Longrightarrow> Q () w) \<Longrightarrow> triple P (awhen b m) Q E"
  by (simp add: awhen_def triple_return)

lemma triple_conseq: "triple P m Q E \<Longrightarrow> (\<And>w. P' w \<Longrightarrow> P w) \<Longrightarrow> (\<And>x w. Q x w \<Longrightarrow> Q' x w) \<Longrightarrow> (\<And>w. E w \<Longrightarrow> E' w)
    \<Longrightarrow> triple P' m Q' E'"
  unfolding triple_def by blast

lemma triple_pre: "triple P m Q E \<Longrightarrow> (\<And>w. P' w \<Longrightarrow> P w) \<Longrightarrow> triple P' m Q E"
  by (rule triple_conseq)

lemma triple_False [simp]: "triple (\<lambda>_. False) m Q E"
  by (simp add: triple_def)

lemma triple_and: "(b \<Longrightarrow> triple P m Q E) \<Longrightarrow> triple (\<lambda>w. b \<and> P w) m Q E"
  by (auto simp: triple_def)

end
