(* ===== verification/WorkflowRunner.thy ===== *)
theory WorkflowRunner
  imports WorkflowTrial Actions
begin

text \<open>
  The continuous runner: \<^verbatim>\<open>app/learning_memory/workflow_runner.py\<close>. It takes one prepared step after another
  from a run's source, hands its command to the queue and waits for the verdict. What it does between two calls of
  the outside world survives in the saved file of the run, so the model separates the state in memory (\<open>runner\<close>, an
  argument) from the files (\<open>wd_runs\<close>).

  The callbacks and the backend given to the constructor are parameters (\<open>host\<close>): functions on an environment of
  their own. A call that raises is an \<open>Inl\<close>; a callback whose exception the runner catches answers with a \<open>fault\<close>,
  the exception's type name and message, and \<open>Died\<close> is the end of the process in the middle of a submission.
  Saving a file succeeds. The lock makes every operation a step of its own. The list \<open>wd_sent\<close> of the calls of
  \<^verbatim>\<open>submit_command\<close> is kept for the statements only.
\<close>

section \<open>The state of a run\<close>

datatype dispatch = Dispatching | Deferred | Submitted | ExternallyPending

record ticket =
  tk_step :: string
  tk_id :: string
  tk_prepare :: string
  tk_verify :: string
  tk_sha :: string
  tk_command :: pyval
  tk_dispatch :: dispatch
  tk_error :: pyval

record wait =
  wt_id :: string
  wt_reason :: string
  wt_step :: pyval
  wt_command :: pyval
  wt_grounding :: "pyval option"
  wt_error :: pyval

text \<open>A wait for a verdict while it is measured, and when it is closed.\<close>

record open_wait =
  ow_execution :: string
  ow_step :: string
  ow_sha :: string
  ow_clock :: string
  ow_started :: int

record closed_wait = open_wait +
  cw_status :: string
  cw_measured :: "(int \<times> int) option"

record runner =
  rn_run :: string
  rn_source :: string
  rn_start :: string
  rn_mode :: string
  rn_vision :: pyval
  rn_status :: string
  rn_current :: pyval
  rn_ticket :: "ticket option"
  rn_wait :: "wait option"
  rn_seen :: "string list"
  rn_completed :: int
  rn_waiting :: "open_wait option"
  rn_waited :: "closed_wait list"
  rn_cancel :: "string option"
  rn_resumes :: "(string \<times> string) list"
  rn_controls :: "(string \<times> string) list"
  rn_attempts :: "string list"
  rn_interventions :: "(string \<times> string) list"
  rn_import :: "(string \<times> string) option"

record sending =
  sd_run :: string
  sd_ticket :: ticket
  sd_busy :: bool
  sd_saved :: "runner option"

record 'e world =
  wd_env :: 'e
  wd_runs :: "(string \<times> runner) list"
  wd_active :: "string option"
  wd_sent :: "sending list"

section \<open>The callbacks\<close>

datatype fault = Fault string string

datatype submission = Accepted | Busy fault | Failed fault | Died

record 'e host =
  ho_source :: string
  ho_reviewed :: bool
  ho_status :: "string \<Rightarrow> 'e \<Rightarrow> pyval res \<times> 'e"
  ho_prepare :: "string \<Rightarrow> string \<Rightarrow> pyval \<Rightarrow> 'e \<Rightarrow> pyval res \<times> 'e"
  ho_cancel :: "string \<Rightarrow> string \<Rightarrow> 'e \<Rightarrow> pyval res \<times> 'e"
  ho_step :: "string \<Rightarrow> pyval \<Rightarrow> 'e \<Rightarrow> pyval res \<times> 'e"
  ho_metrics :: "string \<Rightarrow> pyval \<Rightarrow> 'e \<Rightarrow> pyval res \<times> 'e"
  ho_validate :: "pyval \<Rightarrow> runner option \<Rightarrow> bool \<Rightarrow> 'e \<Rightarrow> unit res \<times> 'e"
  ho_claim :: "pyval \<Rightarrow> 'e \<Rightarrow> pyval res \<times> 'e"
  ho_resume :: "string \<Rightarrow> string \<Rightarrow> string \<Rightarrow> pyval \<Rightarrow> 'e \<Rightarrow> pyval res \<times> 'e"
  ho_submit :: "string \<Rightarrow> pyval \<Rightarrow> 'e \<Rightarrow> submission \<times> 'e"
  ho_result :: "string \<Rightarrow> 'e \<Rightarrow> (fault + pyval) \<times> 'e"
  ho_verify :: "string \<Rightarrow> string \<Rightarrow> string \<Rightarrow> 'e \<Rightarrow> (fault + pyval) \<times> 'e"
  ho_settle :: "(string \<Rightarrow> string \<Rightarrow> string \<Rightarrow> 'e \<Rightarrow> (fault + pyval) \<times> 'e) option"
  ho_before_input :: "'e \<Rightarrow> unit res \<times> 'e"
  ho_prepare_trial :: "('e \<Rightarrow> unit res \<times> 'e) option"
  ho_vision :: "pyval \<Rightarrow> pyval res"
  ho_clock :: string
  ho_now :: "'e \<Rightarrow> int"

definition outside :: "('e \<Rightarrow> 'a \<times> 'e) \<Rightarrow> ('a, 'e world) act" where
  "outside f w = (case f (wd_env w) of (x, e) \<Rightarrow> (Inr x, w\<lparr>wd_env := e\<rparr>))"

definition calling :: "('e \<Rightarrow> 'a res \<times> 'e) \<Rightarrow> ('a, 'e world) act" where
  "calling f = abind (outside f) alift"

section \<open>Files\<close>

definition runner_digest :: "pyval \<Rightarrow> string" where
  "runner_digest v = sha256_hex (utf8 (compact_json v))"

definition runner_id :: "string \<Rightarrow> unit res" where
  "runner_id run = ensure (trial_name_ok run) (ValueError ''run_id_invalid'')"

definition save_runner :: "runner \<Rightarrow> (unit, 'e world) act" where
  "save_runner state = amodify (\<lambda>w. w\<lparr>wd_runs := put (rn_run state) state (wd_runs w)\<rparr>)"

definition source_mismatch :: pyexc where
  "source_mismatch = ValueError ''workflow_runner_source_mismatch''"

definition load_runner :: "'e host \<Rightarrow> string \<Rightarrow> (runner option, 'e world) act" where
  "load_runner h run = abind (alift (runner_id run)) (\<lambda>_.
     abind (aget (\<lambda>w. map_of (wd_runs w) run)) (\<lambda>found. case found of
       None \<Rightarrow> areturn None
     | Some state \<Rightarrow>
         abind (acheck (rn_run state = run) (ValueError ''workflow_runner_state_invalid'')) (\<lambda>_.
         abind (acheck (rn_source state = ho_source h) source_mismatch) (\<lambda>_. areturn (Some state)))))"

definition known_runner :: "'e host \<Rightarrow> string \<Rightarrow> (runner, 'e world) act" where
  "known_runner h run = abind (load_runner h run) (\<lambda>found. case found of
     None \<Rightarrow> alift (Inl (ValueError ''workflow_runner_run_unknown'')) | Some state \<Rightarrow> areturn state)"

definition set_active :: "string \<Rightarrow> (unit, 'e world) act" where
  "set_active run = amodify (\<lambda>w. w\<lparr>wd_active := Some run\<rparr>)"

section \<open>The source of a run\<close>

definition trial_guarded :: "'e host \<Rightarrow> pyval \<Rightarrow> (pyval, 'e world) act" where
  "trial_guarded h trial = abind (acheck (is_dict trial
       \<and> pget_default trial ''source_kind'' (PStr ''reviewed_program'') = PStr (ho_source h)) source_mismatch) (\<lambda>_. areturn trial)"

definition trial_status :: "'e host \<Rightarrow> string \<Rightarrow> (pyval, 'e world) act" where
  "trial_status h run = abind (calling (ho_status h run)) (trial_guarded h)"

definition trial_cancelled :: "'e host \<Rightarrow> string \<Rightarrow> string \<Rightarrow> (pyval, 'e world) act" where
  "trial_cancelled h run request = abind (calling (ho_cancel h run request)) (trial_guarded h)"

definition recovery_guard :: "'e host \<Rightarrow> pyval \<Rightarrow> runner option \<Rightarrow> bool \<Rightarrow> (unit, 'e world) act" where
  "recovery_guard h trial state revalidate =
     abind (acheck (ho_source h = ''caller_plan'' \<longrightarrow> pget trial ''recovery_import'' = PNone
         \<and> pget trial ''recovery_settlement'' = PNone \<and> (\<forall>s. state = Some s \<longrightarrow> rn_import s = None))
       (ValueError ''workflow_runner_recovery_source_unsupported'')) (\<lambda>_.
     calling (ho_validate h trial state revalidate))"

definition step_vision :: "'e host \<Rightarrow> runner \<Rightarrow> pyval \<Rightarrow> (pyval, 'e world) act" where
  "step_vision h state trial =
     (if rn_vision state = PNone then areturn PNone
      else abind (alift (item trial ''current_step_id'')) (\<lambda>current.
        abind (calling (ho_step h (rn_run state) current)) (\<lambda>step.
        abind (acheck (is_dict step \<and> py_eq (pget step ''step_id'') current)
          (ValueError ''workflow_runner_step_not_in_pinned_program'')) (\<lambda>_.
        abind (alift (rbind (item step ''action'') (\<lambda>action. item action ''kind''))) (\<lambda>kind.
        abind (alift (in_names kind [''click'', ''input_sequence''])) (\<lambda>seeing.
        areturn (if seeing then rn_vision state else PNone)))))))"

section \<open>What the caller is shown\<close>

definition wait_value :: "string \<Rightarrow> wait \<Rightarrow> pyval" where
  "wait_value run wt = PDict ([(''wait_id'', PStr (wt_id wt)), (''reason'', PStr (wt_reason wt)), (''run_id'', PStr run),
       (''step_id'', wt_step wt), (''command_id'', wt_command wt)]
     @ (case wt_grounding wt of None \<Rightarrow> [] | Some v \<Rightarrow> [(''pending_grounding'', v)])
     @ (if wt_error wt = PNone then [] else [(''error'', wt_error wt)]))"

definition shown_fields :: "runner \<Rightarrow> (string \<times> pyval) list" where
  "shown_fields state = [(''runner_state'', PStr (rn_status state)), (''mode'', PStr (rn_mode state)),
     (''wait_reason'', case rn_wait state of None \<Rightarrow> PNone | Some wt \<Rightarrow> PStr (wt_reason wt)),
     (''wait'', case rn_wait state of None \<Rightarrow> PNone | Some wt \<Rightarrow> wait_value (rn_run state) wt),
     (''active_command_id'', case rn_ticket state of None \<Rightarrow> PNone | Some t \<Rightarrow> PStr (tk_id t))]"

definition show_trial :: "'e host \<Rightarrow> runner \<Rightarrow> pyval \<Rightarrow> (pyval, 'e world) act" where
  "show_trial h state trial =
     abind (calling (ho_metrics h (rn_run state) trial)) (\<lambda>metrics.
     areturn (pset_all (shown_fields state @ [(''metrics'', metrics)]
       @ (if truthy (pget trial ''recovery_settlement'')
          then [(''runner_state'', PStr ''waiting''), (''wait_reason'', PStr ''recovery_paused'')] else [])) trial))"

definition snapshot :: "'e host \<Rightarrow> runner \<Rightarrow> (pyval, 'e world) act" where
  "snapshot h state = abind (trial_status h (rn_run state)) (show_trial h state)"

section \<open>Waiting\<close>

definition wait_name :: "runner \<Rightarrow> string \<Rightarrow> string" where
  "wait_name state reason = ''workflow-wait-'' @ take 32 (runner_digest (PList [PStr (rn_run state), PStr reason,
     (case rn_ticket state of None \<Rightarrow> PNone | Some t \<Rightarrow> PStr (tk_id t)),
     (case rn_ticket state of None \<Rightarrow> rn_current state | Some t \<Rightarrow> PStr (tk_step t))]))"

definition new_wait :: "runner \<Rightarrow> string \<Rightarrow> pyval \<Rightarrow> wait" where
  "new_wait state reason raw = \<lparr>wt_id = wait_name state reason, wt_reason = reason,
     wt_step = (case rn_ticket state of None \<Rightarrow> rn_current state | Some t \<Rightarrow> PStr (tk_step t)),
     wt_command = (case rn_ticket state of None \<Rightarrow> PNone | Some t \<Rightarrow> PStr (tk_id t)),
     wt_grounding = (if reason = ''grounding_required'' then Some (pget raw ''pending_grounding'') else None),
     wt_error = (case rn_ticket state of None \<Rightarrow> PNone | Some t \<Rightarrow> tk_error t)\<rparr>"

text \<open>The start of a wait for a verdict is noted once, and not after a cancellation.\<close>

definition clock_started :: "'e host \<Rightarrow> string \<Rightarrow> runner \<Rightarrow> 'e \<Rightarrow> runner" where
  "clock_started h reason state env = (case rn_ticket state of
       Some t \<Rightarrow> if reason = ''verification_required'' \<and> rn_cancel state = None \<and> rn_waiting state = None
         then state\<lparr>rn_waiting := Some \<lparr>ow_execution = tk_id t, ow_step = tk_step t, ow_sha = tk_sha t,
           ow_clock = ho_clock h, ow_started = ho_now h env\<rparr>\<rparr>
         else state
     | None \<Rightarrow> state)"

definition runner_wait :: "'e host \<Rightarrow> runner \<Rightarrow> string \<Rightarrow> pyval \<Rightarrow> (runner, 'e world) act" where
  "runner_wait h state reason raw =
     abind (aget (\<lambda>w. clock_started h reason state (wd_env w))) (\<lambda>timed.
     let after = timed\<lparr>rn_wait := Some (new_wait state reason raw),
           rn_status := (if reason = ''single_step_complete'' then ''single_complete'' else ''waiting'')\<rparr> in
     abind (save_runner after) (\<lambda>_. areturn after))"

text \<open>\<^verbatim>\<open>_finish_verification_wait\<close>: times of another process' clock are not subtracted.\<close>

definition close_wait :: "'e host \<Rightarrow> string \<Rightarrow> runner \<Rightarrow> 'e \<Rightarrow> runner" where
  "close_wait h status state env = (case rn_waiting state of
       None \<Rightarrow> state
     | Some ow \<Rightarrow> state\<lparr>rn_waiting := None, rn_waited := rn_waited state @ [\<lparr>ow_execution = ow_execution ow,
           ow_step = ow_step ow, ow_sha = ow_sha ow, ow_clock = ow_clock ow, ow_started = ow_started ow, cw_status = status,
           cw_measured = (if ow_clock ow = ho_clock h then Some (ow_started ow, ho_now h env) else None)\<rparr>]\<rparr>)"

definition finish_verification_wait :: "'e host \<Rightarrow> runner \<Rightarrow> string \<Rightarrow> (runner, 'e world) act" where
  "finish_verification_wait h state status = aget (\<lambda>w. close_wait h status state (wd_env w))"

section \<open>Messages of exceptions\<close>

fun text_leaves :: "pyval \<Rightarrow> string list" where
  "text_leaves (PDict d) = concat (map (\<lambda>kv. text_leaves (snd kv)) d)"
| "text_leaves (PList xs) = concat (map text_leaves xs)"
| "text_leaves (PStr s) = (if 3 \<le> length s then [s] else [])"
| "text_leaves _ = []"

text \<open>Texts of the command are cut out of the message, the longest first.\<close>

definition secrets :: "pyval \<Rightarrow> string list" where
  "secrets command = rev (sort_key length (remdups (text_leaves command)))"

definition callback_error :: "fault \<Rightarrow> pyval \<Rightarrow> pyval" where
  "callback_error f command = (case f of Fault kind message \<Rightarrow>
     let cut = take 240 (strip message); shown = (if cut = [] then kind else cut) in
     PDict [(''error_type'', PStr kind),
       (''message'', PStr (fold (\<lambda>secret m. replace_sub secret ''[redacted]'' m) (secrets command) shown))])"

section \<open>Tickets\<close>

definition prepare_name :: "runner \<Rightarrow> string \<Rightarrow> nat \<Rightarrow> string" where
  "prepare_name state step n = ''wr-prepare-'' @ take 32 (runner_digest (PList ([PStr (rn_run state), PStr step, PInt (int n)]
     @ (if step \<in> set (rn_attempts state) then [PInt 1] else []))))"

definition new_ticket :: "runner \<Rightarrow> string \<Rightarrow> string \<Rightarrow> pyval \<Rightarrow> ticket" where
  "new_ticket state step command_id command = \<lparr>tk_step = step, tk_id = command_id,
     tk_prepare = prepare_name state step (length (rn_seen state) + 1),
     tk_verify = ''wr-verify-'' @ take 32 (runner_digest (PList [PStr (rn_run state), PStr command_id])),
     tk_sha = runner_digest command, tk_command = command, tk_dispatch = Dispatching, tk_error = PNone\<rparr>"

definition out_of_steps :: "'e host \<Rightarrow> runner \<Rightarrow> string \<Rightarrow> bool" where
  "out_of_steps h state step = (step \<in> set (rn_seen state) \<or> (ho_source h \<noteq> ''caller_plan'' \<and> 256 \<le> length (rn_seen state)))"

definition blocked_reason :: "string \<Rightarrow> string" where
  "blocked_reason reason = (if occurs ''input'' reason \<or> occurs ''output'' reason then ''input_required'' else ''uncertain'')"

text \<open>\<^verbatim>\<open>_prepared\<close>: whether there is a ticket to submit, and the state.\<close>

definition prepared_ticket :: "'e host \<Rightarrow> runner \<Rightarrow> pyval \<Rightarrow> (bool \<times> runner, 'e world) act" where
  "prepared_ticket h state prepared =
     abind (acheck (is_dict prepared) (ValueError ''workflow_runner_prepare_invalid'')) (\<lambda>_.
     if pget prepared ''status'' = PStr ''blocked'' then
       abind (runner_wait h (state\<lparr>rn_current := pget prepared ''current_step_id''\<rparr>)
         (blocked_reason (py_str (pget_default prepared ''reason'' (PStr [])))) PNone) (\<lambda>s. areturn (False, s))
     else
       abind (acheck (pget prepared ''status'' = PStr ''pending'' \<and> is_dict (pget prepared ''suggested_command''))
         (ValueError ''workflow_runner_prepare_invalid'')) (\<lambda>_.
       abind (acheck (has_text (pget prepared ''step_id'') \<and> has_text (pget prepared ''execution_request_id''))
         (ValueError ''workflow_runner_ticket_invalid'')) (\<lambda>_.
       let step = py_str (pget prepared ''step_id'') in
       if out_of_steps h state step then abind (runner_wait h state ''failed'' PNone) (\<lambda>s. areturn (False, s))
       else let after = state\<lparr>rn_seen := rn_seen state @ [step],
              rn_ticket := Some (new_ticket state step (py_str (pget prepared ''execution_request_id'')) (pget prepared ''suggested_command'')),
              rn_current := PStr step, rn_status := ''dispatching'', rn_wait := None\<rparr> in
         abind (save_runner after) (\<lambda>_. areturn (True, after)))))"

definition set_dispatch :: "dispatch \<Rightarrow> runner \<Rightarrow> runner" where
  "set_dispatch d state = state\<lparr>rn_ticket := map_option (\<lambda>t. t\<lparr>tk_dispatch := d\<rparr>) (rn_ticket state)\<rparr>"

definition set_error :: "pyval \<Rightarrow> runner \<Rightarrow> runner" where
  "set_error v state = state\<lparr>rn_ticket := map_option (\<lambda>t. t\<lparr>tk_error := v\<rparr>) (rn_ticket state)\<rparr>"

definition adopt_pending :: "'e host \<Rightarrow> runner \<Rightarrow> pyval \<Rightarrow> (runner, 'e world) act" where
  "adopt_pending h state trial = (let pending = pget trial ''pending'' in
     if \<not> is_dict pending then areturn state
     else abind (prepared_ticket h state (if phas pending ''status'' then pending else pset ''status'' (PStr ''pending'') pending))
       (\<lambda>(fresh, s). if \<not> fresh then areturn s
        else let after = set_dispatch ExternallyPending s in
          abind (save_runner after) (\<lambda>_. runner_wait h after ''execution_pending'' PNone)))"

section \<open>Handing a command over\<close>

definition note_sending :: "string \<Rightarrow> ticket \<Rightarrow> bool \<Rightarrow> (unit, 'e world) act" where
  "note_sending run t refused = amodify (\<lambda>w. w\<lparr>wd_sent := wd_sent w @
     [\<lparr>sd_run = run, sd_ticket = t, sd_busy = refused, sd_saved = map_of (wd_runs w) run\<rparr>]\<rparr>)"

definition busy_answer :: "submission \<Rightarrow> bool" where
  "busy_answer answer = (case answer of Busy _ \<Rightarrow> True | _ \<Rightarrow> False)"

definition submitted :: "'e host \<Rightarrow> runner \<Rightarrow> submission \<Rightarrow> (bool \<times> runner, 'e world) act" where
  "submitted h state answer = (case answer of
       Accepted \<Rightarrow> let after = set_dispatch Submitted state in abind (save_runner after) (\<lambda>_. areturn (True, after))
     | Busy f \<Rightarrow> abind (runner_wait h (set_error (callback_error f PNone) (set_dispatch Deferred state)) ''queue_busy'' PNone)
         (\<lambda>s. areturn (False, s))
     | Failed f \<Rightarrow> let after = set_error (callback_error f (case rn_ticket state of None \<Rightarrow> PNone | Some t \<Rightarrow> tk_command t)) state in
         abind (save_runner after) (\<lambda>_. areturn (True, after))
     | Died \<Rightarrow> alift (Inl Interrupted))"

definition guard_again :: "'e host \<Rightarrow> runner \<Rightarrow> (unit, 'e world) act" where
  "guard_again h state = awhen (ho_source h = ''caller_plan'' \<or> rn_import state \<noteq> None)
     (abind (trial_status h (rn_run state)) (\<lambda>trial. recovery_guard h trial (Some state) False))"

definition submit_ticket :: "'e host \<Rightarrow> runner \<Rightarrow> ticket \<Rightarrow> (bool \<times> runner, 'e world) act" where
  "submit_ticket h state t =
     abind (guard_again h state) (\<lambda>_.
     let sending = set_error PNone (set_dispatch Dispatching state) in
     abind (save_runner sending) (\<lambda>_.
     abind (outside (ho_submit h (tk_id t) (tk_command t))) (\<lambda>answer.
     abind (note_sending (rn_run state) t (busy_answer answer)) (\<lambda>_.
     submitted h sending answer))))"

section \<open>Settling a ticket\<close>

definition reviewed_ticket :: "pyval \<Rightarrow> ticket \<Rightarrow> bool" where
  "reviewed_ticket trial t = (let history = plist (pget trial ''history''); entry = last history in
     pget trial ''pending'' = PNone \<and> history \<noteq> [] \<and> is_dict entry
     \<and> pget entry ''execution_request_id'' = PStr (tk_id t) \<and> pget entry ''step_id'' = PStr (tk_step t))"

definition run_end :: "string list" where
  "run_end = [''completed'', ''failed'', ''cancelled'']"

definition pause :: "'e host \<Rightarrow> runner \<Rightarrow> string \<Rightarrow> (bool \<times> runner, 'e world) act" where
  "pause h state reason = abind (runner_wait h state reason PNone) (\<lambda>s. areturn (False, s))"

definition keep_status :: "runner \<Rightarrow> string \<Rightarrow> (bool \<times> runner, 'e world) act" where
  "keep_status state status = (let after = state\<lparr>rn_status := status\<rparr> in
     abind (save_runner after) (\<lambda>_. areturn (status = ''ready'', after)))"

text \<open>Whether the run goes on at once, and the state.\<close>

definition settled_as :: "'e host \<Rightarrow> runner \<Rightarrow> pyval \<Rightarrow> (bool \<times> runner, 'e world) act" where
  "settled_as h state status =
     abind (alift (in_names status run_end)) (\<lambda>ended.
     if ended then keep_status state (py_str status)
     else if status = PStr ''paused_uncertain'' then pause h state ''uncertain''
     else if rn_cancel state \<noteq> None then keep_status state ''cancel_requested''
     else if rn_mode state = ''single'' then pause h state ''single_step_complete''
     else if status = PStr ''ready'' then keep_status state ''ready''
     else pause h state ''failed'')"

definition settle_reviewed :: "'e host \<Rightarrow> runner \<Rightarrow> pyval \<Rightarrow> (bool \<times> runner, 'e world) act" where
  "settle_reviewed h state trial = (let verdict = pget (last (plist (pget trial ''history''))) ''verdict'' in
     abind (alift (in_names verdict [''success'', ''failure''])) (\<lambda>known.
     abind (finish_verification_wait h state (if known then py_str verdict else ''waiting'')) (\<lambda>closed.
     abind (alift (item trial ''status'')) (\<lambda>status.
     settled_as h (closed\<lparr>rn_ticket := None, rn_wait := None, rn_completed := rn_completed closed + 1,
       rn_current := pget trial ''current_step_id''\<rparr>) status))))"

definition result_statuses :: "string list" where
  "result_statuses = [''pending'', ''running'', ''awaiting_grounding'', ''awaiting_field_review'', ''awaiting_pre_action_review'',
     ''completed'', ''failed'', ''cancelled'', ''result_unknown'', ''not_found'']"

definition result_known :: "string \<Rightarrow> pyval \<Rightarrow> bool res" where
  "result_known command_id result =
     (if \<not> is_dict result then Inr False
      else rbind (in_names (pget result ''status'') result_statuses) (\<lambda>known.
        Inr (known \<and> pget result ''command_id'' = PStr command_id)))"

text \<open>The command has ended: its verdict is asked for.\<close>

definition verify_ticket :: "'e host \<Rightarrow> runner \<Rightarrow> ticket \<Rightarrow> string \<Rightarrow> (bool \<times> runner, 'e world) act" where
  "verify_ticket h state t status =
     (let callback = (case ho_settle h of Some settle \<Rightarrow> if status = ''failed'' then settle else ho_verify h | None \<Rightarrow> ho_verify h) in
      abind (outside (callback (rn_run state) (tk_verify t) (tk_id t))) (\<lambda>answer. case answer of
        Inl f \<Rightarrow> pause h (set_error (callback_error f PNone) state) ''verification_required''
      | Inr verified \<Rightarrow>
          if \<not> is_dict verified \<or> pget verified ''status'' = PStr ''verification_required'' then pause h state ''verification_required''
          else abind (trial_status h (rn_run state)) (\<lambda>trial.
            if \<not> reviewed_ticket trial t then pause h state ''verification_required''
            else settle_reviewed h state trial)))"

definition read_ticket :: "'e host \<Rightarrow> runner \<Rightarrow> ticket \<Rightarrow> pyval \<Rightarrow> (bool \<times> runner, 'e world) act" where
  "read_ticket h state t result =
     abind (alift (result_known (tk_id t) result)) (\<lambda>known.
     let status = py_str (pget result ''status'') in
     if \<not> known then pause h state ''result_unknown''
     else if status \<in> {''pending'', ''running''} then pause h state ''execution_pending''
     else if status = ''awaiting_grounding'' then
       abind (runner_wait h state ''grounding_required'' (pget result ''raw'')) (\<lambda>s. areturn (False, s))
     else if status \<in> {''awaiting_field_review'', ''awaiting_pre_action_review''} then
       pause h state (if rn_cancel state \<noteq> None then ''execution_pending'' else ''verification_required'')
     else if status \<in> {''result_unknown'', ''not_found''} then pause h state ''result_unknown''
     else verify_ticket h state t status)"

definition reconcile :: "'e host \<Rightarrow> runner \<Rightarrow> ticket \<Rightarrow> (bool \<times> runner, 'e world) act" where
  "reconcile h state t =
     abind (guard_again h state) (\<lambda>_.
     abind (trial_status h (rn_run state)) (\<lambda>trial.
     if reviewed_ticket trial t then settle_reviewed h state trial
     else abind (outside (ho_result h (tk_id t))) (\<lambda>answer. case answer of
         Inl f \<Rightarrow> pause h (set_error (callback_error f PNone) state) ''result_unknown''
       | Inr result \<Rightarrow> read_ticket h state t result)))"

text \<open>The ticket of the state in memory is submitted or settled.\<close>

definition reconcile_now :: "'e host \<Rightarrow> runner \<Rightarrow> (bool \<times> runner, 'e world) act" where
  "reconcile_now h state = (case rn_ticket state of None \<Rightarrow> alift (Inl TypeError) | Some t \<Rightarrow> reconcile h state t)"

definition submit_and_reconcile :: "'e host \<Rightarrow> runner \<Rightarrow> (bool \<times> runner, 'e world) act" where
  "submit_and_reconcile h state = (case rn_ticket state of
       None \<Rightarrow> alift (Inl TypeError)
     | Some t \<Rightarrow> abind (submit_ticket h state t) (\<lambda>(sent, s). if sent then reconcile_now h s else areturn (False, s)))"

section \<open>Driving a run\<close>

definition drive_ticket :: "'e host \<Rightarrow> runner \<Rightarrow> ticket \<Rightarrow> (bool \<times> runner, 'e world) act" where
  "drive_ticket h state t = (if tk_dispatch t = Deferred \<and> rn_cancel state = None
     then submit_and_reconcile h state else reconcile h state t)"

definition drive_step :: "'e host \<Rightarrow> runner \<Rightarrow> pyval \<Rightarrow> (bool \<times> runner, 'e world) act" where
  "drive_step h state trial = (let current = pget trial ''current_step_id''; step = py_str current in
     if \<not> has_text current \<or> out_of_steps h state step then pause h state ''failed''
     else abind (step_vision h state trial) (\<lambda>vision.
       abind (calling (ho_prepare h (rn_run state) (prepare_name state step (length (rn_seen state) + 1)) vision)) (\<lambda>prepared.
       abind (prepared_ticket h state prepared) (\<lambda>(fresh, s).
       if fresh then submit_and_reconcile h s else areturn (False, s)))))"

definition drive_idle :: "'e host \<Rightarrow> bool \<Rightarrow> runner \<Rightarrow> (bool \<times> runner, 'e world) act" where
  "drive_idle h allow state =
     (if (case rn_wait state of None \<Rightarrow> False | Some wt \<Rightarrow> wt_reason wt \<notin> {''execution_pending'', ''grounding_required''})
         \<or> \<not> allow \<or> rn_cancel state \<noteq> None
      then areturn (False, state)
      else abind (trial_status h (rn_run state)) (\<lambda>trial.
        if pget trial ''pending'' \<noteq> PNone then abind (adopt_pending h state trial) (\<lambda>s. areturn (False, s))
        else abind (alift (in_names (pget trial ''status'') run_end)) (\<lambda>ended.
          if ended then let after = state\<lparr>rn_status := py_str (pget trial ''status'')\<rparr> in
            abind (save_runner after) (\<lambda>_. areturn (False, after))
          else if pget trial ''status'' \<noteq> PStr ''ready'' then
            pause h state (if pget trial ''status'' = PStr ''paused_uncertain'' then ''uncertain'' else ''failed'')
          else drive_step h state trial)))"

definition drive_stops :: "runner \<Rightarrow> bool" where
  "drive_stops state = (rn_status state \<in> set run_end \<or> rn_status state = ''single_complete''
     \<or> (rn_status state = ''cancel_requested'' \<and> rn_ticket state = None))"

text \<open>One round of the loop: whether it goes on, and the state.\<close>

definition drive_round :: "'e host \<Rightarrow> bool \<Rightarrow> runner \<Rightarrow> (bool \<times> runner, 'e world) act" where
  "drive_round h allow state =
     (if drive_stops state then areturn (False, state)
      else abind (case rn_ticket state of Some t \<Rightarrow> drive_ticket h state t | None \<Rightarrow> drive_idle h allow state)
        (\<lambda>(again, s). areturn (again \<and> allow, s)))"

fun drive_loop :: "nat \<Rightarrow> 'e host \<Rightarrow> bool \<Rightarrow> runner \<Rightarrow> (runner, 'e world) act" where
  "drive_loop 0 h allow state = (if ho_source h = ''caller_plan'' then areturn state else runner_wait h state ''failed'' PNone)"
| "drive_loop (Suc n) h allow state =
     abind (drive_round h allow state) (\<lambda>(again, s). if again then drive_loop n h allow s else areturn s)"

definition drive_rounds :: nat where
  "drive_rounds = 257"

definition drive :: "'e host \<Rightarrow> bool \<Rightarrow> runner \<Rightarrow> (runner, 'e world) act" where
  "drive h allow state = abind (trial_status h (rn_run state)) (\<lambda>trial.
     abind (recovery_guard h trial (Some state) False) (\<lambda>_.
     if truthy (pget trial ''recovery_settlement'') then areturn state else drive_loop drive_rounds h allow state))"

section \<open>Starting and going on\<close>

definition assert_start_available :: "'e host \<Rightarrow> (unit, 'e world) act" where
  "assert_start_available h = abind (aget wd_active) (\<lambda>active. case active of
       None \<Rightarrow> areturn ()
     | Some run \<Rightarrow> abind (load_runner h run) (\<lambda>found.
         acheck (case found of None \<Rightarrow> False | Some state \<Rightarrow> rn_status state \<in> set run_end)
           (ValueError ''workflow_runner_session_active'')))"

definition control_kind :: "'e host \<Rightarrow> string" where
  "control_kind h = (if ho_source h = ''caller_plan'' then ''task_plan'' else ''learning_workflow'')"

definition start_control :: "'e host \<Rightarrow> string \<Rightarrow> string \<Rightarrow> pyval \<Rightarrow> string" where
  "start_control h run mode vision = runner_digest (PDict [(''kind'', PStr (control_kind h)),
     (''request'', PDict ([(''action'', PStr ''run''), (''run_id'', PStr run), (''mode'', PStr mode)]
       @ (if vision = PNone then [] else [(''vision_capabilities'', vision)])))])"

definition runner_vision :: "'e host \<Rightarrow> pyval \<Rightarrow> pyval res" where
  "runner_vision h vision =
     (if vision = PNone then Inr PNone
      else rbind (ensure (is_dict vision) (ValueError ''workflow_runner_vision_capabilities_invalid'')) (\<lambda>_. ho_vision h vision))"

definition runner_modes :: "string list" where
  "runner_modes = [''single'', ''until_wait'']"

definition new_runner :: "'e host \<Rightarrow> string \<Rightarrow> string \<Rightarrow> string \<Rightarrow> pyval \<Rightarrow> string \<Rightarrow> runner" where
  "new_runner h run request mode vision control = \<lparr>rn_run = run, rn_source = ho_source h, rn_start = request, rn_mode = mode,
     rn_vision = vision, rn_status = ''ready'', rn_current = PNone, rn_ticket = None, rn_wait = None, rn_seen = [],
     rn_completed = 0, rn_waiting = None, rn_waited = [], rn_cancel = None, rn_resumes = [],
     rn_controls = [(request, control)], rn_attempts = [], rn_interventions = [], rn_import = None\<rparr>"

text \<open>\<^verbatim>\<open>_assert_start_available\<close> and the check of the host before it lets a run send input.\<close>

definition admit_start :: "'e host \<Rightarrow> (unit, 'e world) act" where
  "admit_start h = abind (assert_start_available h) (\<lambda>_. calling (ho_before_input h))"

definition begin_run :: "'e host \<Rightarrow> runner \<Rightarrow> (pyval, 'e world) act" where
  "begin_run h state = abind (save_runner state) (\<lambda>_.
     abind (set_active (rn_run state)) (\<lambda>_.
     abind (drive h True state) (snapshot h)))"

definition runner_start :: "'e host \<Rightarrow> string \<Rightarrow> string \<Rightarrow> string \<Rightarrow> pyval \<Rightarrow> (pyval, 'e world) act" where
  "runner_start h run request mode vision =
     abind (alift (runner_id run)) (\<lambda>_.
     abind (acheck (has_text (PStr request) \<and> mode \<in> set runner_modes) (ValueError ''workflow_runner_start_invalid'')) (\<lambda>_.
     abind (alift (runner_vision h vision)) (\<lambda>seeing.
     abind (load_runner h run) (\<lambda>found.
     abind (case ho_prepare_trial h of None \<Rightarrow> areturn ()
       | Some prepare_trial \<Rightarrow> abind (awhen (found = None) (admit_start h)) (\<lambda>_. calling prepare_trial)) (\<lambda>_.
     abind (trial_status h run) (\<lambda>trial.
     abind (recovery_guard h trial found False) (\<lambda>_. case found of
       Some state \<Rightarrow>
         abind (acheck (rn_start state = request \<and> rn_mode state = mode \<and> py_eq (rn_vision state) seeing)
           (ValueError ''workflow_runner_start_conflict'')) (\<lambda>_. snapshot h state)
     | None \<Rightarrow>
         abind (awhen (ho_prepare_trial h = None) (admit_start h)) (\<lambda>_.
         abind (trial_status h run) (\<lambda>_.
         begin_run h (new_runner h run request mode seeing (start_control h run mode vision)))))))))))"

definition runner_advance :: "'e host \<Rightarrow> string \<Rightarrow> (pyval, 'e world) act" where
  "runner_advance h run = abind (known_runner h run) (\<lambda>state.
     abind (trial_status h run) (\<lambda>trial.
     abind (recovery_guard h trial (Some state) True) (\<lambda>_.
     abind (drive h True state) (snapshot h))))"

definition runner_status :: "'e host \<Rightarrow> string \<Rightarrow> (pyval, 'e world) act" where
  "runner_status h run = abind (known_runner h run) (snapshot h)"

section \<open>Cancelling and resuming\<close>

definition settle_cancelled :: "'e host \<Rightarrow> runner \<Rightarrow> pyval \<Rightarrow> (runner, 'e world) act" where
  "settle_cancelled h state trial = (case rn_ticket state of
       Some t \<Rightarrow> if reviewed_ticket trial t then abind (settle_reviewed h state trial) (\<lambda>(_, s). areturn s)
         else let after = state\<lparr>rn_status := ''cancel_requested''\<rparr> in abind (save_runner after) (\<lambda>_. areturn after)
     | None \<Rightarrow> let after = state\<lparr>rn_status := ''cancelled''\<rparr> in abind (save_runner after) (\<lambda>_. areturn after))"

definition runner_cancel :: "'e host \<Rightarrow> string \<Rightarrow> string \<Rightarrow> (pyval, 'e world) act" where
  "runner_cancel h run request =
     abind (acheck (has_text (PStr request)) (ValueError ''workflow_runner_cancel_request_invalid'')) (\<lambda>_.
     abind (known_runner h run) (\<lambda>state.
     abind (awhen (ho_source h = ''caller_plan'') (abind (trial_status h run) (\<lambda>trial. recovery_guard h trial (Some state) False))) (\<lambda>_.
     abind (trial_status h run) (\<lambda>before.
     abind (acheck (\<not> truthy (pget before ''recovery_settlement'')) (ValueError ''workflow_runner_recovery_paused'')) (\<lambda>_.
     abind (acheck (rn_cancel state = None \<or> rn_cancel state = Some request) (ValueError ''workflow_runner_cancel_conflict'')) (\<lambda>_.
     if rn_status state \<in> set run_end then snapshot h state
     else abind (trial_cancelled h run request) (\<lambda>trial.
       abind (finish_verification_wait h state ''cancelled'') (\<lambda>closed.
       abind (settle_cancelled h (closed\<lparr>rn_cancel := Some request\<rparr>) trial) (snapshot h)))))))))"

definition resume_control :: "'e host \<Rightarrow> string \<Rightarrow> string \<Rightarrow> string" where
  "resume_control h run wait_id = runner_digest (PDict [(''kind'', PStr (control_kind h)),
     (''request'', PDict [(''action'', PStr ''continue''), (''run_id'', PStr run), (''wait_id'', PStr wait_id)])])"

definition resume_state :: "'e host \<Rightarrow> runner \<Rightarrow> string \<Rightarrow> string \<Rightarrow> runner" where
  "resume_state h state request wait_id = state\<lparr>rn_controls := put request (resume_control h (rn_run state) wait_id) (rn_controls state),
     rn_resumes := put request wait_id (rn_resumes state), rn_wait := None,
     rn_status := (if rn_ticket state = None then ''ready'' else ''dispatching'')\<rparr>"

definition resume_now :: "'e host \<Rightarrow> runner \<Rightarrow> string \<Rightarrow> string \<Rightarrow> (pyval, 'e world) act" where
  "resume_now h state request wait_id =
     abind (acheck (map_of (rn_controls state) request = None) (ValueError ''workflow_runner_control_conflict'')) (\<lambda>_.
     abind (calling (ho_before_input h)) (\<lambda>_.
     let after = resume_state h state request wait_id in
     abind (save_runner after) (\<lambda>_.
     abind (drive h (rn_mode after = ''single'' \<and> rn_ticket after = None) after) (snapshot h))))"

definition runner_resume :: "'e host \<Rightarrow> string \<Rightarrow> string \<Rightarrow> string \<Rightarrow> (pyval, 'e world) act" where
  "runner_resume h run request wait_id =
     abind (acheck (has_text (PStr request) \<and> has_text (PStr wait_id)) (ValueError ''workflow_runner_resume_invalid'')) (\<lambda>_.
     abind (known_runner h run) (\<lambda>state.
     abind (acheck (rn_status state \<in> set run_end \<longrightarrow> rn_wait state = None) (ValueError ''workflow_runner_terminal_wait_invalid'')) (\<lambda>_.
     abind (trial_status h run) (\<lambda>trial.
     abind (recovery_guard h trial (Some state) True) (\<lambda>_.
     abind (trial_status h run) (\<lambda>again.
     abind (acheck (\<not> truthy (pget again ''recovery_settlement'')) (ValueError ''workflow_runner_recovery_paused'')) (\<lambda>_.
     case map_of (rn_resumes state) request of
       Some prior \<Rightarrow> abind (acheck (prior = wait_id) (ValueError ''workflow_runner_resume_conflict'')) (\<lambda>_. snapshot h state)
     | None \<Rightarrow>
         abind (acheck (case rn_wait state of None \<Rightarrow> False | Some wt \<Rightarrow> wt_id wt = wait_id)
           (ValueError ''workflow_runner_wait_id_mismatch'')) (\<lambda>_.
         if rn_ticket state \<noteq> None then resume_now h state request wait_id
         else abind (trial_status h run) (\<lambda>now.
           abind (alift (in_names (pget now ''status'') (''ready'' # run_end))) (\<lambda>goes.
           if goes then resume_now h state request wait_id else snapshot h state))))))))))"

section \<open>A new attempt after an intervention\<close>

definition intervention_packet :: "pyval \<Rightarrow> string \<Rightarrow> pyval res" where
  "intervention_packet fresh request = rbind (item fresh ''intervention_resumes'') (\<lambda>resumes.
     rbind (item resumes request) (\<lambda>entry. item entry ''packet''))"

text \<open>The old ticket is retired and its step may be prepared once more.\<close>

definition retire_ticket :: "runner \<Rightarrow> string \<Rightarrow> string \<Rightarrow> string \<Rightarrow> string \<Rightarrow> runner" where
  "retire_ticket state request control review_sha step = state\<lparr>rn_controls := put request control (rn_controls state),
     rn_interventions := put request review_sha (rn_interventions state),
     rn_attempts := (if step \<in> set (rn_attempts state) then rn_attempts state else rn_attempts state @ [step]),
     rn_seen := filter (\<lambda>s. s \<noteq> step) (rn_seen state)\<rparr>"

definition intervene :: "'e host \<Rightarrow> runner \<Rightarrow> string \<Rightarrow> string \<Rightarrow> pyval \<Rightarrow> string \<Rightarrow> (pyval, 'e world) act" where
  "intervene h state request wait_id review control =
     abind (calling (ho_before_input h)) (\<lambda>_.
     abind (calling (ho_resume h (rn_run state) request wait_id review)) (\<lambda>fresh.
     abind (alift (intervention_packet fresh request)) (\<lambda>old.
     abind (acheck (rn_ticket state \<noteq> None) (ValueError ''workflow_runner_intervention_original_ticket_mismatch'')) (\<lambda>_.
     abind (alift (item old ''execution_request_id'')) (\<lambda>execution.
     abind (acheck (case rn_ticket state of None \<Rightarrow> False | Some t \<Rightarrow> execution = PStr (tk_id t))
       (ValueError ''workflow_runner_intervention_original_ticket_mismatch'')) (\<lambda>_.
     abind (alift (item old ''step_id'')) (\<lambda>step.
     abind (finish_verification_wait h (retire_ticket state request control (runner_digest review) (py_str step))
       ''resumed_pre_dispatch'') (\<lambda>closed.
     let after = closed\<lparr>rn_ticket := None, rn_wait := None, rn_status := ''ready''\<rparr> in
     abind (save_runner after) (\<lambda>_.
     abind (drive h True after) (snapshot h))))))))))"

definition runner_resume_pre_dispatch :: "'e host \<Rightarrow> string \<Rightarrow> string \<Rightarrow> string \<Rightarrow> pyval \<Rightarrow> (pyval, 'e world) act" where
  "runner_resume_pre_dispatch h run request wait_id review =
     abind (acheck (ho_source h = ''caller_plan'') (ValueError ''workflow_runner_intervention_source_unsupported'')) (\<lambda>_.
     abind (known_runner h run) (\<lambda>state.
     abind (trial_status h run) (\<lambda>trial.
     case map_of (rn_interventions state) request of
       Some prior \<Rightarrow> abind (acheck (prior = runner_digest review) (ValueError ''workflow_runner_intervention_resume_conflict''))
         (\<lambda>_. snapshot h state)
     | None \<Rightarrow>
         abind (acheck (rn_cancel state = None) (ValueError ''workflow_runner_intervention_cancelled_or_terminal'')) (\<lambda>_.
         abind (alift (rbind (item trial ''status'') (\<lambda>status. in_names status (''cancel_requested'' # run_end)))) (\<lambda>ended.
         abind (acheck (\<not> ended) (ValueError ''workflow_runner_intervention_cancelled_or_terminal'')) (\<lambda>_.
         let control = runner_digest (PDict [(''kind'', PStr ''task_plan''), (''request'', review)]) in
         abind (acheck (case map_of (rn_controls state) request of None \<Rightarrow> True | Some old \<Rightarrow> old = control)
           (ValueError ''workflow_runner_control_conflict'')) (\<lambda>_.
         abind (alift (get_or_raise (pget_default trial ''intervention_resumes'' (PDict [])) request)) (\<lambda>known.
         abind (awhen (known = PNone)
           (abind (recovery_guard h trial (Some state) True) (\<lambda>_.
            acheck ((case rn_wait state of None \<Rightarrow> False | Some wt \<Rightarrow> wt_id wt = wait_id) \<and> rn_ticket state \<noteq> None)
              (ValueError ''workflow_runner_intervention_wait_id_mismatch'')))) (\<lambda>_.
         intervene h state request wait_id review control)))))))))"

section \<open>Taking over an imported run\<close>

definition imported_runner :: "'e host \<Rightarrow> string \<Rightarrow> string \<Rightarrow> string \<Rightarrow> string \<Rightarrow> pyval \<Rightarrow> string list \<Rightarrow> pyval \<Rightarrow> runner" where
  "imported_runner h run request mode claim vision seen trial = (new_runner h run request mode vision [])\<lparr>
     rn_status := (if pget trial ''status'' = PStr ''completed'' then ''completed'' else ''ready''),
     rn_current := pget trial ''current_step_id'', rn_seen := seen, rn_completed := int (length seen),
     rn_controls := [], rn_import := Some (claim, request)\<rparr>"

definition import_matches :: "runner \<Rightarrow> string \<Rightarrow> string \<Rightarrow> string \<Rightarrow> pyval \<Rightarrow> string list \<Rightarrow> pyval \<Rightarrow> bool" where
  "import_matches state claim request mode vision seen trial =
     (rn_import state = Some (claim, request) \<and> rn_start state = request \<and> rn_mode state = mode
      \<and> py_eq (rn_vision state) vision \<and> rn_seen state = seen \<and> rn_ticket state = None
      \<and> py_eq (rn_current state) (pget trial ''current_step_id''))"

definition claim_fits :: "pyval \<Rightarrow> pyval \<Rightarrow> string \<Rightarrow> string \<Rightarrow> string list \<Rightarrow> bool" where
  "claim_fits trial marker claim request seen =
     ((pget trial ''status'' = PStr ''ready'' \<or> pget trial ''status'' = PStr ''completed'') \<and> pget trial ''pending'' = PNone
      \<and> pget trial ''recovery_settlement'' = PNone \<and> pget marker ''claim_id'' = PStr claim
      \<and> pget marker ''request_id'' = PStr request \<and> pget marker ''consumed_step_ids'' = PList (map PStr seen))"

definition no_other_run :: "'e host \<Rightarrow> string \<Rightarrow> (unit, 'e world) act" where
  "no_other_run h run = abind (aget wd_active) (\<lambda>active.
     if active = None \<or> active = Some run then areturn () else assert_start_available h)"

definition runner_import_recovery ::
    "'e host \<Rightarrow> string \<Rightarrow> string \<Rightarrow> string \<Rightarrow> string \<Rightarrow> string list \<Rightarrow> pyval \<Rightarrow> (pyval, 'e world) act" where
  "runner_import_recovery h run request mode claim seen vision =
     abind (acheck (ho_source h = ''reviewed_program'' \<and> ho_reviewed h) (ValueError ''workflow_runner_recovery_source_unsupported'')) (\<lambda>_.
     abind (alift (runner_id run)) (\<lambda>_.
     abind (acheck (has_text (PStr request) \<and> mode \<in> set runner_modes) (ValueError ''workflow_runner_recovery_import_invalid'')) (\<lambda>_.
     abind (alift (runner_vision h vision)) (\<lambda>seeing.
     abind (trial_status h run) (\<lambda>trial.
     abind (calling (ho_claim h trial)) (\<lambda>marker.
     abind (acheck (claim_fits trial marker claim request seen) (ValueError ''workflow_runner_recovery_import_invalid'')) (\<lambda>_.
     abind (no_other_run h run) (\<lambda>_.
     abind (load_runner h run) (\<lambda>found.
     abind (case found of
         Some state \<Rightarrow> abind (acheck (import_matches state claim request mode seeing seen trial)
           (ValueError ''workflow_runner_recovery_import_conflict'')) (\<lambda>_. areturn state)
       | None \<Rightarrow> let state = imported_runner h run request mode claim seeing seen trial in
           if pget trial ''status'' = PStr ''ready'' then runner_wait h state ''takeover_ready'' PNone
           else abind (save_runner state) (\<lambda>_. areturn state)) (\<lambda>state.
     abind (set_active run) (\<lambda>_.
     show_trial h state trial)))))))))))"

section \<open>Runs\<close>

datatype runner_op =
    StartRun string string string pyval
  | AdvanceRun string
  | ShowRun string
  | CancelRun string string
  | ResumeRun string string string
  | ResumePreDispatch string string string pyval
  | ImportRun string string string string "string list" pyval

fun runner_do :: "'e host \<Rightarrow> runner_op \<Rightarrow> (pyval, 'e world) act" where
  "runner_do h (StartRun run request mode vision) = runner_start h run request mode vision"
| "runner_do h (AdvanceRun run) = runner_advance h run"
| "runner_do h (ShowRun run) = runner_status h run"
| "runner_do h (CancelRun run request) = runner_cancel h run request"
| "runner_do h (ResumeRun run request wait_id) = runner_resume h run request wait_id"
| "runner_do h (ResumePreDispatch run request wait_id review) = runner_resume_pre_dispatch h run request wait_id review"
| "runner_do h (ImportRun run request mode claim seen vision) = runner_import_recovery h run request mode claim seen vision"

text \<open>Operations one after another, each with the callbacks of the process that runs it; one that raises leaves what it saved.\<close>

definition runner_after :: "'e host \<times> runner_op \<Rightarrow> 'e world \<Rightarrow> 'e world" where
  "runner_after ho w = snd (runner_do (fst ho) (snd ho) w)"

definition runner_run :: "('e host \<times> runner_op) list \<Rightarrow> 'e world \<Rightarrow> 'e world" where
  "runner_run ops w = fold runner_after ops w"

definition new_world :: "'e \<Rightarrow> 'e world" where
  "new_world env = \<lparr>wd_env = env, wd_runs = [], wd_active = None, wd_sent = []\<rparr>"

end
