(* ===== verification/RunnerMoves.thy ===== *)
theory RunnerMoves
  imports WorkflowRunner
begin

text \<open>
  The moves of the runner: whatever the callbacks answer, every operation of \<open>WorkflowRunner\<close> either leaves the files
  alone or makes a sequence of small moves (\<open>rmove\<close>) on the state in memory and the world, from the saved state of
  its run or from a new one (\<open>runner_moves\<close>). The theory follows the functions of the program from the inside out;
  \<open>moving\<close> says what a function does by moves, \<open>working\<close> what an operation does.
\<close>

section \<open>Moves\<close>

definition same_files :: "'e world \<Rightarrow> 'e world \<Rightarrow> bool" where
  "same_files w w' = (wd_runs w' = wd_runs w \<and> wd_sent w' = wd_sent w)"

definition saved :: "runner \<Rightarrow> 'e world \<Rightarrow> 'e world" where
  "saved s w = w\<lparr>wd_runs := put (rn_run s) s (wd_runs w)\<rparr>"

text \<open>A change of the state that touches neither the steps nor the command of the ticket.\<close>

definition same_run :: "runner \<Rightarrow> runner \<Rightarrow> bool" where
  "same_run s s' = (rn_run s' = rn_run s \<and> rn_mode s' = rn_mode s \<and> rn_cancel s' = rn_cancel s \<and> rn_source s' = rn_source s)"

definition noted :: "runner \<Rightarrow> runner \<Rightarrow> bool" where
  "noted s s' = (same_run s s' \<and> rn_seen s' = rn_seen s
     \<and> (rn_ticket s' = None \<or> (\<exists>t v. rn_ticket s = Some t \<and> rn_ticket s' = Some (t\<lparr>tk_error := v\<rparr>))))"

text \<open>\<open>rt\<close> says whether the operation may retire a step. \<open>True\<close> in a configuration: the ticket was taken by the operation that is running and is not yet handed over.\<close>

type_synonym 'e config = "runner \<times> bool \<times> 'e world"

inductive rmove :: "bool \<Rightarrow> 'e host \<Rightarrow> 'e config \<Rightarrow> 'e config \<Rightarrow> bool" for rt h where
  rm_outside: "same_files w w' \<Longrightarrow> rmove rt h (s, f, w) (s, f, w')"
| rm_note: "noted s s' \<Longrightarrow> rmove rt h (s, f, w) (s', f \<and> rn_ticket s' \<noteq> None, w)"
| rm_save: "rmove rt h (s, f, w) (s, f, saved s w)"
| rm_take: "rn_cancel s = None \<Longrightarrow> \<not> out_of_steps h s (tk_step t) \<Longrightarrow> tk_dispatch t = Dispatching \<Longrightarrow> same_run s s' \<Longrightarrow>
    rn_seen s' = rn_seen s @ [tk_step t] \<Longrightarrow> rn_ticket s' = Some t \<Longrightarrow> rmove rt h (s, f, w) (s', True, w)"
| rm_external: "rmove rt h (s, f, w) (set_dispatch ExternallyPending s, False, w)"
| rm_send: "rn_ticket s = Some t \<Longrightarrow> f \<or> (tk_dispatch t = Deferred \<and> rn_cancel s = None) \<Longrightarrow>
    sending = set_error PNone (set_dispatch Dispatching s) \<Longrightarrow> x = \<lparr>sd_run = rn_run s, sd_ticket = t, sd_busy = b, sd_saved = Some sending\<rparr> \<Longrightarrow>
    d = Deferred \<longrightarrow> b \<Longrightarrow> wd_runs w' = put (rn_run s) sending (wd_runs w) \<Longrightarrow> wd_sent w' = wd_sent w @ [x] \<Longrightarrow>
    rmove rt h (s, f, w) (set_dispatch d sending, False, w')"
| rm_cancel: "rn_cancel s = None \<or> rn_cancel s = Some request \<Longrightarrow> rmove rt h (s, False, w) (s\<lparr>rn_cancel := Some request\<rparr>, False, w)"
| rm_retire: "rt \<Longrightarrow> ho_source h = ''caller_plan'' \<Longrightarrow> rn_cancel s = None \<Longrightarrow> same_run s s' \<Longrightarrow> rn_ticket s' = None \<Longrightarrow>
    rn_seen s' = filter (\<lambda>k. k \<noteq> step) (rn_seen s) \<Longrightarrow> rmove rt h (s, False, w) (s', False, w)"

definition reached :: "bool \<Rightarrow> 'e host \<Rightarrow> 'e config \<Rightarrow> runner \<Rightarrow> bool \<Rightarrow> 'e world \<Rightarrow> bool" where
  "reached rt h c s f w = (rmove rt h)\<^sup>*\<^sup>* c (s, f, w)"

definition somewhere :: "bool \<Rightarrow> 'e host \<Rightarrow> 'e config \<Rightarrow> 'e world \<Rightarrow> bool" where
  "somewhere rt h c w = (\<exists>s f. reached rt h c s f w)"

lemma reached_somewhere [simp, intro]: "reached rt h c s f w \<Longrightarrow> somewhere rt h c w"
  by (auto simp: somewhere_def)

lemma reached_move: "reached rt h c s f w \<Longrightarrow> rmove rt h (s, f, w) (s', f', w') \<Longrightarrow> reached rt h c s' f' w'"
  unfolding reached_def by (rule rtranclp.rtrancl_into_rtrancl)

lemma reached_outside: "reached rt h c s f w \<Longrightarrow> same_files w w' \<Longrightarrow> reached rt h c s f w'"
  by (rule reached_move[OF _ rm_outside])

lemma reached_note: "reached rt h c s False w \<Longrightarrow> noted s s' \<Longrightarrow> reached rt h c s' False w"
  using reached_move[OF _ rm_note[of s s' rt h False]] by simp

lemma reached_save: "reached rt h c s f w \<Longrightarrow> reached rt h c s f (saved s w)"
  by (rule reached_move[OF _ rm_save])

abbreviation moving :: "bool \<Rightarrow> 'e host \<Rightarrow> 'e config \<Rightarrow> runner \<Rightarrow> bool \<Rightarrow> ('a, 'e world) act \<Rightarrow> ('a \<Rightarrow> 'e world \<Rightarrow> bool) \<Rightarrow> bool" where
  "moving rt h c s f m Q \<equiv> triple (reached rt h c s f) m Q (somewhere rt h c)"

text \<open>Calls of the outside world and checks change no file and leave the state as it is.\<close>

definition harmless :: "('a, 'e world) act \<Rightarrow> bool" where
  "harmless m = (\<forall>w. same_files w (snd (m w)))"

lemma same_files_refl [simp]: "same_files w w"
  by (simp add: same_files_def)

lemma same_files_trans: "same_files u v \<Longrightarrow> same_files v w \<Longrightarrow> same_files u w"
  by (simp add: same_files_def)

named_theorems harmlessI \<open>computations that change no file\<close>

lemma harmless_bind [harmlessI]: "harmless m \<Longrightarrow> (\<And>x. harmless (f x)) \<Longrightarrow> harmless (abind m f)"
  unfolding harmless_def abind_def
  by (auto split: prod.split sum.split) (metis same_files_trans snd_conv)+

lemma harmless_simple [harmlessI]: "harmless (areturn x)" "harmless (alift r)" "harmless (aget g)" "harmless (acheck b e)"
  by (simp_all add: harmless_def act_defs)

lemma harmless_outside [harmlessI]: "harmless (outside g)" "harmless (calling g')"
  by (auto simp: harmless_def outside_def calling_def abind_def alift_def same_files_def split: prod.splits sum.splits)

lemma harmless_if [harmlessI]: "harmless m \<Longrightarrow> harmless n \<Longrightarrow> harmless (if b then m else n)"
  by simp

lemma harmless_when [harmlessI]: "harmless m \<Longrightarrow> harmless (awhen b m)"
  by (simp add: awhen_def harmless_simple)

lemma harmless_case [harmlessI]: "harmless m \<Longrightarrow> (\<And>x. harmless (g x)) \<Longrightarrow> harmless (case v of None \<Rightarrow> m | Some x \<Rightarrow> g x)"
  by (simp split: option.split)

lemma harmless_active [harmlessI]: "harmless (set_active run)"
  by (simp add: harmless_def set_active_def amodify_def same_files_def)

lemma harmless_reads [harmlessI]:
  "harmless (trial_guarded h v)" "harmless (trial_status h run)" "harmless (trial_cancelled h run request)"
  "harmless (recovery_guard h v found again)" "harmless (load_runner h run)" "harmless (known_runner h run)"
  "harmless (guard_again h s)" "harmless (show_trial h s v)" "harmless (snapshot h s)"
  unfolding trial_guarded_def trial_status_def trial_cancelled_def recovery_guard_def load_runner_def known_runner_def
    guard_again_def show_trial_def snapshot_def
  by (intro harmlessI)+

lemma harmless_checks [harmlessI]:
  "harmless (step_vision h s v)" "harmless (assert_start_available h)" "harmless (admit_start h)" "harmless (no_other_run h run)"
proof -
  show "harmless (step_vision h s v)"
    unfolding step_vision_def by (intro harmlessI)
  show a: "harmless (assert_start_available h)" for h :: "'a host"
    unfolding assert_start_available_def by (intro harmlessI)
  show "harmless (admit_start h)" unfolding admit_start_def by (intro harmlessI a)
  show "harmless (no_other_run h run)" unfolding no_other_run_def by (intro harmlessI a)
qed

lemma harmless_moving: "harmless m \<Longrightarrow> (\<And>x w. reached rt h c s f w \<Longrightarrow> Q x w) \<Longrightarrow> moving rt h c s f m Q"
  unfolding triple_def harmless_def by (metis reached_outside reached_somewhere snd_conv)

lemma harmless_bind_moving: "harmless m \<Longrightarrow> (\<And>x. moving rt h c s f (g x) Q) \<Longrightarrow> moving rt h c s f (abind m g) Q"
  by (rule triple_bind[where R = "\<lambda>_. reached rt h c s f"]) (auto intro: harmless_moving)

section \<open>The moves of each function\<close>

lemma lift_moving: "(\<And>x. r = Inr x \<Longrightarrow> moving rt h c s f (k x) Q) \<Longrightarrow> moving rt h c s f (abind (alift r) k) Q"
  by (cases r) (auto simp: triple_def abind_def alift_def)

lemma triple_fact: "(b \<Longrightarrow> triple P m Q E) \<Longrightarrow> triple (\<lambda>w. P w \<and> b) m Q E"
  by (auto simp: triple_def)

lemma noted_trans: "noted s t \<Longrightarrow> noted t u \<Longrightarrow> noted s u"
  by (auto simp: noted_def same_run_def)

lemma same_run_refl [simp]: "same_run s s"
  by (simp add: same_run_def)

lemma same_run_trans: "same_run s t \<Longrightarrow> same_run t u \<Longrightarrow> same_run s u"
  by (simp add: same_run_def)

lemma ticket_error_same: "rn_ticket s = None \<or> (\<exists>t v. rn_ticket s = Some t \<and> rn_ticket s = Some (t\<lparr>tk_error := v\<rparr>))"
proof (cases "rn_ticket s")
  case (Some t)
  have "t\<lparr>tk_error := tk_error t\<rparr> = t" by simp
  then show ?thesis using Some by (intro disjI2 exI[of _ t] exI[of _ "tk_error t"]) simp
qed simp

lemma noted_same: "same_run s s' \<Longrightarrow> rn_seen s' = rn_seen s \<Longrightarrow> rn_ticket s' = rn_ticket s \<or> rn_ticket s' = None \<Longrightarrow> noted s s'"
  unfolding noted_def using ticket_error_same[of s] by (intro conjI) (simp_all, metis)

lemma noted_refl [simp]: "noted s s"
  by (rule noted_same) simp_all

lemma moving_return [intro]: "(\<And>w. reached rt h c s f w \<Longrightarrow> Q x w) \<Longrightarrow> moving rt h c s f (areturn x) Q"
  by (rule triple_return)

lemma moving_save: "moving rt h c s f m Q \<Longrightarrow> moving rt h c s f (abind (save_runner s) (\<lambda>_. m)) Q"
proof (rule triple_bind[where R = "\<lambda>_. reached rt h c s f"])
  show "moving rt h c s f (save_runner s) (\<lambda>_. reached rt h c s f)"
    unfolding save_runner_def using reached_save[of rt h c s f] by (intro triple_modify) (simp add: saved_def)
qed

lemma moving_noted: "noted s s' \<Longrightarrow> moving rt h c s' False m Q \<Longrightarrow> moving rt h c s False m Q"
  by (erule triple_pre) (rule reached_note)

lemma clock_started_noted: "noted s (clock_started h reason s env)" "rn_ticket (clock_started h reason s env) = rn_ticket s"
  by (auto simp: clock_started_def same_run_def intro!: noted_same split: option.split)

lemma close_wait_noted: "noted s (close_wait h status s env)" "rn_ticket (close_wait h status s env) = rn_ticket s"
  by (auto simp: close_wait_def same_run_def intro!: noted_same split: option.split)

lemma set_error_noted: "noted s (set_error v s)"
  by (cases "rn_ticket s") (auto simp: set_error_def noted_def same_run_def)

text \<open>What a state keeps when it is only noted: everything a later step of the operation depends on.\<close>

lemma notedD:
  assumes "noted s s'"
  shows "rn_run s' = rn_run s" "rn_mode s' = rn_mode s" "rn_cancel s' = rn_cancel s" "rn_source s' = rn_source s"
    "rn_seen s' = rn_seen s"
  using assms by (auto simp: noted_def same_run_def)

definition waited :: "bool \<Rightarrow> 'e host \<Rightarrow> 'e config \<Rightarrow> runner \<Rightarrow> runner \<Rightarrow> 'e world \<Rightarrow> bool" where
  "waited rt h c s s' w = (reached rt h c s' False w \<and> noted s s' \<and> rn_ticket s' = rn_ticket s)"

lemma wait_moving: "moving rt h c s False (runner_wait h s reason raw) (waited rt h c s)"
  unfolding runner_wait_def
proof (rule triple_bind[where R = "\<lambda>t w. reached rt h c s False w \<and> (noted s t \<and> rn_ticket t = rn_ticket s)"])
  show "moving rt h c s False (aget (\<lambda>w. clock_started h reason s (wd_env w)))
      (\<lambda>t w. reached rt h c s False w \<and> (noted s t \<and> rn_ticket t = rn_ticket s))"
    by (intro triple_get conjI clock_started_noted)
next
  fix t :: runner
  let ?s = "t\<lparr>rn_wait := Some (new_wait s reason raw),
      rn_status := if reason = ''single_step_complete'' then ''single_complete'' else ''waiting''\<rparr>"
  show "triple (\<lambda>w. reached rt h c s False w \<and> (noted s t \<and> rn_ticket t = rn_ticket s))
      (let after = ?s in abind (save_runner after) (\<lambda>_. areturn after)) (waited rt h c s) (somewhere rt h c)"
  proof (rule triple_fact)
    assume t: "noted s t \<and> rn_ticket t = rn_ticket s"
    moreover have "noted t ?s" by (rule noted_same) (simp_all add: same_run_def)
    ultimately have n: "noted s ?s" using noted_trans by blast
    have k: "rn_ticket ?s = rn_ticket s" using t by simp
    show "moving rt h c s False (let after = ?s in abind (save_runner after) (\<lambda>_. areturn after)) (waited rt h c s)"
      unfolding Let_def waited_def by (rule moving_noted[OF n]) (intro moving_save moving_return conjI n k)
  qed
qed

text \<open>The state an operation goes on with, and when it may go on at once.\<close>

definition onward :: "bool \<Rightarrow> 'e host \<Rightarrow> 'e config \<Rightarrow> runner \<Rightarrow> bool \<times> runner \<Rightarrow> 'e world \<Rightarrow> bool" where
  "onward rt h c s r w = (reached rt h c (snd r) False w
     \<and> (fst r \<longrightarrow> rn_mode s \<noteq> ''single'' \<and> rn_ticket (snd r) = None \<and> rn_seen (snd r) = rn_seen s \<and> same_run s (snd r)))"

lemma onward_noted: "noted s t \<Longrightarrow> onward rt h c t r w \<Longrightarrow> onward rt h c s r w"
  by (auto simp: onward_def noted_def intro: same_run_trans) (auto simp: same_run_def)

lemma moving_onward: "noted s t \<Longrightarrow> moving rt h c t False m (onward rt h c t) \<Longrightarrow> moving rt h c s False m (onward rt h c s)"
  by (rule moving_noted, assumption) (erule triple_conseq, auto intro: onward_noted)

lemma pause_moving: "moving rt h c s False (pause h s reason) (onward rt h c s)"
  unfolding pause_def
  by (rule triple_bind[OF wait_moving]) (auto intro!: triple_return simp: onward_def waited_def)

lemma pause_noted: "noted s t \<Longrightarrow> moving rt h c s False (pause h t reason) (onward rt h c s)"
  by (rule moving_onward[where t = t], assumption, rule pause_moving)

lemma keep_moving:
  "noted s t \<Longrightarrow> (b \<Longrightarrow> rn_mode s \<noteq> ''single'' \<and> rn_ticket t = None) \<Longrightarrow>
    moving rt h c s False (abind (save_runner t) (\<lambda>_. areturn (b, t))) (onward rt h c s)"
  by (rule moving_noted[where s' = t], assumption, rule moving_save, rule moving_return) (auto simp: onward_def noted_def)

lemma keep_status_moving:
  assumes "noted s t" and "status = ''ready'' \<Longrightarrow> rn_mode s \<noteq> ''single''" and "rn_ticket t = None"
  shows "moving rt h c s False (keep_status t status) (onward rt h c s)"
proof -
  have "noted t (t\<lparr>rn_status := status\<rparr>)" by (rule noted_same) (simp_all add: same_run_def)
  with assms(1) have "noted s (t\<lparr>rn_status := status\<rparr>)" by (rule noted_trans)
  then show ?thesis unfolding keep_status_def Let_def by (rule keep_moving) (use assms in simp)
qed

lemma settled_moving:
  assumes "noted s t" and "rn_ticket t = None"
  shows "moving rt h c s False (settled_as h t status) (onward rt h c s)"
  unfolding settled_as_def
proof (intro lift_moving triple_if pause_noted[OF assms(1)] keep_status_moving[OF assms(1) _ assms(2)])
  fix ended
  assume "in_names status run_end = Inr ended" "ended" "py_str status = ''ready''"
  then show "rn_mode s \<noteq> ''single''" by (auto simp: run_end_def in_names_True_iff)
qed (use notedD(2)[OF assms(1)] in simp_all)

lemma settle_moving: "moving rt h c s False (settle_reviewed h s trial) (onward rt h c s)"
  unfolding settle_reviewed_def Let_def
proof (rule lift_moving)
  fix known
  let ?status = "if known then py_str (pget (last (plist (pget trial ''history''))) ''verdict'') else ''waiting''"
  show "moving rt h c s False (abind (finish_verification_wait h s ?status) (\<lambda>closed. abind (alift (item trial ''status''))
      (settled_as h (closed\<lparr>rn_ticket := None, rn_wait := None, rn_completed := rn_completed closed + 1,
        rn_current := pget trial ''current_step_id''\<rparr>)))) (onward rt h c s)"
  proof (rule triple_bind[where R = "\<lambda>t w. reached rt h c s False w \<and> noted s t"])
    show "moving rt h c s False (finish_verification_wait h s ?status) (\<lambda>t w. reached rt h c s False w \<and> noted s t)"
      unfolding finish_verification_wait_def by (intro triple_get conjI close_wait_noted)
  next
    fix t :: runner
    let ?s = "t\<lparr>rn_ticket := None, rn_wait := None, rn_completed := rn_completed t + 1, rn_current := pget trial ''current_step_id''\<rparr>"
    show "triple (\<lambda>w. reached rt h c s False w \<and> noted s t) (abind (alift (item trial ''status'')) (settled_as h ?s))
        (onward rt h c s) (somewhere rt h c)"
    proof (rule triple_fact)
      assume "noted s t"
      moreover have "noted t ?s" by (rule noted_same) (simp_all add: same_run_def)
      ultimately have "noted s ?s" by (rule noted_trans)
      then show "moving rt h c s False (abind (alift (item trial ''status'')) (settled_as h ?s)) (onward rt h c s)"
        by (intro lift_moving settled_moving) simp_all
    qed
  qed
qed

lemma harmless_outside_bind: "(\<And>x. moving rt h c s f (k x) Q) \<Longrightarrow> moving rt h c s f (abind (outside g) k) Q"
  by (rule harmless_bind_moving[OF harmless_outside(1)])

lemma verify_moving: "moving rt h c s False (verify_ticket h s t status) (onward rt h c s)"
  unfolding verify_ticket_def Let_def
proof (rule harmless_outside_bind)
  fix answer :: "fault + pyval"
  show "moving rt h c s False (case answer of
        Inl f \<Rightarrow> pause h (set_error (callback_error f PNone) s) ''verification_required''
      | Inr verified \<Rightarrow>
          if \<not> is_dict verified \<or> pget verified ''status'' = PStr ''verification_required'' then pause h s ''verification_required''
          else abind (trial_status h (rn_run s)) (\<lambda>trial.
            if \<not> reviewed_ticket trial t then pause h s ''verification_required''
            else settle_reviewed h s trial)) (onward rt h c s)"
    by (cases answer) (auto intro!: pause_noted set_error_noted pause_moving triple_if harmless_bind_moving harmlessI settle_moving)
qed

lemma read_moving: "moving rt h c s False (read_ticket h s t result) (onward rt h c s)"
proof -
  have w: "moving rt h c s False (abind (runner_wait h s reason raw) (\<lambda>s. areturn (False, s))) (onward rt h c s)" for reason raw
    by (rule triple_bind[OF wait_moving]) (auto intro!: triple_return simp: onward_def waited_def)
  show ?thesis
    unfolding read_ticket_def Let_def by (intro lift_moving triple_if pause_moving verify_moving w)
qed

lemma reconcile_moving: "moving rt h c s False (reconcile h s t) (onward rt h c s)"
  unfolding reconcile_def
proof (intro harmless_bind_moving harmlessI triple_if settle_moving)
  fix answer :: "fault + pyval"
  show "moving rt h c s False (case answer of Inl f \<Rightarrow> pause h (set_error (callback_error f PNone) s) ''result_unknown''
       | Inr result \<Rightarrow> read_ticket h s t result) (onward rt h c s)"
    by (cases answer) (auto intro: pause_noted set_error_noted read_moving)
qed

lemma set_dispatch_simps [simp]:
  "rn_seen (set_dispatch d s) = rn_seen s" "rn_run (set_dispatch d s) = rn_run s" "rn_mode (set_dispatch d s) = rn_mode s"
  "rn_cancel (set_dispatch d s) = rn_cancel s" "rn_source (set_dispatch d s) = rn_source s"
  "rn_ticket (set_dispatch d s) = map_option (\<lambda>t. t\<lparr>tk_dispatch := d\<rparr>) (rn_ticket s)"
  "rn_seen (set_error v s) = rn_seen s" "rn_run (set_error v s) = rn_run s" "rn_mode (set_error v s) = rn_mode s"
  "rn_cancel (set_error v s) = rn_cancel s" "rn_source (set_error v s) = rn_source s"
  "rn_ticket (set_error v s) = map_option (\<lambda>t. t\<lparr>tk_error := v\<rparr>) (rn_ticket s)"
  by (simp_all add: set_dispatch_def set_error_def)

text \<open>A submission: the world has the state saved before the call, and the call in its list.\<close>

definition sent_world :: "runner \<Rightarrow> ticket \<Rightarrow> bool \<Rightarrow> 'e world \<Rightarrow> 'e world" where
  "sent_world sending t b w = (let v = saved sending w in v\<lparr>wd_sent := wd_sent v @
     [\<lparr>sd_run = rn_run sending, sd_ticket = t, sd_busy = b, sd_saved = Some sending\<rparr>]\<rparr>)"

lemma set_dispatch_again: "set_dispatch d (set_error v (set_dispatch d s)) = set_error v (set_dispatch d s)"
  by (cases "rn_ticket s") (simp_all add: set_dispatch_def set_error_def)

lemma sent_reached:
  assumes "reached rt h c s f w" and "rn_ticket s = Some t" and "f \<or> (tk_dispatch t = Deferred \<and> rn_cancel s = None)"
    and "sending = set_error PNone (set_dispatch Dispatching s)" and "same_files (sent_world sending t b w) w'"
    and "d = Deferred \<longrightarrow> b"
  shows "reached rt h c (set_dispatch d sending) False w'"
proof (rule reached_move[OF assms(1)], rule rm_send[OF assms(2,3,4) refl assms(6)])
  show "wd_runs w' = put (rn_run s) sending (wd_runs w)"
    "wd_sent w' = wd_sent w @ [\<lparr>sd_run = rn_run s, sd_ticket = t, sd_busy = b, sd_saved = Some sending\<rparr>]"
    using assms(4,5) by (simp_all add: same_files_def sent_world_def saved_def Let_def)
qed

lemma map_after_put: "map_of (put k v d) = (map_of d)(k \<mapsto> v)"
  by (induction k v d rule: put.induct) auto

definition resubmits :: "bool \<Rightarrow> runner \<Rightarrow> ticket \<Rightarrow> bool" where
  "resubmits f s t = (rn_ticket s = Some t \<and> (f \<or> (tk_dispatch t = Deferred \<and> rn_cancel s = None)))"

text \<open>The state after a submission still holds the ticket.\<close>

definition submitted_state :: "runner \<Rightarrow> bool \<times> runner \<Rightarrow> bool" where
  "submitted_state s r = (same_run s (snd r) \<and> rn_seen (snd r) = rn_seen s \<and> rn_ticket (snd r) \<noteq> None)"

definition handed :: "bool \<Rightarrow> 'e host \<Rightarrow> 'e config \<Rightarrow> runner \<Rightarrow> bool \<times> runner \<Rightarrow> 'e world \<Rightarrow> bool" where
  "handed rt h c s r w = (reached rt h c (snd r) False w \<and> submitted_state s r)"

lemma answered_moving:
  assumes "rn_ticket sending = Some u" and "same_run s sending" and "rn_seen sending = rn_seen s"
    and "set_dispatch Dispatching sending = sending"
  shows "triple (\<lambda>w. \<forall>d. (d = Deferred \<longrightarrow> busy_answer answer) \<longrightarrow> reached rt h c (set_dispatch d sending) False w)
    (submitted h sending answer) (handed rt h c s) (somewhere rt h c)"
proof (cases answer)
  case Accepted
  have "moving rt h c (set_dispatch Submitted sending) False (abind (save_runner (set_dispatch Submitted sending))
      (\<lambda>_. areturn (True, set_dispatch Submitted sending))) (handed rt h c s)"
    using assms by (intro moving_save moving_return) (simp add: handed_def submitted_state_def same_run_def)
  then show ?thesis by (simp add: Accepted submitted_def Let_def) (erule triple_pre, simp)
next
  case (Busy fault)
  let ?t = "set_dispatch Deferred sending" and ?s = "set_error (callback_error fault PNone) (set_dispatch Deferred sending)"
  have "moving rt h c ?s False (abind (runner_wait h ?s ''queue_busy'' PNone) (\<lambda>s. areturn (False, s))) (handed rt h c s)"
  proof (rule triple_bind[OF wait_moving], rule triple_return)
    fix s' w
    assume "waited rt h c ?s s' w"
    with assms show "handed rt h c s (False, s') w" by (simp add: handed_def submitted_state_def waited_def noted_def same_run_def)
  qed
  then have "moving rt h c ?t False (abind (runner_wait h ?s ''queue_busy'' PNone) (\<lambda>s. areturn (False, s))) (handed rt h c s)"
    by (rule moving_noted[OF set_error_noted])
  then show ?thesis by (simp add: Busy submitted_def busy_answer_def) (erule triple_pre, simp)
next
  case (Failed fault)
  let ?t = "set_dispatch Dispatching sending"
  let ?s = "set_error (callback_error fault (case rn_ticket sending of None \<Rightarrow> PNone | Some t \<Rightarrow> tk_command t)) sending"
  have "moving rt h c sending False (abind (save_runner ?s) (\<lambda>_. areturn (True, ?s))) (handed rt h c s)"
    by (rule moving_noted[OF set_error_noted], rule moving_save, rule moving_return)
      (use assms in \<open>simp add: handed_def submitted_state_def same_run_def\<close>)
  moreover have "?t = sending" using assms(4) .
  ultimately show ?thesis
    by (simp add: Failed submitted_def busy_answer_def Let_def) (erule triple_pre, metis dispatch.distinct(1))
next
  case Died
  have "somewhere rt h c w" if "\<forall>d. (d = Deferred \<longrightarrow> busy_answer answer) \<longrightarrow> reached rt h c (set_dispatch d sending) False w" for w
    using that[rule_format, of Dispatching] by auto
  then show ?thesis by (simp add: Died submitted_def triple_def alift_def)
qed

lemma submit_moving:
  assumes "resubmits f s t"
  shows "moving rt h c s f (submit_ticket h s t) (handed rt h c s)"
  unfolding submit_ticket_def Let_def
proof (rule harmless_bind_moving[OF harmless_reads(7)])
  from assms have t: "rn_ticket s = Some t" "f \<or> (tk_dispatch t = Deferred \<and> rn_cancel s = None)"
    by (simp_all add: resubmits_def)
  let ?sending = "set_error PNone (set_dispatch Dispatching s)"
  let ?R = "\<lambda>b w'. \<exists>w. reached rt h c s f w \<and> same_files (sent_world ?sending t b w) w'"
  have "triple (reached rt h c s f) (save_runner ?sending) (\<lambda>_ w'. \<exists>w. reached rt h c s f w \<and> w' = saved ?sending w) (somewhere rt h c)"
    unfolding save_runner_def saved_def by (intro triple_modify) blast
  moreover have "triple (\<lambda>w'. \<exists>w. reached rt h c s f w \<and> w' = saved ?sending w) (outside (ho_submit h (tk_id t) (tk_command t)))
      (\<lambda>_ w'. \<exists>w. reached rt h c s f w \<and> same_files (saved ?sending w) w') (somewhere rt h c)"
    by (auto simp: triple_def outside_def same_files_def split: prod.splits)
  moreover have "triple (\<lambda>w'. \<exists>w. reached rt h c s f w \<and> same_files (saved ?sending w) w')
      (note_sending (rn_run s) t (busy_answer answer)) (\<lambda>_. ?R (busy_answer answer)) (somewhere rt h c)" for answer
    unfolding note_sending_def
    by (intro triple_modify) (auto simp: same_files_def sent_world_def saved_def map_after_put Let_def)
  moreover have "triple (?R (busy_answer answer)) (submitted h ?sending answer) (handed rt h c s) (somewhere rt h c)" for answer
  proof (rule triple_pre[OF answered_moving])
    show "rn_ticket ?sending = Some (t\<lparr>tk_dispatch := Dispatching, tk_error := PNone\<rparr>)" by (simp add: t(1))
    show "same_run s ?sending" "rn_seen ?sending = rn_seen s" by (simp_all add: same_run_def)
    show "set_dispatch Dispatching ?sending = ?sending" by (rule set_dispatch_again)
    show "\<forall>d. (d = Deferred \<longrightarrow> busy_answer answer) \<longrightarrow> reached rt h c (set_dispatch d ?sending) False w'" if "?R (busy_answer answer) w'" for w'
      using that sent_reached[OF _ t refl] by blast
  qed
  ultimately show "moving rt h c s f (abind (save_runner ?sending) (\<lambda>_. abind (outside (ho_submit h (tk_id t) (tk_command t)))
      (\<lambda>answer. abind (note_sending (rn_run s) t (busy_answer answer)) (\<lambda>_. submitted h ?sending answer)))) (handed rt h c s)"
    by (intro triple_bind)
qed

lemma onward_from: "submitted_state s r \<Longrightarrow> onward rt h c (snd r) q w \<Longrightarrow> onward rt h c s q w"
  by (auto simp: onward_def submitted_state_def intro: same_run_trans) (auto simp: same_run_def)

lemma submit_reconcile_moving:
  assumes "resubmits f s t"
  shows "moving rt h c s f (submit_and_reconcile h s) (onward rt h c s)"
proof -
  have "rn_ticket s = Some t" using assms by (simp add: resubmits_def)
  moreover have "triple (handed rt h c s r) (case r of (sent, s') \<Rightarrow> if sent then reconcile_now h s' else areturn (False, s'))
      (onward rt h c s) (somewhere rt h c)" for r
  proof (cases r)
    case (Pair sent s')
    have "triple (\<lambda>w. reached rt h c s' False w \<and> submitted_state s r)
        (if sent then reconcile_now h s' else areturn (False, s')) (onward rt h c s) (somewhere rt h c)"
    proof (rule triple_fact)
      assume r: "submitted_state s r"
      then obtain t' where t': "rn_ticket s' = Some t'" by (auto simp: submitted_state_def Pair)
      have "moving rt h c s' False (reconcile h s' t') (onward rt h c s)"
      proof (rule triple_conseq[OF reconcile_moving])
        show "onward rt h c s q w" if "onward rt h c s' q w" for q w using onward_from[OF r, of rt h c q w] that Pair by simp
      qed
      then show "moving rt h c s' False (if sent then reconcile_now h s' else areturn (False, s')) (onward rt h c s)"
        by (auto simp: reconcile_now_def t' onward_def intro: triple_return)
    qed
    then show ?thesis unfolding Pair prod.case by (rule triple_pre) (simp add: handed_def)
  qed
  ultimately show ?thesis
    unfolding submit_and_reconcile_def by (auto intro: triple_bind[OF submit_moving[OF assms]])
qed

text \<open>Taking a prepared ticket.\<close>

definition took :: "bool \<Rightarrow> 'e host \<Rightarrow> 'e config \<Rightarrow> runner \<Rightarrow> bool \<times> runner \<Rightarrow> 'e world \<Rightarrow> bool" where
  "took rt h c s r w = (if fst r then reached rt h c (snd r) True w \<and> same_run s (snd r)
       \<and> (\<exists>t. rn_ticket (snd r) = Some t \<and> rn_seen (snd r) = rn_seen s @ [tk_step t] \<and> \<not> out_of_steps h s (tk_step t))
     else reached rt h c (snd r) False w)"

lemma prepared_moving:
  assumes "rn_cancel s = None"
  shows "moving rt h c s False (prepared_ticket h s prepared) (took rt h c s)"
proof -
  have w: "moving rt h c s False (abind (runner_wait h t reason raw) (\<lambda>s. areturn (False, s))) (took rt h c s)"
    if "noted s t" for t reason raw
    by (rule moving_noted[OF that], rule triple_bind[OF wait_moving]) (auto intro!: triple_return simp: took_def waited_def)
  let ?step = "py_str (pget prepared ''step_id'')"
  let ?t = "new_ticket s ?step (py_str (pget prepared ''execution_request_id'')) (pget prepared ''suggested_command'')"
  let ?s = "s\<lparr>rn_seen := rn_seen s @ [?step], rn_ticket := Some ?t, rn_current := PStr ?step, rn_status := ''dispatching'', rn_wait := None\<rparr>"
  have t: "tk_step ?t = ?step" "tk_dispatch ?t = Dispatching" by (simp_all add: new_ticket_def)
  have "moving rt h c s False (abind (save_runner ?s) (\<lambda>_. areturn (True, ?s))) (took rt h c s)" if "\<not> out_of_steps h s ?step"
  proof (rule triple_pre[where P = "reached rt h c ?s True"])
    show "moving rt h c ?s True (abind (save_runner ?s) (\<lambda>_. areturn (True, ?s))) (took rt h c s)"
      using that t by (intro moving_save moving_return) (simp add: took_def same_run_def)
    show "reached rt h c ?s True w" if "reached rt h c s False w" for w
      by (rule reached_move[OF that], rule rm_take[where t = ?t, OF assms]) (use \<open>\<not> out_of_steps h s ?step\<close> t in \<open>simp_all add: same_run_def\<close>)
  qed
  moreover have "noted s (s\<lparr>rn_current := v\<rparr>)" for v by (rule noted_same) (simp_all add: same_run_def)
  ultimately show ?thesis
    unfolding prepared_ticket_def Let_def acheck_def
    by (intro lift_moving triple_if w) simp_all
qed

section \<open>The moves of the drive\<close>

text \<open>What a round leaves when the loop goes on: one ticket less, or one step more.\<close>

definition rounded :: "bool \<Rightarrow> 'e host \<Rightarrow> 'e config \<Rightarrow> runner \<Rightarrow> bool \<times> runner \<Rightarrow> 'e world \<Rightarrow> bool" where
  "rounded rt h c s r w = (reached rt h c (snd r) False w
     \<and> (fst r \<longrightarrow> rn_mode s \<noteq> ''single'' \<and> rn_ticket (snd r) = None \<and> same_run s (snd r)
         \<and> (if rn_ticket s = None then length (rn_seen (snd r)) = Suc (length (rn_seen s))
              \<and> (ho_source h \<noteq> ''caller_plan'' \<longrightarrow> length (rn_seen s) < 256)
            else rn_seen (snd r) = rn_seen s)))"

lemma onward_rounded: "onward rt h c s q w \<Longrightarrow> rn_ticket s \<noteq> None \<Longrightarrow> rounded rt h c s q w"
  by (auto simp: onward_def rounded_def)

lemma pause_rounded: "moving rt h c s False (pause h s reason) (rounded rt h c s)"
  unfolding pause_def
  by (rule triple_bind[OF wait_moving]) (auto intro!: triple_return simp: rounded_def waited_def)

lemma stay_rounded: "moving rt h c s False (areturn (False, s)) (rounded rt h c s)"
  by (rule moving_return) (simp add: rounded_def)

lemma drive_ticket_moving:
  assumes "rn_ticket s = Some t"
  shows "moving rt h c s False (drive_ticket h s t) (rounded rt h c s)"
proof -
  have m: "moving rt h c s False (drive_ticket h s t) (onward rt h c s)"
    unfolding drive_ticket_def
    by (intro triple_if reconcile_moving submit_reconcile_moving[where t = t]) (simp add: resubmits_def assms)
  have t: "rn_ticket s \<noteq> None" using assms by simp
  show ?thesis by (rule triple_conseq[OF m]) (assumption, erule onward_rounded[OF _ t], assumption)
qed

lemma took_moving:
  assumes "rn_ticket s = None"
  shows "triple (took rt h c s r) (case r of (fresh, s') \<Rightarrow> if fresh then submit_and_reconcile h s' else areturn (False, s'))
    (rounded rt h c s) (somewhere rt h c)"
proof (cases r)
  case (Pair fresh s')
  show ?thesis
  proof (cases fresh)
    case True
    have "triple (\<lambda>w. reached rt h c s' True w \<and> (same_run s s' \<and> (\<exists>t. rn_ticket s' = Some t \<and> rn_seen s' = rn_seen s @ [tk_step t]
        \<and> \<not> out_of_steps h s (tk_step t)))) (submit_and_reconcile h s') (rounded rt h c s) (somewhere rt h c)"
    proof (rule triple_fact)
      assume "same_run s s' \<and> (\<exists>t. rn_ticket s' = Some t \<and> rn_seen s' = rn_seen s @ [tk_step t] \<and> \<not> out_of_steps h s (tk_step t))"
      then obtain t where run: "same_run s s'" and t: "rn_ticket s' = Some t" "rn_seen s' = rn_seen s @ [tk_step t]"
        and free: "\<not> out_of_steps h s (tk_step t)" by blast
      show "moving rt h c s' True (submit_and_reconcile h s') (rounded rt h c s)"
      proof (rule triple_conseq[OF submit_reconcile_moving[where t = t]])
        show "resubmits True s' t" by (simp add: resubmits_def t)
        show "rounded rt h c s q w" if q: "onward rt h c s' q w" for q w
        proof -
          have "same_run s' (snd q) \<Longrightarrow> same_run s (snd q)" by (rule same_run_trans[OF run])
          then show ?thesis using q assms run t(2) free
            by (auto simp: onward_def rounded_def out_of_steps_def same_run_def)
        qed
      qed
    qed
    then show ?thesis unfolding Pair prod.case if_P[OF True] by (rule triple_pre) (simp add: took_def True)
  next
    case False
    have "triple (took rt h c s (False, s')) (areturn (False, s')) (rounded rt h c s) (somewhere rt h c)"
      by (rule triple_return) (simp add: took_def rounded_def)
    with False show ?thesis by (simp add: Pair)
  qed
qed

lemma drive_step_moving:
  assumes "rn_ticket s = None" and "rn_cancel s = None"
  shows "moving rt h c s False (drive_step h s trial) (rounded rt h c s)"
  unfolding drive_step_def Let_def
  by (intro triple_if pause_rounded harmless_bind_moving[OF harmless_checks(1)] harmless_bind_moving[OF harmless_outside(2)]
    triple_bind[OF prepared_moving[OF assms(2)]] took_moving[OF assms(1)])

lemma adopt_moving:
  assumes "rn_cancel s = None"
  shows "moving rt h c s False (adopt_pending h s trial) (\<lambda>s' w. reached rt h c s' False w)"
proof -
  have "triple (took rt h c s r) (case r of (fresh, s') \<Rightarrow> if \<not> fresh then areturn s'
        else abind (save_runner (set_dispatch ExternallyPending s')) (\<lambda>_.
          runner_wait h (set_dispatch ExternallyPending s') ''execution_pending'' PNone))
      (\<lambda>s' w. reached rt h c s' False w) (somewhere rt h c)" for r
  proof (cases r)
    case (Pair fresh s')
    let ?e = "set_dispatch ExternallyPending s'"
    have "moving rt h c ?e False (abind (save_runner ?e) (\<lambda>_. runner_wait h ?e ''execution_pending'' PNone))
        (\<lambda>s' w. reached rt h c s' False w)"
      by (intro moving_save triple_conseq[OF wait_moving]) (auto simp: waited_def)
    then have "moving rt h c s' True (abind (save_runner ?e) (\<lambda>_. runner_wait h ?e ''execution_pending'' PNone))
        (\<lambda>s' w. reached rt h c s' False w)"
      by (rule triple_pre) (erule reached_move, rule rm_external)
    then show ?thesis by (auto simp: took_def Pair intro: triple_pre moving_return)
  qed
  then show ?thesis
    unfolding adopt_pending_def Let_def
    by (intro triple_if moving_return triple_bind[OF prepared_moving[OF assms]]) auto
qed

lemma drive_idle_moving:
  assumes "rn_ticket s = None"
  shows "moving rt h c s False (drive_idle h allow s) (rounded rt h c s)"
  unfolding drive_idle_def Let_def
proof (rule triple_if[OF stay_rounded])
  assume "\<not> ((case rn_wait s of None \<Rightarrow> False | Some wt \<Rightarrow> wt_reason wt \<notin> {''execution_pending'', ''grounding_required''})
      \<or> \<not> allow \<or> rn_cancel s \<noteq> None)"
  then have cancel: "rn_cancel s = None" by simp
  have adopt: "moving rt h c s False (abind (adopt_pending h s trial) (\<lambda>s. areturn (False, s))) (rounded rt h c s)" for trial
    by (rule triple_bind[OF adopt_moving[OF cancel]], rule moving_return) (simp add: rounded_def)
  have keep: "moving rt h c s False (abind (save_runner (s\<lparr>rn_status := v\<rparr>)) (\<lambda>_. areturn (False, s\<lparr>rn_status := v\<rparr>))) (rounded rt h c s)" for v
  proof (rule moving_noted)
    show "noted s (s\<lparr>rn_status := v\<rparr>)" by (rule noted_same) (simp_all add: same_run_def)
    show "moving rt h c (s\<lparr>rn_status := v\<rparr>) False (abind (save_runner (s\<lparr>rn_status := v\<rparr>)) (\<lambda>_. areturn (False, s\<lparr>rn_status := v\<rparr>))) (rounded rt h c s)"
      by (intro moving_save moving_return) (simp add: rounded_def)
  qed
  show "moving rt h c s False (abind (trial_status h (rn_run s)) (\<lambda>trial.
        if pget trial ''pending'' \<noteq> PNone then abind (adopt_pending h s trial) (\<lambda>s. areturn (False, s))
        else abind (alift (in_names (pget trial ''status'') run_end)) (\<lambda>ended.
          if ended then abind (save_runner (s\<lparr>rn_status := py_str (pget trial ''status'')\<rparr>))
              (\<lambda>_. areturn (False, s\<lparr>rn_status := py_str (pget trial ''status'')\<rparr>))
          else if pget trial ''status'' \<noteq> PStr ''ready'' then
            pause h s (if pget trial ''status'' = PStr ''paused_uncertain'' then ''uncertain'' else ''failed'')
          else drive_step h s trial))) (rounded rt h c s)"
    by (intro harmless_bind_moving[OF harmless_reads(2)] triple_if adopt lift_moving keep pause_rounded
      drive_step_moving[OF assms cancel])
qed

lemma round_moving: "moving rt h c s False (drive_round h allow s) (rounded rt h c s)"
proof -
  have less: "triple (rounded rt h c s r) (case r of (again, s') \<Rightarrow> areturn (again \<and> allow, s')) (rounded rt h c s) (somewhere rt h c)" for r
    by (cases r) (auto intro!: triple_return simp: rounded_def)
  have "moving rt h c s False (case rn_ticket s of Some t \<Rightarrow> drive_ticket h s t | None \<Rightarrow> drive_idle h allow s) (rounded rt h c s)"
    by (cases "rn_ticket s") (simp_all add: drive_idle_moving drive_ticket_moving)
  then show ?thesis unfolding drive_round_def by (intro triple_if stay_rounded triple_bind[OF _ less])
qed

lemma loop_moving: "moving rt h c s False (drive_loop n h allow s) (\<lambda>s' w. reached rt h c s' False w)"
proof (induction n arbitrary: s)
  case 0
  have "moving rt h c s False (runner_wait h s ''failed'' PNone) (\<lambda>s' w. reached rt h c s' False w)"
    by (rule triple_conseq[OF wait_moving]) (auto simp: waited_def)
  then show ?case by (auto intro: moving_return)
next
  case (Suc n)
  have "triple (rounded rt h c s r) (case r of (again, s') \<Rightarrow> if again then drive_loop n h allow s' else areturn s')
      (\<lambda>s' w. reached rt h c s' False w) (somewhere rt h c)" for r
  proof (cases r)
    case (Pair again s')
    show ?thesis unfolding Pair prod.case
      by (rule triple_if; rule triple_pre[where P = "reached rt h c s' False"])
        (auto intro: Suc moving_return simp: rounded_def)
  qed
  then show ?case by (auto intro: triple_bind[OF round_moving])
qed

lemma drive_moving: "moving rt h c s False (drive h allow s) (\<lambda>s' w. reached rt h c s' False w)"
  unfolding drive_def
  by (intro harmless_bind_moving[OF harmless_reads(2)] harmless_bind_moving[OF harmless_reads(4)] triple_if moving_return loop_moving)

lemma drive_shown: "moving rt h c s False (abind (drive h allow s) (snapshot h)) (\<lambda>_. somewhere rt h c)"
  by (rule triple_bind[OF drive_moving], rule harmless_moving[OF harmless_reads(9)]) simp

section \<open>The moves of each operation\<close>

text \<open>Rules for the calls and checks an operation begins with: as long as no file has changed, whatever holds of
  unchanged files (\<open>E\<close>) holds if it raises here.\<close>

definition covers :: "'e world \<Rightarrow> ('e world \<Rightarrow> bool) \<Rightarrow> bool" where
  "covers w E = (\<forall>v. same_files w v \<longrightarrow> E v)"

lemma coversD: "covers w E \<Longrightarrow> same_files w v \<Longrightarrow> E v"
  by (simp add: covers_def)

lemma covers_all [simp]: "covers w (\<lambda>_. True)" "covers w (same_files w)"
  by (simp_all add: covers_def)

lemma calm_harmless:
  "covers w E \<Longrightarrow> harmless m \<Longrightarrow> (\<And>x v. same_files w v \<Longrightarrow> Q x v) \<Longrightarrow> triple (same_files w) m Q E"
  unfolding triple_def harmless_def covers_def by (metis same_files_trans snd_conv)

lemma calm_bind:
  "covers w E \<Longrightarrow> harmless m \<Longrightarrow> (\<And>x. triple (same_files w) (g x) Q E) \<Longrightarrow> triple (same_files w) (abind m g) Q E"
  by (rule triple_bind[where R = "\<lambda>_. same_files w"]) (auto intro: calm_harmless)

lemma calm_lift:
  "covers w E \<Longrightarrow> (\<And>x. r = Inr x \<Longrightarrow> triple (same_files w) (k x) Q E) \<Longrightarrow>
    triple (same_files w) (abind (alift r) k) Q E"
  by (cases r) (auto simp: triple_def abind_def alift_def dest: coversD)

lemma calm_check:
  "covers w E \<Longrightarrow> (b \<Longrightarrow> triple (same_files w) (k ()) Q E) \<Longrightarrow>
    triple (same_files w) (abind (acheck b e) k) Q E"
  unfolding acheck_def by (rule calm_lift) (simp_all add: ensure_def split: if_splits)

definition loaded :: "'e host \<Rightarrow> string \<Rightarrow> 'e world \<Rightarrow> runner option \<Rightarrow> bool" where
  "loaded h run w found = (map_of (wd_runs w) run = found
     \<and> (\<forall>s. found = Some s \<longrightarrow> rn_run s = run \<and> rn_source s = ho_source h))"

lemma load_loaded: "triple (same_files w) (load_runner h run) (\<lambda>found v. loaded h run w found \<and> same_files w v) (same_files w)"
proof -
  have "loaded h run w found \<and> same_files w v'" if "same_files w v" "load_runner h run v = (Inr found, v')" for v v' found
    using that by (auto simp: load_runner_def abind_Inr_iff alift_def aget_def acheck_def areturn_def loaded_def
        same_files_def ensure_def split: option.splits if_splits)
  moreover have "same_files w v'" if "same_files w v" "load_runner h run v = (Inl e, v')" for v v' e
    using harmless_reads(5)[of h run] that unfolding harmless_def by (metis same_files_trans snd_conv)
  ultimately show ?thesis unfolding triple_def by blast
qed

lemma calm_load:
  assumes "covers w E" and "\<And>found. loaded h run w found \<Longrightarrow> triple (same_files w) (g found) Q E"
  shows "triple (same_files w) (abind (load_runner h run) g) Q E"
proof (rule triple_bind)
  show "triple (same_files w) (load_runner h run) (\<lambda>found v. loaded h run w found \<and> same_files w v) E"
    by (rule triple_conseq[OF load_loaded], assumption, assumption) (rule coversD[OF assms(1)])
  show "triple (\<lambda>v. loaded h run w found \<and> same_files w v) (g found) Q E" for found
    by (rule triple_and) (rule assms(2))
qed

lemma calm_known:
  assumes "covers w E" and "\<And>s. loaded h run w (Some s) \<Longrightarrow> triple (same_files w) (g s) Q E"
  shows "triple (same_files w) (abind (known_runner h run) g) Q E"
  unfolding known_runner_def abind_assoc
proof (rule calm_load[OF assms(1)])
  fix found
  assume l: "loaded h run w found"
  show "triple (same_files w) (abind (case found of None \<Rightarrow> alift (Inl (ValueError ''workflow_runner_run_unknown''))
      | Some s \<Rightarrow> areturn s) g) Q E"
    using l assms by (cases found) (auto simp: triple_def abind_def alift_def dest: coversD)
qed

text \<open>The state an operation goes on from: the saved one, or a new one for a run that has none.\<close>

fun op_run :: "runner_op \<Rightarrow> string" where
  "op_run (StartRun run _ _ _) = run"
| "op_run (AdvanceRun run) = run"
| "op_run (ShowRun run) = run"
| "op_run (CancelRun run _) = run"
| "op_run (ResumeRun run _ _) = run"
| "op_run (ResumePreDispatch run _ _ _) = run"
| "op_run (ImportRun run _ _ _ _ _) = run"

definition origin :: "string \<Rightarrow> 'e world \<Rightarrow> runner \<Rightarrow> bool" where
  "origin run w s = (rn_run s = run \<and> (map_of (wd_runs w) run = Some s
     \<or> (map_of (wd_runs w) run = None \<and> rn_ticket s = None \<and> rn_cancel s = None)))"

definition outcome :: "bool \<Rightarrow> 'e host \<Rightarrow> string \<Rightarrow> 'e world \<Rightarrow> 'e world \<Rightarrow> bool" where
  "outcome rt h run w w' = (same_files w w' \<or> (\<exists>s. origin run w s \<and> somewhere rt h (s, False, w) w'))"

abbreviation working :: "bool \<Rightarrow> 'e host \<Rightarrow> string \<Rightarrow> 'e world \<Rightarrow> ('a, 'e world) act \<Rightarrow> bool" where
  "working rt h run w m \<equiv> triple (same_files w) m (\<lambda>_. outcome rt h run w) (outcome rt h run w)"

lemma same_files_outcome: "covers w (outcome rt h run w)"
  by (simp add: covers_def outcome_def)

lemmas working_bind = calm_bind[OF same_files_outcome]
lemmas working_lift = calm_lift[OF same_files_outcome]
lemmas working_check = calm_check[OF same_files_outcome]
lemmas working_load = calm_load[OF same_files_outcome]

lemma working_harmless: "harmless m \<Longrightarrow> working rt h run w m"
  by (erule calm_harmless[OF same_files_outcome]) (rule coversD[OF same_files_outcome])

lemma working_from:
  assumes "origin run w s" and "moving rt h (s, False, w) s False m (\<lambda>_. somewhere rt h (s, False, w))"
  shows "working rt h run w m"
proof (rule triple_conseq[OF assms(2)])
  show "reached rt h (s, False, w) s False w'" if "same_files w w'" for w'
    unfolding reached_def using rm_outside[OF that] by (rule r_into_rtranclp)
  show "outcome rt h run w w'" if "somewhere rt h (s, False, w) w'" for w'
    using assms(1) that unfolding outcome_def by blast
  then show "somewhere rt h (s, False, w) w' \<Longrightarrow> outcome rt h run w w'" for w' .
qed

lemma loaded_origin: "loaded h run w (Some s) \<Longrightarrow> origin run w s"
  by (simp add: loaded_def origin_def)

lemma working_known:
  "(\<And>s. origin run w s \<Longrightarrow> working rt h run w (g s)) \<Longrightarrow> working rt h run w (abind (known_runner h run) g)"
  by (rule calm_known[OF same_files_outcome]) (simp add: loaded_origin)

lemma shown_after: "(\<And>x w. Q x w \<Longrightarrow> somewhere rt h c w) \<Longrightarrow> harmless (k x) \<Longrightarrow> triple (Q x) (k x) (\<lambda>_. somewhere rt h c) (somewhere rt h c)"
  unfolding triple_def harmless_def somewhere_def by (metis reached_outside snd_conv)
lemma drive_working: "origin run w s \<Longrightarrow> noted s t \<Longrightarrow> working rt h run w (abind (save_runner t) (\<lambda>_. abind (drive h allow t) (snapshot h)))"
  by (rule working_from, assumption, rule moving_noted, assumption, rule moving_save) (rule drive_shown)

lemma noted_update:
  "noted s (s\<lparr>rn_controls := a, rn_resumes := b, rn_wait := None, rn_status := v\<rparr>)"
  by (rule noted_same) (simp_all add: same_run_def)

lemma begin_working:
  assumes "origin (rn_run s) w s"
  shows "working rt h (rn_run s) w (begin_run h s)"
proof -
  have "moving rt h c s False (abind (set_active (rn_run s)) (\<lambda>_. abind (drive h True s) (snapshot h))) (\<lambda>_. somewhere rt h c)" for c
    by (rule harmless_bind_moving[OF harmless_active]) (rule drive_shown)
  then show ?thesis unfolding begin_run_def by (intro working_from[OF assms] moving_save)
qed

lemma start_working: "working rt h run w (runner_start h run request mode vision)"
proof -
  let ?s = "\<lambda>seeing. new_runner h run request mode seeing (start_control h run mode vision)"
  have admitted: "harmless (case ho_prepare_trial h of None \<Rightarrow> areturn ()
       | Some prepare_trial \<Rightarrow> abind (awhen (found = None) (admit_start h)) (\<lambda>_. calling prepare_trial))" for found :: "runner option"
    by (intro harmlessI)
  have new: "working rt h run w (begin_run h (?s seeing))" if "loaded h run w None" for seeing
    using begin_working[of "?s seeing" w h] that by (simp add: new_runner_def origin_def loaded_def)
  have "working rt h run w (case found of
         Some s \<Rightarrow> abind (acheck (rn_start s = request \<and> rn_mode s = mode \<and> py_eq (rn_vision s) seeing)
           (ValueError ''workflow_runner_start_conflict'')) (\<lambda>_. snapshot h s)
       | None \<Rightarrow> abind (awhen (ho_prepare_trial h = None) (admit_start h)) (\<lambda>_.
           abind (trial_status h run) (\<lambda>_. begin_run h (?s seeing))))"
    if l: "loaded h run w found" for found seeing
  proof (cases found)
    case None
    then show ?thesis using l by (simp add: working_bind new harmlessI)
  next
    case (Some s)
    show ?thesis unfolding Some option.case by (intro working_harmless harmlessI)
  qed
  then show ?thesis
    unfolding runner_start_def
    by (intro working_bind[OF harmless_simple(2)] working_bind[OF harmless_simple(4)] working_load
      working_bind[OF admitted] working_bind[OF harmless_reads(2)] working_bind[OF harmless_reads(4)])
qed

lemma advance_working: "working rt h run w (runner_advance h run)"
  unfolding runner_advance_def
  by (intro working_known working_bind[OF harmless_reads(2)] working_bind[OF harmless_reads(4)])
    (erule working_from, rule drive_shown)

lemma status_working: "working rt h run w (runner_status h run)"
  unfolding runner_status_def by (intro working_harmless harmlessI)

lemma resume_now_working: "origin run w s \<Longrightarrow> working rt h run w (resume_now h s request wait_id)"
  unfolding resume_now_def Let_def
  by (intro working_bind[OF harmless_simple(4)] working_bind[OF harmless_outside(2)] drive_working)
    (auto simp: resume_state_def intro!: noted_update)

lemma resume_working: "working rt h run w (runner_resume h run request wait_id)"
  unfolding runner_resume_def
proof (intro working_bind[OF harmless_simple(4)] working_known working_bind[OF harmless_reads(2)] working_bind[OF harmless_reads(4)])
  fix s
  assume s: "origin run w s"
  show "working rt h run w (case map_of (rn_resumes s) request of
       Some prior \<Rightarrow> abind (acheck (prior = wait_id) (ValueError ''workflow_runner_resume_conflict'')) (\<lambda>_. snapshot h s)
     | None \<Rightarrow>
         abind (acheck (case rn_wait s of None \<Rightarrow> False | Some wt \<Rightarrow> wt_id wt = wait_id)
           (ValueError ''workflow_runner_wait_id_mismatch'')) (\<lambda>_.
         if rn_ticket s \<noteq> None then resume_now h s request wait_id
         else abind (trial_status h run) (\<lambda>now.
           abind (alift (in_names (pget now ''status'') (''ready'' # run_end))) (\<lambda>goes.
           if goes then resume_now h s request wait_id else snapshot h s))))"
  proof (cases "map_of (rn_resumes s) request")
    case None
    have goes: "working rt h run w (if b then resume_now h s request wait_id else snapshot h s)" for b
      by (cases b) (simp_all add: resume_now_working[OF s] working_harmless harmless_reads)
    show ?thesis unfolding None option.case
      by (intro working_check triple_if resume_now_working[OF s] working_bind[OF harmless_reads(2)] working_lift goes)
  next
    case (Some prior)
    show ?thesis unfolding Some option.case by (intro working_harmless harmlessI)
  qed
qed

text \<open>Only a run that is not cancelled already, or by the same request, is cancelled.\<close>

lemma settle_cancelled_moving: "moving rt h c s False (settle_cancelled h s trial) (\<lambda>s' w. reached rt h c s' False w)"
proof -
  have n: "noted s (s\<lparr>rn_status := v\<rparr>)" for v by (rule noted_same) (simp_all add: same_run_def)
  have keep: "moving rt h c s False (abind (save_runner (s\<lparr>rn_status := v\<rparr>)) (\<lambda>_. areturn (s\<lparr>rn_status := v\<rparr>)))
      (\<lambda>s' w. reached rt h c s' False w)" for v
    by (rule moving_noted[OF n], rule moving_save, rule moving_return)
  have settle: "moving rt h c s False (abind (settle_reviewed h s trial) (\<lambda>(_, s'). areturn s')) (\<lambda>s' w. reached rt h c s' False w)"
    by (rule triple_bind[OF settle_moving]) (auto simp: onward_def intro!: triple_return)
  show ?thesis unfolding settle_cancelled_def Let_def
    by (cases "rn_ticket s") (auto intro: keep settle)
qed

lemma cancel_working: "working rt h run w (runner_cancel h run request)"
  unfolding runner_cancel_def
proof (intro working_known working_bind[OF harmless_when] working_bind[OF harmless_reads(2)] working_check)
  fix s
  assume s: "origin run w s" and ok: "rn_cancel s = None \<or> rn_cancel s = Some request"
  have "moving rt h c s False (abind (finish_verification_wait h s ''cancelled'') (\<lambda>t.
       abind (settle_cancelled h (t\<lparr>rn_cancel := Some request\<rparr>) trial) (snapshot h))) (\<lambda>_. somewhere rt h c)" for c trial
  proof (rule triple_bind[where R = "\<lambda>t w. noted s t \<and> reached rt h c t False w"])
    show "moving rt h c s False (finish_verification_wait h s ''cancelled'') (\<lambda>t w. noted s t \<and> reached rt h c t False w)"
      unfolding finish_verification_wait_def by (intro triple_get conjI close_wait_noted) (erule reached_note, rule close_wait_noted)
    fix t :: runner
    have "triple (reached rt h c (t\<lparr>rn_cancel := Some request\<rparr>) False)
        (abind (settle_cancelled h (t\<lparr>rn_cancel := Some request\<rparr>) trial) (snapshot h)) (\<lambda>_. somewhere rt h c) (somewhere rt h c)"
      by (rule triple_bind[OF settle_cancelled_moving], rule shown_after) (auto intro: harmlessI)
    moreover have "reached rt h c (t\<lparr>rn_cancel := Some request\<rparr>) False w'" if "noted s t" "reached rt h c t False w'" for w'
      using reached_move[OF that(2) rm_cancel[of t request]] ok notedD(3)[OF that(1)] by simp
    ultimately show "triple (\<lambda>w. noted s t \<and> reached rt h c t False w)
        (abind (settle_cancelled h (t\<lparr>rn_cancel := Some request\<rparr>) trial) (snapshot h)) (\<lambda>_. somewhere rt h c) (somewhere rt h c)"
      by (intro triple_and) (erule triple_pre)
  qed
  then show "working rt h run w (if rn_status s \<in> set run_end then snapshot h s
     else abind (trial_cancelled h run request) (\<lambda>trial.
       abind (finish_verification_wait h s ''cancelled'') (\<lambda>closed.
       abind (settle_cancelled h (closed\<lparr>rn_cancel := Some request\<rparr>) trial) (snapshot h))))"
    by (intro triple_if working_harmless harmlessI working_bind[OF harmless_reads(3)] working_from[OF s])
qed (intro harmlessI)
lemma intervene_working:
  assumes "origin run w s" and "ho_source h = ''caller_plan''" and "rn_cancel s = None"
  shows "working True h run w (intervene h s request wait_id review control)"
proof -
  have "moving True h c s False (abind (finish_verification_wait h (retire_ticket s request control sha step) ''resumed_pre_dispatch'')
      (\<lambda>closed. let after = closed\<lparr>rn_ticket := None, rn_wait := None, rn_status := ''ready''\<rparr> in
       abind (save_runner after) (\<lambda>_. abind (drive h True after) (snapshot h)))) (\<lambda>_. somewhere True h c)" for c sha step
  proof (rule triple_bind[where R = "\<lambda>t w. noted (retire_ticket s request control sha step) t \<and> reached True h c s False w"])
    show "moving True h c s False (finish_verification_wait h (retire_ticket s request control sha step) ''resumed_pre_dispatch'')
        (\<lambda>t w. noted (retire_ticket s request control sha step) t \<and> reached True h c s False w)"
      unfolding finish_verification_wait_def by (intro triple_get conjI close_wait_noted)
    fix t :: runner
    let ?t = "t\<lparr>rn_ticket := None, rn_wait := None, rn_status := ''ready''\<rparr>"
    have "moving True h c ?t False (abind (save_runner ?t) (\<lambda>_. abind (drive h True ?t) (snapshot h))) (\<lambda>_. somewhere True h c)"
      by (intro moving_save drive_shown)
    moreover have "reached True h c ?t False w'" if n: "noted (retire_ticket s request control sha step) t" and "reached True h c s False w'" for w'
    proof (rule reached_move[OF that(2)], rule rm_retire[where step = step, OF TrueI assms(2,3)])
      show "same_run s ?t" using notedD(1-4)[OF n] by (simp add: same_run_def retire_ticket_def)
      show "rn_seen ?t = filter (\<lambda>k. k \<noteq> step) (rn_seen s)" using notedD(5)[OF n] by (simp add: retire_ticket_def)
    qed simp
    ultimately show "triple (\<lambda>w. noted (retire_ticket s request control sha step) t \<and> reached True h c s False w)
        (let after = ?t in abind (save_runner after) (\<lambda>_. abind (drive h True after) (snapshot h))) (\<lambda>_. somewhere True h c) (somewhere True h c)"
      unfolding Let_def by (intro triple_and) (erule triple_pre)
  qed
  then show ?thesis
    unfolding intervene_def
    by (intro working_check working_lift working_bind[OF harmless_outside(2)] working_from[OF assms(1)])
qed

lemma intervention_working: "working True h run w (runner_resume_pre_dispatch h run request wait_id review)"
  unfolding runner_resume_pre_dispatch_def
proof (intro working_check working_known working_bind[OF harmless_reads(2)])
  fix s trial
  assume h: "ho_source h = ''caller_plan''" and s: "origin run w s"
  let ?c = "runner_digest (PDict [(''kind'', PStr ''task_plan''), (''request'', review)])"
  show "working True h run w (case map_of (rn_interventions s) request of
       Some prior \<Rightarrow> abind (acheck (prior = runner_digest review) (ValueError ''workflow_runner_intervention_resume_conflict''))
         (\<lambda>_. snapshot h s)
     | None \<Rightarrow>
         abind (acheck (rn_cancel s = None) (ValueError ''workflow_runner_intervention_cancelled_or_terminal'')) (\<lambda>_.
         abind (alift (rbind (item trial ''status'') (\<lambda>status. in_names status (''cancel_requested'' # run_end)))) (\<lambda>ended.
         abind (acheck (\<not> ended) (ValueError ''workflow_runner_intervention_cancelled_or_terminal'')) (\<lambda>_.
         let control = ?c in
         abind (acheck (case map_of (rn_controls s) request of None \<Rightarrow> True | Some old \<Rightarrow> old = control)
           (ValueError ''workflow_runner_control_conflict'')) (\<lambda>_.
         abind (alift (get_or_raise (pget_default trial ''intervention_resumes'' (PDict [])) request)) (\<lambda>known.
         abind (awhen (known = PNone)
           (abind (recovery_guard h trial (Some s) True) (\<lambda>_.
            acheck ((case rn_wait s of None \<Rightarrow> False | Some wt \<Rightarrow> wt_id wt = wait_id) \<and> rn_ticket s \<noteq> None)
              (ValueError ''workflow_runner_intervention_wait_id_mismatch'')))) (\<lambda>_.
         intervene h s request wait_id review control)))))))"
  proof (cases "map_of (rn_interventions s) request")
    case None
    show ?thesis unfolding None option.case Let_def
      by (intro working_check working_lift working_bind[OF harmless_when] harmlessI intervene_working[OF s h])
  next
    case (Some prior)
    show ?thesis unfolding Some option.case by (intro working_harmless harmlessI)
  qed
qed

lemma import_working: "working rt h run w (runner_import_recovery h run request mode claim seen vision)"
proof -
  have shown: "harmless (abind (set_active run) (\<lambda>_. show_trial h s trial))" for s trial
    by (intro harmlessI)
  have "working rt h run w (abind (case found of
         Some s \<Rightarrow> abind (acheck (import_matches s claim request mode seeing seen trial)
           (ValueError ''workflow_runner_recovery_import_conflict'')) (\<lambda>_. areturn s)
       | None \<Rightarrow> let s = imported_runner h run request mode claim seeing seen trial in
           if pget trial ''status'' = PStr ''ready'' then runner_wait h s ''takeover_ready'' PNone
           else abind (save_runner s) (\<lambda>_. areturn s)) (\<lambda>s.
     abind (set_active run) (\<lambda>_. show_trial h s trial)))" if l: "loaded h run w found" for found seeing trial
  proof (cases found)
    case None
    let ?s = "imported_runner h run request mode claim seeing seen trial"
    have s: "origin run w ?s" using l None by (simp add: imported_runner_def new_runner_def origin_def loaded_def)
    have "moving rt h c ?s False (abind (if pget trial ''status'' = PStr ''ready'' then runner_wait h ?s ''takeover_ready'' PNone
           else abind (save_runner ?s) (\<lambda>_. areturn ?s)) (\<lambda>s. abind (set_active run) (\<lambda>_. show_trial h s trial))) (\<lambda>_. somewhere rt h c)" for c
    proof (rule triple_bind[where R = "\<lambda>s w. reached rt h c s False w"])
      show "moving rt h c ?s False (if pget trial ''status'' = PStr ''ready'' then runner_wait h ?s ''takeover_ready'' PNone
           else abind (save_runner ?s) (\<lambda>_. areturn ?s)) (\<lambda>s w. reached rt h c s False w)"
        by (intro triple_if moving_save moving_return triple_conseq[OF wait_moving]) (auto simp: waited_def)
      show "moving rt h c s False (abind (set_active run) (\<lambda>_. show_trial h s trial)) (\<lambda>_. somewhere rt h c)" for s
        by (rule shown_after) (auto simp: shown)
    qed
    then show ?thesis unfolding None option.case Let_def by (rule working_from[OF s])
  next
    case (Some s)
    show ?thesis unfolding Some option.case by (intro working_harmless harmlessI)
  qed
  then show ?thesis
    unfolding runner_import_recovery_def
    by (intro working_check working_lift working_bind[OF harmless_reads(2)] working_bind[OF harmless_outside(2)]
      working_bind[OF harmless_checks(4)] working_load)
qed

lemma after_triple:
  assumes "triple (same_files w) (runner_do h op) (\<lambda>_. E) E"
  shows "E (runner_after (h, op) w)"
proof (cases "runner_do h op w")
  case (Pair r v)
  then show ?thesis
    using tripleD[OF assms same_files_refl, of _ v] triple_raised[OF assms same_files_refl, of _ v]
    by (cases r) (simp_all add: runner_after_def)
qed

text \<open>The one operation that retires a step.\<close>

fun retires :: "runner_op \<Rightarrow> bool" where
  "retires (ResumePreDispatch _ _ _ _) = True"
| "retires _ = False"

lemma runner_moves: "outcome (retires op) h (op_run op) w (runner_after (h, op) w)"
proof (rule after_triple)
  show "working (retires op) h (op_run op) w (runner_do h op)"
    by (cases op) (simp_all add: start_working advance_working status_working cancel_working resume_working
      intervention_working import_working)
qed

end
