(* ===== verification/RunnerRuns.thy ===== *)
theory RunnerRuns
  imports RunnerMoves
begin

text \<open>
  What holds of all runs of the runner, in any order of operations and with any answers of the callbacks: a command is
  handed over once, after the file of the run says so, at most one in the mode \<^verbatim>\<open>single\<close>, none after a
  cancellation or the end; the bound on the rounds of the drive is never reached. An intervention on a caller plan retires
  a step that was handed over, so the statements about the step speak of the stretch between two interventions, and the
  one about the bound of runs that are no caller plans. Each invariant is proved of the moves
  of \<open>RunnerMoves\<close>. The last section runs a sample.
\<close>

section \<open>What all moves keep\<close>

text \<open>A command is handed over again only after it was refused as busy, and it is the same command.\<close>

definition again_ok :: "sending \<Rightarrow> sending \<Rightarrow> bool" where
  "again_ok x y = (sd_run x = sd_run y \<and> tk_step (sd_ticket x) = tk_step (sd_ticket y) \<longrightarrow>
     sd_busy x \<and> tk_id (sd_ticket x) = tk_id (sd_ticket y) \<and> tk_command (sd_ticket x) = tk_command (sd_ticket y))"

text \<open>The file of the run said, when the command was handed over, that it was being handed over.\<close>

definition written_ahead :: "sending \<Rightarrow> bool" where
  "written_ahead x = (case sd_saved x of None \<Rightarrow> False | Some s \<Rightarrow> rn_run s = sd_run x \<and> tk_step (sd_ticket x) \<in> set (rn_seen s)
     \<and> rn_ticket s = Some ((sd_ticket x)\<lparr>tk_dispatch := Dispatching, tk_error := PNone\<rparr>))"

text \<open>A state knows of everything that was handed over for its run, from the \<open>n\<close>th handover of the world on.\<close>

definition accounts_for :: "runner \<Rightarrow> sending \<Rightarrow> bool" where
  "accounts_for s x = (sd_run x = rn_run s \<longrightarrow> tk_step (sd_ticket x) \<in> set (rn_seen s)
     \<and> (\<forall>t. rn_ticket s = Some t \<and> tk_step t = tk_step (sd_ticket x) \<longrightarrow> tk_id (sd_ticket x) = tk_id t
         \<and> tk_command (sd_ticket x) = tk_command t \<and> (tk_dispatch t = Deferred \<longrightarrow> sd_busy x)))"

abbreviation sent_since :: "nat \<Rightarrow> 'e world \<Rightarrow> sending list" where
  "sent_since n w \<equiv> drop n (wd_sent w)"

definition accounts :: "nat \<Rightarrow> runner \<Rightarrow> 'e world \<Rightarrow> bool" where
  "accounts n s w = ((\<forall>x \<in> set (sent_since n w). accounts_for s x) \<and> (\<forall>t. rn_ticket s = Some t \<longrightarrow> tk_step t \<in> set (rn_seen s)))"

definition again_within :: "string \<Rightarrow> sending \<Rightarrow> sending \<Rightarrow> bool" where
  "again_within run x y = (sd_run x = run \<longrightarrow> again_ok x y)"

definition run_ok :: "nat \<Rightarrow> string \<Rightarrow> 'e world \<Rightarrow> bool" where
  "run_ok n run w = (n \<le> length (wd_sent w) \<and> sorted_wrt (again_within run) (sent_since n w)
     \<and> (case map_of (wd_runs w) run of None \<Rightarrow> (\<forall>x \<in> set (sent_since n w). sd_run x \<noteq> run)
        | Some s \<Rightarrow> rn_run s = run \<and> accounts n s w))"

definition unsent :: "nat \<Rightarrow> runner \<Rightarrow> 'e world \<Rightarrow> bool" where
  "unsent n s w = (\<exists>t. rn_ticket s = Some t \<and> (\<forall>x \<in> set (sent_since n w). sd_run x = rn_run s \<longrightarrow> tk_step (sd_ticket x) \<noteq> tk_step t))"

fun config_ok :: "nat \<Rightarrow> string \<Rightarrow> 'e config \<Rightarrow> bool" where
  "config_ok n run (s, f, w) = (rn_run s = run \<and> run_ok n run w \<and> accounts n s w \<and> (f \<longrightarrow> unsent n s w))"

lemma accounts_same: "wd_sent w' = wd_sent w \<Longrightarrow> accounts n s w' = accounts n s w"
  by (simp add: accounts_def)

lemma unsent_same: "wd_sent w' = wd_sent w \<Longrightarrow> unsent n s w' = unsent n s w"
  by (simp add: unsent_def)

lemma run_ok_same: "same_files w w' \<Longrightarrow> run_ok n run w' = run_ok n run w"
  by (simp add: run_ok_def same_files_def accounts_def split: option.split)

lemma run_ok_save: "run_ok n run w \<Longrightarrow> accounts n s w \<Longrightarrow> rn_run s = run \<Longrightarrow> run_ok n run (saved s w)"
  by (simp add: run_ok_def saved_def map_after_put accounts_def)

lemma accounts_noted:
  assumes "noted s s'" and "accounts n s w"
  shows "accounts n s' w"
proof (cases "rn_ticket s'")
  case None
  then show ?thesis using assms notedD[OF assms(1)] by (simp add: accounts_def accounts_for_def)
next
  case (Some t')
  then obtain t v where "rn_ticket s = Some t" "t' = t\<lparr>tk_error := v\<rparr>" using assms(1) by (auto simp: noted_def)
  then show ?thesis using assms(2) notedD[OF assms(1)] Some by (simp add: accounts_def accounts_for_def)
qed

lemma unsent_noted:
  assumes "noted s s'" and "unsent n s w" and "rn_ticket s' \<noteq> None"
  shows "unsent n s' w"
proof -
  obtain t v where "rn_ticket s = Some t" "rn_ticket s' = Some (t\<lparr>tk_error := v\<rparr>)" using assms(1,3) by (auto simp: noted_def)
  then show ?thesis using assms(2) notedD(1)[OF assms(1)] by (auto simp: unsent_def)
qed

lemma accounts_take:
  assumes "accounts n s w" and "same_run s s'" and "rn_seen s' = rn_seen s @ [tk_step t]" and "rn_ticket s' = Some t"
    and "tk_step t \<notin> set (rn_seen s)"
  shows "accounts n s' w" "unsent n s' w"
  using assms by (auto simp: accounts_def accounts_for_def unsent_def same_run_def)

text \<open>Handing a command over.\<close>

lemma send_config:
  assumes ok: "config_ok n run (s, f, w)" and t: "rn_ticket s = Some t"
    and may: "f \<or> (tk_dispatch t = Deferred \<and> rn_cancel s = None)"
    and sending: "sending = set_error PNone (set_dispatch Dispatching s)"
    and x: "x = \<lparr>sd_run = rn_run s, sd_ticket = t, sd_busy = b, sd_saved = Some sending\<rparr>" and d: "d = Deferred \<longrightarrow> b"
    and w': "wd_runs w' = put (rn_run s) sending (wd_runs w)" "wd_sent w' = wd_sent w @ [x]"
  shows "config_ok n run (set_dispatch d sending, False, w')"
proof -
  let ?t = "t\<lparr>tk_dispatch := Dispatching, tk_error := PNone\<rparr>"
  have w: "run_ok n run w" and a: "accounts n s w" and run: "rn_run s = run" using ok by simp_all
  have since: "sent_since n w' = sent_since n w @ [x]" using w by (simp add: w'(2) run_ok_def)
  have ticket: "rn_ticket sending = Some ?t" and keeps: "rn_run sending = rn_run s" "rn_seen sending = rn_seen s"
    using t by (simp_all add: sending)
  have known: "tk_step t \<in> set (rn_seen s)" using a t by (simp add: accounts_def)
  have before: "sd_busy y \<and> tk_id (sd_ticket y) = tk_id t \<and> tk_command (sd_ticket y) = tk_command t"
    if y: "y \<in> set (sent_since n w)" "sd_run y = rn_run s" "tk_step (sd_ticket y) = tk_step t" for y
  proof -
    have "\<not> f" using ok y t by (auto simp: unsent_def)
    then have "tk_dispatch t = Deferred" using may by simp
    then show ?thesis using a y t by (auto simp: accounts_def accounts_for_def)
  qed
  have sends: "sorted_wrt (again_within run) (sent_since n w')"
    using w before unfolding since by (auto simp: sorted_wrt_append run_ok_def again_within_def again_ok_def x)
  have after: "accounts n (set_dispatch e sending) w'" if "e = Deferred \<longrightarrow> b" for e
    unfolding accounts_def since
  proof (intro conjI ballI)
    show "\<forall>u. rn_ticket (set_dispatch e sending) = Some u \<longrightarrow> tk_step u \<in> set (rn_seen (set_dispatch e sending))"
      using known by (simp add: ticket keeps)
    fix y assume "y \<in> set (sent_since n w @ [x])"
    then consider "y = x" | "y \<in> set (sent_since n w)" by auto
    then show "accounts_for (set_dispatch e sending) y"
    proof cases
      case 1
      then show ?thesis using known that by (simp add: accounts_for_def x keeps ticket)
    next
      case 2
      then have "sd_run y = rn_run s \<Longrightarrow> tk_step (sd_ticket y) \<in> set (rn_seen s)"
        using a by (simp add: accounts_def accounts_for_def)
      then show ?thesis using before[OF 2] by (auto simp: accounts_for_def keeps ticket)
    qed
  qed
  have "set_dispatch Dispatching sending = sending" unfolding sending by (rule set_dispatch_again)
  then have disk: "accounts n sending w'" using after[of Dispatching] by simp
  have "n \<le> length (wd_sent w')" using w by (simp add: run_ok_def w'(2))
  then have "run_ok n run w'" using sends disk run by (simp add: run_ok_def w'(1) map_after_put keeps)
  then show ?thesis using after[of d] d run by (simp add: keeps)
qed

lemma move_config:
  assumes "rmove rt h c c'" and "\<not> (rt \<and> ho_source h = ''caller_plan'')" and "config_ok n run c"
  shows "config_ok n run c'"
  using assms
proof cases
  case (rm_outside w w' s f)
  then show ?thesis using assms(3) run_ok_same[of w w' n run] accounts_same[of w' w n s] unsent_same[of w' w n s]
    by (simp add: same_files_def)
next
  case (rm_note s s' f w)
  then show ?thesis using assms(3) accounts_noted[OF rm_note(3), of n w] unsent_noted[OF rm_note(3), of n w] notedD(1)[OF rm_note(3)]
    by auto
next
  case (rm_save s f w)
  then show ?thesis using assms(3) run_ok_save[of n run w s] accounts_same[of "saved s w" w n s] unsent_same[of "saved s w" w n s]
    by (simp add: saved_def)
next
  case (rm_take s t s' f w)
  then have "tk_step t \<notin> set (rn_seen s)" by (simp add: out_of_steps_def)
  then show ?thesis using rm_take assms(3) accounts_take[of n s w s' t] by (simp add: same_run_def)
next
  case (rm_external s f w)
  then show ?thesis using assms(3) by (auto simp: accounts_def accounts_for_def)
next
  case (rm_send s t f sending x b d w' w)
  then show ?thesis using send_config[of n run s f w t sending x b d w'] assms(3) by simp
next
  case (rm_cancel s request w)
  then show ?thesis using assms(3) by (auto simp: accounts_def accounts_for_def)
next
  case (rm_retire s s' step w)
  then show ?thesis using assms(2) by simp
qed

lemma reached_config:
  assumes "reached rt h c s f w" and "\<not> (rt \<and> ho_source h = ''caller_plan'')" and "config_ok n run c"
  shows "config_ok n run (s, f, w)"
  using assms(1) unfolding reached_def
proof (induction rule: rtranclp_induct)
  case base
  show ?case by (rule assms(3))
next
  case (step c' c'')
  show ?case by (rule move_config[OF step(2) assms(2) step(3)])
qed

lemma origin_config:
  assumes w: "run_ok n run w" and o: "origin run w s"
  shows "config_ok n run (s, False, w)"
proof (cases "map_of (wd_runs w) run")
  case None
  then have s: "rn_run s = run" "rn_ticket s = None" using o by (simp_all add: origin_def)
  then have "accounts n s w" using w None by (simp add: run_ok_def accounts_def accounts_for_def)
  then show ?thesis using w s by simp
next
  case (Some d)
  then have "d = s" using o by (simp add: origin_def)
  then show ?thesis using w Some by (simp add: run_ok_def)
qed

text \<open>Operations on other runs leave a run alone.\<close>

definition of_run :: "nat \<Rightarrow> string \<Rightarrow> 'e world \<Rightarrow> runner option \<times> sending list" where
  "of_run n run w = (map_of (wd_runs w) run, filter (\<lambda>x. sd_run x = run) (sent_since n w))"

lemma move_other:
  assumes "rmove rt h c c'" and "case c of (s, f, w) \<Rightarrow> rn_run s \<noteq> run \<and> n \<le> length (wd_sent w) \<and> of_run n run w = v"
  shows "case c' of (s, f, w) \<Rightarrow> rn_run s \<noteq> run \<and> n \<le> length (wd_sent w) \<and> of_run n run w = v"
  using assms
  by cases (auto simp: of_run_def same_files_def saved_def map_after_put noted_def same_run_def)

lemma after_other:
  assumes "op_run op \<noteq> run" and "n \<le> length (wd_sent w)"
  shows "n \<le> length (wd_sent (runner_after (h, op) w)) \<and> of_run n run (runner_after (h, op) w) = of_run n run w"
proof -
  from runner_moves[of op h w] consider "same_files w (runner_after (h, op) w)"
    | s t f where "origin (op_run op) w s" "reached (retires op) h (s, False, w) t f (runner_after (h, op) w)"
    unfolding outcome_def somewhere_def by blast
  then show ?thesis
  proof cases
    case 1
    then show ?thesis using assms by (simp add: of_run_def same_files_def)
  next
    case (2 s t f)
    have "case (t, f, runner_after (h, op) w) of (s, f, v) \<Rightarrow>
        rn_run s \<noteq> run \<and> n \<le> length (wd_sent v) \<and> of_run n run v = of_run n run w"
      using 2(2) unfolding reached_def
    proof (induction rule: rtranclp_induct)
      case base
      show ?case using 2(1) assms by (simp add: origin_def)
    next
      case (step c' c'')
      show ?case by (rule move_other[OF step(2,3)])
    qed
    then show ?thesis by simp
  qed
qed

lemma run_ok_of:
  "run_ok n run w = (n \<le> length (wd_sent w) \<and> sorted_wrt again_ok (snd (of_run n run w))
     \<and> (case fst (of_run n run w) of None \<Rightarrow> snd (of_run n run w) = []
        | Some s \<Rightarrow> rn_run s = run \<and> (\<forall>x \<in> set (snd (of_run n run w)). accounts_for s x)
            \<and> (\<forall>t. rn_ticket s = Some t \<longrightarrow> tk_step t \<in> set (rn_seen s))))"
proof -
  have "sorted_wrt (again_within run) xs \<longleftrightarrow> sorted_wrt again_ok (filter (\<lambda>x. sd_run x = run) xs)" for xs
    by (induction xs) (auto simp: again_within_def again_ok_def)
  then show ?thesis
    by (auto simp: run_ok_def of_run_def accounts_def accounts_for_def filter_empty_conv split: option.split)
qed

text \<open>Resuming a run after an intervention retires its ticket; only a caller plan can be resumed so.\<close>

definition intervenes :: "string \<Rightarrow> 'e host \<times> runner_op \<Rightarrow> bool" where
  "intervenes run ho = (ho_source (fst ho) = ''caller_plan'' \<and> retires (snd ho) \<and> op_run (snd ho) = run)"

lemma after_run_ok:
  assumes "\<not> intervenes run (h, op)" and "run_ok n run w"
  shows "run_ok n run (runner_after (h, op) w)"
proof (cases "op_run op = run")
  case False
  then show ?thesis using after_other[of op run n w h] assms(2) unfolding run_ok_of[of n run] by (simp split: option.splits)
next
  case True
  from runner_moves[of op h w] consider "same_files w (runner_after (h, op) w)"
    | s t f where "origin (op_run op) w s" "reached (retires op) h (s, False, w) t f (runner_after (h, op) w)"
    unfolding outcome_def somewhere_def by blast
  then show ?thesis
  proof cases
    case 1
    show ?thesis unfolding run_ok_same[OF 1] by (rule assms(2))
  next
    case (2 s t f)
    have "\<not> (retires op \<and> ho_source h = ''caller_plan'')" using assms(1) True by (auto simp: intervenes_def)
    from reached_config[OF 2(2) this origin_config[OF assms(2) 2(1)[unfolded True]]] show ?thesis by simp
  qed
qed

lemma run_run_ok:
  assumes "list_all (\<lambda>ho. \<not> intervenes run ho) ops" and "run_ok n run w"
  shows "run_ok n run (runner_run ops w)"
  using assms unfolding runner_run_def
  by (induction ops arbitrary: w) (auto simp: after_run_ok)

section \<open>The file is written first\<close>

definition ticket_seen :: "runner \<Rightarrow> bool" where
  "ticket_seen s = (\<forall>t. rn_ticket s = Some t \<longrightarrow> tk_step t \<in> set (rn_seen s))"

definition journal_ok :: "'e world \<Rightarrow> bool" where
  "journal_ok w = (list_all written_ahead (wd_sent w) \<and> (\<forall>run s. map_of (wd_runs w) run = Some s \<longrightarrow> rn_run s = run \<and> ticket_seen s))"

lemma ticket_seen_noted: "noted s s' \<Longrightarrow> ticket_seen s \<Longrightarrow> ticket_seen s'"
  by (auto simp: ticket_seen_def noted_def)

lemma ticket_seen_dispatch [simp]: "ticket_seen (set_dispatch d s) = ticket_seen s" "ticket_seen (set_error v s) = ticket_seen s"
  by (auto simp: ticket_seen_def)

lemma move_journal:
  assumes "rmove rt h c c'" and "case c of (s, f, w) \<Rightarrow> ticket_seen s \<and> journal_ok w"
  shows "case c' of (s, f, w) \<Rightarrow> ticket_seen s \<and> journal_ok w"
  using assms
proof cases
  case (rm_note s s' f w)
  then show ?thesis using assms(2) ticket_seen_noted[OF rm_note(3)] by simp
next
  case (rm_send s t f sending x b d w' w)
  have seen: "ticket_seen s" "journal_ok w" using assms(2) rm_send by simp_all
  then have "written_ahead x" using rm_send(3,5,6) by (simp add: written_ahead_def ticket_seen_def)
  then have "journal_ok w'" using seen rm_send(5,8,9) by (simp add: journal_ok_def map_after_put)
  then show ?thesis using seen rm_send(2,5) by simp
qed (use assms(2) in \<open>auto simp: journal_ok_def same_files_def saved_def map_after_put ticket_seen_def\<close>)

lemma reached_journal:
  assumes "reached rt h c s f w" and "case c of (s, f, w) \<Rightarrow> ticket_seen s \<and> journal_ok w"
  shows "journal_ok w"
proof -
  have "case (s, f, w) of (s, f, w) \<Rightarrow> ticket_seen s \<and> journal_ok w"
    using assms(1) unfolding reached_def
  proof (induction rule: rtranclp_induct)
    case base
    show ?case by (rule assms(2))
  next
    case (step c' c'')
    show ?case by (rule move_journal[OF step(2,3)])
  qed
  then show ?thesis by simp
qed

text \<open>The two ways an operation can go, for every property of its outcome.\<close>

lemma after_cases:
  obtains (outside) "same_files w (runner_after (h, op) w)"
  | (moves) s t f where "origin (op_run op) w s" "reached (retires op) h (s, False, w) t f (runner_after (h, op) w)"
  using runner_moves[of op h w] unfolding outcome_def somewhere_def by blast

lemma after_journal:
  assumes "journal_ok w"
  shows "journal_ok (runner_after (h, op) w)"
proof (cases rule: after_cases[of w h op])
  case outside
  then show ?thesis using assms by (simp add: journal_ok_def same_files_def)
next
  case (moves s t f)
  have "ticket_seen s" using moves(1) assms by (auto simp: origin_def journal_ok_def ticket_seen_def)
  then show ?thesis using reached_journal[OF moves(2)] assms by simp
qed

lemma run_journal: "journal_ok w \<Longrightarrow> journal_ok (runner_run ops w)"
  unfolding runner_run_def by (induction ops arbitrary: w) (auto simp: after_journal split: prod.split)

section \<open>Cancelled runs\<close>

definition run_sends :: "string \<Rightarrow> 'e world \<Rightarrow> sending list" where
  "run_sends run w = filter (\<lambda>x. sd_run x = run) (wd_sent w)"

definition stopped_at :: "string \<Rightarrow> sending list \<Rightarrow> 'e world \<Rightarrow> bool" where
  "stopped_at run xs w = (run_sends run w = xs \<and> (\<exists>d. map_of (wd_runs w) run = Some d \<and> rn_run d = run \<and> rn_cancel d \<noteq> None))"

definition stopped_config :: "string \<Rightarrow> sending list \<Rightarrow> 'e config \<Rightarrow> bool" where
  "stopped_config run xs c = (case c of (s, f, w) \<Rightarrow> stopped_at run xs w \<and> (rn_run s = run \<longrightarrow> \<not> f \<and> rn_cancel s \<noteq> None))"

lemma stopped_same: "wd_runs w' = wd_runs w \<Longrightarrow> wd_sent w' = wd_sent w \<Longrightarrow> stopped_at run xs w' = stopped_at run xs w"
  by (simp add: stopped_at_def run_sends_def)

lemma stopped_save: "stopped_at run xs w \<Longrightarrow> rn_run s = run \<longrightarrow> rn_cancel s \<noteq> None \<Longrightarrow> stopped_at run xs (saved s w)"
  by (auto simp: stopped_at_def run_sends_def saved_def map_after_put)

lemma move_stopped:
  assumes "rmove rt h c c'" and "stopped_config run xs c"
  shows "stopped_config run xs c'"
  using assms
proof cases
  case (rm_outside w w' s f)
  then show ?thesis using assms(2) stopped_same[of w' w] by (simp add: stopped_config_def same_files_def)
next
  case (rm_note s s' f w)
  then show ?thesis using assms(2) notedD[OF rm_note(3)] by (simp add: stopped_config_def)
next
  case (rm_save s f w)
  then show ?thesis using assms(2) stopped_save[of run xs w s] by (auto simp: stopped_config_def)
next
  case (rm_take s t s' f w)
  then show ?thesis using assms(2) by (auto simp: stopped_config_def same_run_def)
next
  case (rm_send s t f sending x b d w' w)
  then have other: "rn_run s \<noteq> run" using assms(2) by (auto simp: stopped_config_def)
  moreover have "stopped_at run xs w" using assms(2) rm_send by (simp add: stopped_config_def)
  ultimately have "stopped_at run xs w'" using rm_send(6,8,9) by (simp add: stopped_at_def run_sends_def map_after_put)
  then show ?thesis using rm_send(2,5) other by (simp add: stopped_config_def)
qed (use assms(2) in \<open>auto simp: stopped_config_def same_run_def\<close>)

lemma reached_stopped:
  assumes "reached rt h c s f w" and "stopped_config run xs c"
  shows "stopped_config run xs (s, f, w)"
  using assms(1) unfolding reached_def
proof (induction rule: rtranclp_induct)
  case base
  show ?case by (rule assms(2))
next
  case (step c' c'')
  show ?case by (rule move_stopped[OF step(2,3)])
qed

lemma after_stopped:
  assumes "stopped_at run xs w"
  shows "stopped_at run xs (runner_after (h, op) w)"
proof (cases rule: after_cases[of w h op])
  case outside
  then show ?thesis using assms stopped_same[of "runner_after (h, op) w" w] by (simp add: same_files_def)
next
  case (moves s t f)
  then have "rn_run s = run \<longrightarrow> rn_cancel s \<noteq> None" using assms by (auto simp: origin_def stopped_at_def)
  then have "stopped_config run xs (s, False, w)" using assms by (simp add: stopped_config_def)
  from reached_stopped[OF moves(2) this] show ?thesis by (simp add: stopped_config_def)
qed

lemma run_stopped: "stopped_at run xs w \<Longrightarrow> stopped_at run xs (runner_run ops w)"
  unfolding runner_run_def by (induction ops arbitrary: w) (auto simp: after_stopped split: prod.split)

text \<open>What a cancellation leaves.\<close>

definition kept :: "runner \<Rightarrow> 'e world \<Rightarrow> bool" where
  "kept s w = (map_of (wd_runs w) (rn_run s) = Some s)"

lemma kept_return [simp]: "triple (\<lambda>_. True) (abind (save_runner s) (\<lambda>_. areturn (b, s))) (\<lambda>r. kept (snd r)) (\<lambda>_. True)"
  "triple (\<lambda>_. True) (abind (save_runner s) (\<lambda>_. areturn s)) kept (\<lambda>_. True)"
  by (simp_all add: triple_def abind_Inr_iff save_runner_def amodify_def areturn_def kept_def map_after_put)

lemma wait_kept: "triple (\<lambda>_. True) (runner_wait h s reason raw) kept (\<lambda>_. True)"
  unfolding runner_wait_def Let_def by (rule triple_bind[where R = "\<lambda>_ _. True"]) (auto intro: triple_get)

lemma pause_kept: "triple (\<lambda>_. True) (pause h s reason) (\<lambda>r. kept (snd r)) (\<lambda>_. True)"
  unfolding pause_def by (rule triple_bind[OF wait_kept]) (auto intro: triple_return)

lemma settle_kept: "triple (\<lambda>_. True) (settle_reviewed h s trial) (\<lambda>r. kept (snd r)) (\<lambda>_. True)"
  unfolding settle_reviewed_def Let_def settled_as_def keep_status_def finish_verification_wait_def
  by (intro triple_bind[where R = "\<lambda>_ _. True"] triple_if pause_kept kept_return triple_lift triple_get) simp_all

lemma settle_cancelled_kept: "triple (\<lambda>_. True) (settle_cancelled h s trial) kept (\<lambda>_. True)"
proof -
  have "triple (\<lambda>_. True) (abind (settle_reviewed h s trial) (\<lambda>(_, s'). areturn s')) kept (\<lambda>_. True)"
    by (rule triple_bind[OF settle_kept]) (auto intro!: triple_return split: prod.split)
  then show ?thesis unfolding settle_cancelled_def Let_def by (auto split: option.split)
qed

lemma triple_both: "triple P m Q E \<Longrightarrow> triple P' m Q' E' \<Longrightarrow> triple (\<lambda>w. P w \<and> P' w) m (\<lambda>x w. Q x w \<and> Q' x w) (\<lambda>w. E w \<and> E' w)"
  unfolding triple_def by blast

definition cancelled_config :: "string \<Rightarrow> string \<Rightarrow> sending list \<Rightarrow> 'e config \<Rightarrow> bool" where
  "cancelled_config run request xs c = (case c of (s, f, w) \<Rightarrow> \<not> f \<and> rn_run s = run \<and> rn_cancel s = Some request \<and> run_sends run w = xs)"

lemma move_cancelled:
  assumes "rmove rt h c c'" and "cancelled_config run request xs c"
  shows "cancelled_config run request xs c'"
  using assms
  by cases (auto simp: cancelled_config_def same_files_def saved_def run_sends_def noted_def same_run_def)

lemma reached_cancelled:
  assumes "reached rt h c s f w" and "cancelled_config run request xs c"
  shows "cancelled_config run request xs (s, f, w)"
  using assms(1) unfolding reached_def
proof (induction rule: rtranclp_induct)
  case base
  show ?case by (rule assms(2))
next
  case (step c' c'')
  show ?case by (rule move_cancelled[OF step(2,3)])
qed

lemma settle_cancelled_stops:
  assumes "rn_run s = run" and "rn_cancel s = Some request" and "run_sends run w = xs"
    and "settle_cancelled h s trial w = (Inr s', w')"
  shows "stopped_at run xs w'"
proof -
  let ?c = "(s, False, w)"
  have "reached rt h ?c s False w" by (simp add: reached_def)
  from tripleD[OF settle_cancelled_moving this assms(4)] have "reached rt h ?c s' False w'" .
  from reached_cancelled[OF this, of run request xs] assms(1-3)
  have c: "rn_run s' = run" "rn_cancel s' = Some request" "run_sends run w' = xs" by (simp_all add: cancelled_config_def)
  have "kept s' w'" using tripleD[OF settle_cancelled_kept _ assms(4)] by simp
  with c show ?thesis by (simp add: stopped_at_def kept_def)
qed

abbreviation ends :: "'e world \<Rightarrow> ('a, 'e world) act \<Rightarrow> ('a \<Rightarrow> 'e world \<Rightarrow> bool) \<Rightarrow> bool" where
  "ends w m Q \<equiv> triple (same_files w) m Q (\<lambda>_. True)"

lemmas ends_bind = calm_bind[OF covers_all(1)]
lemmas ends_check = calm_check[OF covers_all(1)]

lemma ends_known:
  "map_of (wd_runs w) run = Some s \<Longrightarrow> (rn_run s = run \<Longrightarrow> ends w (g s) Q) \<Longrightarrow> ends w (abind (known_runner h run) g) Q"
  by (rule calm_known) (simp_all add: loaded_def)

lemma close_wait_run [simp]: "rn_run (close_wait h v s e) = rn_run s"
  by (simp add: close_wait_def split: option.split)

lemma cancel_stops:
  assumes result: "runner_cancel h run request w = (Inr y, w')" and s: "map_of (wd_runs w) run = Some s" and "rn_status s \<notin> set run_end"
  shows "stopped_at run (run_sends run w) w'"
proof -
  have "triple (same_files w) (runner_cancel h run request) (\<lambda>_. stopped_at run (run_sends run w)) (\<lambda>_. True)"
    unfolding runner_cancel_def
  proof (intro ends_known[OF s] ends_bind[OF harmless_when] ends_bind[OF harmless_reads(2)] ends_check)
    assume run: "rn_run s = run"
    have "ends w (abind (finish_verification_wait h s ''cancelled'') (\<lambda>closed.
       abind (settle_cancelled h (closed\<lparr>rn_cancel := Some request\<rparr>) trial) (snapshot h))) (\<lambda>_. stopped_at run (run_sends run w))" for trial
    proof (rule triple_bind[where R = "\<lambda>t v. rn_run t = run \<and> same_files w v"])
      show "ends w (finish_verification_wait h s ''cancelled'') (\<lambda>t v. rn_run t = run \<and> same_files w v)"
        unfolding finish_verification_wait_def by (rule triple_get) (simp add: run)
      fix t :: runner
      show "triple (\<lambda>v. rn_run t = run \<and> same_files w v) (abind (settle_cancelled h (t\<lparr>rn_cancel := Some request\<rparr>) trial) (snapshot h))
          (\<lambda>_. stopped_at run (run_sends run w)) (\<lambda>_. True)"
      proof (rule triple_and, rule triple_bind[where R = "\<lambda>_. stopped_at run (run_sends run w)"])
        assume "rn_run t = run"
        then show "ends w (settle_cancelled h (t\<lparr>rn_cancel := Some request\<rparr>) trial) (\<lambda>_. stopped_at run (run_sends run w))"
          using settle_cancelled_stops[of "t\<lparr>rn_cancel := Some request\<rparr>" run request _ "run_sends run w" h trial]
          by (simp add: triple_def run_sends_def same_files_def) metis
        show "triple (stopped_at run (run_sends run w)) (snapshot h x) (\<lambda>_. stopped_at run (run_sends run w)) (\<lambda>_. True)" for x
          using harmless_reads(9)[of h x] unfolding triple_def harmless_def same_files_def
          by (metis stopped_same snd_conv)
      qed
    qed
    then show "ends w (if rn_status s \<in> set run_end then snapshot h s
     else abind (trial_cancelled h run request) (\<lambda>trial.
       abind (finish_verification_wait h s ''cancelled'') (\<lambda>closed.
       abind (settle_cancelled h (closed\<lparr>rn_cancel := Some request\<rparr>) trial) (snapshot h)))) (\<lambda>_. stopped_at run (run_sends run w))"
      using assms(3) by (intro triple_if ends_bind[OF harmless_reads(3)]) simp_all
  qed (intro harmlessI)
  from tripleD[OF this same_files_refl result] show ?thesis .
qed

section \<open>How often an operation hands something over\<close>

definition sends_most :: "nat \<Rightarrow> ('a, 'e world) act \<Rightarrow> bool" where
  "sends_most n m = (\<forall>w. length (wd_sent (snd (m w))) \<le> length (wd_sent w) + n)"

abbreviation quiet :: "('a, 'e world) act \<Rightarrow> bool" where
  "quiet m \<equiv> sends_most 0 m"

lemma sends_bind: "sends_most n m \<Longrightarrow> (\<And>x. sends_most k (g x)) \<Longrightarrow> sends_most (n + k) (abind m g)"
  unfolding sends_most_def
proof
  fix w
  assume m: "\<forall>w. length (wd_sent (snd (m w))) \<le> length (wd_sent w) + n"
    and g: "\<And>x. \<forall>w. length (wd_sent (snd (g x w))) \<le> length (wd_sent w) + k"
  obtain r v where r: "m w = (r, v)" by (cases "m w")
  have "length (wd_sent v) \<le> length (wd_sent w) + n" using m[rule_format, of w] r by simp
  moreover have "length (wd_sent (snd (g x v))) \<le> length (wd_sent v) + k" for x using g by blast
  ultimately show "length (wd_sent (snd (abind m g w))) \<le> length (wd_sent w) + (n + k)"
    by (cases r) (simp_all add: abind_def r order_trans[of _ "length (wd_sent v) + k"])
qed

lemma quiet_bind: "quiet m \<Longrightarrow> (\<And>x. sends_most n (g x)) \<Longrightarrow> sends_most n (abind m g)"
  using sends_bind[of 0 m n g] by simp

lemma sends_then: "sends_most n m \<Longrightarrow> (\<And>x. quiet (g x)) \<Longrightarrow> sends_most n (abind m g)"
  using sends_bind[of n m 0 g] by simp

lemma harmless_quiet: "harmless m \<Longrightarrow> sends_most n m"
  by (simp add: harmless_def sends_most_def same_files_def)

lemma sends_if: "sends_most n m \<Longrightarrow> sends_most n k \<Longrightarrow> sends_most n (if b then m else k)"
  by simp

lemma sends_prod: "(\<And>a b. sends_most n (f a b)) \<Longrightarrow> sends_most n (case p of (a, b) \<Rightarrow> f a b)"
  by (cases p) simp

lemma sends_option: "sends_most n m \<Longrightarrow> (\<And>x. sends_most n (g x)) \<Longrightarrow> sends_most n (case v of None \<Rightarrow> m | Some x \<Rightarrow> g x)"
  by (cases v) simp_all

lemma sends_sum: "(\<And>x. sends_most n (f x)) \<Longrightarrow> (\<And>x. sends_most n (g x)) \<Longrightarrow> sends_most n (case v of Inl x \<Rightarrow> f x | Inr x \<Rightarrow> g x)"
  by (cases v) simp_all

lemma quiet_save: "sends_most n (save_runner s)"
  by (simp add: sends_most_def save_runner_def amodify_def)

lemma quiet_wait: "sends_most n (runner_wait h s reason raw)"
  unfolding runner_wait_def Let_def
  by (intro quiet_bind[OF harmless_quiet] quiet_bind[OF quiet_save] harmless_quiet harmlessI)

lemma quiet_pause: "sends_most n (pause h s reason)"
  unfolding pause_def by (intro quiet_bind[OF quiet_wait] harmless_quiet harmlessI)

lemma quiet_keep: "sends_most n (keep_status s status)"
  unfolding keep_status_def Let_def by (intro quiet_bind[OF quiet_save] harmless_quiet harmlessI)

lemma quiet_settled: "sends_most n (settled_as h s status)"
  unfolding settled_as_def by (intro quiet_bind[OF harmless_quiet] sends_if quiet_pause quiet_keep harmlessI)

lemma quiet_settle: "sends_most n (settle_reviewed h s trial)"
  unfolding settle_reviewed_def finish_verification_wait_def Let_def
  by (intro quiet_bind[OF harmless_quiet] quiet_settled harmlessI)

lemma quiet_verify: "sends_most n (verify_ticket h s t status)"
  unfolding verify_ticket_def Let_def
  by (intro quiet_bind[OF harmless_quiet[OF harmless_outside(1)]] sends_sum sends_if quiet_pause quiet_settle
    quiet_bind[OF harmless_quiet[OF harmless_reads(2)]])

lemma quiet_read: "sends_most n (read_ticket h s t result)"
  unfolding read_ticket_def Let_def
  by (intro quiet_bind[OF harmless_quiet] quiet_bind[OF quiet_wait] sends_if quiet_pause quiet_verify)
    (intro harmless_quiet harmlessI)+

lemma quiet_reconcile: "sends_most n (reconcile h s t)"
  unfolding reconcile_def
  by (intro quiet_bind[OF harmless_quiet[OF harmless_outside(1)]] quiet_bind[OF harmless_quiet[OF harmless_reads(2)]]
    quiet_bind[OF harmless_quiet[OF harmless_reads(7)]] sends_sum sends_if quiet_settle quiet_pause quiet_read)

lemma quiet_reconcile_now: "sends_most n (reconcile_now h s)"
  unfolding reconcile_now_def by (cases "rn_ticket s") (simp_all add: quiet_reconcile harmless_quiet harmless_simple)

lemma quiet_submitted: "sends_most n (submitted h s answer)"
  unfolding submitted_def Let_def
  by (cases answer; simp only: submission.case; intro quiet_bind[OF quiet_save] quiet_bind[OF quiet_wait] harmless_quiet harmless_simple)

lemma submit_once: "sends_most 1 (submit_ticket h s t)"
proof -
  have "sends_most 1 (note_sending run u b)" for run u b
    by (simp add: sends_most_def note_sending_def amodify_def)
  then show ?thesis unfolding submit_ticket_def Let_def
    by (intro quiet_bind[OF harmless_quiet[OF harmless_reads(7)]] quiet_bind[OF quiet_save]
      quiet_bind[OF harmless_quiet[OF harmless_outside(1)]] sends_then[OF _ quiet_submitted])
qed

lemma handing_once: "sends_most 1 (submit_and_reconcile h s)"
  unfolding submit_and_reconcile_def
  by (intro sends_option sends_then[OF submit_once] sends_prod sends_if quiet_reconcile_now harmless_quiet harmlessI)

lemma quiet_prepared: "sends_most n (prepared_ticket h s prepared)"
  unfolding prepared_ticket_def Let_def
  by (intro quiet_bind[OF harmless_quiet[OF harmless_simple(4)]] quiet_bind[OF quiet_wait] quiet_bind[OF quiet_save] sends_if
    harmless_quiet harmlessI)

lemma quiet_adopt: "sends_most n (adopt_pending h s trial)"
  unfolding adopt_pending_def Let_def
  by (intro sends_if quiet_bind[OF quiet_prepared] sends_prod quiet_bind[OF quiet_save] quiet_wait harmless_quiet harmlessI)

lemma step_once: "sends_most 1 (drive_step h s trial)"
  unfolding drive_step_def Let_def
  by (intro sends_if quiet_pause quiet_bind[OF quiet_prepared] quiet_bind[OF harmless_quiet[OF harmless_checks(1)]]
    quiet_bind[OF harmless_quiet[OF harmless_outside(2)]] sends_prod handing_once harmless_quiet harmlessI)

lemma idle_once: "sends_most 1 (drive_idle h allow s)"
  unfolding drive_idle_def Let_def
  by (intro sends_if quiet_bind[OF harmless_quiet[OF harmless_reads(2)]] quiet_bind[OF harmless_quiet[OF harmless_simple(2)]]
    quiet_bind[OF quiet_adopt] quiet_bind[OF quiet_save] quiet_pause step_once harmless_quiet harmlessI)

lemma round_once: "sends_most 1 (drive_round h allow s)"
proof -
  have "sends_most 1 (case rn_ticket s of Some t \<Rightarrow> drive_ticket h s t | None \<Rightarrow> drive_idle h allow s)"
    unfolding drive_ticket_def by (intro sends_option sends_if idle_once handing_once quiet_reconcile)
  moreover have "quiet (case r of (again, t) \<Rightarrow> areturn (again \<and> allow, t))" for r :: "bool \<times> runner"
    by (cases r) (simp add: harmless_quiet harmless_simple)
  ultimately show ?thesis
    unfolding drive_round_def by (intro sends_if sends_then) (assumption | rule harmless_quiet harmless_simple)+
qed

text \<open>In the mode \<^verbatim>\<open>single\<close> the loop makes one round.\<close>

lemma single_round:
  assumes "rn_mode s = ''single''" and "drive_round h allow s w = (Inr (again, s'), w')"
  shows "\<not> again"
proof -
  have "reached rt h (s, False, w) s False w" by (simp add: reached_def)
  from tripleD[OF round_moving this assms(2)] show ?thesis using assms(1) by (simp add: rounded_def)
qed

lemma single_loop:
  assumes "rn_mode s = ''single''"
  shows "sends_most 1 (drive_loop n h allow s)"
proof (cases n)
  case 0
  then show ?thesis by (auto intro!: quiet_wait harmless_quiet harmlessI)
next
  case (Suc k)
  have "length (wd_sent (snd (drive_loop n h allow s w))) \<le> length (wd_sent w) + 1" for w
  proof -
    obtain r w' where r: "drive_round h allow s w = (r, w')" by (cases "drive_round h allow s w")
    have "snd (drive_loop n h allow s w) = w'"
    proof (cases r)
      case (Inr q)
      then obtain again s' where "r = Inr (again, s')" by (cases q) auto
      then show ?thesis using single_round[OF assms, of h allow w again s' w'] r by (simp add: Suc abind_def areturn_def)
    qed (simp add: Suc abind_def r)
    then show ?thesis using round_once[of h allow s] r unfolding sends_most_def by (metis snd_conv)
  qed
  then show ?thesis by (simp add: sends_most_def)
qed

lemma single_drive: "rn_mode s = ''single'' \<Longrightarrow> sends_most 1 (abind (drive h allow s) (snapshot h))"
  unfolding drive_def
  by (intro sends_then quiet_bind[OF harmless_quiet[OF harmless_reads(2)]] quiet_bind[OF harmless_quiet[OF harmless_reads(4)]]
    sends_if single_loop harmless_quiet harmlessI)

lemma calm_sends: "sends_most n m \<Longrightarrow> triple (same_files w) m (\<lambda>_ v. length (wd_sent v) \<le> length (wd_sent w) + n)
    (\<lambda>v. length (wd_sent v) \<le> length (wd_sent w) + n)"
  unfolding triple_def sends_most_def same_files_def by (metis snd_conv)

lemma covers_sends: "covers w (\<lambda>v. length (wd_sent v) \<le> length (wd_sent w) + n)"
  by (simp add: covers_def same_files_def)

text \<open>The mode of the run an operation goes on with.\<close>

fun op_mode :: "runner_op \<Rightarrow> string" where
  "op_mode (StartRun _ _ mode _) = mode"
| "op_mode _ = ''single''"

definition driven_mode :: "runner_op \<Rightarrow> 'e world \<Rightarrow> string" where
  "driven_mode op w = (case map_of (wd_runs w) (op_run op) of Some s \<Rightarrow> rn_mode s | None \<Rightarrow> op_mode op)"

abbreviation sending_once :: "'e world \<Rightarrow> ('a, 'e world) act \<Rightarrow> bool" where
  "sending_once w m \<equiv> triple (same_files w) m (\<lambda>_ v. length (wd_sent v) \<le> Suc (length (wd_sent w)))
     (\<lambda>v. length (wd_sent v) \<le> Suc (length (wd_sent w)))"

lemma covers_once: "covers w (\<lambda>v. length (wd_sent v) \<le> Suc (length (wd_sent w)))"
  using covers_sends[of w 1] by simp

lemmas once_bind = calm_bind[OF covers_once]
lemmas once_check = calm_check[OF covers_once]
lemmas once_lift = calm_lift[OF covers_once]
lemmas once_load = calm_load[OF covers_once]
lemmas once_known = calm_known[OF covers_once]

lemma once_sends: "sends_most 1 m \<Longrightarrow> sending_once w m"
  using calm_sends[of 1 m w] by simp

lemma once_harmless: "harmless m \<Longrightarrow> sending_once w m"
  by (intro once_sends harmless_quiet)

lemma once_saved: "rn_mode s = ''single'' \<Longrightarrow> sending_once w (abind (save_runner s) (\<lambda>_. abind (drive h allow s) (snapshot h)))"
  by (intro once_sends quiet_bind[OF quiet_save] single_drive)

lemma start_once:
  assumes "map_of (wd_runs w) run = None \<Longrightarrow> mode = ''single''"
  shows "sending_once w (runner_start h run request mode vision)"
proof -
  have new: "sending_once w (begin_run h (new_runner h run request mode seeing control))" if "mode = ''single''" for seeing control
    unfolding begin_run_def
    by (intro once_sends quiet_bind[OF quiet_save] quiet_bind[OF harmless_quiet[OF harmless_active]] single_drive)
      (simp add: new_runner_def that)
  have admitted: "harmless (case ho_prepare_trial h of None \<Rightarrow> areturn ()
       | Some prepare_trial \<Rightarrow> abind (awhen (found = None) (admit_start h)) (\<lambda>_. calling prepare_trial))" for found :: "runner option"
    by (intro harmlessI)
  have "sending_once w (case found of
         Some s \<Rightarrow> abind (acheck (rn_start s = request \<and> rn_mode s = mode \<and> py_eq (rn_vision s) seeing)
           (ValueError ''workflow_runner_start_conflict'')) (\<lambda>_. snapshot h s)
       | None \<Rightarrow> abind (awhen (ho_prepare_trial h = None) (admit_start h)) (\<lambda>_.
           abind (trial_status h run) (\<lambda>_. begin_run h (new_runner h run request mode seeing (start_control h run mode vision)))))"
    if l: "loaded h run w found" for found seeing
  proof (cases found)
    case None
    then have "mode = ''single''" using l assms by (simp add: loaded_def)
    from new[OF this] show ?thesis unfolding None option.case
      by (intro once_bind[OF harmless_when] once_bind[OF harmless_reads(2)] harmlessI)
  next
    case (Some s)
    show ?thesis unfolding Some option.case by (intro once_harmless harmlessI)
  qed
  then show ?thesis
    unfolding runner_start_def
    by (intro once_lift once_check once_load once_bind[OF admitted] once_bind[OF harmless_reads(2)] once_bind[OF harmless_reads(4)])
qed

lemma advance_once:
  assumes "\<And>s. map_of (wd_runs w) run = Some s \<Longrightarrow> rn_mode s = ''single''"
  shows "sending_once w (runner_advance h run)"
  unfolding runner_advance_def
  by (intro once_known once_bind[OF harmless_reads(2)] once_bind[OF harmless_reads(4)] once_sends single_drive assms)
    (simp add: loaded_def)

lemma resume_now_once:
  assumes "rn_mode s = ''single''"
  shows "sending_once w (resume_now h s request wait_id)"
  unfolding resume_now_def Let_def
  by (intro once_check once_bind[OF harmless_outside(2)] once_saved) (simp add: resume_state_def assms)

lemma resume_once:
  assumes "\<And>s. map_of (wd_runs w) run = Some s \<Longrightarrow> rn_mode s = ''single''"
  shows "sending_once w (runner_resume h run request wait_id)"
  unfolding runner_resume_def
proof (intro once_check once_known once_bind[OF harmless_reads(2)] once_bind[OF harmless_reads(4)])
  fix s
  assume "loaded h run w (Some s)"
  then have single: "rn_mode s = ''single''" using assms by (simp add: loaded_def)
  show "sending_once w (case map_of (rn_resumes s) request of
       Some prior \<Rightarrow> abind (acheck (prior = wait_id) (ValueError ''workflow_runner_resume_conflict'')) (\<lambda>_. snapshot h s)
     | None \<Rightarrow>
         abind (acheck (case rn_wait s of None \<Rightarrow> False | Some wt \<Rightarrow> wt_id wt = wait_id)
           (ValueError ''workflow_runner_wait_id_mismatch'')) (\<lambda>_.
         if rn_ticket s \<noteq> None then resume_now h s request wait_id
         else abind (trial_status h run) (\<lambda>now.
           abind (alift (in_names (pget now ''status'') (''ready'' # run_end))) (\<lambda>goes.
           if goes then resume_now h s request wait_id else snapshot h s))))"
  proof (cases "map_of (rn_resumes s) request")
    case None
    show ?thesis unfolding None option.case
      by (intro once_check triple_if resume_now_once[OF single] once_bind[OF harmless_reads(2)] once_lift
        once_harmless harmless_reads(9))
  next
    case (Some prior)
    show ?thesis unfolding Some option.case by (intro once_harmless harmlessI)
  qed
qed

lemma quiet_settle_cancelled: "sends_most n (settle_cancelled h s trial)"
  unfolding settle_cancelled_def Let_def
  by (intro sends_option sends_if quiet_bind[OF quiet_settle] quiet_bind[OF quiet_save] sends_prod harmless_quiet harmless_simple)

lemma cancel_once: "sending_once w (runner_cancel h run request)"
  unfolding runner_cancel_def finish_verification_wait_def
  by (intro once_check once_known once_bind[OF harmless_when] once_bind[OF harmless_reads(2)] triple_if
      once_bind[OF harmless_reads(3)] once_bind[OF harmless_simple(3)] once_harmless[OF harmless_reads(9)] once_sends
      sends_then[OF quiet_settle_cancelled] harmless_quiet harmless_reads(9)) (intro harmlessI)

lemma intervention_once:
  assumes "\<And>s. map_of (wd_runs w) run = Some s \<Longrightarrow> rn_mode s = ''single''"
  shows "sending_once w (runner_resume_pre_dispatch h run request wait_id review)"
proof -
  have mode: "rn_mode (close_wait h v t e) = rn_mode t" for v t e by (simp add: close_wait_def split: option.split)
  have "sending_once w (intervene h s request wait_id review control)" if "rn_mode s = ''single''" for s control
  proof -
    have "triple (\<lambda>v. rn_mode t = ''single'' \<and> same_files w v)
       (let after = t\<lparr>rn_ticket := None, rn_wait := None, rn_status := ''ready''\<rparr> in
         abind (save_runner after) (\<lambda>_. abind (drive h True after) (snapshot h)))
       (\<lambda>_ v. length (wd_sent v) \<le> Suc (length (wd_sent w))) (\<lambda>v. length (wd_sent v) \<le> Suc (length (wd_sent w)))" for t :: runner
      unfolding Let_def by (intro triple_and once_saved) simp
    moreover have "triple (same_files w) (finish_verification_wait h (retire_ticket s request control sha step) why)
       (\<lambda>t v. rn_mode t = ''single'' \<and> same_files w v) (\<lambda>v. length (wd_sent v) \<le> Suc (length (wd_sent w)))" for sha step why
      unfolding finish_verification_wait_def by (rule triple_get) (simp add: mode retire_ticket_def that)
    ultimately show ?thesis
      unfolding intervene_def
      by (intro once_check once_lift once_bind[OF harmless_outside(2)] triple_bind[of "same_files w"])
  qed
  note continue = this
  show ?thesis unfolding runner_resume_pre_dispatch_def Let_def
  proof (intro once_check once_known once_bind[OF harmless_reads(2)])
    fix s trial
    assume "loaded h run w (Some s)"
    then have single: "rn_mode s = ''single''" using assms by (simp add: loaded_def)
    let ?c = "runner_digest (PDict [(''kind'', PStr ''task_plan''), (''request'', review)])"
    show "sending_once w (case map_of (rn_interventions s) request of
       Some prior \<Rightarrow> abind (acheck (prior = runner_digest review) (ValueError ''workflow_runner_intervention_resume_conflict''))
         (\<lambda>_. snapshot h s)
     | None \<Rightarrow>
         abind (acheck (rn_cancel s = None) (ValueError ''workflow_runner_intervention_cancelled_or_terminal'')) (\<lambda>_.
         abind (alift (rbind (item trial ''status'') (\<lambda>status. in_names status (''cancel_requested'' # run_end)))) (\<lambda>ended.
         abind (acheck (\<not> ended) (ValueError ''workflow_runner_intervention_cancelled_or_terminal'')) (\<lambda>_.
         abind (acheck (case map_of (rn_controls s) request of None \<Rightarrow> True | Some old \<Rightarrow> old = ?c)
           (ValueError ''workflow_runner_control_conflict'')) (\<lambda>_.
         abind (alift (get_or_raise (pget_default trial ''intervention_resumes'' (PDict [])) request)) (\<lambda>known.
         abind (awhen (known = PNone)
           (abind (recovery_guard h trial (Some s) True) (\<lambda>_.
            acheck ((case rn_wait s of None \<Rightarrow> False | Some wt \<Rightarrow> wt_id wt = wait_id) \<and> rn_ticket s \<noteq> None)
              (ValueError ''workflow_runner_intervention_wait_id_mismatch'')))) (\<lambda>_.
         intervene h s request wait_id review ?c)))))))"
    proof (cases "map_of (rn_interventions s) request")
      case None
      show ?thesis unfolding None option.case
        by (intro once_check once_lift once_bind[OF harmless_when] harmlessI continue[OF single])
    next
      case (Some prior)
      show ?thesis unfolding Some option.case by (intro once_harmless harmlessI)
    qed
  qed
qed

lemma import_once: "sending_once w (runner_import_recovery h run request mode claim seen vision)"
proof -
  have "sending_once w (abind (case found of
         Some s \<Rightarrow> abind (acheck (import_matches s claim request mode seeing seen trial)
           (ValueError ''workflow_runner_recovery_import_conflict'')) (\<lambda>_. areturn s)
       | None \<Rightarrow> let s = imported_runner h run request mode claim seeing seen trial in
           if pget trial ''status'' = PStr ''ready'' then runner_wait h s ''takeover_ready'' PNone
           else abind (save_runner s) (\<lambda>_. areturn s)) (\<lambda>s.
     abind (set_active run) (\<lambda>_. show_trial h s trial)))" for found seeing trial
    unfolding Let_def
    by (intro once_sends sends_then sends_option sends_if quiet_wait quiet_bind[OF quiet_save] harmless_quiet) (intro harmlessI)+
  then show ?thesis
    unfolding runner_import_recovery_def
    by (intro once_check once_lift once_bind[OF harmless_reads(2)] once_bind[OF harmless_outside(2)]
      once_bind[OF harmless_checks(4)] once_load)
qed

lemma after_once:
  assumes "driven_mode op w = ''single''"
  shows "length (wd_sent (runner_after (h, op) w)) \<le> length (wd_sent w) + 1"
proof -
  have single: "rn_mode s = ''single''" if "map_of (wd_runs w) (op_run op) = Some s" for s
    using assms that by (simp add: driven_mode_def)
  have new: "op_mode op = ''single''" if "map_of (wd_runs w) (op_run op) = None"
    using assms that by (simp add: driven_mode_def)
  have shown: "sending_once w (runner_status h run)" for run
    unfolding runner_status_def by (intro once_harmless harmlessI)
  have "sending_once w (runner_do h op)"
  proof (cases op)
    case (StartRun run request mode vision)
    then show ?thesis using start_once[of w run mode] new by simp
  next
    case (AdvanceRun run)
    then show ?thesis using advance_once[of w run] single by simp
  next
    case (ResumeRun run request wait_id)
    then show ?thesis using resume_once[of w run] single by simp
  next
    case (ResumePreDispatch run request wait_id review)
    then show ?thesis using intervention_once[of w run] single by simp
  qed (simp_all add: shown cancel_once import_once)
  then show ?thesis using after_triple[of w h op] by simp
qed

section \<open>The rounds of a drive\<close>

text \<open>How many rounds can still go on: one for the ticket, one for each step that may still be taken.\<close>

definition rounds_left :: "runner \<Rightarrow> nat" where
  "rounds_left s = (256 - length (rn_seen s)) + (if rn_ticket s = None then 0 else 1)"

lemma round_decreases:
  assumes "drive_round h allow s w = (Inr (True, s'), w')" and "ho_source h \<noteq> ''caller_plan''"
  shows "rounds_left s' < rounds_left s"
proof -
  have "reached rt h (s, False, w) s False w" by (simp add: reached_def)
  from tripleD[OF round_moving this assms(1)] assms(2) show ?thesis
    by (auto simp: rounded_def rounds_left_def split: if_splits)
qed

lemma loop_budget:
  assumes "ho_source h \<noteq> ''caller_plan''" and "rounds_left s < n"
  shows "drive_loop (n + k) h allow s w = drive_loop n h allow s w"
  using assms(2)
proof (induction n arbitrary: s w)
  case (Suc n)
  show ?case
  proof (cases "\<exists>s' w'. drive_round h allow s w = (Inr (True, s'), w')")
    case True
    then obtain s' w' where r: "drive_round h allow s w = (Inr (True, s'), w')" by blast
    from round_decreases[OF r assms(1)] Suc(2) have "rounds_left s' < n" by simp
    then have "drive_loop (n + k) h allow s' w' = drive_loop n h allow s' w'" by (rule Suc(1))
    then show ?thesis by (simp add: abind_def r)
  next
    case False
    then show ?thesis
      by (cases "drive_round h allow s w") (auto simp: abind_def split: sum.split prod.split)
  qed
qed simp

lemma drive_budget:
  assumes "ho_source h \<noteq> ''caller_plan''" and "ticket_seen s"
  shows "drive_loop (drive_rounds + k) h allow s w = drive_loop drive_rounds h allow s w"
proof (rule loop_budget[OF assms(1)])
  have "rn_ticket s = None \<or> rn_seen s \<noteq> []" using assms(2) by (auto simp: ticket_seen_def)
  then show "rounds_left s < drive_rounds" by (cases "rn_seen s") (auto simp: rounds_left_def drive_rounds_def)
qed

section \<open>Ended runs\<close>

abbreviation idle :: "'e world \<Rightarrow> ('a, 'e world) act \<Rightarrow> bool" where
  "idle w m \<equiv> triple (same_files w) m (\<lambda>_. same_files w) (same_files w)"

lemmas idle_bind = calm_bind[OF covers_all(2)]
lemmas idle_check = calm_check[OF covers_all(2)]
lemmas idle_lift = calm_lift[OF covers_all(2)]
lemmas idle_load = calm_load[OF covers_all(2)]
lemmas idle_known = calm_known[OF covers_all(2)]

lemma idle_harmless: "harmless m \<Longrightarrow> idle w m"
  by (rule calm_harmless) simp_all

lemma ended_drive:
  assumes "rn_status s \<in> set run_end"
  shows "harmless (drive h allow s)"
proof -
  have round: "drive_round h allow s = areturn (False, s)" using assms by (simp add: drive_round_def drive_stops_def)
  have "harmless (drive_loop drive_rounds h allow s)"
    by (simp add: drive_rounds_def numeral_eq_Suc round harmlessI)
  then show ?thesis unfolding drive_def by (intro harmlessI) 
qed

lemma start_idle:
  assumes "map_of (wd_runs w) run = Some s"
  shows "idle w (runner_start h run request mode vision)"
proof -
  have admitted: "harmless (case ho_prepare_trial h of None \<Rightarrow> areturn ()
       | Some prepare_trial \<Rightarrow> abind (awhen (found = None) (admit_start h)) (\<lambda>_. calling prepare_trial))" for found :: "runner option"
    by (intro harmlessI)
  have "idle w (case found of
         Some s \<Rightarrow> abind (acheck (rn_start s = request \<and> rn_mode s = mode \<and> py_eq (rn_vision s) seeing)
           (ValueError ''workflow_runner_start_conflict'')) (\<lambda>_. snapshot h s)
       | None \<Rightarrow> abind (awhen (ho_prepare_trial h = None) (admit_start h)) (\<lambda>_.
           abind (trial_status h run) (\<lambda>_. begin_run h (new_runner h run request mode seeing (start_control h run mode vision)))))"
    if "loaded h run w found" for found seeing
  proof -
    have found: "found = Some s" using that assms by (simp add: loaded_def)
    show ?thesis unfolding found option.case by (intro idle_harmless harmlessI)
  qed
  then show ?thesis
    unfolding runner_start_def
    by (intro idle_lift idle_check idle_load idle_bind[OF admitted] idle_bind[OF harmless_reads(2)] idle_bind[OF harmless_reads(4)])
qed

lemma advance_idle:
  assumes "map_of (wd_runs w) run = Some s" and "rn_status s \<in> set run_end"
  shows "idle w (runner_advance h run)"
  unfolding runner_advance_def
  by (intro idle_known idle_bind[OF harmless_reads(2)] idle_bind[OF harmless_reads(4)] idle_harmless harmless_bind[OF ended_drive]
      harmless_reads(9)) (use assms in \<open>simp add: loaded_def\<close>)

lemma cancel_idle:
  assumes "map_of (wd_runs w) run = Some s" and "rn_status s \<in> set run_end"
  shows "idle w (runner_cancel h run request)"
proof -
  have "idle w (if rn_status t \<in> set run_end then snapshot h t
     else abind (trial_cancelled h run request) (\<lambda>trial.
       abind (finish_verification_wait h t ''cancelled'') (\<lambda>closed.
       abind (settle_cancelled h (closed\<lparr>rn_cancel := Some request\<rparr>) trial) (snapshot h))))" if "loaded h run w (Some t)" for t
    using that assms by (simp add: loaded_def idle_harmless harmless_reads)
  then show ?thesis unfolding runner_cancel_def
    by (intro idle_check idle_known idle_bind[OF harmless_when] idle_bind[OF harmless_reads(2)] harmlessI)
qed

lemma resume_idle:
  assumes "map_of (wd_runs w) run = Some s" and "rn_status s \<in> set run_end \<or> map_of (rn_resumes s) request \<noteq> None"
  shows "idle w (runner_resume h run request wait_id)"
  unfolding runner_resume_def
proof (intro idle_check idle_known idle_bind[OF harmless_reads(2)] idle_bind[OF harmless_reads(4)])
  fix t
  assume "loaded h run w (Some t)" and wait: "rn_status t \<in> set run_end \<longrightarrow> rn_wait t = None"
  then have t: "t = s" using assms(1) by (simp add: loaded_def)
  show "idle w (case map_of (rn_resumes t) request of
       Some prior \<Rightarrow> abind (acheck (prior = wait_id) (ValueError ''workflow_runner_resume_conflict'')) (\<lambda>_. snapshot h t)
     | None \<Rightarrow>
         abind (acheck (case rn_wait t of None \<Rightarrow> False | Some wt \<Rightarrow> wt_id wt = wait_id)
           (ValueError ''workflow_runner_wait_id_mismatch'')) (\<lambda>_.
         if rn_ticket t \<noteq> None then resume_now h t request wait_id
         else abind (trial_status h run) (\<lambda>now.
           abind (alift (in_names (pget now ''status'') (''ready'' # run_end))) (\<lambda>goes.
           if goes then resume_now h t request wait_id else snapshot h t))))"
  proof (cases "map_of (rn_resumes t) request")
    case None
    then have "rn_wait t = None" using assms(2) wait t by auto
    then show ?thesis unfolding None option.case by (intro idle_check) simp
  next
    case (Some prior)
    show ?thesis unfolding Some option.case by (intro idle_harmless harmlessI)
  qed
qed

lemma import_idle:
  assumes "map_of (wd_runs w) run = Some s"
  shows "idle w (runner_import_recovery h run request mode claim seen vision)"
proof -
  have "idle w (abind (case found of
         Some s \<Rightarrow> abind (acheck (import_matches s claim request mode seeing seen trial)
           (ValueError ''workflow_runner_recovery_import_conflict'')) (\<lambda>_. areturn s)
       | None \<Rightarrow> let s = imported_runner h run request mode claim seeing seen trial in
           if pget trial ''status'' = PStr ''ready'' then runner_wait h s ''takeover_ready'' PNone
           else abind (save_runner s) (\<lambda>_. areturn s)) (\<lambda>s.
     abind (set_active run) (\<lambda>_. show_trial h s trial)))" if "loaded h run w found" for found seeing trial
  proof -
    have found: "found = Some s" using that assms by (simp add: loaded_def)
    show ?thesis unfolding found option.case by (intro idle_harmless harmlessI)
  qed
  then show ?thesis
    unfolding runner_import_recovery_def
    by (intro idle_check idle_lift idle_bind[OF harmless_reads(2)] idle_bind[OF harmless_outside(2)]
      idle_bind[OF harmless_checks(4)] idle_load)
qed

lemma intervention_idle: "ho_source h \<noteq> ''caller_plan'' \<Longrightarrow> idle w (runner_resume_pre_dispatch h run request wait_id review)"
  unfolding runner_resume_pre_dispatch_def by (rule idle_check) simp

text \<open>Operations that only repeat what was done, and all operations on an ended run, change nothing.\<close>

lemma ended_same:
  assumes "map_of (wd_runs w) (op_run op) = Some s" and "rn_status s \<in> set run_end"
    and "retires op \<Longrightarrow> ho_source h \<noteq> ''caller_plan''"
  shows "same_files w (runner_after (h, op) w)"
proof (rule after_triple)
  have shown: "idle w (runner_status h run)" for run
    unfolding runner_status_def by (intro idle_harmless harmlessI)
  show "idle w (runner_do h op)"
  proof (cases op)
    case (StartRun run request mode vision)
    then show ?thesis using start_idle[of w run s] assms(1) by simp
  next
    case (AdvanceRun run)
    then show ?thesis using advance_idle[of w run s] assms(1,2) by simp
  next
    case (CancelRun run request)
    then show ?thesis using cancel_idle[of w run s] assms(1,2) by simp
  next
    case (ResumeRun run request wait_id)
    then show ?thesis using resume_idle[of w run s] assms(1,2) by simp
  next
    case (ImportRun run request mode claim seen vision)
    then show ?thesis using import_idle[of w run s] assms(1) by simp
  qed (simp_all add: shown intervention_idle assms(3))
qed

text \<open>A run that has ended.\<close>

lemma run_ended:
  assumes "list_all (\<lambda>ho. \<not> intervenes run ho) ops" and "of_run 0 run w = (Some s, xs)" and "rn_status s \<in> set run_end"
  shows "of_run 0 run (runner_run ops w) = (Some s, xs)"
  using assms(1,2) unfolding runner_run_def
proof (induction ops arbitrary: w)
  case (Cons ho ops)
  obtain h op where ho: "ho = (h, op)" by (cases ho)
  have "of_run 0 run (runner_after (h, op) w) = (Some s, xs)"
  proof (cases "op_run op = run")
    case True
    then have "same_files w (runner_after (h, op) w)"
      using ended_same[of w op s h] Cons(2,3) assms(3) ho by (simp add: of_run_def intervenes_def)
    then show ?thesis using Cons(3) by (simp add: of_run_def same_files_def)
  next
    case False
    then show ?thesis using after_other[OF False, of 0 w h] Cons(3) by simp
  qed
  then show ?case using Cons(1)[of "runner_after (h, op) w"] Cons(2) ho by simp
qed simp

section \<open>A sample run\<close>

text \<open>One step; the queue is busy at the first try, the verdict is there at once.\<close>

type_synonym clicked_env = "nat \<times> bool"

definition clicked_run :: string where
  "clicked_run = ''trial-'' @ replicate 64 CHR ''0''"

definition clicked_command :: pyval where
  "clicked_command = PDict [(''intent'', PStr ''click'')]"

definition clicked_trial :: "clicked_env \<Rightarrow> pyval" where
  "clicked_trial e = PDict (if snd e
     then [(''status'', PStr ''completed''), (''pending'', PNone), (''current_step_id'', PNone), (''history'', PList [PDict
       [(''execution_request_id'', PStr ''cmd-1''), (''step_id'', PStr ''step-1''), (''verdict'', PStr ''success'')]])]
     else [(''status'', PStr ''ready''), (''pending'', PNone), (''current_step_id'', PStr ''step-1''), (''history'', PList [])])"

definition clicked_prepared :: pyval where
  "clicked_prepared = PDict [(''status'', PStr ''pending''), (''step_id'', PStr ''step-1''),
     (''execution_request_id'', PStr ''cmd-1''), (''suggested_command'', clicked_command)]"

definition clicked_host :: "clicked_env host" where
  "clicked_host = \<lparr>ho_source = ''reviewed_program'', ho_reviewed = True,
     ho_status = (\<lambda>run e. (Inr (clicked_trial e), e)),
     ho_prepare = (\<lambda>run request vision e. (Inr clicked_prepared, e)),
     ho_cancel = (\<lambda>run request e. (Inr (clicked_trial e), e)),
     ho_step = (\<lambda>run step e. (Inr PNone, e)), ho_metrics = (\<lambda>run trial e. (Inr (PDict []), e)),
     ho_validate = (\<lambda>trial state again e. (Inr (), e)), ho_claim = (\<lambda>trial e. (Inr PNone, e)),
     ho_resume = (\<lambda>run request wait_id review e. (Inr PNone, e)),
     ho_submit = (\<lambda>command_id command e. (if fst e = 0 then Busy (Fault ''QueueBusy'' ''busy'') else Accepted, (Suc (fst e), snd e))),
     ho_result = (\<lambda>command_id e. (Inr (PDict [(''status'', PStr ''completed''), (''command_id'', PStr command_id)]), e)),
     ho_verify = (\<lambda>run request command_id e. (Inr (PDict [(''status'', PStr ''success'')]), (fst e, True))),
     ho_settle = None, ho_before_input = (\<lambda>e. (Inr (), e)), ho_prepare_trial = None,
     ho_vision = (\<lambda>v. Inr v), ho_clock = ''clock'', ho_now = (\<lambda>e. 0)\<rparr>"

lemma clicked_host_simps:
  "ho_source clicked_host = ''reviewed_program''" "ho_status clicked_host run e = (Inr (clicked_trial e), e)"
  "ho_prepare clicked_host run request vision e = (Inr clicked_prepared, e)" "ho_cancel clicked_host run request e = (Inr (clicked_trial e), e)"
  "ho_metrics clicked_host run trial e = (Inr (PDict []), e)" "ho_validate clicked_host trial state again e = (Inr (), e)"
  "ho_submit clicked_host c command e = (if fst e = 0 then Busy (Fault ''QueueBusy'' ''busy'') else Accepted, (Suc (fst e), snd e))"
  "ho_result clicked_host c e = (Inr (PDict [(''status'', PStr ''completed''), (''command_id'', PStr c)]), e)"
  "ho_verify clicked_host run request c e = (Inr (PDict [(''status'', PStr ''success'')]), (fst e, True))"
  "ho_settle clicked_host = None" "ho_before_input clicked_host e = (Inr (), e)" "ho_prepare_trial clicked_host = None"
  by (simp_all add: clicked_host_def)

lemma abind_weak: "m = m' \<Longrightarrow> abind m f = abind m' f"
  by simp

lemma drive_loop_numeral: "drive_loop (numeral n) h allow s = abind (drive_round h allow s)
    (\<lambda>(again, s). if again then drive_loop (pred_numeral n) h allow s else areturn s)"
  by (simp add: numeral_eq_Suc)

lemma clicked_texts: "trial_name_ok clicked_run" "has_text (PStr ''start-1'')" "has_text (PStr ''step-1'')" "has_text (PStr ''cmd-1'')"
   "has_text (PStr ''stop-1'')"
  by code_simp+

lemmas clicked_eval = abind_def act_defs awhen_def outside_def calling_def ensure_def clicked_host_simps clicked_texts drive_loop_numeral
  runner_after_def runner_run_def new_world_def runner_start_def runner_id_def runner_modes_def runner_vision_def
  load_runner_def save_runner_def set_active_def known_runner_def trial_status_def trial_guarded_def recovery_guard_def
  begin_run_def admit_start_def assert_start_available_def new_runner_def drive_def drive_rounds_def drive_round_def drive_stops_def
  drive_idle_def drive_step_def drive_ticket_def run_end_def step_vision_def prepared_ticket_def out_of_steps_def new_ticket_def
  submit_and_reconcile_def submit_ticket_def guard_again_def set_error_def set_dispatch_def note_sending_def busy_answer_def
  submitted_def runner_wait_def clock_started_def new_wait_def snapshot_def show_trial_def reconcile_now_def reconcile_def
  reviewed_ticket_def read_ticket_def result_known_def result_statuses_def verify_ticket_def pause_def
  settle_reviewed_def settled_as_def keep_status_def finish_verification_wait_def close_wait_def runner_advance_def
  clicked_trial_def clicked_prepared_def clicked_command_def in_names_def Let_def dict_get_def pget_default_def phas_def item_def

lemmas cancel_eval = clicked_eval runner_cancel_def trial_cancelled_def settle_cancelled_def

definition clicked_start :: "clicked_env host \<times> runner_op" where
  "clicked_start = (clicked_host, StartRun clicked_run ''start-1'' ''single'' PNone)"

definition clicked_waiting :: "clicked_env world" where
  "clicked_waiting = runner_after clicked_start (new_world (0, False))"

lemma clicked_source: "ho_source (fst clicked_start) \<noteq> ''caller_plan''" "ho_source clicked_host \<noteq> ''caller_plan''"
  by (simp_all add: clicked_start_def clicked_host_simps)

lemma clicked_sent: "map (\<lambda>x. (sd_run x, tk_step (sd_ticket x), sd_busy x))
    (wd_sent (runner_run [clicked_start, (clicked_host, AdvanceRun clicked_run)] (new_world (0, False)))) =
    [(clicked_run, ''step-1'', True), (clicked_run, ''step-1'', False)]"
  by (simp add: clicked_eval clicked_start_def cong: abind_weak)

lemma clicked_waits: "map_option rn_status (map_of (wd_runs clicked_waiting) clicked_run) = Some ''waiting''"
  by (simp add: clicked_eval clicked_waiting_def clicked_start_def cong: abind_weak)

lemma clicked_ends: "map_option rn_status (map_of (wd_runs (runner_after (clicked_host, AdvanceRun clicked_run) clicked_waiting)) clicked_run)
    = Some ''completed''"
  by (simp add: clicked_eval clicked_waiting_def clicked_start_def cong: abind_weak)

lemma clicked_cancels: "\<exists>v w'. runner_do clicked_host (CancelRun clicked_run ''stop-1'') clicked_waiting = (Inr v, w')"
  by (simp add: cancel_eval clicked_waiting_def clicked_start_def cong: abind_weak)

section \<open>Properties\<close>

lemma new_journal_ok: "journal_ok (new_world env)"
  by (simp add: journal_ok_def new_world_def)

text \<open>C1: However operations, crashes and restarts follow one another, the command of a step of a run is handed over
  again only after every earlier handover of that step was refused because the queue was busy, and it is the same
  command under the same id. This holds over every stretch of the life of the runs in which the run is not resumed after an
  intervention (\<^verbatim>\<open>resume_pre_dispatch\<close>, for caller plans only), which retires the ticket so that its step is prepared anew.\<close>
theorem runner_dispatches_once:
  assumes "w = runner_run before (new_world env)" and "sent = wd_sent (runner_run ops w)"
    and "list_all (\<lambda>ho. \<not> intervenes run ho) ops"
    and "length (wd_sent w) \<le> i" and "i < j" and "j < length sent"
    and "sd_run (sent ! i) = run" and "sd_run (sent ! j) = run" and "tk_step (sd_ticket (sent ! i)) = tk_step (sd_ticket (sent ! j))"
  shows "sd_busy (sent ! i) \<and> tk_id (sd_ticket (sent ! i)) = tk_id (sd_ticket (sent ! j))
    \<and> tk_command (sd_ticket (sent ! i)) = tk_command (sd_ticket (sent ! j))"
proof -
  let ?n = "length (wd_sent w)"
  have "run_ok ?n run w"
    using run_journal[OF new_journal_ok, of before env] assms(1)
    by (auto simp: run_ok_def journal_ok_def accounts_def ticket_seen_def split: option.split)
  from run_run_ok[OF assms(3) this] have "sorted_wrt (again_within run) (drop ?n sent)"
    unfolding run_ok_def assms(2) by simp
  from sorted_wrt_nth_less[OF this, of "i - ?n" "j - ?n"] have "again_within run (sent ! i) (sent ! j)"
    using assms(4-6) by simp
  then show ?thesis using assms(7-9) by (simp add: again_within_def again_ok_def)
qed

theorem runner_dispatches_once_witness:
  "sd_busy (wd_sent (runner_run [clicked_start, (clicked_host, AdvanceRun clicked_run)] (new_world (0, False))) ! 0)"
proof -
  let ?sent = "wd_sent (runner_run [clicked_start, (clicked_host, AdvanceRun clicked_run)] (new_world (0, False)))"
  obtain x y where sent: "?sent = [x, y]" and same: "sd_run x = clicked_run" "sd_run y = clicked_run"
    "tk_step (sd_ticket x) = tk_step (sd_ticket y)"
    using clicked_sent by (auto simp: map_eq_Cons_conv)
  have none: "list_all (\<lambda>ho. \<not> intervenes clicked_run ho) [clicked_start, (clicked_host, AdvanceRun clicked_run)]"
    using clicked_source by (simp add: intervenes_def)
  have start: "new_world (0, False) = runner_run [] (new_world (0, False))" by (simp add: runner_run_def)
  have "length (wd_sent (new_world (0, False))) \<le> 0" by (simp add: new_world_def)
  from runner_dispatches_once[OF start refl none this, of 1] show ?thesis by (simp add: sent same)
qed

text \<open>C7: Whenever a command is handed over, the file of its run already holds its ticket as being dispatched, with
  the same step, id and command, and lists the step among the steps the run has seen.\<close>
theorem runner_writes_ahead:
  "list_all written_ahead (wd_sent (runner_run ops (new_world env)))"
  using run_journal[OF new_journal_ok, of ops env] by (simp add: journal_ok_def)

text \<open>C8: After a cancellation of a run that had not ended was accepted, nothing is handed over for the run any more,
  neither by the cancellation nor by any later operations on any runs.\<close>
theorem runner_cancel_stops_dispatch:
  assumes "runner_do h (CancelRun run request) w = (Inr v, w')"
    and "map_of (wd_runs w) run = Some s" and "rn_status s \<notin> set run_end"
  shows "run_sends run (runner_run ops w') = run_sends run w"
proof -
  have "stopped_at run (run_sends run w) w'" using cancel_stops[of h run request w v w' s] assms by simp
  from run_stopped[OF this] show ?thesis by (simp add: stopped_at_def)
qed

theorem runner_cancel_stops_dispatch_witness:
  "run_sends clicked_run (runner_run [(clicked_host, AdvanceRun clicked_run)]
     (runner_after (clicked_host, CancelRun clicked_run ''stop-1'') clicked_waiting)) = run_sends clicked_run clicked_waiting"
proof -
  obtain s where "map_of (wd_runs clicked_waiting) clicked_run = Some s" "rn_status s = ''waiting''" using clicked_waits by auto
  moreover obtain v w' where "runner_do clicked_host (CancelRun clicked_run ''stop-1'') clicked_waiting = (Inr v, w')"
    using clicked_cancels by blast
  ultimately show ?thesis
    using runner_cancel_stops_dispatch[of clicked_host clicked_run "''stop-1''" clicked_waiting v w' s] 
    by (simp add: runner_after_def run_end_def)
qed

text \<open>C9: The file of a run that has ended never changes again, and nothing more is handed over for the run, whatever
  operations follow on this or on other runs, as long as the run is not resumed after an intervention, which caller plans only allow.\<close>
theorem runner_end_is_final:
  assumes "list_all (\<lambda>ho. \<not> intervenes run ho) ops"
    and "map_of (wd_runs w) run = Some s" and "rn_status s \<in> set run_end"
  shows "map_of (wd_runs (runner_run ops w)) run = Some s \<and> run_sends run (runner_run ops w) = run_sends run w"
  using run_ended[of run ops w s "run_sends run w"] assms by (simp add: of_run_def run_sends_def)

theorem runner_end_is_final_witness:
  "map_option rn_status (map_of (wd_runs (runner_run [clicked_start, (clicked_host, CancelRun clicked_run ''stop-1'')]
     (runner_after (clicked_host, AdvanceRun clicked_run) clicked_waiting))) clicked_run) = Some ''completed''"
proof -
  let ?w = "runner_after (clicked_host, AdvanceRun clicked_run) clicked_waiting"
  obtain s where s: "map_of (wd_runs ?w) clicked_run = Some s" "rn_status s = ''completed''" using clicked_ends by auto
  have "list_all (\<lambda>ho. \<not> intervenes clicked_run ho) [clicked_start, (clicked_host, CancelRun clicked_run ''stop-1'')]"
    using clicked_source by (simp add: intervenes_def)
  from runner_end_is_final[OF this s(1)] s show ?thesis by (simp add: run_end_def)
qed

text \<open>C10: An operation on a run in the mode \<^verbatim>\<open>single\<close> hands over at most one command.\<close>
theorem runner_single_step:
  assumes "driven_mode op w = ''single''"
  shows "length (wd_sent (runner_after (h, op) w)) \<le> length (wd_sent w) + 1"
  by (rule after_once[OF assms])

theorem runner_single_step_witness:
  "length (wd_sent (runner_after clicked_start (new_world (0, False)))) \<le> 1"
  using runner_single_step[of "snd clicked_start" "new_world (0, False)" "fst clicked_start"]
  by (simp add: clicked_start_def driven_mode_def new_world_def)

text \<open>C11: Except for a caller plan, whose steps have no fixed bound, the 257 rounds of the drive are enough for every run that
  was saved: with any number of rounds more it would do the same, so the loop never ends because the rounds are used up.\<close>
theorem runner_drive_within_budget:
  assumes "map_of (wd_runs (runner_run ops (new_world env))) run = Some s" and "ho_source h \<noteq> ''caller_plan''"
  shows "drive_loop (drive_rounds + k) h allow s w = drive_loop drive_rounds h allow s w"
proof (rule drive_budget[OF assms(2)])
  show "ticket_seen s" using run_journal[OF new_journal_ok, of ops env] assms(1) by (simp add: journal_ok_def)
qed

theorem runner_drive_within_budget_witness:
  "\<exists>s. map_of (wd_runs clicked_waiting) clicked_run = Some s
     \<and> drive_loop (drive_rounds + 5) clicked_host True s clicked_waiting = drive_loop drive_rounds clicked_host True s clicked_waiting"
proof -
  obtain s where s: "map_of (wd_runs (runner_run [clicked_start] (new_world (0, False)))) clicked_run = Some s"
    using clicked_waits by (auto simp: runner_run_def clicked_waiting_def)
  from runner_drive_within_budget[OF s clicked_source(2), of 5 True clicked_waiting] s show ?thesis
    by (simp add: runner_run_def clicked_waiting_def)
qed

text \<open>To start a run that exists and to repeat a resumption that was recorded only shows the run: no file changes and
  nothing is handed over.\<close>
theorem runner_repeat_changes_nothing:
  assumes "map_of (wd_runs w) run = Some s"
    and "op = StartRun run request mode vision \<or> (op = ResumeRun run request wait_id \<and> map_of (rn_resumes s) request \<noteq> None)"
  shows "wd_runs (runner_after (h, op) w) = wd_runs w \<and> wd_sent (runner_after (h, op) w) = wd_sent w"
proof -
  have "same_files w (runner_after (h, op) w)"
  proof (rule after_triple)
    show "idle w (runner_do h op)"
      using assms(2) start_idle[OF assms(1), of h request mode vision] resume_idle[OF assms(1), of request h wait_id] by auto
  qed
  then show ?thesis by (simp add: same_files_def)
qed

theorem runner_repeat_changes_nothing_witness:
  "wd_sent (runner_after clicked_start clicked_waiting) = wd_sent clicked_waiting"
proof -
  obtain s where "map_of (wd_runs clicked_waiting) clicked_run = Some s" using clicked_waits by auto
  from runner_repeat_changes_nothing[OF this, of "snd clicked_start" "''start-1''" "''single''" PNone "[]" "fst clicked_start"]
  show ?thesis by (simp add: clicked_start_def)
qed

end
