(* ===== verification/NavigationReading.thy ===== *)
theory NavigationReading
  imports ContinuousSession
begin

text \<open>
  The choices of a navigation and reading agent: \<^verbatim>\<open>app/agent/navigation_reading.py\<close>.
  \<open>build_navigation_context\<close> offers, from the reviewed evidence of an interface and the current observation, the
  actions the agent may choose from; \<open>validate_navigation_decision\<close> turns a choice into a plan of one step.
\<close>

section \<open>Words\<close>

definition read_strategies :: "string list" where
  "read_strategies = [''finite_detail'', ''infinite_collection'']"

definition forbidden_actions :: "string list" where
  "forbidden_actions = [''confirm'', ''final_apply'', ''final_submit'', ''payment'', ''send'', ''submit'']"

definition forbidden_parts :: "string list" where
  "forbidden_parts = [''confirm_purchase'', ''final_apply'', ''final_submit'', ''payment'', ''place_order'', ''purchase'',
     ''send_application'', ''send_message'', ''submit_application'']"

definition normalize_action :: "pyval \<Rightarrow> string" where
  "normalize_action v = map (\<lambda>c. if c = CHR ''-'' \<or> c = CHR '' '' then CHR ''_'' else c) (casefold (strip (text_or_empty v)))"

definition is_forbidden_action :: "string \<Rightarrow> bool" where
  "is_forbidden_action v = (let name = normalize_action (PStr v) in
     name \<in> set forbidden_actions \<or> list_ex (\<lambda>part. occurs part name) forbidden_parts)"

definition non_negative_int :: "pyval \<Rightarrow> string \<Rightarrow> int res" where
  "non_negative_int v field_name = (case py_int (py_or v (PInt 0)) of
       Inl TypeError \<Rightarrow> Inl (ValueError (field_name @ '' must be an integer''))
     | Inl (ValueError _) \<Rightarrow> Inl (ValueError (field_name @ '' must be an integer''))
     | Inl e \<Rightarrow> Inl e
     | Inr n \<Rightarrow> if n < 0 then Inl (ValueError (field_name @ '' must not be negative'')) else Inr n)"

section \<open>Progress of the task and of the reading\<close>

definition semantic_text_list :: "pyval \<Rightarrow> string \<Rightarrow> pyval res" where
  "semantic_text_list v field_name = (case v of
       PNone \<Rightarrow> Inr (PList [])
     | PList xs \<Rightarrow> rbind (map_res (\<lambda>x. required_text x field_name) xs) (\<lambda>ts. Inr (PList (map PStr ts)))
     | _ \<Rightarrow> Inl (ValueError (field_name @ '' must be a list'')))"

definition normalized_task_progress :: "pyval \<Rightarrow> pyval res" where
  "normalized_task_progress v =
     (if v = PNone then Inr (PDict [(''sequence'', PInt 0), (''visited_interfaces'', PList []), (''completed_choice_ids'', PList []),
        (''last_outcome'', PStr ''not_started''), (''bounded_read_content_ids'', PList []), (''completed_read_content_ids'', PList [])])
      else if \<not> is_dict v then Inl (ValueError ''task_progress must be an object'')
      else rbind (non_negative_int (pget v ''sequence'') ''task progress sequence'') (\<lambda>n.
        rbind (semantic_text_list (pget v ''visited_interfaces'') ''visited_interfaces'') (\<lambda>visited.
        rbind (semantic_text_list (pget v ''completed_choice_ids'') ''completed_choice_ids'') (\<lambda>completed.
        rbind (semantic_text_list (pget v ''bounded_read_content_ids'') ''bounded_read_content_ids'') (\<lambda>bounded.
        rbind (semantic_text_list (pget v ''completed_read_content_ids'') ''completed_read_content_ids'') (\<lambda>read.
        Inr (PDict [(''sequence'', PInt n), (''visited_interfaces'', visited), (''completed_choice_ids'', completed),
          (''last_outcome'', PStr (strip (py_str (py_or (pget v ''last_outcome'') (PStr ''not_started''))))),
          (''bounded_read_content_ids'', bounded), (''completed_read_content_ids'', read)])))))))"

definition budget_used :: "int \<Rightarrow> int \<Rightarrow> bool" where
  "budget_used used most = (0 < most \<and> most \<le> used)"

definition read_completion :: "string \<Rightarrow> string \<Rightarrow> bool \<Rightarrow> string" where
  "read_completion strategy status exhausted =
     (if status = ''wrong_scope_detected'' then ''blocked_wrong_scope''
      else if status = ''reading_stopped'' then ''bounded_stop''
      else if strategy = ''finite_detail'' then if status = ''reached_bottom'' then ''complete'' else ''incomplete''
      else if exhausted then ''budget_exhausted'' else ''incomplete'')"

definition unread_state :: pyval where
  "unread_state = PDict [(''strategy'', PNone), (''status'', PStr ''not_started''), (''completion'', PStr ''not_started''),
     (''content_id'', PNone), (''scrolls_used'', PInt 0), (''max_scrolls'', PInt 0), (''items_read'', PInt 0), (''max_items'', PInt 0)]"

definition text_or_none :: "string \<Rightarrow> pyval" where
  "text_or_none s = (if s = [] then PNone else PStr s)"

definition read_state_of :: "string \<Rightarrow> string \<Rightarrow> pyval \<Rightarrow> int \<Rightarrow> int \<Rightarrow> int \<Rightarrow> int \<Rightarrow> pyval" where
  "read_state_of strategy batch content scrolls_used max_scrolls items_read max_items =
     (let exhausted = budget_used scrolls_used max_scrolls \<or> budget_used items_read max_items;
          status = (if batch = ''captures_exhausted'' \<and> \<not> exhausted then ''capture_batch_complete'' else batch) in
      PDict [(''strategy'', PStr strategy), (''status'', PStr status), (''batch_stop_reason'', PStr batch),
        (''completion'', PStr (read_completion strategy status exhausted)),
        (''content_id'', text_or_none (strip (text_or_empty content))), (''scrolls_used'', PInt scrolls_used),
        (''max_scrolls'', PInt max_scrolls), (''items_read'', PInt items_read), (''max_items'', PInt max_items)])"

definition normalized_read_state :: "pyval \<Rightarrow> pyval res" where
  "normalized_read_state v =
     (if v = PNone then Inr unread_state
      else if \<not> is_dict v then Inl (ValueError ''read_progress must be an object'')
      else rbind (required_text (pget v ''strategy'') ''read strategy'') (\<lambda>strategy.
        rbind (ensure (strategy \<in> set read_strategies) (ValueError (''unsupported read strategy: '' @ strategy))) (\<lambda>_.
        rbind (required_text (py_or (pget v ''status'') (PStr ''reading'')) ''read status'') (\<lambda>batch.
        rbind (non_negative_int (pget v ''scrolls_used'') ''scrolls_used'') (\<lambda>scrolls_used.
        rbind (non_negative_int (pget v ''max_scrolls'') ''max_scrolls'') (\<lambda>max_scrolls.
        rbind (non_negative_int (pget v ''items_read'') ''items_read'') (\<lambda>items_read.
        rbind (non_negative_int (pget v ''max_items'') ''max_items'') (\<lambda>max_items.
        Inr (read_state_of strategy batch (pget v ''content_id'') scrolls_used max_scrolls items_read max_items)))))))))"

section \<open>Reviewed evidence\<close>

text \<open>The controls by their identifier; of two with the same one the later counts.\<close>

definition control_of :: "pyval list \<Rightarrow> string \<Rightarrow> pyval option" where
  "control_of controls k = map_of (rev (map (\<lambda>c. (text_or_empty (pget c ''control_id''), c))
     (filter (\<lambda>c. is_dict c \<and> text_or_empty (pget c ''control_id'') \<noteq> []) controls))) k"

definition control_complete :: "pyval \<Rightarrow> string \<Rightarrow> bool" where
  "control_complete control action_type = (let verification = pget control ''verification_rule'' in
     strip (text_or_empty (pget control ''semantic_name'')) \<noteq> []
     \<and> strip (text_or_empty (pget control ''purpose'')) \<noteq> []
     \<and> strip (text_or_empty (pget control ''risk_class'')) \<noteq> []
     \<and> is_list (pget control ''allowed_actions'')
     \<and> py_in (PStr action_type) (plist (pget control ''allowed_actions''))
     \<and> is_dict verification \<and> (truthy (pget verification ''rule_ids'') \<or> truthy (pget verification ''success_conditions'')))"

definition check_available_action :: "pyval list \<Rightarrow> pyval \<Rightarrow> unit res" where
  "check_available_action controls action =
     (if \<not> is_dict action then Inr ()
      else rbind (required_text (pget action ''source_control_id'') ''source_control_id'') (\<lambda>source.
        case control_of controls source of
          None \<Rightarrow> Inl (ValueError ''available action requires a semantic control'')
        | Some control \<Rightarrow> ensure (control_complete control (normalize_action (pget action ''action_type'')))
            (ValueError ''available action has an incomplete semantic control'')))"

definition validate_semantic_controls :: "pyval \<Rightarrow> unit res" where
  "validate_semantic_controls evidence =
     rbind (py_iter (py_or (pget evidence ''semantic_controls'') (PList []))) (\<lambda>controls.
     rbind (py_iter (py_or (pget evidence ''available_actions'') (PList []))) (\<lambda>actions.
     each (check_available_action controls) actions))"

definition validated_interface_evidence :: "pyval \<Rightarrow> pyval res" where
  "validated_interface_evidence v =
     rbind (ensure (is_dict v \<and> pget v ''contract_version'' = PStr ''agent_evidence_context_v1'')
       (ValueError ''navigation reading requires agent_evidence_context_v1'')) (\<lambda>_.
     rbind (ensure (pget (pget v ''readiness'') ''status'' = PStr ''agent_usable'')
       (ValueError ''navigation reading requires an agent_usable reviewed interface'')) (\<lambda>_.
     rbind (required_text (pget (pget v ''interface'') ''interface_id'') ''interface_id'') (\<lambda>_.
     rbind (ensure (pget v ''artifact_is_authorization'' = PBool False)
       (ValueError ''reviewed interface evidence must not authorize execution'')) (\<lambda>_.
     rbind (validate_semantic_controls v) (\<lambda>_. Inr v)))))"

definition observation_contract :: string where
  "observation_contract = ''current_interface_observation_v1''"

definition validated_current_observation :: "pyval \<Rightarrow> pyval \<Rightarrow> pyval res" where
  "validated_current_observation v expected =
     rbind (ensure (is_dict v \<and> pget v ''contract_version'' = PStr observation_contract)
       (ValueError (observation_contract @ '' is required''))) (\<lambda>_.
     rbind (required_text (pget v ''interface_id'') ''interface_id'') (\<lambda>interface.
     rbind (ensure (PStr interface = expected) (ValueError ''current observation interface identity mismatch'')) (\<lambda>_.
     rbind (required_text (pget v ''capture_id'') ''capture_id'') (\<lambda>capture.
     rbind (required_text (pget v ''screenshot_sha256'') ''screenshot_sha256'') (\<lambda>sha.
     rbind (required_text (pget v ''trace_path'') ''trace_path'') (\<lambda>trace_path.
     Inr (PDict [(''contract_version'', PStr observation_contract), (''interface_id'', PStr interface),
       (''capture_id'', PStr capture), (''screenshot_sha256'', PStr sha), (''trace_path'', PStr trace_path)])))))))"

section \<open>Choices\<close>

definition safe_stop_choice :: "string \<Rightarrow> pyval" where
  "safe_stop_choice reason = PDict [(''choice_id'', PStr (''safe_stop:'' @ reason)), (''decision_type'', PStr ''safe_stop''),
     (''semantic_action'', PStr ''safe_stop''), (''display_name'', PStr ''Safe stop''),
     (''agent_description'', PStr ''Stop without another GUI action and retain Trace evidence.''), (''stop_reason'', PStr reason)]"

definition stop_reading_choice :: pyval where
  "stop_reading_choice = PDict [(''choice_id'', PStr ''read:stop_budgeted_collection''), (''decision_type'', PStr ''stop_reading''),
     (''semantic_action'', PStr ''stop_reading''), (''display_name'', PStr ''Stop collection reading''),
     (''agent_description'', PStr ''Stop when the information goal or configured read budget has been satisfied.'')]"

definition scroll_choice :: pyval where
  "scroll_choice = PDict [(''choice_id'', PStr ''scroll:current_read_region''), (''decision_type'', PStr ''scroll_for_more''),
     (''semantic_action'', PStr ''scroll''), (''display_name'', PStr ''Scroll current read region''),
     (''agent_description'', PStr ''Scroll the currently reviewed read region, then verify target content changed and non-target panes stayed stable.''),
     (''expected_effect'', PDict [(''target_content_must_change_or_reach_bottom'', PBool True),
       (''non_target_panes_must_remain_stable'', PBool True)])]"

definition read_number :: "pyval \<Rightarrow> string \<Rightarrow> int" where
  "read_number state k = (case pget state k of PInt n \<Rightarrow> n | _ \<Rightarrow> 0)"

definition can_scroll :: "pyval \<Rightarrow> bool" where
  "can_scroll state = (let most = read_number state ''max_scrolls''; items = read_number state ''max_items'' in
     (pget state ''strategy'' = PStr ''finite_detail'' \<or> pget state ''strategy'' = PStr ''infinite_collection'')
     \<and> pget state ''status'' \<noteq> PStr ''reached_bottom'' \<and> pget state ''status'' \<noteq> PStr ''reading_stopped''
     \<and> pget state ''status'' \<noteq> PStr ''wrong_scope_detected''
     \<and> 0 < most \<and> read_number state ''scrolls_used'' < most
     \<and> \<not> (0 < items \<and> items \<le> read_number state ''items_read''))"

text \<open>The text a choice carries: the first that is not empty.\<close>

definition shown_text :: "pyval \<Rightarrow> string \<Rightarrow> pyval" where
  "shown_text v k = PStr (text_or_empty (pget v k))"

definition transition_open :: "pyval \<Rightarrow> pyval \<Rightarrow> bool" where
  "transition_open entry state = (let required = strip (text_or_empty (pget entry ''requires_completed_read'')) in
     required = [] \<or> (pget state ''content_id'' = PStr required \<and> pget state ''status'' = PStr ''reached_bottom''))"

definition operation_goal :: "pyval \<Rightarrow> string \<Rightarrow> string" where
  "operation_goal entry action = py_str (py_or (pget entry ''operation_goal'') (py_or (pget entry ''agent_description'')
     (py_or (pget entry ''display_name'') (PStr action))))"

definition transition_choice :: "pyval list \<Rightarrow> pyval \<Rightarrow> pyval \<Rightarrow> pyval option res" where
  "transition_choice controls state entry =
     (let action = normalize_action (pget entry ''action_type'') in
      if \<not> is_dict entry \<or> action = [] \<or> is_forbidden_action action \<or> \<not> transition_open entry state then Inr None
      else rbind (required_text (pget entry ''action_id'') ''action_id'') (\<lambda>action_id.
        let source = text_or_empty (pget entry ''source_control_id'');
            required = strip (text_or_empty (pget entry ''requires_completed_read'')) in
        case control_of controls source of
          None \<Rightarrow> Inl (KeyError source)
        | Some control \<Rightarrow> Inr (Some (PDict
            [(''choice_id'', PStr (''transition:'' @ action_id)), (''decision_type'', PStr ''follow_transition''),
             (''semantic_action'', PStr action),
             (''display_name'', PStr (py_str (py_or (pget entry ''display_name'') (PStr action)))),
             (''agent_description'', shown_text entry ''agent_description''),
             (''operation_goal'', PStr (operation_goal entry action)),
             (''source_control_id'', PStr source), (''source_control'', control),
             (''target_interface_id'', shown_text entry ''target_interface_id''),
             (''requires_completed_read'', text_or_none required),
             (''risk_level'', PStr (py_str (py_or (pget entry ''risk_level'') (PStr ''unknown'')))),
             (''success_conditions'', py_or (pget entry ''success_conditions'') (PList []))]))))"

definition transition_choices :: "pyval \<Rightarrow> pyval \<Rightarrow> pyval \<Rightarrow> pyval list res" where
  "transition_choices actions controls state =
     rbind (map_res (transition_choice (plist controls) state) (plist actions)) (\<lambda>found. Inr (List.map_filter id found))"

definition read_strategy_of :: "pyval \<Rightarrow> string" where
  "read_strategy_of entry = (let given = strip (text_or_empty (pget entry ''read_strategy'')) in
     if given \<noteq> [] then given
     else if pget entry ''content_behavior'' = PStr ''dynamic_collection'' then ''infinite_collection'' else ''finite_detail'')"

definition default_scrolls :: "string \<Rightarrow> pyval \<Rightarrow> pyval" where
  "default_scrolls strategy v = (if v \<noteq> PNone then v else PInt (if strategy = ''infinite_collection'' then 3 else 6))"

definition read_choice :: "pyval \<Rightarrow> pyval \<Rightarrow> pyval option res" where
  "read_choice state entry =
     (if \<not> is_dict entry then Inr None
      else rbind (required_text (pget entry ''content_id'') ''content_id'') (\<lambda>content.
        if pget state ''content_id'' = PStr content
          \<and> (pget state ''completion'' = PStr ''incomplete'' \<or> pget state ''completion'' = PStr ''complete''
             \<or> pget state ''completion'' = PStr ''bounded_stop'')
        then Inr None
        else let strategy = read_strategy_of entry in
          rbind (non_negative_int (default_scrolls strategy (pget entry ''max_scrolls'')) ''max_scrolls'') (\<lambda>max_scrolls.
          rbind (non_negative_int (pget entry ''max_items'') ''max_items'') (\<lambda>max_items.
          Inr (Some (PDict
            [(''choice_id'', PStr (''read:'' @ content)), (''decision_type'', PStr ''read_region''), (''semantic_action'', PStr ''read''),
             (''display_name'', PStr (py_str (py_or (pget entry ''label'') (PStr content)))),
             (''agent_description'', shown_text entry ''agent_description''), (''content_id'', PStr content),
             (''read_policy'', PStr (py_str (py_or (pget entry ''read_policy'') (PStr ''on_demand'')))),
             (''read_strategy'', PStr strategy),
             (''completion_policy'', PStr (py_str (py_or (pget entry ''completion_policy'')
                (PStr (if strategy = ''infinite_collection'' then ''budget_or_no_new_content'' else ''reached_bottom_required''))))),
             (''max_scrolls'', PInt max_scrolls), (''max_items'', PInt max_items)]))))))"

definition read_choices :: "pyval \<Rightarrow> pyval \<Rightarrow> pyval list res" where
  "read_choices reads state = rbind (map_res (read_choice state) (plist reads)) (\<lambda>found. Inr (List.map_filter id found))"

definition collection_open :: "pyval \<Rightarrow> bool" where
  "collection_open state = (pget state ''strategy'' = PStr ''infinite_collection'' \<and> pget state ''status'' \<noteq> PStr ''reading_stopped'')"

definition navigation_choices :: "pyval \<Rightarrow> pyval \<Rightarrow> pyval list res" where
  "navigation_choices evidence state =
     (if pget state ''status'' = PStr ''wrong_scope_detected'' then Inr [safe_stop_choice ''wrong_scope_detected'']
      else if collection_open state \<and> pget state ''completion'' = PStr ''budget_exhausted''
        then Inr [stop_reading_choice, safe_stop_choice ''agent_requested_safe_stop'']
      else rbind (transition_choices (pget evidence ''available_actions'') (pget evidence ''semantic_controls'') state) (\<lambda>moves.
        rbind (read_choices (pget evidence ''deferred_reads'') state) (\<lambda>reads.
        Inr (moves @ reads @ (if can_scroll state then [scroll_choice] else [])
          @ (if collection_open state then [stop_reading_choice] else []) @ [safe_stop_choice ''agent_requested_safe_stop'']))))"

text \<open>A transition that was completed is not offered again.\<close>

definition still_open :: "pyval \<Rightarrow> pyval \<Rightarrow> bool" where
  "still_open progress choice = (\<not> (pget choice ''decision_type'' = PStr ''follow_transition''
     \<and> pget choice ''choice_id'' \<in> set (plist (pget progress ''completed_choice_ids''))))"

definition context_contract :: string where
  "context_contract = ''navigation_reading_agent_context_v1''"

definition navigation_context :: "string \<Rightarrow> pyval \<Rightarrow> pyval \<Rightarrow> pyval \<Rightarrow> pyval \<Rightarrow> pyval list \<Rightarrow> pyval" where
  "navigation_context goal evidence current state progress choices = PDict
     [(''contract_version'', PStr context_contract), (''goal'', PStr goal), (''interface'', pget evidence ''interface''),
      (''current_observation'', current), (''read_state'', state), (''task_progress'', progress),
      (''semantic_controls'', py_or (pget evidence ''semantic_controls'') (PList [])), (''choices'', PList choices),
      (''verification_rules'', py_or (pget evidence ''verification_rules'') (PList [])),
      (''blockers'', py_or (pget evidence ''blockers'') (PList [])),
      (''execution_contract'', PDict [(''current_capture_required'', PBool True), (''current_target_resolution_required'', PBool True),
         (''historical_coordinates_forbidden'', PBool True), (''gate_required'', PBool True), (''operation_required'', PBool True),
         (''trace_required'', PBool True), (''post_action_verification_required'', PBool True),
         (''final_submit_forbidden'', PBool True), (''artifact_is_authorization'', PBool False),
         (''execute_binding_enabled'', PBool False), (''source_contract'', py_or (pget evidence ''execution_contract'') (PDict []))]),
      (''artifact_is_authorization'', PBool False), (''execute_binding_enabled'', PBool False)]"

definition build_navigation_context :: "pyval \<Rightarrow> pyval \<Rightarrow> pyval \<Rightarrow> pyval \<Rightarrow> pyval \<Rightarrow> pyval res" where
  "build_navigation_context goal interface_evidence observation read_progress task_progress =
     rbind (required_text goal ''goal'') (\<lambda>goal.
     rbind (validated_interface_evidence interface_evidence) (\<lambda>evidence.
     rbind (validated_current_observation observation (pget (pget evidence ''interface'') ''interface_id'')) (\<lambda>current.
     rbind (normalized_read_state read_progress) (\<lambda>state.
     rbind (normalized_task_progress task_progress) (\<lambda>progress.
     rbind (navigation_choices evidence state) (\<lambda>choices.
     Inr (navigation_context goal evidence current state progress (filter (still_open progress) choices))))))))"

lemma navigation_context_simps [simp]:
  "is_dict (navigation_context goal evidence current state progress choices)"
  "pget (navigation_context goal evidence current state progress choices) ''contract_version'' = PStr context_contract"
  "pget (navigation_context goal evidence current state progress choices) ''goal'' = PStr goal"
  "pget (navigation_context goal evidence current state progress choices) ''interface'' = pget evidence ''interface''"
  "pget (navigation_context goal evidence current state progress choices) ''current_observation'' = current"
  "pget (navigation_context goal evidence current state progress choices) ''read_state'' = state"
  "pget (navigation_context goal evidence current state progress choices) ''task_progress'' = progress"
  "pget (navigation_context goal evidence current state progress choices) ''choices'' = PList choices"
  by (simp_all add: navigation_context_def dict_get_def)

section \<open>Decisions\<close>

definition plan_contract :: string where
  "plan_contract = ''navigation_reading_decision_plan_v1''"

definition offered_choice :: "pyval list \<Rightarrow> string \<Rightarrow> pyval option" where
  "offered_choice choices choice_id = find (\<lambda>c. is_dict c \<and> pget c ''choice_id'' = PStr choice_id) choices"

definition navigation_plan :: "pyval \<Rightarrow> pyval \<Rightarrow> pyval \<Rightarrow> string \<Rightarrow> string \<Rightarrow> string \<Rightarrow> pyval \<Rightarrow> pyval" where
  "navigation_plan context_value interface_id selected choice_id semantic_action reason freshness =
     (let acting = PBool (semantic_action \<noteq> ''safe_stop'' \<and> semantic_action \<noteq> ''stop_reading'') in
      PDict [(''contract_version'', PStr plan_contract), (''goal'', pget context_value ''goal''), (''interface_id'', interface_id),
        (''choice_id'', PStr choice_id), (''decision_type'', pget selected ''decision_type''),
        (''semantic_action'', PStr semantic_action), (''reason'', PStr reason),
        (''source_control_id'', pget selected ''source_control_id''), (''operation_goal'', pget selected ''operation_goal''),
        (''content_id'', pget selected ''content_id''),
        (''expected_target_interface_id'', pget selected ''target_interface_id''),
        (''expected_effect'', py_or (pget selected ''expected_effect'') (PDict [])), (''freshness'', freshness),
        (''requires_operation_resolution'', acting), (''requires_gate'', acting), (''requires_post_action_verification'', acting),
        (''artifact_is_authorization'', PBool False), (''execute_binding_enabled'', PBool False)])"

definition plan_freshness :: "pyval \<Rightarrow> pyval res" where
  "plan_freshness observation =
     rbind (item observation ''capture_id'') (\<lambda>capture.
     rbind (item observation ''screenshot_sha256'') (\<lambda>sha.
     rbind (item observation ''trace_path'') (\<lambda>trace_path.
     Inr (PDict [(''capture_id'', capture), (''screenshot_sha256'', sha), (''trace_path'', trace_path)]))))"

definition validate_navigation_decision :: "pyval \<Rightarrow> pyval \<Rightarrow> pyval res" where
  "validate_navigation_decision context_value decision =
     rbind (ensure (is_dict context_value \<and> pget context_value ''contract_version'' = PStr context_contract)
       (ValueError ''invalid navigation reading Agent context'')) (\<lambda>_.
     rbind (ensure (is_dict decision) (ValueError ''Agent decision is required'')) (\<lambda>_.
     rbind (required_text (pget decision ''choice_id'') ''choice_id'') (\<lambda>choice_id.
     rbind (required_text (pget decision ''reason'') ''reason'') (\<lambda>reason.
     rbind (py_iter (py_or (pget context_value ''choices'') (PList []))) (\<lambda>choices.
     case offered_choice choices choice_id of
       None \<Rightarrow> Inl (ValueError (''Agent choice is not available: '' @ choice_id))
     | Some selected \<Rightarrow>
         let semantic_action = normalize_action (pget selected ''semantic_action'');
             observation = pget context_value ''current_observation'' in
         rbind (ensure (\<not> is_forbidden_action semantic_action) (ValueError ''final or destructive action is forbidden'')) (\<lambda>_.
         rbind (ensure (is_dict observation) (ValueError ''current observation is missing'')) (\<lambda>_.
         rbind (get_or_raise (py_or (pget context_value ''interface'') (PDict [])) ''interface_id'') (\<lambda>interface_id.
         rbind (plan_freshness observation) (\<lambda>freshness.
         Inr (navigation_plan context_value interface_id selected choice_id semantic_action reason freshness))))))))))"

section \<open>What is offered\<close>

lemma fixed_choices_allowed:
  "\<not> is_forbidden_action ''safe_stop''" "\<not> is_forbidden_action ''stop_reading''" "\<not> is_forbidden_action ''scroll''"
  "\<not> is_forbidden_action ''read''"
  by code_simp+

text \<open>A choice the agent may take.\<close>

definition choice_fits :: "pyval \<Rightarrow> pyval \<Rightarrow> bool" where
  "choice_fits state c = ((\<exists>a. pget c ''semantic_action'' = PStr a \<and> \<not> is_forbidden_action a)
     \<and> (pget c ''decision_type'' = PStr ''follow_transition'' \<longrightarrow> pget c ''requires_completed_read'' = PNone
          \<or> (pget c ''requires_completed_read'' = pget state ''content_id'' \<and> pget state ''status'' = PStr ''reached_bottom''))
     \<and> (pget c ''decision_type'' = PStr ''scroll_for_more'' \<longrightarrow>
          read_number state ''scrolls_used'' < read_number state ''max_scrolls'' \<and> pget state ''status'' \<noteq> PStr ''reached_bottom''))"

lemma fixed_choices_fit:
  "choice_fits state (safe_stop_choice reason)" "choice_fits state stop_reading_choice" "can_scroll state \<Longrightarrow> choice_fits state scroll_choice"
  by (simp_all add: choice_fits_def safe_stop_choice_def stop_reading_choice_def scroll_choice_def dict_get_def
      fixed_choices_allowed can_scroll_def Let_def)

lemma transition_choice_fits:
  assumes "transition_choice controls state entry = Inr (Some c)"
  shows "choice_fits state c"
proof -
  from assms have open_now: "transition_open entry state" and allowed: "\<not> is_forbidden_action (normalize_action (pget entry ''action_type''))"
    by (auto simp: transition_choice_def Let_def split: if_split_asm)
  from assms obtain action_id control where c: "c = PDict
            [(''choice_id'', PStr (''transition:'' @ action_id)), (''decision_type'', PStr ''follow_transition''),
             (''semantic_action'', PStr (normalize_action (pget entry ''action_type''))),
             (''display_name'', PStr (py_str (py_or (pget entry ''display_name'') (PStr (normalize_action (pget entry ''action_type'')))))),
             (''agent_description'', shown_text entry ''agent_description''),
             (''operation_goal'', PStr (operation_goal entry (normalize_action (pget entry ''action_type'')))),
             (''source_control_id'', PStr (text_or_empty (pget entry ''source_control_id''))), (''source_control'', control),
             (''target_interface_id'', shown_text entry ''target_interface_id''),
             (''requires_completed_read'', text_or_none (strip (text_or_empty (pget entry ''requires_completed_read'')))),
             (''risk_level'', PStr (py_str (py_or (pget entry ''risk_level'') (PStr ''unknown'')))),
             (''success_conditions'', py_or (pget entry ''success_conditions'') (PList []))]"
    by (auto simp: transition_choice_def Let_def rbind_eq_Inr_iff split: if_split_asm option.split_asm)
  show ?thesis
    using open_now allowed unfolding c choice_fits_def transition_open_def Let_def
    by (auto simp: dict_get_def text_or_none_def)
qed

lemma read_choice_fits:
  assumes "read_choice state entry = Inr (Some c)"
  shows "choice_fits state c"
proof -
  from assms obtain content a b strategy x y where "c = PDict
            [(''choice_id'', PStr (''read:'' @ content)), (''decision_type'', PStr ''read_region''), (''semantic_action'', PStr ''read''),
             (''display_name'', a), (''agent_description'', b), (''content_id'', PStr content),
             (''read_policy'', PStr (py_str (py_or (pget entry ''read_policy'') (PStr ''on_demand'')))),
             (''read_strategy'', PStr strategy),
             (''completion_policy'', PStr (py_str (py_or (pget entry ''completion_policy'')
                (PStr (if strategy = ''infinite_collection'' then ''budget_or_no_new_content'' else ''reached_bottom_required''))))),
             (''max_scrolls'', PInt x), (''max_items'', PInt y)]"
    by (auto simp: read_choice_def Let_def rbind_eq_Inr_iff split: if_split_asm)
  then show ?thesis by (simp add: choice_fits_def dict_get_def fixed_choices_allowed)
qed

lemma found_choices:
  assumes "rbind (map_res f xs) (\<lambda>found. Inr (List.map_filter id found)) = Inr cs" and "c \<in> set cs"
  obtains x where "f x = Inr (Some c)"
proof -
  from assms obtain found where "map_res f xs = Inr found" "Some c \<in> set found"
    by (auto simp: rbind_eq_Inr_iff map_filter_def)
  then show ?thesis using map_res_set[of f xs found "Some c"] that by blast
qed

lemma navigation_choices_fit:
  assumes "navigation_choices evidence state = Inr cs" and "c \<in> set cs"
  shows "choice_fits state c"
proof -
  consider "c = safe_stop_choice ''wrong_scope_detected''" | "c = stop_reading_choice" | "c = safe_stop_choice ''agent_requested_safe_stop''"
    | "c = scroll_choice" "can_scroll state"
    | moves where "transition_choices (pget evidence ''available_actions'') (pget evidence ''semantic_controls'') state = Inr moves" "c \<in> set moves"
    | reads where "read_choices (pget evidence ''deferred_reads'') state = Inr reads" "c \<in> set reads"
    using assms by (auto simp: navigation_choices_def rbind_eq_Inr_iff split: if_split_asm)
  then show ?thesis
  proof cases
    case 5
    then show ?thesis unfolding transition_choices_def by (metis found_choices transition_choice_fits)
  next
    case 6
    then show ?thesis unfolding read_choices_def by (metis found_choices read_choice_fits)
  qed (simp_all add: fixed_choices_fit)
qed

lemma context_built:
  assumes "build_navigation_context goal evidence observation read_progress progress = Inr ctx"
  obtains title current state choices known where "required_text goal ''goal'' = Inr title"
    "validated_current_observation observation (pget (pget evidence ''interface'') ''interface_id'') = Inr current"
    "normalized_read_state read_progress = Inr state" "navigation_choices evidence state = Inr choices"
    "normalized_task_progress progress = Inr known"
    "ctx = navigation_context title evidence current state known (filter (still_open known) choices)"
proof -
  have "validated_interface_evidence evidence = Inr e \<Longrightarrow> e = evidence" for e
    by (auto simp: validated_interface_evidence_def rbind_eq_Inr_iff)
  with assms that show ?thesis unfolding build_navigation_context_def rbind_eq_Inr_iff by blast
qed

text \<open>Every choice offered fits, and no completed transition is offered.\<close>

lemma offered_fit:
  assumes "build_navigation_context goal evidence observation read_progress progress = Inr ctx"
    and "c \<in> set (plist (pget ctx ''choices''))"
  shows "choice_fits (pget ctx ''read_state'') c \<and> still_open (pget ctx ''task_progress'') c"
  using assms(1)
proof (rule context_built)
  fix title current state choices known
  assume "navigation_choices evidence state = Inr choices"
    and ctx: "ctx = navigation_context title evidence current state known (filter (still_open known) choices)"
  moreover have "c \<in> set choices" "still_open known c" using assms(2) by (simp_all add: ctx)
  ultimately show ?thesis using navigation_choices_fit by (simp add: ctx)
qed

lemma plan_made:
  assumes "validate_navigation_decision ctx decision = Inr plan"
  obtains choices selected freshness choice_id interface_id reason where
    "py_iter (py_or (pget ctx ''choices'') (PList [])) = Inr choices" "selected \<in> set choices" "pget selected ''choice_id'' = PStr choice_id"
    "\<not> is_forbidden_action (normalize_action (pget selected ''semantic_action''))"
    "get_or_raise (py_or (pget ctx ''interface'') (PDict [])) ''interface_id'' = Inr interface_id"
    "plan_freshness (pget ctx ''current_observation'') = Inr freshness"
    "plan = navigation_plan ctx interface_id selected choice_id (normalize_action (pget selected ''semantic_action'')) reason freshness"
proof -
  note facts = assms[unfolded validate_navigation_decision_def Let_def rbind_eq_Inr_iff ensure_eq_Inr_iff]
  from facts obtain choice_id reason choices where it: "py_iter (py_or (pget ctx ''choices'') (PList [])) = Inr choices"
    and rest: "(case offered_choice choices choice_id of
       None \<Rightarrow> Inl (ValueError (''Agent choice is not available: '' @ choice_id))
     | Some selected \<Rightarrow>
         rbind (ensure (\<not> is_forbidden_action (normalize_action (pget selected ''semantic_action'')))
           (ValueError ''final or destructive action is forbidden'')) (\<lambda>_.
         rbind (ensure (is_dict (pget ctx ''current_observation'')) (ValueError ''current observation is missing'')) (\<lambda>_.
         rbind (get_or_raise (py_or (pget ctx ''interface'') (PDict [])) ''interface_id'') (\<lambda>interface_id.
         rbind (plan_freshness (pget ctx ''current_observation'')) (\<lambda>freshness.
         Inr (navigation_plan ctx interface_id selected choice_id (normalize_action (pget selected ''semantic_action'')) reason freshness)))))) = Inr plan"
    by blast
  from rest obtain selected where selected: "offered_choice choices choice_id = Some selected"
    by (cases "offered_choice choices choice_id") simp_all
  then have "selected \<in> set choices" "pget selected ''choice_id'' = PStr choice_id"
    by (auto simp: offered_choice_def find_Some_iff)
  then show ?thesis using rest it that unfolding selected option.case rbind_eq_Inr_iff ensure_eq_Inr_iff by blast
qed

end
