(* ===== verification/NavigationController.thy ===== *)
theory NavigationController
  imports NavigationReading Actions
begin

text \<open>
  The navigation controller: \<^verbatim>\<open>app/agent/navigation_reading_controller.py\<close>. It observes, lets the agent choose among
  the offered choices, has the operation carried out and records the result in the continuous task session, at most
  \<^verbatim>\<open>max_steps\<close> times. The four callbacks are parameters (\<open>navigator\<close>) on an environment of their own and may raise;
  \<open>nw_log\<close> lists the accepted observations and the calls of \<^verbatim>\<open>execute_operation\<close>, for the statements only.
\<close>

section \<open>Callbacks and state\<close>

record 'e navigator =
  nv_observe :: "'e \<Rightarrow> pyval res \<times> 'e"
  nv_evidence :: "string \<Rightarrow> 'e \<Rightarrow> pyval res \<times> 'e"
  nv_decide :: "pyval \<Rightarrow> 'e \<Rightarrow> pyval res \<times> 'e"
  nv_execute :: "pyval \<Rightarrow> pyval \<Rightarrow> 'e \<Rightarrow> pyval res \<times> 'e"

record operation_call =
  oc_context :: pyval
  oc_plan :: pyval
  oc_answer :: "pyval res"

datatype nav_event = Observed pyval | Operated operation_call

record 'e nav_world =
  nw_env :: 'e
  nw_log :: "nav_event list"

record nav_state =
  ns_session :: pyval
  ns_steps :: "pyval list"
  ns_visited :: "string list"
  ns_history :: "string list"
  ns_sources :: pydict
  ns_progress :: pydict
  ns_observation :: pyval
  ns_evidence :: pyval

definition ask_navigator :: "('e \<Rightarrow> pyval res \<times> 'e) \<Rightarrow> (pyval, 'e nav_world) act" where
  "ask_navigator f w = (case f (nw_env w) of (r, e) \<Rightarrow> (r, w\<lparr>nw_env := e\<rparr>))"

definition execute_plan :: "'e navigator \<Rightarrow> pyval \<Rightarrow> pyval \<Rightarrow> (pyval, 'e nav_world) act" where
  "execute_plan n plan context_value w = (case nv_execute n plan context_value (nw_env w) of (r, e) \<Rightarrow>
     (r, w\<lparr>nw_env := e, nw_log := nw_log w @ [Operated \<lparr>oc_context = context_value, oc_plan = plan, oc_answer = r\<rparr>]\<rparr>))"

section \<open>What the callbacks answer\<close>

definition validated_observation :: "pyval \<Rightarrow> pyval res" where
  "validated_observation v =
     rbind (ensure (is_dict v \<and> pget v ''contract_version'' = PStr observation_contract)
       (ValueError (observation_contract @ '' is required''))) (\<lambda>_.
     rbind (required_text (pget v ''interface_id'') ''interface_id'') (\<lambda>interface.
     rbind (required_text (pget v ''surface_type'') ''surface_type'') (\<lambda>surface.
     rbind (required_text (pget v ''capture_id'') ''capture_id'') (\<lambda>capture.
     rbind (required_text (pget v ''screenshot_sha256'') ''screenshot_sha256'') (\<lambda>sha.
     rbind (required_text (pget v ''trace_path'') ''trace_path'') (\<lambda>trace_path.
     let path = strip (text_or_empty (pget v ''screenshot_path'')) in
     Inr (PDict ([(''contract_version'', PStr observation_contract), (''interface_id'', PStr interface), (''surface_type'', PStr surface),
       (''capture_id'', PStr capture), (''screenshot_sha256'', PStr sha), (''trace_path'', PStr trace_path)]
       @ (if path \<noteq> [] then [(''screenshot_path'', PStr path)] else [])))))))))"

definition validated_decision :: "pyval \<Rightarrow> pyval res" where
  "validated_decision v =
     rbind (ensure (is_dict v) (ValueError ''Agent decision must be an object'')) (\<lambda>_.
     rbind (required_text (pget v ''choice_id'') ''choice_id'') (\<lambda>_.
     rbind (required_text (pget v ''reason'') ''reason'') (\<lambda>_. Inr v)))"

definition operation_contract :: string where
  "operation_contract = ''navigation_reading_operation_result_v1''"

definition validated_operation :: "pyval \<Rightarrow> pyval res" where
  "validated_operation v =
     rbind (ensure (is_dict v \<and> pget v ''contract_version'' = PStr operation_contract)
       (ValueError (operation_contract @ '' is required''))) (\<lambda>_.
     rbind (ensure (is_dict (pget v ''gate_result'') \<and> is_bool (pget (pget v ''gate_result'') ''allowed''))
       (ValueError ''operation result requires a boolean Gate decision'')) (\<lambda>_. Inr v))"

definition observation_evidence :: "pyval \<Rightarrow> pyval" where
  "observation_evidence observation = (let path = strip (text_or_empty (pget observation ''screenshot_path'')) in
     PDict ([(''capture_id'', pget observation ''capture_id''), (''screenshot_sha256'', pget observation ''screenshot_sha256''),
       (''trace_path'', pget observation ''trace_path'')] @ (if path \<noteq> [] then [(''screenshot_path'', PStr path)] else [])))"

definition same_freshness :: "pyval \<Rightarrow> pyval \<Rightarrow> bool" where
  "same_freshness expected actual = (is_dict actual \<and> list_all (\<lambda>k. text_or_empty (pget actual k) = text_or_empty (pget expected k))
     [''capture_id'', ''screenshot_sha256'', ''trace_path''])"

definition required_sha256 :: "pyval \<Rightarrow> string \<Rightarrow> string res" where
  "required_sha256 v field_name = rbind (required_text v field_name) (\<lambda>text_value.
     let digest = casefold text_value in
     if hex_re 64 digest then Inr digest else Inl (ValueError (field_name @ '' must be a SHA-256 hex digest'')))"

section \<open>Progress\<close>

definition append_unique :: "string list \<Rightarrow> string \<Rightarrow> string list" where
  "append_unique xs x = (if xs = [] \<or> last xs \<noteq> x then xs @ [x] else xs)"

definition progress_ids :: "pydict \<Rightarrow> string \<Rightarrow> string list" where
  "progress_ids progress status = fold (\<lambda>p ids.
     let content = strip (text_or_empty (pget (snd p) ''content_id'')) in
     if is_dict (snd p) \<and> content \<noteq> [] \<and> pget (snd p) ''status'' = PStr status then append_unique ids content else ids) progress []"

definition completed_choices :: "pyval list \<Rightarrow> string list" where
  "completed_choices steps = map (\<lambda>step. strip (text_or_empty (pget step ''choice_id'')))
     (filter (\<lambda>step. (pget step ''case_outcome'' = PStr ''passed'' \<or> pget step ''case_outcome'' = PStr ''bounded_read_stop'')
        \<and> strip (text_or_empty (pget step ''choice_id'')) \<noteq> []) steps)"

definition task_progress :: "nav_state \<Rightarrow> pyval" where
  "task_progress st = PDict [(''sequence'', PInt (int (length (ns_steps st)))),
     (''visited_interfaces'', PList (map PStr (ns_history st))),
     (''completed_choice_ids'', PList (map PStr (completed_choices (ns_steps st)))),
     (''last_outcome'', PStr (if ns_steps st = [] then ''not_started''
        else py_str (py_or (pget (last (ns_steps st)) ''case_outcome'') (PStr ''not_started'')))),
     (''bounded_read_content_ids'', PList (map PStr (progress_ids (ns_progress st) ''reading_stopped''))),
     (''completed_read_content_ids'', PList (map PStr (progress_ids (ns_progress st) ''reached_bottom'')))]"

text \<open>The progress of the current interface; the initial one belongs to the first interface that has none.\<close>

definition initial_key :: string where
  "initial_key = ''__initial__''"

definition current_progress :: "nav_state \<Rightarrow> string \<Rightarrow> pyval \<times> pydict" where
  "current_progress st interface = (case map_of (ns_progress st) interface of
       Some p \<Rightarrow> (p, ns_progress st)
     | None \<Rightarrow> (case map_of (ns_progress st) initial_key of
         Some p \<Rightarrow> (p, dput interface p (filter (\<lambda>kv. fst kv \<noteq> initial_key) (ns_progress st)))
       | None \<Rightarrow> (pget (ns_session st) ''current_read_state'', ns_progress st)))"

definition selected_choice :: "pyval \<Rightarrow> string \<Rightarrow> pyval" where
  "selected_choice context_value choice_id = (case offered_choice (plist (pget context_value ''choices'')) choice_id of
     None \<Rightarrow> PDict [] | Some c \<Rightarrow> c)"

definition dict_default :: "string \<Rightarrow> pyval \<Rightarrow> pyval \<Rightarrow> pyval" where
  "dict_default k x v = (if phas v k then v else pset k x v)"

definition merge_read_progress :: "pyval \<Rightarrow> pyval \<Rightarrow> string \<Rightarrow> pyval \<Rightarrow> pyval res" where
  "merge_read_progress previous report action selected =
     (let r1 = dict_default ''strategy'' (PStr (py_str (py_or (pget selected ''read_strategy'') (PStr ''finite_detail''))))
            (py_or previous (PDict []));
          r2 = dict_default ''content_id'' (text_or_none (strip (text_or_empty (pget selected ''content_id'')))) r1 in
      rbind (py_int (if pget selected ''max_scrolls'' \<noteq> PNone then pget selected ''max_scrolls''
        else PInt (if pget r2 ''strategy'' = PStr ''infinite_collection'' then 3 else 6))) (\<lambda>max_scrolls.
      rbind (py_int (py_or (pget selected ''max_items'') (PInt 0))) (\<lambda>max_items.
      rbind (py_int (py_or (pget report ''unique_line_count'') (PInt 0))) (\<lambda>lines.
      let r5 = pset ''unique_line_count'' (PInt lines) (pset ''reached_bottom'' (PBool (pget report ''reached_bottom'' = PBool True))
           (pset ''status'' (PStr (py_str (py_or (pget report ''stop_reason'') (PStr ''unknown''))))
             (dict_default ''max_items'' (PInt max_items) (dict_default ''max_scrolls'' (PInt max_scrolls) r2)))) in
      if action = ''scroll'' then rbind (py_int (py_or (pget r5 ''scrolls_used'') (PInt 0))) (\<lambda>n. Inr (pset ''scrolls_used'' (PInt (n + 1)) r5))
      else Inr r5))))"

definition stopped_read_progress :: "pyval \<Rightarrow> pyval" where
  "stopped_read_progress previous = pset ''completion'' (PStr ''bounded_stop'')
     (pset ''status'' (PStr ''reading_stopped'') (py_or previous (PDict [])))"

section \<open>The session\<close>

definition nav_final :: "string list" where
  "nav_final = [''safe_stop'', ''needs_human_review'', ''paused_for_learning'']"

definition nav_status :: "pyval \<Rightarrow> string list \<Rightarrow> bool" where
  "nav_status session names = (\<exists>s \<in> set names. pget session ''status'' = PStr s)"

definition accept_observation :: "'e navigator \<Rightarrow> pyval \<Rightarrow> pyval \<Rightarrow> (pyval \<times> pyval, 'e nav_world) act" where
  "accept_observation n session observation =
     (let interface = pget observation ''interface_id'' in
      abind (ask_navigator (nv_evidence n (py_str interface))) (\<lambda>evidence.
      abind (alift (rbind (get_or_raise evidence ''asset_sha256'') (\<lambda>asset.
        required_sha256 (py_or asset (pget evidence ''source_asset_sha256'')) ''asset_sha256''))) (\<lambda>memory.
      abind (alift (observe_interface session interface (pget observation ''surface_type'') (PStr memory)
        (observation_evidence observation) True (PStr ''reviewed_interface_memory''))) (\<lambda>current.
      areturn (current, evidence)))))"

definition observe_now :: "'e navigator \<Rightarrow> (pyval, 'e nav_world) act" where
  "observe_now n = abind (ask_navigator (nv_observe n)) (\<lambda>v.
     abind (alift (validated_observation v)) (\<lambda>observation.
     abind (amodify (\<lambda>w. w\<lparr>nw_log := nw_log w @ [Observed observation]\<rparr>)) (\<lambda>_. areturn observation)))"

section \<open>One step\<close>

definition new_step :: "nav_state \<Rightarrow> nat \<Rightarrow> pyval \<Rightarrow> string \<Rightarrow> pyval \<Rightarrow> pyval" where
  "new_step st index plan source decision = PDict
     [(''sequence'', PInt (int index + 1)), (''interface_id'', pget (ns_observation st) ''interface_id''),
      (''capture_id'', pget (ns_observation st) ''capture_id''), (''choice_id'', pget plan ''choice_id''),
      (''decision_type'', pget plan ''decision_type''), (''semantic_action'', pget plan ''semantic_action''),
      (''decision_source'', PStr source), (''decision_audit'', py_or (pget decision ''decision_audit'') (PDict [])),
      (''case_outcome'', PStr ''pending''), (''action_executed'', PBool False), (''dispatch_success'', PBool False),
      (''gate_allowed'', PBool False), (''effect_verified'', PBool False), (''destination_observation_verified'', PBool False),
      (''expected_target_interface_id'', pget plan ''expected_target_interface_id''), (''actual_target_interface_id'', PNone)]"

definition add_step :: "pyval \<Rightarrow> string \<Rightarrow> nav_state \<Rightarrow> nav_state" where
  "add_step step outcome st = st\<lparr>ns_steps := ns_steps st @ [pset ''case_outcome'' (PStr outcome) step]\<rparr>"

definition read_outcome :: "pyval \<Rightarrow> string" where
  "read_outcome session = (if pget session ''status'' = PStr ''safe_stop'' then ''safe_intercept''
     else if pget session ''status'' = PStr ''needs_human_review'' then ''failed'' else ''passed'')"

definition truth :: "pyval \<Rightarrow> string \<Rightarrow> bool" where
  "truth v k = truthy (pget v k)"

definition done_step :: "bool \<Rightarrow> bool \<Rightarrow> pyval \<Rightarrow> pyval" where
  "done_step sent verified step = pset ''effect_verified'' (PBool verified) (pset ''dispatch_success'' (PBool sent)
     (pset ''action_executed'' (PBool sent) (pset ''gate_allowed'' (PBool True) step)))"

text \<open>The operation was refused, or did not work on the planned capture: the session stops.\<close>

definition refuse_operation :: "nav_state \<Rightarrow> pyval \<Rightarrow> pyval \<Rightarrow> string \<Rightarrow> (bool \<times> nav_state, 'e nav_world) act" where
  "refuse_operation st plan step reason =
     abind (alift (record_gate_rejection (ns_session st) (PStr reason) (pget plan ''freshness''))) (\<lambda>session.
     areturn (False, add_step step ''safe_intercept'' (st\<lparr>ns_session := session\<rparr>)))"

definition stale_operation :: "nav_state \<Rightarrow> pyval \<Rightarrow> pyval \<Rightarrow> (bool \<times> nav_state, 'e nav_world) act" where
  "stale_operation st plan step =
     abind (refuse_operation st plan step ''stale_operation_source'') (\<lambda>(_, st).
     areturn (False, st\<lparr>ns_session := pset ''stop_reason'' (PStr ''stale_operation_source'') (ns_session st)\<rparr>))"

definition nav_read :: "'e navigator \<Rightarrow> nav_state \<Rightarrow> pyval \<Rightarrow> pyval \<Rightarrow> pyval \<Rightarrow> pyval \<Rightarrow> pyval \<Rightarrow> (bool \<times> nav_state, 'e nav_world) act" where
  "nav_read n st context_value progress plan step operation =
     (let interface = pget (ns_observation st) ''interface_id''; name = py_str interface;
          action = py_str (pget plan ''semantic_action''); sent = truth operation ''action_dispatched'';
          verified = truth operation ''effect_verified'' in
      abind (alift (record_read_result (ns_session st) (PStr action) sent verified (pget operation ''read_report'')
        (pget plan ''freshness''))) (\<lambda>session.
      let st1 = add_step (done_step sent verified step) (read_outcome session) (st\<lparr>ns_session := session\<rparr>) in
      if nav_status session nav_final then areturn (False, st1)
      else abind (alift (merge_read_progress progress (pget operation ''read_report'') action
             (selected_choice context_value (py_str (pget plan ''choice_id''))))) (\<lambda>merged.
        let st2 = st1\<lparr>ns_progress := dput name merged (ns_progress st1)\<rparr> in
        abind (observe_now n) (\<lambda>observation.
        if pget observation ''interface_id'' \<noteq> interface then
          areturn (False, st2\<lparr>ns_observation := observation, ns_session := pset ''stop_reason'' (PStr ''unexpected_interface_after_read'')
            (pset ''status'' (PStr ''needs_human_review'') session)\<rparr>)
        else abind (alift (refresh_current_observation session interface (pget observation ''surface_type'')
               (observation_evidence observation))) (\<lambda>refreshed.
          abind (ask_navigator (nv_evidence n name)) (\<lambda>evidence.
          areturn (True, st2\<lparr>ns_observation := observation, ns_session := refreshed, ns_evidence := evidence\<rparr>)))))))"

definition transition_audit :: "pyval \<Rightarrow> pyval \<Rightarrow> pyval" where
  "transition_audit plan gate = PDict [(''agent_decision'', plan), (''gate_result'', gate), (''operation_result_contract'', PStr operation_contract)]"

definition destination_verified :: "pyval \<Rightarrow> pyval \<Rightarrow> pyval \<Rightarrow> bool" where
  "destination_verified plan observation session = (let expected = strip (text_or_empty (pget plan ''expected_target_interface_id'')) in
     (expected = [] \<or> pget observation ''interface_id'' = PStr expected)
     \<and> pget session ''stop_reason'' \<noteq> PStr ''destination_interface_mismatch'')"

definition arrived_step :: "pyval \<Rightarrow> pyval \<Rightarrow> bool \<Rightarrow> pyval" where
  "arrived_step step observation arrived = pset ''destination_observation_verified'' (PBool arrived)
     (pset ''actual_target_interface_id'' (pget observation ''interface_id'') step)"

definition nav_act :: "'e navigator \<Rightarrow> nav_state \<Rightarrow> pyval \<Rightarrow> pyval \<Rightarrow> pyval \<Rightarrow> (bool \<times> nav_state, 'e nav_world) act" where
  "nav_act n st plan step operation =
     (let executed = truth operation ''action_executed''; verified = truth operation ''post_action_verified'';
          finished = done_step executed verified step in
      abind (alift (record_action_result (ns_session st) (pget plan ''semantic_action'') executed verified (pget plan ''freshness'')
        (transition_audit plan (pget operation ''gate_result'')))) (\<lambda>session.
      if nav_status session nav_final then areturn (False, add_step finished ''failed'' (st\<lparr>ns_session := session\<rparr>))
      else abind (observe_now n) (\<lambda>observation.
        abind (accept_observation n session observation) (\<lambda>(session, evidence).
        let name = py_str (pget observation ''interface_id''); arrived = destination_verified plan observation session;
            st1 = st\<lparr>ns_observation := observation, ns_session := session, ns_evidence := evidence\<rparr>;
            st2 = (if arrived then st1\<lparr>ns_visited := append_unique (ns_visited st1) name, ns_history := ns_history st1 @ [name]\<rparr> else st1) in
        areturn (\<not> nav_status session nav_final, add_step (arrived_step finished observation arrived) (read_outcome session) st2)))))"

definition nav_operate :: "'e navigator \<Rightarrow> nav_state \<Rightarrow> pyval \<Rightarrow> pyval \<Rightarrow> pyval \<Rightarrow> pyval \<Rightarrow> (bool \<times> nav_state, 'e nav_world) act" where
  "nav_operate n st context_value progress plan step =
     abind (execute_plan n plan context_value) (\<lambda>answer.
     abind (alift (validated_operation answer)) (\<lambda>operation.
     let gate = pget operation ''gate_result'' in
     if \<not> same_freshness (pget plan ''freshness'') (pget operation ''source_freshness'') then stale_operation st plan step
     else if pget gate ''allowed'' \<noteq> PBool True then
       refuse_operation st plan step (py_str (py_or (pget gate ''reason'') (PStr ''gate_rejected'')))
     else if pget plan ''semantic_action'' = PStr ''read'' \<or> pget plan ''semantic_action'' = PStr ''scroll''
       then nav_read n st context_value progress plan step operation
     else nav_act n st plan step operation))"

definition count_source :: "string \<Rightarrow> pydict \<Rightarrow> pydict" where
  "count_source source sources = dput source (PInt (case dict_get sources source of PInt k \<Rightarrow> k + 1 | _ \<Rightarrow> 1)) sources"

definition nav_decided :: "'e navigator \<Rightarrow> nat \<Rightarrow> nav_state \<Rightarrow> pyval \<Rightarrow> pyval \<Rightarrow> pyval \<Rightarrow> (bool \<times> nav_state, 'e nav_world) act" where
  "nav_decided n index st context_value progress decision =
     (let source = strip (py_str (py_or (pget decision ''decision_source'') (PStr ''unspecified'')));
          name = py_str (pget (ns_observation st) ''interface_id'') in
      abind (alift (validate_navigation_decision context_value decision)) (\<lambda>plan.
      abind (alift (record_agent_decision (ns_session st) plan)) (\<lambda>session.
      let st = st\<lparr>ns_session := session, ns_sources := count_source source (ns_sources st)\<rparr>;
          step = new_step st index plan source decision in
      if pget plan ''semantic_action'' = PStr ''safe_stop'' then areturn (False, add_step step ''safe_stop'' st)
      else if pget plan ''semantic_action'' = PStr ''stop_reading'' then
        areturn (True, add_step step ''bounded_read_stop'' (st\<lparr>ns_progress := dput name (stopped_read_progress progress) (ns_progress st)\<rparr>))
      else nav_operate n st context_value progress plan step)))"

text \<open>One turn of the loop: whether it goes on, and the state.\<close>

definition nav_round :: "'e navigator \<Rightarrow> pyval \<Rightarrow> nat \<Rightarrow> nav_state \<Rightarrow> (bool \<times> nav_state, 'e nav_world) act" where
  "nav_round n goal index st =
     (if pget (ns_session st) ''status'' \<noteq> PStr ''ready_for_agent_decision'' then areturn (False, st)
      else case current_progress st (py_str (pget (ns_observation st) ''interface_id'')) of (progress, all_progress) \<Rightarrow>
        let st = st\<lparr>ns_progress := all_progress\<rparr> in
        abind (alift (build_navigation_context goal (ns_evidence st) (ns_observation st) progress (task_progress st))) (\<lambda>context_value.
        abind (ask_navigator (nv_decide n context_value)) (\<lambda>answer.
        abind (alift (validated_decision answer)) (\<lambda>decision.
        nav_decided n index st context_value progress decision))))"

fun nav_loop :: "nat \<Rightarrow> 'e navigator \<Rightarrow> pyval \<Rightarrow> nat \<Rightarrow> nav_state \<Rightarrow> (nav_state, 'e nav_world) act" where
  "nav_loop 0 n goal index st = areturn st"
| "nav_loop (Suc k) n goal index st = abind (nav_round n goal index st) (\<lambda>(again, st).
     if again then nav_loop k n goal (Suc index) st else areturn st)"

section \<open>The run\<close>

definition nav_limit :: "int \<Rightarrow> nat" where
  "nav_limit max_steps = nat (max 1 max_steps)"

definition nav_begin :: "'e navigator \<Rightarrow> pyval \<Rightarrow> pyval \<Rightarrow> pyval \<Rightarrow> (nav_state, 'e nav_world) act" where
  "nav_begin n workflow_id session_id initial =
     abind (alift (create_continuous_task_session session_id workflow_id)) (\<lambda>session.
     abind (observe_now n) (\<lambda>observation.
     abind (accept_observation n session observation) (\<lambda>(session, evidence).
     let name = py_str (pget observation ''interface_id'') in
     areturn \<lparr>ns_session = session, ns_steps = [], ns_visited = [name], ns_history = [name], ns_sources = [],
       ns_progress = (if truthy initial then [(initial_key, initial)] else []), ns_observation = observation, ns_evidence = evidence\<rparr>)))"

definition nav_end :: "nat \<Rightarrow> nav_state \<Rightarrow> pyval" where
  "nav_end limit st = (if limit \<le> length (ns_steps st) \<and> \<not> nav_status (ns_session st) nav_final
     then pset ''stop_reason'' (PStr ''max_steps_reached'') (pset ''status'' (PStr ''safe_stop'') (ns_session st)) else ns_session st)"

definition model_sources :: "string list" where
  "model_sources = [''actual_model_call'', ''recorded_output_per_config'']"

definition model_calls :: "pydict \<Rightarrow> int" where
  "model_calls sources = sum_list (map (\<lambda>kv. if fst kv \<in> set model_sources then (case snd kv of PInt k \<Rightarrow> k | _ \<Rightarrow> 0) else 0) sources)"

definition nav_report :: "string \<Rightarrow> pyval \<Rightarrow> pyval \<Rightarrow> nav_state \<Rightarrow> pyval \<Rightarrow> pyval" where
  "nav_report goal workflow_id session_id st session = PDict
     [(''contract_version'', PStr ''navigation_reading_controller_report_v1''), (''goal'', PStr goal), (''workflow_id'', workflow_id),
      (''session_id'', session_id), (''final_status'', pget session ''status''), (''stop_reason'', pget session ''stop_reason''),
      (''visited_interfaces'', PList (map PStr (ns_visited st))), (''interface_visit_history'', PList (map PStr (ns_history st))),
      (''steps'', PList (ns_steps st)), (''decision_source_breakdown'', PDict (ns_sources st)),
      (''actual_model_call_count'', PInt (model_calls (ns_sources st))), (''session'', session),
      (''safety'', PDict [(''final_submit_forbidden'', PBool True), (''final_submit_executed'', PBool False),
         (''artifact_is_authorization'', PBool False)])]"

definition run_navigation :: "'e navigator \<Rightarrow> pyval \<Rightarrow> pyval \<Rightarrow> pyval \<Rightarrow> pyval \<Rightarrow> int \<Rightarrow> (pyval, 'e nav_world) act" where
  "run_navigation n goal workflow_id session_id initial max_steps =
     abind (alift (required_text goal ''goal'')) (\<lambda>goal.
     abind (nav_begin n workflow_id session_id initial) (\<lambda>st.
     abind (nav_loop (nav_limit max_steps) n (PStr goal) 0 st) (\<lambda>st.
     areturn (nav_report goal workflow_id session_id st (nav_end (nav_limit max_steps) st)))))"

end
