(* ===== verification/NavigationRuns.thy ===== *)
theory NavigationRuns
  imports NavigationController
begin

text \<open>
  The runs of the navigation controller: what its calls of \<^verbatim>\<open>execute_operation\<close> have in common, how many there
  are, and how a run ends. \<open>log_fits\<close> is the specification of a log; \<open>nav_ready\<close> and \<open>nav_ended\<close> are
  the situations at the head of the loop and after it, kept by every turn (\<open>round_turns\<close>).
\<close>

section \<open>The session in a run\<close>

text \<open>A result that was not carried out or not verified leaves the session in one of the final states.\<close>

definition stopped_session :: "pyval \<Rightarrow> pyval \<Rightarrow> bool" where
  "stopped_session s s' = (cs_grows s s' \<and> (pget s' ''status'' = PStr ''needs_human_review'' \<or> pget s' ''status'' = PStr ''safe_stop''))"

lemma stopped_sessionI:
  "cs_grows s s' \<Longrightarrow> pget s' ''status'' = PStr ''needs_human_review'' \<Longrightarrow> stopped_session s s'"
  "cs_grows s s' \<Longrightarrow> pget s' ''status'' = PStr ''safe_stop'' \<Longrightarrow> stopped_session s s'"
  by (simp_all add: stopped_session_def)

lemma invalidate_stopped: "cs_grows s c \<Longrightarrow> pget c ''status'' = PStr ''needs_human_review'' \<Longrightarrow>
    ens (stopped_session s) (invalidate_form_step_context c r)"
  unfolding invalidate_form_step_context_def Let_def by (auto intro!: ens_session stopped_sessionI(1))

lemma action_stopped:
  "cs_ok s \<Longrightarrow> \<not> (x \<and> v) \<Longrightarrow> ens (stopped_session s) (record_action_result s a x v e t)"
  unfolding record_action_result_def Let_def by (auto intro!: ens_session invalidate_stopped stopped_sessionI(1))

lemma read_stopped:
  "cs_ok s \<Longrightarrow> \<not> (x \<and> v) \<Longrightarrow> ens (stopped_session s) (record_read_result s a x v r e)"
  unfolding record_read_result_def Let_def
  by (auto intro!: ens_session ens_any[where r = "py_int _"] intro: stopped_sessionI)

lemma next_ok: "ens (cs_next s) r \<Longrightarrow> r = Inr s' \<Longrightarrow> cs_ok s'"
  by (simp add: ens_def cs_next_def cs_grows_def)

lemmas session_kept = next_ok[OF decision_next] next_ok[OF gate_next] next_ok[OF action_next] next_ok[OF read_next]
  next_ok[OF refresh_next] next_ok[OF observe_next]


lemma gate_stopped: "cs_ok s \<Longrightarrow> ens (stopped_session s) (record_gate_rejection s r e)"
  unfolding record_gate_rejection_def Let_def by (auto intro!: ens_session intro: stopped_sessionI)

lemma decision_stopped:
  "cs_ok s \<Longrightarrow> pget d ''semantic_action'' = PStr ''safe_stop'' \<Longrightarrow> ens (stopped_session s) (record_agent_decision s d)"
proof -
  have "casefold (strip (text_or_empty (PStr ''safe_stop''))) = ''safe_stop''" by code_simp
  then show "cs_ok s \<Longrightarrow> pget d ''semantic_action'' = PStr ''safe_stop'' \<Longrightarrow> ens (stopped_session s) (record_agent_decision s d)"
    unfolding record_agent_decision_def Let_def by (auto intro!: ens_session intro: stopped_sessionI)
qed

lemma created_session: "create_continuous_task_session i w = Inr s \<Longrightarrow> cs_ok s"
  by (drule created_ok(1)) (simp add: cs_inv_def)

lemma not_final:
  "stopped_session s s' \<Longrightarrow> nav_status s' nav_final" "nav_status s' nav_final \<Longrightarrow> pget s' ''status'' \<noteq> PStr ''ready_for_agent_decision''"
  by (auto simp: stopped_session_def nav_status_def nav_final_def)

section \<open>What the log says\<close>

text \<open>A call fits what was observed last: it names one of the choices its context offers, and works on that observation.\<close>

definition operation_fits :: "pyval \<Rightarrow> operation_call \<Rightarrow> bool" where
  "operation_fits seen c = (list_ex (\<lambda>choice. pget choice ''choice_id'' = pget (oc_plan c) ''choice_id''
       \<and> pget choice ''decision_type'' = pget (oc_plan c) ''decision_type''
       \<and> choice_fits (pget (oc_context c) ''read_state'') choice \<and> still_open (pget (oc_context c) ''task_progress'') choice)
         (plist (pget (oc_context c) ''choices''))
     \<and> (\<exists>a. pget (oc_plan c) ''semantic_action'' = PStr a \<and> \<not> is_forbidden_action a)
     \<and> pget (oc_plan c) ''interface_id'' = pget seen ''interface_id''
     \<and> list_all (\<lambda>k. pget (pget (oc_plan c) ''freshness'') k = pget seen k) [''capture_id'', ''screenshot_sha256'', ''trace_path''])"

text \<open>The operation was allowed, worked on the planned capture, was carried out and verified.\<close>

definition operation_done :: "pyval \<Rightarrow> pyval \<Rightarrow> bool" where
  "operation_done plan operation = (if pget plan ''semantic_action'' = PStr ''read'' \<or> pget plan ''semantic_action'' = PStr ''scroll''
     then truth operation ''action_dispatched'' \<and> truth operation ''effect_verified''
     else truth operation ''action_executed'' \<and> truth operation ''post_action_verified'')"

definition operation_good :: "operation_call \<Rightarrow> bool" where
  "operation_good c = (case oc_answer c of Inl e \<Rightarrow> False | Inr operation \<Rightarrow>
     same_freshness (pget (oc_plan c) ''freshness'') (pget operation ''source_freshness'')
     \<and> pget (pget operation ''gate_result'') ''allowed'' = PBool True \<and> operation_done (oc_plan c) operation)"

text \<open>Every call fits, and nothing follows a call that was not good.\<close>

fun log_fits :: "pyval option \<Rightarrow> nav_event list \<Rightarrow> bool" where
  "log_fits seen [] = True"
| "log_fits seen (Observed v # l) = log_fits (Some v) l"
| "log_fits seen (Operated c # l) = ((case seen of None \<Rightarrow> False | Some v \<Rightarrow> operation_fits v c)
     \<and> (l = [] \<or> operation_good c) \<and> log_fits seen l)"

fun seen_last :: "pyval option \<Rightarrow> nav_event list \<Rightarrow> pyval option" where
  "seen_last seen [] = seen"
| "seen_last seen (Observed v # l) = seen_last (Some v) l"
| "seen_last seen (Operated c # l) = seen_last seen l"

definition log_settled :: "nav_event list \<Rightarrow> bool" where
  "log_settled l = (l = [] \<or> (case last l of Operated c \<Rightarrow> operation_good c | Observed v \<Rightarrow> True))"

fun operated :: "nav_event \<Rightarrow> bool" where
  "operated (Observed v) = False"
| "operated (Operated c) = True"

definition operations :: "nav_event list \<Rightarrow> nat" where
  "operations l = length (filter operated l)"

lemma log_fits_observed: "log_fits seen (l @ [Observed v]) \<longleftrightarrow> log_fits seen l \<and> log_settled l"
  by (induction seen l rule: log_fits.induct) (auto simp: log_settled_def split: nav_event.split)

lemma log_fits_operated: "log_fits seen (l @ [Operated c]) \<longleftrightarrow> log_fits seen l \<and> log_settled l
    \<and> (case seen_last seen l of None \<Rightarrow> False | Some v \<Rightarrow> operation_fits v c)"
  by (induction seen l rule: log_fits.induct) (auto simp: log_settled_def split: nav_event.split option.split)

lemma seen_last_snoc [simp]: "seen_last seen (l @ [Observed v]) = Some v" "seen_last seen (l @ [Operated c]) = seen_last seen l"
  by (induction seen l rule: seen_last.induct) simp_all

lemma log_snoc [simp]: "log_settled (l @ [Observed v])" "log_settled (l @ [Operated c]) = operation_good c"
  "operations (l @ [Observed v]) = operations l" "operations (l @ [Operated c]) = Suc (operations l)"
  by (simp_all add: log_settled_def operations_def)


text \<open>The three situations of a run: ready to observe or to act, just operated, and ended.\<close>

definition accepted :: "pyval \<Rightarrow> bool" where
  "accepted v = list_all (\<lambda>k. pget v k = PStr (strip (text_or_empty (pget v k))))
     [''interface_id'', ''capture_id'', ''screenshot_sha256'', ''trace_path'']"

lemma accepted_observation: "validated_observation x = Inr v \<Longrightarrow> accepted v"
  by (auto simp: validated_observation_def rbind_eq_Inr_iff Let_def accepted_def dict_get_def required_text_def split: if_split_asm)

definition log_open :: "nat \<Rightarrow> pyval option \<Rightarrow> 'e nav_world \<Rightarrow> bool" where
  "log_open k seen w = (log_fits None (nw_log w) \<and> log_settled (nw_log w) \<and> seen_last None (nw_log w) = seen
     \<and> operations (nw_log w) \<le> k \<and> (\<forall>v. seen = Some v \<longrightarrow> accepted v))"

definition log_called :: "nat \<Rightarrow> pyval \<Rightarrow> pyval \<Rightarrow> pyval \<Rightarrow> 'e nav_world \<Rightarrow> bool" where
  "log_called k seen plan operation w = (log_fits None (nw_log w) \<and> operations (nw_log w) \<le> k \<and> seen_last None (nw_log w) = Some seen
     \<and> accepted seen \<and> (same_freshness (pget plan ''freshness'') (pget operation ''source_freshness'')
        \<longrightarrow> pget (pget operation ''gate_result'') ''allowed'' = PBool True \<longrightarrow> operation_done plan operation \<longrightarrow> log_settled (nw_log w)))"

definition log_safe :: "nat \<Rightarrow> 'e nav_world \<Rightarrow> bool" where
  "log_safe k w = (log_fits None (nw_log w) \<and> operations (nw_log w) \<le> k)"

lemma log_open_safe: "log_open k seen w \<Longrightarrow> log_safe k w" "log_called k v plan operation w \<Longrightarrow> log_safe k w"
  by (simp_all add: log_open_def log_called_def log_safe_def)

lemma log_safe_mono: "log_safe k w \<Longrightarrow> k \<le> k' \<Longrightarrow> log_safe k' w"
  by (simp add: log_safe_def)

lemma log_open_mono: "log_open k seen w \<Longrightarrow> k \<le> k' \<Longrightarrow> log_open k' seen w"
  by (simp add: log_open_def)

lemma ask_open: "triple (log_open k seen) (ask_navigator f) (\<lambda>x. log_open k seen) (log_safe k)"
  by (auto simp: triple_def ask_navigator_def log_open_def log_safe_def split: prod.split_asm)

lemma observe_open: "triple (log_open k seen) (observe_now n) (\<lambda>v. log_open k (Some v)) (log_safe k)"
  unfolding observe_now_def
proof (rule triple_bind[OF ask_open])
  fix x
  have noted: "accepted v \<Longrightarrow> triple (log_open k seen) (amodify (\<lambda>w. w\<lparr>nw_log := nw_log w @ [Observed v]\<rparr>)) (\<lambda>_. log_open k (Some v))
    (log_safe k)" for v
    by (rule triple_modify) (simp add: log_open_def log_fits_observed)
  have "triple (log_open k seen) (abind (amodify (\<lambda>w. w\<lparr>nw_log := nw_log w @ [Observed v]\<rparr>)) (\<lambda>_. areturn v))
      (\<lambda>v. log_open k (Some v)) (log_safe k)" if "accepted v" for v
    by (rule triple_bind, rule noted, rule that, rule triple_return)
  then show "triple (log_open k seen) (abind (alift (validated_observation x)) (\<lambda>observation.
      abind (amodify (\<lambda>w. w\<lparr>nw_log := nw_log w @ [Observed observation]\<rparr>)) (\<lambda>_. areturn observation)))
      (\<lambda>v. log_open k (Some v)) (log_safe k)"
    by (intro triple_bind[where R = "\<lambda>v w. accepted v \<and> log_open k seen w"] triple_lift triple_and)
      (auto intro: accepted_observation log_open_safe)
qed

lemma accept_open: "triple (log_open k seen) (accept_observation n s v)
    (\<lambda>(s', e) w. (cs_ok s \<longrightarrow> cs_ok s') \<and> log_open k seen w) (log_safe k)"
  unfolding accept_observation_def Let_def
  apply (rule triple_bind[OF ask_open])
  apply (rule triple_bind[where R = "\<lambda>_. log_open k seen"], rule triple_lift, assumption, erule log_open_safe)
  apply (rule triple_bind[where R = "\<lambda>s' w. (cs_ok s \<longrightarrow> cs_ok s') \<and> log_open k seen w"], rule triple_lift)
  subgoal by (auto dest: session_kept)
  subgoal by (erule log_open_safe)
  subgoal by (rule triple_return) simp
  done

lemma execute_open:
  assumes "\<And>r. operation_fits v \<lparr>oc_context = ctx, oc_plan = plan, oc_answer = r\<rparr>"
  shows "triple (log_open k (Some v)) (execute_plan n plan ctx) (\<lambda>operation. log_called (Suc k) v plan operation) (log_safe (Suc k))"
  using assms
  by (auto simp: triple_def execute_plan_def log_open_def log_called_def log_safe_def log_fits_operated operation_good_def
      split: prod.split_asm)


section \<open>A turn\<close>

definition nav_ready :: "nat \<Rightarrow> nav_state \<Rightarrow> 'e nav_world \<Rightarrow> bool" where
  "nav_ready k st w = (cs_ok (ns_session st) \<and> length (ns_steps st) = k \<and> log_open k (Some (ns_observation st)) w)"

definition nav_ended :: "nat \<Rightarrow> nav_state \<Rightarrow> 'e nav_world \<Rightarrow> bool" where
  "nav_ended k st w = (cs_ok (ns_session st) \<and> length (ns_steps st) \<le> k
     \<and> pget (ns_session st) ''status'' \<noteq> PStr ''ready_for_agent_decision'' \<and> log_safe k w)"

definition nav_turned :: "nat \<Rightarrow> bool \<times> nav_state \<Rightarrow> 'e nav_world \<Rightarrow> bool" where
  "nav_turned k r w = (if fst r then nav_ready k (snd r) w else nav_ended k (snd r) w)"

lemma stopped_ok: "stopped_session s s' \<Longrightarrow> cs_ok s'"
  "stopped_session s s' \<Longrightarrow> pget s' ''status'' \<noteq> PStr ''ready_for_agent_decision''"
  by (auto simp: stopped_session_def cs_grows_def)

lemma add_step_simps [simp]:
  "ns_session (add_step step r st) = ns_session st" "length (ns_steps (add_step step r st)) = Suc (length (ns_steps st))"
  "ns_observation (add_step step r st) = ns_observation st" "ns_progress (add_step step r st) = ns_progress st"
  by (simp_all add: add_step_def)

lemma refuse_ends:
  assumes "cs_ok (ns_session st)" and "length (ns_steps st) = k"
  shows "triple (log_safe (Suc k)) (refuse_operation st plan step reason)
    (\<lambda>r w. fst r = False \<and> nav_ended (Suc k) (snd r) w) (log_safe (Suc k))"
proof -
  have "record_gate_rejection (ns_session st) (PStr reason) (pget plan ''freshness'') = Inr s \<Longrightarrow> stopped_session (ns_session st) s" for s
    using gate_stopped[OF assms(1)] by (rule ensD)
  then show ?thesis
    unfolding refuse_operation_def
    by (intro triple_bind[where R = "\<lambda>s w. stopped_session (ns_session st) s \<and> log_safe (Suc k) w"] triple_lift triple_and triple_return)
      (auto simp: nav_ended_def assms intro: stopped_ok stopped_ok(2)[THEN notE])
qed

lemma stale_ends:
  assumes "cs_ok (ns_session st)" and "length (ns_steps st) = k"
  shows "triple (log_safe (Suc k)) (stale_operation st plan step) (nav_turned (Suc k)) (log_safe (Suc k))"
  unfolding stale_operation_def
  by (rule triple_bind, rule refuse_ends[OF assms], auto intro!: triple_return simp: nav_turned_def nav_ended_def cs_ok_pset)

lemma called_open:
  "log_called k v plan operation w \<Longrightarrow> same_freshness (pget plan ''freshness'') (pget operation ''source_freshness'') \<Longrightarrow>
   pget (pget operation ''gate_result'') ''allowed'' = PBool True \<Longrightarrow> operation_done plan operation \<Longrightarrow> log_open k (Some v) w"
  by (simp add: log_called_def log_open_def)

lemma read_verified:
  assumes "cs_ok s" and "record_read_result s a x v r e = Inr s'" and "\<not> nav_status s' nav_final"
  shows "x \<and> v"
proof (rule ccontr)
  assume "\<not> (x \<and> v)"
  then have "stopped_session s s'" by (rule ensD[OF read_stopped[OF assms(1)] assms(2)])
  with assms(3) show False by (simp add: not_final)
qed

lemma action_verified:
  assumes "cs_ok s" and "record_action_result s a x v e t = Inr s'" and "\<not> nav_status s' nav_final"
  shows "x \<and> v"
proof (rule ccontr)
  assume "\<not> (x \<and> v)"
  then have "stopped_session s s'" by (rule ensD[OF action_stopped[OF assms(1)] assms(2)])
  with assms(3) show False by (simp add: not_final)
qed

lemma read_turns:
  assumes ok: "cs_ok (ns_session st)" "length (ns_steps st) = k"
    and fresh: "same_freshness (pget plan ''freshness'') (pget operation ''source_freshness'')"
    and allowed: "pget (pget operation ''gate_result'') ''allowed'' = PBool True"
    and reading: "pget plan ''semantic_action'' = PStr ''read'' \<or> pget plan ''semantic_action'' = PStr ''scroll''"
  shows "triple (log_called (Suc k) (ns_observation st) plan operation) (nav_read n st ctx progress plan step operation)
    (nav_turned (Suc k)) (log_safe (Suc k))"
proof -
  let ?sent = "truth operation ''action_dispatched''" and ?verified = "truth operation ''effect_verified''"
  let ?rec = "record_read_result (ns_session st) (PStr (py_str (pget plan ''semantic_action''))) ?sent ?verified
     (pget operation ''read_report'') (pget plan ''freshness'')"
  have kept: "cs_ok s" if "?rec = Inr s" for s
    using that session_kept(4) ok(1) by blast
  have settled: "operation_done plan operation" if "?rec = Inr s" "\<not> nav_status s nav_final" for s
    using read_verified[OF ok(1) that] reading by (simp add: operation_done_def)
  show ?thesis
    unfolding nav_read_def Let_def
    apply (rule triple_bind[where R = "\<lambda>s w. ?rec = Inr s \<and> log_called (Suc k) (ns_observation st) plan operation w"], rule triple_lift)
    subgoal by blast
    subgoal by (erule log_open_safe)
    subgoal for session
      apply (rule triple_if)
      subgoal by (auto intro!: triple_return simp: nav_turned_def nav_ended_def ok kept not_final(2) log_open_safe)
      subgoal
        apply (rule triple_bind[where R = "\<lambda>m w. cs_ok session \<and> log_open (Suc k) (Some (ns_observation st)) w"], rule triple_lift)
        subgoal using settled fresh allowed kept by (auto intro: called_open)
        subgoal by (blast intro: log_open_safe)
        subgoal for merged
          apply (rule triple_and)
          apply (rule triple_bind, rule observe_open)
          subgoal for observation
            apply (rule triple_if)
            subgoal
              apply (rule triple_return)
              by (simp add: nav_turned_def nav_ended_def ok cs_ok_pset log_open_safe)
            subgoal
              apply (rule triple_bind[where R = "\<lambda>s w. cs_ok s \<and> log_open (Suc k) (Some observation) w"], rule triple_lift)
              subgoal by (blast intro: session_kept)
              subgoal by (erule log_open_safe)
              subgoal for refreshed
                apply (rule triple_and)
                apply (rule triple_bind, rule ask_open)
                by (rule triple_return) (simp add: nav_turned_def nav_ready_def ok)
              done
            done
          done
        done
      done
    done
qed

lemma act_turns:
  assumes ok: "cs_ok (ns_session st)" "length (ns_steps st) = k"
    and fresh: "same_freshness (pget plan ''freshness'') (pget operation ''source_freshness'')"
    and allowed: "pget (pget operation ''gate_result'') ''allowed'' = PBool True"
    and acting: "\<not> (pget plan ''semantic_action'' = PStr ''read'' \<or> pget plan ''semantic_action'' = PStr ''scroll'')"
  shows "triple (log_called (Suc k) (ns_observation st) plan operation) (nav_act n st plan step operation)
    (nav_turned (Suc k)) (log_safe (Suc k))"
proof -
  let ?sent = "truth operation ''action_executed''" and ?verified = "truth operation ''post_action_verified''"
  let ?rec = "record_action_result (ns_session st) (pget plan ''semantic_action'') ?sent ?verified
     (pget plan ''freshness'') (transition_audit plan (pget operation ''gate_result''))"
  have kept: "cs_ok s" if "?rec = Inr s" for s
    using that session_kept(3) ok(1) by blast
  have settled: "operation_done plan operation" if "?rec = Inr s" "\<not> nav_status s nav_final" for s
    using action_verified[OF ok(1) that] acting by (simp add: operation_done_def)
  show ?thesis
    unfolding nav_act_def Let_def
    apply (rule triple_bind[where R = "\<lambda>s w. ?rec = Inr s \<and> log_called (Suc k) (ns_observation st) plan operation w"], rule triple_lift)
    subgoal by blast
    subgoal by (erule log_open_safe)
    subgoal for session
      apply (rule triple_if)
      subgoal by (auto intro!: triple_return simp: nav_turned_def nav_ended_def ok kept not_final(2) log_open_safe)
      subgoal
        apply (rule triple_pre[where P = "\<lambda>w. cs_ok session \<and> log_open (Suc k) (Some (ns_observation st)) w"])
        subgoal
          apply (rule triple_and)
          apply (rule triple_bind, rule observe_open)
          apply (rule triple_bind, rule accept_open)
          by (auto intro!: triple_return simp: nav_turned_def nav_ready_def nav_ended_def ok not_final(2) log_open_safe)
        subgoal using settled fresh allowed kept by (auto intro: called_open)
        done
      done
    done
qed

lemma operate_turns:
  assumes ok: "cs_ok (ns_session st)" "length (ns_steps st) = k"
    and fits: "\<And>r. operation_fits (ns_observation st) \<lparr>oc_context = ctx, oc_plan = plan, oc_answer = r\<rparr>"
  shows "triple (log_open k (Some (ns_observation st))) (nav_operate n st ctx progress plan step) (nav_turned (Suc k)) (log_safe (Suc k))"
  unfolding nav_operate_def Let_def
  apply (rule triple_bind, rule execute_open, rule fits)
  subgoal for answer
    apply (rule triple_bind[where R = "\<lambda>operation. log_called (Suc k) (ns_observation st) plan operation"], rule triple_lift)
    subgoal by (auto simp: validated_operation_def rbind_eq_Inr_iff)
    subgoal by (erule log_open_safe)
    subgoal for operation
      apply (intro triple_if)
      subgoal by (rule triple_pre[OF stale_ends[OF ok] log_open_safe(2)])
      subgoal
        by (rule triple_conseq[OF refuse_ends[OF ok] log_open_safe(2)]) (auto simp: nav_turned_def)
      subgoal by (rule read_turns[OF ok]) simp_all
      subgoal by (rule act_turns[OF ok]) simp_all
      done
    done
  done

lemma decided_turns:
  assumes ok: "cs_ok (ns_session st)" "length (ns_steps st) = k"
    and fits: "\<And>plan r. validate_navigation_decision ctx decision = Inr plan \<Longrightarrow>
       operation_fits (ns_observation st) \<lparr>oc_context = ctx, oc_plan = plan, oc_answer = r\<rparr>"
  shows "triple (log_open k (Some (ns_observation st))) (nav_decided n index st ctx progress decision) (nav_turned (Suc k))
    (log_safe (Suc k))"
  unfolding nav_decided_def Let_def
  apply (rule triple_bind[where R = "\<lambda>plan w. validate_navigation_decision ctx decision = Inr plan \<and> log_open k (Some (ns_observation st)) w"],
     rule triple_lift)
  subgoal by blast
  subgoal by (blast intro: log_open_safe log_safe_mono le_SucI)
  subgoal for plan
    apply (rule triple_and)
    apply (rule triple_bind[where R = "\<lambda>s w. record_agent_decision (ns_session st) plan = Inr s \<and> log_open k (Some (ns_observation st)) w"],
      rule triple_lift)
    subgoal by blast
    subgoal by (blast intro: log_open_safe log_safe_mono le_SucI)
    subgoal for session
      apply (rule triple_and)
      apply (intro triple_if)
      subgoal
        apply (rule triple_return)
        apply (drule (1) ensD[OF decision_stopped[OF ok(1)]])
        by (auto simp: nav_turned_def nav_ended_def ok intro: stopped_ok log_open_safe log_safe_mono dest: stopped_ok(2))
      subgoal
        apply (rule triple_return)
        by (auto simp: nav_turned_def nav_ready_def ok intro: session_kept[rotated] log_open_mono)
      subgoal
        by (rule triple_pre, rule operate_turns) (auto simp: ok intro: session_kept[rotated] fits)
      done
    done
  done

lemma plan_fits:
  assumes ctx: "build_navigation_context goal evidence observation read_progress progress = Inr ctx"
    and seen: "accepted observation" and plan: "validate_navigation_decision ctx decision = Inr plan"
  shows "operation_fits observation \<lparr>oc_context = ctx, oc_plan = plan, oc_answer = r\<rparr>"
  using ctx
proof (rule context_built)
  fix title current state choices known
  assume current: "validated_current_observation observation (pget (pget evidence ''interface'') ''interface_id'') = Inr current"
    and built: "ctx = navigation_context title evidence current state known (filter (still_open known) choices)"
  from current seen have same: "is_dict current" "pget (pget evidence ''interface'') ''interface_id'' = pget observation ''interface_id''"
    "pget current ''capture_id'' = pget observation ''capture_id''"
    "pget current ''screenshot_sha256'' = pget observation ''screenshot_sha256''"
    "pget current ''trace_path'' = pget observation ''trace_path''"
    by (auto simp: validated_current_observation_def rbind_eq_Inr_iff required_text_def Let_def accepted_def dict_get_def split: if_split_asm)
  from plan show ?thesis
  proof (rule plan_made)
    fix cs selected freshness choice_id interface_id reason
    assume it: "py_iter (py_or (pget ctx ''choices'') (PList [])) = Inr cs" and selected: "selected \<in> set cs"
      and name: "pget selected ''choice_id'' = PStr choice_id"
      and allowed: "\<not> is_forbidden_action (normalize_action (pget selected ''semantic_action''))"
      and fresh: "plan_freshness (pget ctx ''current_observation'') = Inr freshness"
      and interface: "get_or_raise (py_or (pget ctx ''interface'') (PDict [])) ''interface_id'' = Inr interface_id"
      and plan: "plan = navigation_plan ctx interface_id selected choice_id (normalize_action (pget selected ''semantic_action'')) reason freshness"
    have "cs = plist (pget ctx ''choices'')"
      using it by (auto simp: built py_or_def split: if_split_asm)
    then have offered: "selected \<in> set (plist (pget ctx ''choices''))" using selected by simp
    have fits: "choice_fits (pget ctx ''read_state'') selected \<and> still_open (pget ctx ''task_progress'') selected"
      by (rule offered_fit[OF ctx offered])
    obtain id where id: "pget observation ''interface_id'' = PStr id"
      using seen by (auto simp: accepted_def)
    with interface same(2) have at: "interface_id = pget observation ''interface_id''"
      by (cases "pget evidence ''interface''") (auto simp: built py_or_def get_or_raise_def dict_get_def split: if_split_asm)
    have taken: "list_all (\<lambda>k. pget freshness k = pget observation k) [''capture_id'', ''screenshot_sha256'', ''trace_path'']"
      using fresh same by (auto simp: plan_freshness_def rbind_eq_Inr_iff built item_def dict_get_def split: pyval.split_asm option.split_asm)
    have "pget plan ''choice_id'' = PStr choice_id" "pget plan ''freshness'' = freshness" "pget plan ''interface_id'' = interface_id"
      "pget plan ''decision_type'' = pget selected ''decision_type''"
      "pget plan ''semantic_action'' = PStr (normalize_action (pget selected ''semantic_action''))"
      by (simp_all add: plan navigation_plan_def Let_def dict_get_def)
    then show ?thesis
      unfolding operation_fits_def list_ex_iff operation_call.simps using offered name fits allowed at taken by auto
  qed
qed


lemma round_turns:
  "triple (nav_ready k st) (nav_round n goal index st) (nav_turned (Suc k)) (log_safe (Suc k))"
proof -
  have "triple (\<lambda>w. nav_ready k st w) (nav_round n goal index st) (nav_turned (Suc k)) (log_safe (Suc k))"
    if ok: "cs_ok (ns_session st)" "length (ns_steps st) = k" and seen: "accepted (ns_observation st)"
  proof (cases "pget (ns_session st) ''status'' = PStr ''ready_for_agent_decision''")
    case False
    then show ?thesis
      unfolding nav_round_def
      by (auto intro!: triple_return log_safe_mono[OF log_open_safe(1)] simp: nav_ready_def nav_turned_def nav_ended_def)
  next
    case True
    obtain progress held where held: "current_progress st (py_str (pget (ns_observation st) ''interface_id'')) = (progress, held)"
      by (cases "current_progress st (py_str (pget (ns_observation st) ''interface_id''))")
    let ?st = "st\<lparr>ns_progress := held\<rparr>" and ?open = "log_open k (Some (ns_observation st))"
    let ?built = "build_navigation_context goal (ns_evidence ?st) (ns_observation ?st) progress (task_progress ?st)"
    have raised: "?open w \<Longrightarrow> log_safe (Suc k) w" for w :: "'a nav_world"
      by (blast intro: log_open_safe log_safe_mono le_SucI)
    have "triple ?open (nav_round n goal index st) (nav_turned (Suc k)) (log_safe (Suc k))"
      unfolding nav_round_def held Let_def prod.case if_not_P[OF not_not[THEN iffD2, OF True]]
      apply (rule triple_bind[where R = "\<lambda>ctx w. ?built = Inr ctx \<and> ?open w"], rule triple_lift)
      subgoal by blast
      subgoal by (rule raised)
      subgoal for ctx
        apply (rule triple_and)
        apply (rule triple_bind, rule triple_conseq[where P' = ?open and Q' = "\<lambda>x. ?open", OF ask_open], assumption, assumption)
        subgoal by (blast intro: log_safe_mono le_SucI)
        subgoal for answer
          apply (rule triple_bind[where R = "\<lambda>d. ?open"], rule triple_lift, assumption, erule raised)
          subgoal for decision
            using decided_turns[of ?st k ctx decision] ok seen plan_fits by simp
          done
        done
      done
    then show ?thesis by (rule triple_pre) (simp add: nav_ready_def)
  qed
  then show ?thesis unfolding nav_ready_def log_open_def triple_def by blast
qed

definition nav_finished :: "nat \<Rightarrow> nav_state \<Rightarrow> 'e nav_world \<Rightarrow> bool" where
  "nav_finished limit st w = (cs_ok (ns_session st) \<and> length (ns_steps st) \<le> limit \<and> log_safe limit w
     \<and> (pget (ns_session st) ''status'' = PStr ''ready_for_agent_decision'' \<longrightarrow> length (ns_steps st) = limit))"

lemma loop_finishes:
  "j + k = limit \<Longrightarrow> triple (nav_ready k st) (nav_loop j n goal index st) (nav_finished limit) (log_safe limit)"
proof (induction j arbitrary: k st index)
  case 0
  then show ?case
    by (auto intro!: triple_return simp: nav_ready_def nav_finished_def intro: log_open_safe)
next
  case (Suc j)
  have step: "Suc k \<le> limit" "j + Suc k = limit" using Suc.prems by simp_all
  have go: "triple (nav_turned (Suc k) (again, st')) (if again then nav_loop j n goal (Suc index) st' else areturn st')
      (nav_finished limit) (log_safe limit)" for again st'
  proof (cases again)
    case True
    show ?thesis unfolding if_P[OF True] by (rule triple_pre[OF Suc.IH[OF step(2)]]) (simp add: nav_turned_def True)
  next
    case False
    then show ?thesis using step(1)
      by (auto intro!: triple_return simp: nav_turned_def nav_ended_def nav_finished_def intro: log_safe_mono)
  qed
  show ?case
    unfolding nav_loop.simps
    by (rule triple_bind, rule triple_conseq[OF round_turns], assumption, assumption, erule log_safe_mono[OF _ step(1)])
      (metis (no_types, lifting) go case_prod_conv surj_pair)
qed

lemma begin_ready:
  "triple (\<lambda>w. nw_log w = []) (nav_begin n workflow_id session_id initial) (nav_ready 0) (log_safe 0)"
proof -
  have "triple (log_open 0 None) (nav_begin n workflow_id session_id initial) (nav_ready 0) (log_safe 0)"
    unfolding nav_begin_def Let_def
    apply (rule triple_bind[where R = "\<lambda>s w. cs_ok s \<and> log_open 0 None w"], rule triple_lift)
    subgoal by (blast intro: created_session)
    subgoal by (erule log_open_safe)
    subgoal for session
      apply (rule triple_and)
      apply (rule triple_bind, rule observe_open)
      apply (rule triple_bind, rule accept_open)
      by (auto intro!: triple_return simp: nav_ready_def)
    done
  then show ?thesis by (rule triple_pre) (simp add: log_open_def log_settled_def operations_def)
qed

lemma nav_end_over:
  assumes "nav_finished limit st w"
  shows "cs_ok (nav_end limit st)" and "pget (nav_end limit st) ''status'' \<noteq> PStr ''ready_for_agent_decision''"
proof -
  show "cs_ok (nav_end limit st)"
    using assms unfolding nav_finished_def nav_end_def by (simp add: cs_ok_pset)
  show "pget (nav_end limit st) ''status'' \<noteq> PStr ''ready_for_agent_decision''"
    using assms unfolding nav_finished_def nav_end_def by (auto simp: not_final(2))
qed

lemma nav_report_simps [simp]:
  "pget (nav_report goal workflow_id session_id st session) ''session'' = session"
  "pget (nav_report goal workflow_id session_id st session) ''final_status'' = pget session ''status''"
  "pget (nav_report goal workflow_id session_id st session) ''steps'' = PList (ns_steps st)"
  by (simp_all add: nav_report_def dict_get_def)

lemma run_finishes:
  "triple (\<lambda>w. nw_log w = []) (run_navigation n goal workflow_id session_id initial max_steps)
    (\<lambda>report w. log_safe (nav_limit max_steps) w \<and> cs_ok (pget report ''session'')
       \<and> length (plist (pget report ''steps'')) \<le> nav_limit max_steps
       \<and> pget report ''final_status'' \<noteq> PStr ''ready_for_agent_decision'') (log_safe (nav_limit max_steps))"
  unfolding run_navigation_def
  apply (rule triple_bind[where R = "\<lambda>g w. nw_log w = []"], rule triple_lift, assumption)
  subgoal by (simp add: log_safe_def operations_def)
  subgoal for g
    apply (rule triple_bind, rule triple_conseq[OF begin_ready], assumption, assumption)
    subgoal by (erule log_safe_mono) simp
    apply (rule triple_bind, rule loop_finishes[where limit = "nav_limit max_steps"], simp)
    subgoal for st st'
      by (rule triple_return) (frule nav_end_over(1), frule nav_end_over(2), simp add: nav_finished_def)
    done
  done

section \<open>The content of a read state\<close>

text \<open>
  The read state an agent is given may name a region it is not about: the progress of an interface keeps the content that was
  read first (\<^verbatim>\<open>setdefault\<close>), while its status is that of the last reading. So a transition that requires a
  region to be read may be offered after another region was read to its bottom.
\<close>

lemma merge_keeps_first_content:
  "case merge_read_progress (PDict [(''strategy'', PStr ''finite_detail''), (''content_id'', PStr ''first'')])
      (PDict [(''stop_reason'', PStr ''reached_bottom'')]) ''read'' (PDict [(''content_id'', PStr ''second'')]) of Inl e \<Rightarrow> False
    | Inr state \<Rightarrow> pget state ''content_id'' = PStr ''first'' \<and> pget state ''status'' = PStr ''reached_bottom''"
  by code_simp

section \<open>A run\<close>

definition sample_observed :: "string \<Rightarrow> string \<Rightarrow> pyval" where
  "sample_observed name capture = PDict [(''contract_version'', PStr observation_contract), (''interface_id'', PStr name),
     (''surface_type'', PStr ''page''), (''capture_id'', PStr capture), (''screenshot_sha256'', PStr (capture @ ''-image'')),
     (''trace_path'', PStr (capture @ ''.jsonl''))]"

definition sample_interface :: "string \<Rightarrow> pyval" where
  "sample_interface name = PDict [(''contract_version'', PStr ''agent_evidence_context_v1''),
     (''readiness'', PDict [(''status'', PStr ''agent_usable'')]), (''interface'', PDict [(''interface_id'', PStr name)]),
     (''artifact_is_authorization'', PBool False), (''asset_sha256'', PStr (replicate 64 CHR ''a'')),
     (''semantic_controls'', PList [PDict [(''control_id'', PStr ''settings''), (''semantic_name'', PStr ''Settings''),
        (''purpose'', PStr ''open the settings''), (''risk_class'', PStr ''low''), (''allowed_actions'', PList [PStr ''click'']),
        (''verification_rule'', PDict [(''rule_ids'', PList [PStr ''settings_shown''])])]]),
     (''available_actions'', PList [PDict [(''action_id'', PStr ''settings''), (''action_type'', PStr ''click''),
        (''source_control_id'', PStr ''settings''), (''target_interface_id'', PStr ''settings'')]])]"

definition sample_operation :: "pyval \<Rightarrow> pyval" where
  "sample_operation plan = PDict [(''contract_version'', PStr operation_contract), (''source_freshness'', pget plan ''freshness''),
     (''gate_result'', PDict [(''allowed'', PBool True)]), (''action_executed'', PBool True), (''post_action_verified'', PBool True)]"

text \<open>An environment that shows the settings once an operation was carried out; the agent opens them, then stops.\<close>

definition sample_navigator :: "nat navigator" where
  "sample_navigator = \<lparr>
     nv_observe = (\<lambda>n. (Inr (if n = 0 then sample_observed ''home'' ''c1'' else sample_observed ''settings'' ''c2''), n)),
     nv_evidence = (\<lambda>name n. (Inr (sample_interface name), n)),
     nv_decide = (\<lambda>ctx n. (Inr (PDict [(''choice_id'', PStr (if n = 0 then ''transition:settings'' else ''safe_stop:agent_requested_safe_stop'')),
        (''reason'', PStr ''reach the settings'')]), n)),
     nv_execute = (\<lambda>plan ctx n. (Inr (sample_operation plan), Suc n))\<rparr>"

definition sample_tour :: "pyval res \<times> nat nav_world" where
  "sample_tour = run_navigation sample_navigator (PStr ''open the settings'') (PStr ''w1'') (PStr ''s1'') PNone 5 \<lparr>nw_env = 0, nw_log = []\<rparr>"

lemma sample_tour_made: "is_ok (fst sample_tour) \<and> operations (nw_log (snd sample_tour)) = 1"
  by code_simp

lemma run_from_start:
  assumes "nw_log w = []"
  shows "log_safe (nav_limit max_steps) (snd (run_navigation n goal workflow_id session_id initial max_steps w))"
  using tripleD[OF run_finishes assms] triple_raised[OF run_finishes assms]
  by (cases "run_navigation n goal workflow_id session_id initial max_steps w"; cases "fst (run_navigation n goal workflow_id session_id initial max_steps w)")
    (auto simp: assms)

text \<open>C4: Every operation a navigation run asks for takes one of the choices offered for the interface it observed last,
  works on that capture and is never a final or destructive action; a transition that requires a reading is followed only when
  the read state the agent was given names that content and says it reached the bottom, a scroll is made only when that state has
  scrolls left, and nothing is asked for unless every earlier operation was allowed, current, carried out and verified.\<close>

theorem navigation_operations_fit:
  assumes "nw_log w = []"
  shows "log_fits None (nw_log (snd (run_navigation n goal workflow_id session_id initial max_steps w)))"
  using run_from_start[OF assms] by (simp add: log_safe_def)

theorem navigation_operations_fit_witness:
  "log_fits None (nw_log (snd sample_tour)) \<and> operations (nw_log (snd sample_tour)) = 1"
  using navigation_operations_fit[of "\<lparr>nw_env = 0, nw_log = []\<rparr>"] sample_tour_made by (simp add: sample_tour_def)

text \<open>C12: A navigation run asks for at most \<open>max_steps\<close> operations, one at least being granted, whatever the callbacks answer.\<close>

theorem navigation_operations_bounded:
  assumes "nw_log w = []"
  shows "operations (nw_log (snd (run_navigation n goal workflow_id session_id initial max_steps w))) \<le> nat (max 1 max_steps)"
  using run_from_start[OF assms] by (simp add: log_safe_def nav_limit_def)

theorem navigation_operations_bounded_witness: "operations (nw_log (snd sample_tour)) = 1 \<and> (1::nat) \<le> nat (max 1 5)"
  using navigation_operations_bounded[of "\<lparr>nw_env = 0, nw_log = []\<rparr>"] sample_tour_made by (simp add: sample_tour_def)

text \<open>The report of a navigation run never leaves the session awaiting another decision, never says that a final submit was
  executed, and lists at most \<open>max_steps\<close> steps.\<close>

theorem navigation_run_is_decided:
  assumes "nw_log w = []" and "fst (run_navigation n goal workflow_id session_id initial max_steps w) = Inr report"
  shows "pget report ''final_status'' \<noteq> PStr ''ready_for_agent_decision''
    \<and> pget (pget (pget report ''session'') ''safety'') ''final_submit_executed'' = PBool False
    \<and> length (plist (pget report ''steps'')) \<le> nat (max 1 max_steps)"
proof -
  have "run_navigation n goal workflow_id session_id initial max_steps w =
      (Inr report, snd (run_navigation n goal workflow_id session_id initial max_steps w))"
    using assms(2) by (metis prod.collapse)
  from tripleD[OF run_finishes assms(1) this] show ?thesis
    unfolding cs_ok_def by (simp add: nav_limit_def)
qed

theorem navigation_run_is_decided_witness:
  "\<exists>report. fst sample_tour = Inr report \<and> pget report ''final_status'' \<noteq> PStr ''ready_for_agent_decision''
     \<and> length (plist (pget report ''steps'')) \<le> 5"
proof -
  obtain report where report: "fst sample_tour = Inr report"
    using sample_tour_made by (cases "fst sample_tour") (auto simp: is_ok_def)
  then show ?thesis
    using navigation_run_is_decided[of "\<lparr>nw_env = 0, nw_log = []\<rparr>", OF _ report[unfolded sample_tour_def]] by simp
qed

end
