(* ===== verification/FormWorkflow.thy ===== *)
theory FormWorkflow
  imports ContinuousSession
begin

text \<open>
  One turn of a form workflow: \<^verbatim>\<open>app/agent/form_workflow_controller.py\<close>. \<open>plan_form_workflow_turn\<close> chooses, from the
  questions of the current step, the reviewed answers and the capture they were made on, the next thing to do: fill one
  field, go on to the next step, ask the user, or stop. The turn is what \<open>record_form_workflow_turn\<close> of the
  continuous session takes.
\<close>

section \<open>Words of the controller\<close>

definition turn_contract :: string where
  "turn_contract = ''form_workflow_turn_decision_v1''"

definition inventory_contract :: string where
  "inventory_contract = ''form_question_inventory_v1''"

definition answer_plan_contract :: string where
  "answer_plan_contract = ''form_answer_plan_v1''"

definition turn_actions :: "string list" where
  "turn_actions = [''fill_field'', ''select_option'', ''upload_file'', ''continue_next_step'', ''request_user_review'', ''safe_stop'']"

definition auto_fill_policies :: "string list" where
  "auto_fill_policies = [''auto_fill'', ''derived_with_evidence'', ''approved_reviewed_answer'', ''reused_reviewed_policy'',
     ''reviewed_file_upload'']"

definition selection_types :: "string list" where
  "selection_types = [''select'', ''radio'', ''checkbox'']"

definition review_policies :: "string list" where
  "review_policies = [''needs_user_review'', ''blocked_sensitive'', ''unsupported'']"

definition form_clean :: "pyval \<Rightarrow> string" where
  "form_clean v = join '' '' (words (text_or_empty v))"

definition form_required :: "pyval \<Rightarrow> string \<Rightarrow> string res" where
  "form_required v field_name = (let t = form_clean v in
     if t = [] then Inl (ValueError (field_name @ '' is required'')) else Inr t)"

definition clean_or_none :: "string \<Rightarrow> pyval" where
  "clean_or_none s = (if s = [] then PNone else PStr s)"

section \<open>Turns\<close>

definition form_base :: "string \<Rightarrow> pyval \<Rightarrow> string \<Rightarrow> string \<Rightarrow> pyval res" where
  "form_base interface capture action reason =
     rbind (ensure (action \<in> set turn_actions) (ValueError (''unsupported form workflow action: '' @ action))) (\<lambda>_.
     Inr (PDict [(''contract_version'', PStr turn_contract), (''interface_id'', PStr interface), (''capture_id'', capture),
       (''semantic_action'', PStr action), (''action_type'', PStr action), (''reason'', PStr reason), (''question_id'', PNone),
       (''operation'', PNone), (''operation_count'', PInt 0), (''requires_gate'', PBool False),
       (''requires_post_action_verification'', PBool False), (''requires_fresh_observation_after_action'', PBool False),
       (''invalidates_after_success'', PList []), (''dispatch_authorized'', PBool False), (''artifact_is_authorization'', PBool False),
       (''unsafe_prevented'', PBool False)]))"

definition form_operation ::
    "string \<Rightarrow> string \<Rightarrow> string \<Rightarrow> pyval \<Rightarrow> string \<Rightarrow> pyval \<Rightarrow> string list \<Rightarrow> pyval \<Rightarrow> pyval \<Rightarrow> pyval res" where
  "form_operation interface capture action question field_type value_reference invalidates target_interface target =
     rbind (form_base interface (PStr capture) action ''next_safe_form_action'') (\<lambda>base.
     Inr (pset ''invalidates_after_success'' (PList (map PStr invalidates))
       (pset ''requires_fresh_observation_after_action'' (PBool True)
       (pset ''requires_post_action_verification'' (PBool True) (pset ''requires_gate'' (PBool True) (pset ''operation_count'' (PInt 1)
       (pset ''operation'' (PDict [(''action_type'', PStr action), (''question_id'', question), (''target_id'', py_or target question),
           (''field_type'', PStr field_type), (''value_reference'', value_reference), (''capture_id'', PStr capture),
           (''requires_fresh_grounding'', PBool True)])
       (pset ''expected_target_interface_id'' target_interface (pset ''question_id'' question base)))))))))"

definition form_review :: "string \<Rightarrow> string \<Rightarrow> pyval \<Rightarrow> string \<Rightarrow> pyval res" where
  "form_review interface capture question reason =
     rbind (form_base interface (PStr capture) ''request_user_review'' reason) (\<lambda>base. Inr (pset ''question_id'' question base))"

definition form_stop :: "string \<Rightarrow> pyval \<Rightarrow> string \<Rightarrow> bool \<Rightarrow> pyval res" where
  "form_stop interface capture reason unsafe =
     rbind (form_base interface capture ''safe_stop'' reason) (\<lambda>base. Inr (pset ''unsafe_prevented'' (PBool unsafe) base))"

section \<open>Questions\<close>

definition form_question_id :: "pyval \<Rightarrow> string" where
  "form_question_id v = form_clean (py_or (pget v ''question_id'') (py_or (pget v ''field_id'') (pget v ''id'')))"

definition add_question :: "pyval list \<Rightarrow> pyval \<Rightarrow> pyval list" where
  "add_question ordered v = (if \<not> is_dict v \<or> form_question_id v = [] \<or> form_question_id v \<in> set (map form_question_id ordered)
     then ordered else ordered @ [v])"

definition ordered_questions :: "pyval \<Rightarrow> pyval list res" where
  "ordered_questions inventory =
     rbind (py_iter (py_or (pget inventory ''questions'') (PList []))) (\<lambda>questions.
     rbind (py_iter (py_or (pget inventory ''fields'') (PList []))) (\<lambda>fields.
     Inr (fold (\<lambda>v ordered. add_question ordered v) (questions @ fields) [])))"

text \<open>The decision on a question; of two the later counts.\<close>

definition decision_on :: "pyval list \<Rightarrow> string \<Rightarrow> pyval option" where
  "decision_on decisions question = map_of (rev (map (\<lambda>d. (form_clean (pget d ''question_id''), d))
     (filter (\<lambda>d. is_dict d \<and> form_clean (pget d ''question_id'') \<noteq> []) decisions))) question"

definition completed_questions :: "pyval list \<Rightarrow> string list" where
  "completed_questions given = filter (\<lambda>t. t \<noteq> []) (map form_clean given)"

definition field_type_of :: "pyval \<Rightarrow> pyval \<Rightarrow> string" where
  "field_type_of decision question = casefold (form_clean (py_or (pget decision ''field_type'')
     (py_or (pget question ''field_type'') (pget question ''answer_type''))))"

definition fill_action :: "string \<Rightarrow> string \<Rightarrow> string" where
  "fill_action field_type policy = (if field_type = ''file_upload'' \<and> policy = ''reviewed_file_upload'' then ''upload_file''
     else if field_type \<in> set selection_types then ''select_option'' else ''fill_field'')"

definition answer_question :: "string \<Rightarrow> string \<Rightarrow> pyval list \<Rightarrow> pyval \<Rightarrow> pyval res" where
  "answer_question interface capture decisions question =
     (let name = form_question_id question in
      case decision_on decisions name of
        None \<Rightarrow> form_review interface capture (PStr name) ''answer_decision_missing''
      | Some decision \<Rightarrow> let policy = casefold (form_clean (pget decision ''policy'')) in
          if policy = ''final_submit'' then form_stop interface (PStr capture) ''final_submit_visible'' True
          else if policy \<in> set review_policies \<or> policy \<notin> set auto_fill_policies
            then form_review interface capture (PStr name) (if policy = [] then ''answer_policy_unknown'' else policy)
          else let field_type = field_type_of decision question in
            form_operation interface capture (fill_action field_type policy) (PStr name)
              (if field_type = [] then ''unknown'' else field_type) (pget decision ''value_reference'')
              [''capture'', ''grounding''] (PStr interface) PNone)"

definition continue_form :: "string \<Rightarrow> string \<Rightarrow> pyval \<Rightarrow> pyval res" where
  "continue_form interface capture inventory =
     (let action = pget inventory ''continue_action'' in
      if is_dict action then
        if form_clean (pget action ''capture_id'') \<noteq> capture then form_stop interface (PStr capture) ''stale_form_step_evidence'' False
        else form_operation interface capture ''continue_next_step'' PNone ''action'' PNone
          [''capture'', ''form_inventory'', ''grounding''] PNone (clean_or_none (form_clean (pget action ''action_id'')))
      else form_review interface capture PNone ''no_safe_form_action_available'')"

definition next_form_action :: "string \<Rightarrow> string \<Rightarrow> pyval \<Rightarrow> pyval \<Rightarrow> pyval \<Rightarrow> pyval res" where
  "next_form_action interface capture inventory plan completed =
     rbind (py_iter (py_or completed (PList []))) (\<lambda>given.
     rbind (py_iter (py_or (pget plan ''decisions'') (PList []))) (\<lambda>decisions.
     rbind (ordered_questions inventory) (\<lambda>questions.
     case find (\<lambda>q. form_question_id q \<notin> set (completed_questions given)) questions of
       Some question \<Rightarrow> answer_question interface capture decisions question
     | None \<Rightarrow> continue_form interface capture inventory)))"

section \<open>The turn\<close>

definition surface_reason :: "string \<Rightarrow> string" where
  "surface_reason status = (if status = ''login_required'' \<or> status = ''wrong_surface'' \<or> status = ''blocked_surface'' then status
     else ''surface_not_ready'')"

definition plan_form_workflow_turn ::
    "pyval \<Rightarrow> pyval \<Rightarrow> pyval \<Rightarrow> pyval \<Rightarrow> pyval \<Rightarrow> pyval \<Rightarrow> pyval \<Rightarrow> pyval res" where
  "plan_form_workflow_turn interface_id surface_status evidence inventory plan completed previous =
     rbind (form_required interface_id ''interface_id'') (\<lambda>interface.
     rbind (form_required surface_status ''surface_status'') (\<lambda>given.
     let status = casefold given; capture = form_clean (pget evidence ''capture_id'') in
     if status \<noteq> ''ready'' then form_stop interface (PStr capture) (surface_reason status) False
     else if pget previous ''verified'' = PBool False
       then form_stop interface (PStr capture) ''previous_action_verification_failed'' False
     else if capture = [] then form_stop interface PNone ''observation_evidence_missing'' False
     else if pget inventory ''contract_version'' \<noteq> PStr inventory_contract \<or> pget plan ''contract_version'' \<noteq> PStr answer_plan_contract
       then form_stop interface (PStr capture) ''invalid_form_step_contract'' False
     else if form_clean (pget inventory ''capture_id'') \<noteq> capture \<or> form_clean (pget plan ''capture_id'') \<noteq> capture
       then form_stop interface (PStr capture) ''stale_form_step_evidence'' False
     else if truthy (pget inventory ''danger_actions'') then form_stop interface (PStr capture) ''final_submit_visible'' True
     else next_form_action interface capture inventory plan completed))"

section \<open>Clean text\<close>

definition solid :: "string \<Rightarrow> bool" where
  "solid t = (t \<noteq> [] \<and> list_all (\<lambda>c. \<not> is_space c) t)"

lemma words_solid: "t \<in> set (words s) \<Longrightarrow> solid t"
proof (induction s arbitrary: t rule: words.induct)
  case (1 s)
  show ?case
  proof (cases "lstrip s")
    case Nil
    then show ?thesis using "1.prems" by (simp add: words.simps)
  next
    case (Cons c cs)
    then have c: "\<not> is_space c" using hd_dropWhile[of is_space s] by (simp add: lstrip_def)
    consider "t = takeWhile (\<lambda>x. \<not> is_space x) (c # cs)" | "t \<in> set (words (dropWhile (\<lambda>x. \<not> is_space x) cs))"
      using "1.prems" by (subst (asm) words.simps) (auto simp: Cons c)
    then show ?thesis
    proof cases
      case 1
      then show ?thesis using c set_takeWhileD[of _ "\<lambda>x. \<not> is_space x" cs] by (auto simp: solid_def list_all_iff)
    next
      case 2
      then show ?thesis by (rule "1.IH"[OF Cons])
    qed
  qed
qed

lemma solid_ends: "solid t \<Longrightarrow> t \<noteq> [] \<and> \<not> is_space (hd t) \<and> \<not> is_space (last t)"
  by (auto simp: solid_def list_all_iff)

lemma join_ends:
  "list_all solid ts \<Longrightarrow> ts \<noteq> [] \<Longrightarrow> join '' '' ts \<noteq> [] \<and> \<not> is_space (hd (join '' '' ts)) \<and> \<not> is_space (last (join '' '' ts))"
  by (induction "'' ''::string" ts rule: join.induct) (auto dest: solid_ends)

lemma strip_ends: "t = [] \<or> (\<not> is_space (hd t) \<and> \<not> is_space (last t)) \<Longrightarrow> strip t = t"
  by (cases t rule: rev_cases) (auto simp: strip_def lstrip_def dropWhile_hd_not hd_append split: if_split_asm)

lemma strip_form_clean [simp]: "strip (form_clean v) = form_clean v"
proof (rule strip_ends)
  have "list_all solid (words (text_or_empty v))" by (simp add: list_all_iff words_solid)
  then show "form_clean v = [] \<or> (\<not> is_space (hd (form_clean v)) \<and> \<not> is_space (last (form_clean v)))"
    unfolding form_clean_def using join_ends by (cases "words (text_or_empty v)") fastforce+
qed

section \<open>Turns\<close>

lemma form_base_known: "action \<in> set turn_actions \<Longrightarrow> \<exists>base. form_base interface capture action reason = Inr base \<and> is_dict base
    \<and> pget base ''contract_version'' = PStr turn_contract \<and> pget base ''capture_id'' = capture
    \<and> pget base ''semantic_action'' = PStr action \<and> pget base ''action_type'' = PStr action
    \<and> pget base ''operation_count'' = PInt 0 \<and> pget base ''question_id'' = PNone \<and> pget base ''interface_id'' = PStr interface"
  by (simp add: form_base_def dict_get_def)

text \<open>What every turn is: a stop, a question to the user, or one operation.\<close>

definition turn_shape :: "pyval \<Rightarrow> string \<Rightarrow> pyval \<Rightarrow> bool" where
  "turn_shape capture action turn = (is_dict turn \<and> pget turn ''contract_version'' = PStr turn_contract
     \<and> pget turn ''capture_id'' = capture \<and> pget turn ''action_type'' = PStr action \<and> pget turn ''semantic_action'' = PStr action
     \<and> (pget turn ''operation_count'' = PInt (if action \<in> set form_actions then 1 else 0))
     \<and> (action \<in> set form_actions \<longrightarrow> is_dict (pget turn ''operation'')))"

lemma not_form_actions: "''safe_stop'' \<notin> set form_actions" "''request_user_review'' \<notin> set form_actions"
  by code_simp+

lemma stop_shape: "form_stop interface capture reason unsafe = Inr turn \<Longrightarrow> turn_shape capture ''safe_stop'' turn"
  using form_base_known[of "''safe_stop''" interface capture reason]
  by (auto simp: form_stop_def turn_shape_def not_form_actions turn_actions_def)

lemma review_shape: "form_review interface capture question reason = Inr turn \<Longrightarrow> turn_shape (PStr capture) ''request_user_review'' turn
    \<and> pget turn ''question_id'' = question"
  using form_base_known[of "''request_user_review''" interface "PStr capture" reason]
  by (auto simp: form_review_def turn_shape_def not_form_actions turn_actions_def)

lemma form_actions_known: "action \<in> set form_actions \<Longrightarrow> action \<in> set turn_actions"
  by (auto simp: form_actions_def turn_actions_def)

lemma operation_shape:
  assumes "action \<in> set form_actions"
    and "form_operation interface capture action question field_type value_reference invalidates target_interface target = Inr turn"
  shows "turn_shape (PStr capture) action turn \<and> pget turn ''question_id'' = question
    \<and> pget (pget turn ''operation'') ''value_reference'' = value_reference"
proof -
  obtain base where base: "form_base interface (PStr capture) action ''next_safe_form_action'' = Inr base" "is_dict base"
    "pget base ''contract_version'' = PStr turn_contract" "pget base ''capture_id'' = PStr capture"
    "pget base ''semantic_action'' = PStr action" "pget base ''action_type'' = PStr action"
    using form_base_known[OF form_actions_known[OF assms(1)], of interface "PStr capture" "''next_safe_form_action''"] by blast
  note turn = assms(2)[unfolded form_operation_def base(1) rbind_Inr sum.inject, symmetric]
  show ?thesis unfolding turn turn_shape_def using base(2-) assms(1) by (simp add: dict_get_def)
qed

lemma turn_action_cases:
  assumes "action \<in> set turn_actions"
  shows "action = ''safe_stop'' \<or> action = ''request_user_review'' \<or> action \<in> set form_actions"
proof -
  have "list_all (\<lambda>a. a = ''safe_stop'' \<or> a = ''request_user_review'' \<or> a \<in> set form_actions) turn_actions" by code_simp
  from this[unfolded list_all_iff] assms show ?thesis by (rule bspec)
qed

lemma fill_action_known: "fill_action field_type policy \<in> set form_actions" "fill_action field_type policy \<noteq> ''continue_next_step''"
  by (simp_all add: fill_action_def form_actions_def)

lemma continue_known: "''continue_next_step'' \<in> set form_actions"
  by (simp add: form_actions_def)

section \<open>When a turn is an operation\<close>

text \<open>
  The only reasons for an operation: the surface is ready, the action before was not found wrong, nothing on the page submits
  the form, everything was made on the same capture, and the first open question has a decision that may be filled in -- or
  no question is open, for going on to the next step.
\<close>

definition policy_of :: "pyval \<Rightarrow> string" where
  "policy_of decision = casefold (form_clean (pget decision ''policy''))"

definition question_justified :: "pyval \<Rightarrow> pyval \<Rightarrow> pyval \<Rightarrow> pyval \<Rightarrow> bool" where
  "question_justified inventory plan completed turn = (\<exists>given decisions questions.
     py_iter (py_or completed (PList [])) = Inr given \<and> py_iter (py_or (pget plan ''decisions'') (PList [])) = Inr decisions
     \<and> ordered_questions inventory = Inr questions
     \<and> (case find (\<lambda>q. form_question_id q \<notin> set (completed_questions given)) questions of
          None \<Rightarrow> pget turn ''action_type'' = PStr ''continue_next_step''
        | Some q \<Rightarrow> pget turn ''question_id'' = PStr (form_question_id q) \<and> pget turn ''action_type'' \<noteq> PStr ''continue_next_step''
            \<and> (case decision_on decisions (form_question_id q) of None \<Rightarrow> False
              | Some d \<Rightarrow> policy_of d \<in> set auto_fill_policies
                  \<and> pget (pget turn ''operation'') ''value_reference'' = pget d ''value_reference'')))"

definition turn_justified :: "pyval \<Rightarrow> pyval \<Rightarrow> pyval \<Rightarrow> pyval \<Rightarrow> pyval \<Rightarrow> pyval \<Rightarrow> pyval \<Rightarrow> bool" where
  "turn_justified surface evidence inventory plan completed previous turn = (
     casefold (form_clean surface) = ''ready'' \<and> pget previous ''verified'' \<noteq> PBool False
     \<and> \<not> truthy (pget inventory ''danger_actions'') \<and> form_clean (pget evidence ''capture_id'') \<noteq> []
     \<and> form_clean (pget inventory ''capture_id'') = form_clean (pget evidence ''capture_id'')
     \<and> form_clean (pget plan ''capture_id'') = form_clean (pget evidence ''capture_id'')
     \<and> pget turn ''capture_id'' = PStr (form_clean (pget evidence ''capture_id''))
     \<and> question_justified inventory plan completed turn)"

lemma turn_shapes:
  "turn_shape capture ''safe_stop'' turn \<Longrightarrow> pget turn ''operation_count'' \<noteq> PInt 1"
  "turn_shape capture ''request_user_review'' turn \<Longrightarrow> pget turn ''operation_count'' \<noteq> PInt 1"
  by (simp_all add: turn_shape_def not_form_actions)

lemma answered_shape:
  assumes "answer_question interface capture decisions q = Inr turn"
  obtains (stop) "turn_shape (PStr capture) ''safe_stop'' turn" | (review) "turn_shape (PStr capture) ''request_user_review'' turn"
    | (act) d action where "decision_on decisions (form_question_id q) = Some d" "policy_of d \<in> set auto_fill_policies"
        "turn_shape (PStr capture) action turn" "pget turn ''question_id'' = PStr (form_question_id q)" "action \<in> set form_actions"
        "action \<noteq> ''continue_next_step''" "pget (pget turn ''operation'') ''value_reference'' = pget d ''value_reference''"
proof (cases "decision_on decisions (form_question_id q)")
  case None
  then have "form_review interface capture (PStr (form_question_id q)) ''answer_decision_missing'' = Inr turn"
    using assms by (simp add: answer_question_def Let_def)
  then show ?thesis by (rule that(2)[OF conjunct1[OF review_shape]])
next
  case (Some d)
  have "form_stop interface (PStr capture) ''final_submit_visible'' True = Inr turn
    \<or> (\<exists>name reason. form_review interface capture name reason = Inr turn)
    \<or> (policy_of d \<in> set auto_fill_policies \<and> (\<exists>field_type kind inv.
          form_operation interface capture (fill_action field_type (policy_of d)) (PStr (form_question_id q)) kind (pget d ''value_reference'') inv
            (PStr interface) PNone = Inr turn))"
    using assms unfolding answer_question_def Let_def Some option.case policy_of_def by (auto split: if_split_asm)
  then show ?thesis
  proof (elim disjE exE conjE)
    assume "form_stop interface (PStr capture) ''final_submit_visible'' True = Inr turn"
    then show ?thesis by (rule that(1)[OF stop_shape])
  next
    fix name reason
    assume "form_review interface capture name reason = Inr turn"
    then show ?thesis by (rule that(2)[OF conjunct1[OF review_shape]])
  next
    fix field_type kind inv
    assume ok: "policy_of d \<in> set auto_fill_policies" and op: "form_operation interface capture (fill_action field_type (policy_of d))
      (PStr (form_question_id q)) kind (pget d ''value_reference'') inv (PStr interface) PNone = Inr turn"
    note shape = operation_shape[OF fill_action_known(1) op]
    show ?thesis
      by (rule that(3)[OF Some ok conjunct1[OF shape] conjunct1[OF conjunct2[OF shape]] fill_action_known conjunct2[OF conjunct2[OF shape]]])
  qed
qed

lemma continued_shape:
  assumes "continue_form interface capture inventory = Inr turn"
  obtains (stop) "turn_shape (PStr capture) ''safe_stop'' turn" | (review) "turn_shape (PStr capture) ''request_user_review'' turn"
    | (act) "turn_shape (PStr capture) ''continue_next_step'' turn"
proof -
  from assms consider "form_stop interface (PStr capture) ''stale_form_step_evidence'' False = Inr turn"
    | "form_review interface capture PNone ''no_safe_form_action_available'' = Inr turn"
    | a b c d e t where "form_operation interface capture ''continue_next_step'' a b c d e t = Inr turn"
    unfolding continue_form_def Let_def by (auto split: if_split_asm)
  then show ?thesis
  proof cases
    case 1
    then show ?thesis by (rule that(1)[OF stop_shape])
  next
    case 2
    then show ?thesis by (rule that(2)[OF conjunct1[OF review_shape]])
  next
    case 3
    then show ?thesis by (rule that(3)[OF conjunct1[OF operation_shape[OF continue_known]]])
  qed
qed

lemma next_action_shape:
  assumes "next_form_action interface capture inventory plan completed = Inr turn"
  obtains (stop) "turn_shape (PStr capture) ''safe_stop'' turn" | (review) "turn_shape (PStr capture) ''request_user_review'' turn"
    | (act) action where "turn_shape (PStr capture) action turn" "action \<in> set form_actions" "question_justified inventory plan completed turn"
proof -
  from assms obtain given decisions questions where parts: "py_iter (py_or completed (PList [])) = Inr given"
      "py_iter (py_or (pget plan ''decisions'') (PList [])) = Inr decisions" "ordered_questions inventory = Inr questions"
    and rest: "(case find (\<lambda>q. form_question_id q \<notin> set (completed_questions given)) questions of
       Some question \<Rightarrow> answer_question interface capture decisions question
     | None \<Rightarrow> continue_form interface capture inventory) = Inr turn"
    unfolding next_form_action_def rbind_eq_Inr_iff by blast
  show ?thesis
  proof (cases "find (\<lambda>q. form_question_id q \<notin> set (completed_questions given)) questions")
    case None
    with rest have "continue_form interface capture inventory = Inr turn" by simp
    then show ?thesis
    proof (cases rule: continued_shape)
      case act
      then have "question_justified inventory plan completed turn"
        unfolding question_justified_def using parts None by (intro exI[of _ given] exI[of _ decisions] exI[of _ questions]) (simp add: turn_shape_def)
      with act continue_known show ?thesis by (rule that(3))
    qed (use that in blast)+
  next
    case (Some q)
    with rest have "answer_question interface capture decisions q = Inr turn" by simp
    then show ?thesis
    proof (cases rule: answered_shape)
      case (act d action)
      then have "question_justified inventory plan completed turn"
        unfolding question_justified_def using parts Some
        by (intro exI[of _ given] exI[of _ decisions] exI[of _ questions]) (simp add: turn_shape_def)
      with act(3,5) show ?thesis by (rule that(3))
    qed (use that in blast)+
  qed
qed

lemma planned_turn:
  assumes "plan_form_workflow_turn interface surface evidence inventory plan completed previous = Inr turn"
  obtains (stop) capture where "turn_shape capture ''safe_stop'' turn"
      "form_clean (pget evidence ''capture_id'') \<noteq> [] \<Longrightarrow> capture = PStr (form_clean (pget evidence ''capture_id''))"
    | (review) "turn_shape (PStr (form_clean (pget evidence ''capture_id''))) ''request_user_review'' turn"
    | (act) action where "turn_shape (PStr (form_clean (pget evidence ''capture_id''))) action turn" "action \<in> set form_actions"
        "turn_justified surface evidence inventory plan completed previous turn"
proof -
  let ?c = "form_clean (pget evidence ''capture_id'')"
  from assms obtain i given where given: "form_required surface ''surface_status'' = Inr given"
    and rest: "(if casefold given \<noteq> ''ready'' then form_stop i (PStr ?c) (surface_reason (casefold given)) False
     else if pget previous ''verified'' = PBool False then form_stop i (PStr ?c) ''previous_action_verification_failed'' False
     else if ?c = [] then form_stop i PNone ''observation_evidence_missing'' False
     else if pget inventory ''contract_version'' \<noteq> PStr inventory_contract \<or> pget plan ''contract_version'' \<noteq> PStr answer_plan_contract
       then form_stop i (PStr ?c) ''invalid_form_step_contract'' False
     else if form_clean (pget inventory ''capture_id'') \<noteq> ?c \<or> form_clean (pget plan ''capture_id'') \<noteq> ?c
       then form_stop i (PStr ?c) ''stale_form_step_evidence'' False
     else if truthy (pget inventory ''danger_actions'') then form_stop i (PStr ?c) ''final_submit_visible'' True
     else next_form_action i ?c inventory plan completed) = Inr turn"
    unfolding plan_form_workflow_turn_def Let_def rbind_eq_Inr_iff by blast
  have cases: "(\<exists>reason unsafe. form_stop i (PStr ?c) reason unsafe = Inr turn)
      \<or> (?c = [] \<and> form_stop i PNone ''observation_evidence_missing'' False = Inr turn)
      \<or> (casefold given = ''ready'' \<and> pget previous ''verified'' \<noteq> PBool False \<and> ?c \<noteq> []
         \<and> form_clean (pget inventory ''capture_id'') = ?c \<and> form_clean (pget plan ''capture_id'') = ?c
         \<and> \<not> truthy (pget inventory ''danger_actions'') \<and> next_form_action i ?c inventory plan completed = Inr turn)"
    using rest by (auto split: if_split_asm)
  have surface: "form_clean surface = given"
    using given by (simp add: form_required_def Let_def split: if_split_asm)
  consider (stopped) capture where "turn_shape capture ''safe_stop'' turn" "?c \<noteq> [] \<Longrightarrow> capture = PStr ?c"
    | (going) "casefold given = ''ready''" "pget previous ''verified'' \<noteq> PBool False" "?c \<noteq> []"
         "form_clean (pget inventory ''capture_id'') = ?c" "form_clean (pget plan ''capture_id'') = ?c"
         "\<not> truthy (pget inventory ''danger_actions'')" "next_form_action i ?c inventory plan completed = Inr turn"
    using cases by (elim disjE exE conjE) (blast dest: stop_shape)+
  then show ?thesis
  proof cases
    case stopped
    then show ?thesis by (rule that(1))
  next
    case going
    from going(7) show ?thesis
    proof (cases rule: next_action_shape)
      case stop
      then show ?thesis by (rule that(1)) simp
    next
      case review
      then show ?thesis by (rule that(2))
    next
      case (act action)
      have "pget turn ''capture_id'' = PStr ?c" using act(1) unfolding turn_shape_def by blast
      then have "turn_justified surface evidence inventory plan completed previous turn"
        unfolding turn_justified_def surface using going act(3) by blast
      with act(1,2) show ?thesis by (rule that(3))
    qed
  qed
qed

section \<open>Properties\<close>

text \<open>A session that may take a form turn on a capture.\<close>

definition form_session :: "string \<Rightarrow> pyval \<Rightarrow> bool" where
  "form_session capture s = (cs_ok s \<and> pget s ''status'' = PStr ''ready_for_agent_decision''
     \<and> is_dict (pget s ''current_observation_evidence'')
     \<and> pget (pget s ''current_observation_evidence'') ''capture_id'' = PStr capture
     \<and> is_dict (pget s ''current_form_step_context'') \<and> pget (pget s ''current_form_step_context'') ''valid'' = PBool True
     \<and> pget (pget s ''current_form_step_context'') ''capture_id'' = PStr capture)"

lemma turn_action_texts:
  assumes "action \<in> set turn_actions"
  shows "action \<noteq> [] \<and> strip action = action \<and> casefold action = action \<and> action \<notin> set final_actions"
proof -
  have "list_all (\<lambda>a. a \<noteq> [] \<and> strip a = a \<and> casefold a = a \<and> a \<notin> set final_actions) turn_actions" by code_simp
  from this[unfolded list_all_iff] assms show ?thesis by (rule bspec)
qed

definition status_after :: "string \<Rightarrow> string" where
  "status_after action = (if action = ''safe_stop'' then ''safe_stop'' else if action = ''request_user_review'' then ''needs_human_review''
     else ''ready_for_operation'')"

lemma session_valid:
  assumes "cs_ok s" and "pget s ''status'' = PStr ''ready_for_agent_decision''"
  shows "\<exists>u. validated_session s = Inr u \<and> cs_ok u \<and> (\<forall>k. pget u k = pget s k)"
proof -
  have "\<exists>u. validated_session s = Inr u"
    using assms unfolding cs_ok_def by (simp add: validated_session_def)
  then obtain u where u: "validated_session s = Inr u" by blast
  have "ens (\<lambda>u. cs_ok u \<and> (\<forall>k. pget u k = pget s k)) (validated_session s)"
    using assms(1) by (auto intro!: ens_validated_session simp: cs_grows_def)
  with u show ?thesis by (simp add: ens_def)
qed

lemma appended: "cs_ok s \<Longrightarrow> \<exists>s'. append_event s t d = Inr s' \<and> pget s' ''status'' = pget s ''status''"
  by (simp add: append_event_eq)

lemma safe_stop_made: "cs_ok s \<Longrightarrow> \<exists>s'. safe_stop s r f = Inr s' \<and> pget s' ''status'' = PStr ''safe_stop''"
proof -
  assume ok: "cs_ok s"
  define s3 where "s3 = pset ''forbidden_next_actions'' (PList (map PStr f)) (pset ''stop_reason'' (PStr r) (pset ''status'' (PStr ''safe_stop'') s))"
  have s3: "cs_ok s3" "pget s3 ''status'' = PStr ''safe_stop''" "is_dict s3"
    using ok by (simp_all add: s3_def cs_ok_pset)
  then have safety: "is_dict (pget s3 ''safety'')" unfolding cs_ok_def by blast
  then have "phas s3 ''safety''" by (intro phas_of_pget) auto
  then have "safe_stop s r f = append_event (pset ''safety'' (pset ''final_submit_executed'' (PBool False) (pget s3 ''safety'')) s3)
      ''safe_stop'' (PDict [(''reason'', PStr r), (''forbidden_next_actions'', PList (map PStr f)), (''final_submit_executed'', PBool False)])"
    using safety by (simp add: safe_stop_def Let_def item_phas flip: s3_def)
  moreover have "cs_ok (pset ''safety'' (pset ''final_submit_executed'' (PBool False) (pget s3 ''safety'')) s3)"
    by (rule cs_ok_set_unexecuted[OF s3(1)])
  ultimately show ?thesis
    using appended[of "pset ''safety'' (pset ''final_submit_executed'' (PBool False) (pget s3 ''safety'')) s3"] s3(2,3) by simp
qed

lemma turn_recorded:
  assumes s: "form_session capture s" and c: "capture \<noteq> []" "strip capture = capture"
    and turn: "turn_shape (PStr capture) action turn" and known: "action \<in> set turn_actions"
  shows "\<exists>s'. record_form_workflow_turn s turn = Inr s' \<and> pget s' ''status'' = PStr (status_after action)"
proof -
  note texts = turn_action_texts[OF known]
  have ok: "cs_ok s" "is_dict s" using s by (simp_all add: form_session_def)
  obtain u where valid: "validated_session s = Inr u" and u: "cs_ok u" "is_dict u" and same: "pget u k = pget s k" for k
    using session_valid s cs_ok_is_dict unfolding form_session_def by blast
  have shape: "is_dict turn" "pget turn ''contract_version'' = PStr ''form_workflow_turn_decision_v1''"
    "required_text (py_or (pget turn ''action_type'') (pget turn ''semantic_action'')) ''action_type'' = Inr action"
    "required_text (pget turn ''capture_id'') ''capture_id'' = Inr capture"
    using turn texts c by (simp_all add: turn_shape_def turn_contract_def py_or_def required_text_def Let_def)
  have acts: "action \<in> set form_actions \<Longrightarrow> py_eq (pget turn ''operation_count'') (PInt 1) \<and> is_dict (pget turn ''operation'')"
    using turn by (simp add: turn_shape_def)
  have bound: "is_dict (pget s ''current_observation_evidence'')" "pget (pget s ''current_observation_evidence'') ''capture_id'' = PStr capture"
    "is_dict (pget s ''current_form_step_context'')" "pget (pget s ''current_form_step_context'') ''valid'' = PBool True"
    "pget (pget s ''current_form_step_context'') ''capture_id'' = PStr capture" "pget s ''status'' = PStr ''ready_for_agent_decision''"
    using s by (simp_all add: form_session_def)
  consider (stop) "action = ''safe_stop''" | (review) "action = ''request_user_review''" "action \<noteq> ''safe_stop''"
    | (act) "action \<in> set form_actions" "action \<noteq> ''safe_stop''" "action \<noteq> ''request_user_review''"
    using turn_action_cases[OF known] not_form_actions by blast
  then have "\<exists>s'. (if action = ''safe_stop'' then
         safe_stop u (py_str (py_or (pget turn ''reason'') (PStr ''form_workflow_safe_stop''))) [''click'', ''input'', ''continue_next_step'', ''final_submit'']
     else if action = ''request_user_review'' then
       append_event (pset ''pending_agent_decision'' PNone (pset ''status'' (PStr ''needs_human_review'') u))
         ''form_user_review_requested'' (PDict [(''question_id'', pget turn ''question_id''), (''reason'', pget turn ''reason''),
            (''action_executed'', PBool False)])
     else append_event (pset ''status'' (PStr ''ready_for_operation'') (pset ''pending_agent_decision'' turn u))
         ''form_workflow_turn_recorded'' (PDict
           [(''action_type'', PStr action), (''question_id'', pget turn ''question_id''),
            (''capture_id'', PStr capture), (''artifact_is_authorization'', PBool False),
            (''current_capture_required'', PBool True), (''gate_required'', PBool True)])) = Inr s'
     \<and> pget s' ''status'' = PStr (status_after action)"
  proof cases
    case stop
    with safe_stop_made[OF u(1)] show ?thesis by (simp add: status_after_def)
  next
    case review
    have "cs_ok (pset ''pending_agent_decision'' PNone (pset ''status'' (PStr ''needs_human_review'') u))" using u by (simp add: cs_ok_pset)
    from appended[OF this] review u(2) show ?thesis by (simp add: status_after_def)
  next
    case act
    have "cs_ok (pset ''status'' (PStr ''ready_for_operation'') (pset ''pending_agent_decision'' turn u))" using u by (simp add: cs_ok_pset)
    from appended[OF this] act u(2) show ?thesis by (simp add: status_after_def)
  qed
  moreover have "action \<in> set form_actions \<or> action = ''safe_stop'' \<or> action = ''request_user_review''"
    using turn_action_cases[OF known] by blast
  ultimately show ?thesis
    unfolding record_form_workflow_turn_def valid rbind_Inr Let_def same bound shape
    using acts shape(1) bound(1,3) texts by auto
qed

section \<open>A turn\<close>

definition sample_captured :: pyval where
  "sample_captured = PDict [(''capture_id'', PStr ''cap-1'')]"

definition sample_inventory :: pyval where
  "sample_inventory = PDict [(''contract_version'', PStr inventory_contract), (''capture_id'', PStr ''cap-1''),
     (''questions'', PList [PDict [(''question_id'', PStr ''q1''), (''field_type'', PStr ''text'')],
        PDict [(''question_id'', PStr ''q2''), (''field_type'', PStr ''radio'')]])]"

definition sample_answers :: pyval where
  "sample_answers = PDict [(''contract_version'', PStr answer_plan_contract), (''capture_id'', PStr ''cap-1''),
     (''decisions'', PList [PDict [(''question_id'', PStr ''q2''), (''policy'', PStr ''auto_fill''), (''value_reference'', PStr ''e1'')]])]"

definition sample_planned :: "pyval res" where
  "sample_planned = plan_form_workflow_turn (PStr ''form'') (PStr ''ready'') sample_captured sample_inventory sample_answers (PList [PStr ''q1'']) PNone"

definition sample_turn :: pyval where
  "sample_turn = (case sample_planned of Inr turn \<Rightarrow> turn | Inl e \<Rightarrow> PNone)"

lemma case_made: "(case r of Inr x \<Rightarrow> P x | Inl e \<Rightarrow> False) \<Longrightarrow> (\<And>x. r = Inr x \<Longrightarrow> P x \<Longrightarrow> thesis) \<Longrightarrow> thesis"
  by (cases r) auto

lemma sample_turn_made: "sample_planned = Inr sample_turn \<and> pget sample_turn ''operation_count'' = PInt 1"
proof -
  have made: "(case sample_planned of Inr turn \<Rightarrow> pget turn ''operation_count'' = PInt 1 | Inl e \<Rightarrow> False)" by code_simp
  obtain turn where turn: "sample_planned = Inr turn" "pget turn ''operation_count'' = PInt 1"
    using made by (rule case_made)
  then show ?thesis unfolding sample_turn_def turn(1) sum.case by blast
qed

definition sample_form_session :: pyval where
  "sample_form_session = pset ''current_form_step_context'' (PDict [(''capture_id'', PStr ''cap-1''), (''valid'', PBool True)]) demo_observed"

lemma sample_form_session_ok: "form_session ''cap-1'' sample_form_session"
proof -
  have "cs_inv demo_observed"
    by (rule cs.step_inv[OF created_ok(1)[OF demo_created_ok] demo_observe])
  then have "cs_ok demo_observed" unfolding cs_inv_def by blast
  then have "cs_ok sample_form_session" by (simp add: sample_form_session_def cs_ok_pset)
  moreover have "pget sample_form_session ''status'' = PStr ''ready_for_agent_decision''
     \<and> is_dict (pget sample_form_session ''current_observation_evidence'')
     \<and> pget (pget sample_form_session ''current_observation_evidence'') ''capture_id'' = PStr ''cap-1''
     \<and> is_dict (pget sample_form_session ''current_form_step_context'')
     \<and> pget (pget sample_form_session ''current_form_step_context'') ''valid'' = PBool True
     \<and> pget (pget sample_form_session ''current_form_step_context'') ''capture_id'' = PStr ''cap-1''"
    by code_simp
  ultimately show ?thesis unfolding form_session_def by blast
qed

lemma sample_capture: "form_clean (pget sample_captured ''capture_id'') = ''cap-1''"
  by code_simp

section \<open>The properties\<close>

text \<open>C13: A form turn is an operation only when the surface is ready, the action before was not found wrong, nothing on the page
  submits the form, inventory and answers were made on the current capture, and the first question not yet completed has a
  decision whose policy may be filled in -- or every question is completed, for going on to the next step.\<close>

theorem form_operation_is_justified:
  assumes "plan_form_workflow_turn interface surface evidence inventory plan completed previous = Inr turn"
    and "pget turn ''operation_count'' = PInt 1"
  shows "turn_justified surface evidence inventory plan completed previous turn"
  using assms(1)
proof (cases rule: planned_turn)
  case stop
  with assms(2) show ?thesis using turn_shapes(1) by blast
next
  case review
  with assms(2) show ?thesis using turn_shapes(2) by blast
qed

theorem form_operation_is_justified_witness:
  "turn_justified (PStr ''ready'') sample_captured sample_inventory sample_answers (PList [PStr ''q1'']) PNone sample_turn"
  using form_operation_is_justified[of "PStr ''form''" "PStr ''ready''" sample_captured sample_inventory sample_answers "PList [PStr ''q1'']" PNone]
    sample_turn_made by (simp add: sample_planned_def)

text \<open>C14: A well-formed session that awaits the agent's decision, and whose observation and valid form-step context are of the
  non-empty capture the turn was planned on, takes the turn: it raises nothing, and is then ready for the operation only when the turn is justified;
  otherwise it waits for the user or has stopped.\<close>

theorem form_turn_is_recorded:
  assumes "plan_form_workflow_turn interface surface evidence inventory plan completed previous = Inr turn"
    and "form_session (form_clean (pget evidence ''capture_id'')) s" and "form_clean (pget evidence ''capture_id'') \<noteq> []"
  shows "\<exists>s'. record_form_workflow_turn s turn = Inr s'
     \<and> (pget s' ''status'' = PStr ''ready_for_operation'' \<and> turn_justified surface evidence inventory plan completed previous turn
        \<or> pget s' ''status'' = PStr ''needs_human_review'' \<or> pget s' ''status'' = PStr ''safe_stop'')"
  using assms(1)
proof (cases rule: planned_turn)
  case (stop capture)
  then show ?thesis
    using turn_recorded[OF assms(2,3) strip_form_clean, of "''safe_stop''" turn] assms(3) by (auto simp: turn_actions_def status_after_def)
next
  case review
  then show ?thesis
    using turn_recorded[OF assms(2,3) strip_form_clean, of "''request_user_review''" turn] by (auto simp: turn_actions_def status_after_def)
next
  case (act action)
  have "status_after action = ''ready_for_operation''"
    using act(2) not_form_actions by (auto simp: status_after_def)
  then show ?thesis
    using turn_recorded[OF assms(2,3) strip_form_clean act(1) form_actions_known[OF act(2)]] act(3) by auto
qed

theorem form_turn_is_recorded_witness:
  "\<exists>s'. record_form_workflow_turn sample_form_session sample_turn = Inr s'"
  using form_turn_is_recorded[of "PStr ''form''" "PStr ''ready''" sample_captured sample_inventory sample_answers "PList [PStr ''q1'']" PNone
      sample_turn sample_form_session] sample_turn_made sample_form_session_ok
  by (auto simp: sample_planned_def sample_capture)

end
