(* ===== verification/PyRegex.thy ===== *)
theory PyRegex
  imports PyText
begin

text \<open>
  The regular expressions of the form questions, as \<^verbatim>\<open>re\<close> runs them: a matcher that tries the alternatives in
  order, greedy repetitions longest first and lazy ones shortest first. \<open>re_ends r s i\<close> are the re_ends of the matches
  from position \<open>i\<close>, in the order in which they are tried; \<^verbatim>\<open>search\<close> takes the first at the first position that
  has one. \<open>spans\<close> says what a match is without any order, and \<open>re_ends_spans\<close> that the matcher finds exactly those.
\<close>

section \<open>Expressions\<close>

datatype re =
    Str string
  | Edge
  | Start
  | Then re re
  | Either re re
  | Maybe re
  | Chars "char \<Rightarrow> bool" nat "nat option" bool

definition cat :: "re list \<Rightarrow> re" where
  "cat rs = foldr Then (butlast rs) (last rs)"

definition any_of :: "re list \<Rightarrow> re" where
  "any_of rs = foldr Either (butlast rs) (last rs)"

definition either_of :: "string list \<Rightarrow> re" where
  "either_of ts = any_of (map Str ts)"

text \<open>\<^verbatim>\<open>\w\<close> on the code points below 256, and \<^verbatim>\<open>\b\<close>.\<close>

definition is_word :: "char \<Rightarrow> bool" where
  "is_word c = (let n = cp c in is_alnum c \<or> n = 95 \<or> n \<in> {170, 178, 179, 181, 185, 186, 188, 189, 190}
     \<or> 192 \<le> n \<and> n \<noteq> 215 \<and> n \<noteq> 247)"

definition word_at :: "string \<Rightarrow> nat \<Rightarrow> bool" where
  "word_at s i = (i < length s \<and> is_word (s ! i))"

definition at_edge :: "string \<Rightarrow> nat \<Rightarrow> bool" where
  "at_edge s i = ((0 < i \<and> word_at s (i - 1)) \<noteq> word_at s i)"

text \<open>How many characters from \<open>i\<close> on the class takes, at most.\<close>

definition run_length :: "(char \<Rightarrow> bool) \<Rightarrow> nat option \<Rightarrow> string \<Rightarrow> nat \<Rightarrow> nat" where
  "run_length P most s i = (let n = length (takeWhile P (drop i s)) in case most of None \<Rightarrow> n | Some m \<Rightarrow> min n m)"

fun re_ends :: "re \<Rightarrow> string \<Rightarrow> nat \<Rightarrow> nat list" where
  "re_ends (Str t) s i = (if i \<le> length s \<and> take (length t) (drop i s) = t then [i + length t] else [])"
| "re_ends Edge s i = (if i \<le> length s \<and> at_edge s i then [i] else [])"
| "re_ends Start s i = (if i = 0 then [i] else [])"
| "re_ends (Then a b) s i = concat (map (re_ends b s) (re_ends a s i))"
| "re_ends (Either a b) s i = re_ends a s i @ re_ends b s i"
| "re_ends (Maybe a) s i = re_ends a s i @ (if i \<le> length s then [i] else [])"
| "re_ends (Chars P least most lazy) s i = (if i \<le> length s
     then map (\<lambda>k. i + k) ((if lazy then id else rev) [least ..< Suc (run_length P most s i)]) else [])"

section \<open>Searching\<close>

definition match_from :: "re \<Rightarrow> string \<Rightarrow> nat \<Rightarrow> (nat \<times> nat) option" where
  "match_from r s i = (case find (\<lambda>k. re_ends r s k \<noteq> []) [i ..< Suc (length s)] of None \<Rightarrow> None | Some k \<Rightarrow> Some (k, hd (re_ends r s k)))"

definition re_search :: "re \<Rightarrow> string \<Rightarrow> (nat \<times> nat) option" where
  "re_search r s = match_from r s 0"

definition re_found :: "re \<Rightarrow> string \<Rightarrow> bool" where
  "re_found r s = (re_search r s \<noteq> None)"

text \<open>\<^verbatim>\<open>finditer\<close>: the next search starts where the last match ended. No expression here matches the empty text.\<close>

lemma find_found: "find P xs = Some x \<Longrightarrow> x \<in> set xs \<and> P x"
  by (induction xs) (auto split: if_split_asm)

lemma match_from_range: "match_from r s i = Some (a, b) \<Longrightarrow> i \<le> a \<and> a \<le> length s"
proof -
  assume m: "match_from r s i = Some (a, b)"
  show ?thesis
  proof (cases "find (\<lambda>k. re_ends r s k \<noteq> []) [i ..< Suc (length s)]")
    case None
    with m show ?thesis unfolding match_from_def by (simp only: option.case option.distinct)
  next
    case (Some k)
    with m have "a = k" unfolding match_from_def by (simp only: option.case option.inject prod.inject)
    with find_found[OF Some] show ?thesis by auto
  qed
qed

function matches_from :: "re \<Rightarrow> string \<Rightarrow> nat \<Rightarrow> (nat \<times> nat) list" where
  "matches_from r s i = (case match_from r s i of None \<Rightarrow> [] | Some (a, b) \<Rightarrow> (a, b) # matches_from r s (max b (Suc a)))"
  by pat_completeness auto
termination
  by (relation "measure (\<lambda>(r, s, i). Suc (length s) - i)") (auto dest: match_from_range)

declare matches_from.simps [simp del]

definition slice :: "string \<Rightarrow> nat \<times> nat \<Rightarrow> string" where
  "slice s ab = take (snd ab - fst ab) (drop (fst ab) s)"

section \<open>What a match is\<close>

inductive spans :: "re \<Rightarrow> string \<Rightarrow> nat \<Rightarrow> nat \<Rightarrow> bool" where
  Str: "i + length t \<le> length s \<Longrightarrow> \<forall>k < length t. s ! (i + k) = t ! k \<Longrightarrow> spans (Str t) s i (i + length t)"
| Edge: "i \<le> length s \<Longrightarrow> at_edge s i \<Longrightarrow> spans Edge s i i"
| Start: "spans Start s 0 0"
| Then: "spans a s i j \<Longrightarrow> spans b s j k \<Longrightarrow> spans (Then a b) s i k"
| Left: "spans a s i j \<Longrightarrow> spans (Either a b) s i j"
| Right: "spans b s i j \<Longrightarrow> spans (Either a b) s i j"
| Taken: "spans a s i j \<Longrightarrow> spans (Maybe a) s i j"
| Skipped: "i \<le> length s \<Longrightarrow> spans (Maybe a) s i i"
| Chars: "i + n \<le> length s \<Longrightarrow> least \<le> n \<Longrightarrow> (case most of None \<Rightarrow> True | Some m \<Rightarrow> n \<le> m) \<Longrightarrow> \<forall>k < n. P (s ! (i + k)) \<Longrightarrow>
    spans (Chars P least most lazy) s i (i + n)"

inductive_cases span_cases: "spans (Str t) s i j" "spans Edge s i j" "spans Start s i j" "spans (Then a b) s i j" "spans (Either a b) s i j"
  "spans (Maybe a) s i j" "spans (Chars P least most lazy) s i j"

lemma prefix_nth: "i \<le> length s \<Longrightarrow> take (length t) (drop i s) = t \<longleftrightarrow> i + length t \<le> length s \<and> (\<forall>k < length t. s ! (i + k) = t ! k)"
  by (auto simp: list_eq_iff_nth_eq)

lemma run_length_le: "n \<le> length (takeWhile P xs) \<longleftrightarrow> n \<le> length xs \<and> (\<forall>k < n. P (xs ! k))"
proof (induction xs arbitrary: n)
  case (Cons x xs)
  show ?case
  proof (cases n)
    case (Suc m)
    have "(\<forall>k < Suc m. P ((x # xs) ! k)) \<longleftrightarrow> P x \<and> (\<forall>k < m. P (xs ! k))"
      by (auto simp: less_Suc_eq_0_disj)
    with Cons.IH[of m] Suc show ?thesis by auto
  qed simp
qed auto

lemma run_length_iff: "i \<le> length s \<Longrightarrow> n \<le> run_length P most s i \<longleftrightarrow>
    i + n \<le> length s \<and> (\<forall>k < n. P (s ! (i + k))) \<and> (case most of None \<Rightarrow> True | Some m \<Rightarrow> n \<le> m)"
  by (auto simp: run_length_def Let_def run_length_le split: option.split)

text \<open>The matcher finds exactly the matches.\<close>

lemma re_ends_spans: "j \<in> set (re_ends r s i) \<longleftrightarrow> spans r s i j"
proof (induction r arbitrary: i j)
  case (Str t)
  show ?case by (auto simp: prefix_nth intro: spans.intros elim!: span_cases)
next
  case (Chars P least most lazy)
  show ?case
  proof
    assume "j \<in> set (re_ends (Chars P least most lazy) s i)"
    then obtain n where "i \<le> length s" "j = i + n" "least \<le> n" "n \<le> run_length P most s i"
      by (auto split: if_split_asm)
    then show "spans (Chars P least most lazy) s i j" by (auto simp: run_length_iff intro: spans.intros)
  next
    assume "spans (Chars P least most lazy) s i j"
    then show "j \<in> set (re_ends (Chars P least most lazy) s i)"
    proof (cases rule: spans.cases)
      case (Chars n)
      then have "i \<le> length s" "n \<le> run_length P most s i" by (simp_all add: run_length_iff)
      moreover have "n \<in> {least ..< Suc (run_length P most s i)}" using Chars calculation by simp
      ultimately show ?thesis using Chars(1) by (auto simp: less_le)
    qed
  qed
qed (auto intro: spans.intros elim!: span_cases)

lemma re_found_iff: "re_found r s \<longleftrightarrow> (\<exists>i j. spans r s i j \<and> i \<le> length s)"
proof -
  have "re_found r s \<longleftrightarrow> (\<exists>i \<le> length s. re_ends r s i \<noteq> [])"
  proof (cases "find (\<lambda>k. re_ends r s k \<noteq> []) [0 ..< Suc (length s)]")
    case None
    have none: "re_ends r s i = []" if "i \<le> length s" for i
    proof -
      have "i \<in> set [0 ..< Suc (length s)]" using that by auto
      with None show ?thesis unfolding find_None_iff by blast
    qed
    have "\<not> re_found r s" unfolding re_found_def re_search_def match_from_def None by simp
    with none show ?thesis by blast
  next
    case (Some k)
    have "re_found r s" unfolding re_found_def re_search_def match_from_def Some by simp
    moreover have "k \<le> length s \<and> re_ends r s k \<noteq> []" using find_found[OF Some] by auto
    ultimately show ?thesis by blast
  qed
  moreover have "re_ends r s i \<noteq> [] \<longleftrightarrow> (\<exists>j. spans r s i j)" for i
    using re_ends_spans[of _ r s i] by (cases "re_ends r s i") auto
  ultimately show ?thesis by blast
qed

end
