(* ===== verification/FormAnswers.thy ===== *)
theory FormAnswers
  imports FormWorkflow PyRegex PyJson
begin

text \<open>
  The answers of a form: \<^verbatim>\<open>app/agent/form_question_contracts.py\<close>, \<^verbatim>\<open>form_question_understanding.py\<close> and
  \<^verbatim>\<open>form_answer_planner.py\<close>. A question is put into one form, its intent is read from its label with regular
  expressions, and \<open>classify_answer\<close> says whether it may be filled in, and with which reviewed evidence.
\<close>

section \<open>The question\<close>

definition py_or4 :: "pyval \<Rightarrow> pyval \<Rightarrow> pyval \<Rightarrow> pyval \<Rightarrow> pyval" where
  "py_or4 a b c d = py_or a (py_or b (py_or c d))"

definition option_contract :: "pyval \<Rightarrow> pyval" where
  "option_contract v = PDict
     [(''option_id'', PStr (form_clean (py_or (pget v ''option_id'') (py_or (pget v ''control_id'') (pget v ''id''))))),
      (''label'', PStr (form_clean (py_or (pget v ''label'') (pget v ''text'')))), (''disabled'', PBool (truthy (pget v ''disabled'')))]"

definition or_text :: "string \<Rightarrow> string \<Rightarrow> string" where
  "or_text s t = (if s = [] then t else s)"

definition question_capture :: "pyval \<Rightarrow> pyval" where
  "question_capture v = (if is_dict (pget v ''evidence'') then py_or (pget v ''capture_id'') (pget (pget v ''evidence'') ''capture_id'')
     else pget v ''capture_id'')"

definition question_type :: "pyval \<Rightarrow> string" where
  "question_type v = casefold (form_clean (if truthy (pget v ''action_type'') then PStr ''action''
     else py_or (pget v ''field_type'') (py_or (pget v ''type'') (pget v ''role''))))"

definition build_question_contract :: "pyval \<Rightarrow> pyval res" where
  "build_question_contract v =
     rbind (py_iter (py_or (pget v ''options'') (PList []))) (\<lambda>options.
     Inr (PDict
       [(''contract_version'', PStr ''form_question_contract_v1''),
        (''question_id'', PStr (form_clean (py_or4 (pget v ''question_id'') (pget v ''field_id'') (pget v ''action_id'') (pget v ''id'')))),
        (''label'', PStr (form_clean (py_or (pget v ''label'') (py_or (pget v ''text'') (pget v ''question_text''))))),
        (''field_type'', PStr (or_text (question_type v) ''unknown'')), (''required'', PBool (truthy (pget v ''required''))),
        (''disabled'', PBool (truthy (pget v ''disabled''))),
        (''risk'', PStr (or_text (form_clean (py_or (pget v ''risk'') (pget v ''risk_class''))) ''ordinary_field'')),
        (''options'', PList (map option_contract (filter is_dict options))),
        (''source_capture_id'', clean_or_none (form_clean (question_capture v)))]))"

lemma question_contract_simps:
  assumes "build_question_contract v = Inr c"
  shows "is_dict c"
    "pget c ''question_id'' = PStr (form_clean (py_or4 (pget v ''question_id'') (pget v ''field_id'') (pget v ''action_id'') (pget v ''id'')))"
    "pget c ''label'' = PStr (form_clean (py_or (pget v ''label'') (py_or (pget v ''text'') (pget v ''question_text''))))"
    "pget c ''field_type'' = PStr (or_text (question_type v) ''unknown'')"
  using assms by (auto simp: build_question_contract_def rbind_eq_Inr_iff dict_get_def)

section \<open>Patterns\<close>

definition spaces :: re where
  "spaces = Chars is_space 1 None False"

definition up_to :: "nat \<Rightarrow> string \<Rightarrow> bool \<Rightarrow> re" where
  "up_to n stops lazy = Chars (\<lambda>c. c \<notin> set stops) 0 (Some n) lazy"

text \<open>A word between boundaries, and one of some words.\<close>

definition word :: "string \<Rightarrow> re" where
  "word t = cat [Edge, Str t, Edge]"

definition word_of :: "string list \<Rightarrow> re" where
  "word_of ts = cat [Edge, either_of ts, Edge]"

definition maybe_s :: "string \<Rightarrow> re" where
  "maybe_s t = cat [Edge, Str t, Maybe (Str ''s''), Edge]"

definition work_auth_positive :: "(string \<times> re) list" where
  "work_auth_positive =
     [(''right_to_work'', cat [Edge, Str ''right'', Maybe (Str ''s''), Str '' to work'', Edge]),
      (''authorized_to_work'', cat [Edge, Maybe (Str ''legally ''),
         any_of [cat [Str ''authori'', either_of [''s'', ''z''], Str ''ed''], Str ''eligible'', Str ''entitled''], Str '' to work'', Edge]),
      (''work_without_sponsorship'', cat [Edge, Maybe (either_of [''can'', ''able to'', ''eligible to'']), Chars is_space 0 None False, Str ''work'', Edge,
         up_to 80 ''?'' False, word ''without'', up_to 40 ''?'' False, word ''sponsorship''])]"

definition not_require :: re where
  "not_require = cat [Str ''not'', spaces, Maybe (any_of [Then (Str ''currently'') spaces, Then (Str ''now'') spaces]),
     either_of [''require'', ''need''], Edge, up_to 60 ''?'' True, word ''sponsorship'']"

definition work_auth_negated_requirement :: "(string \<times> re) list" where
  "work_auth_negated_requirement =
     [(''negated_sponsorship_question'', cat [Edge, either_of [''do'', ''does'', ''will'', ''would''], spaces,
         either_of [''i'', ''you'', ''they'', ''the applicant''], spaces, not_require]),
      (''negated_sponsorship_statement'', cat [Edge, either_of [''i'', ''we'', ''the applicant''], Edge, up_to 30 ''.?'' False,
         Edge, either_of [''do'', ''does'', ''will'', ''would''], spaces, not_require])]"

definition work_auth_negative :: "(string \<times> re) list" where
  "work_auth_negative =
     [(''requires_sponsorship'', cat [word_of [''require'', ''requires'', ''required'', ''requiring'', ''need'', ''needs'', ''needed''],
         up_to 60 ''?'' True, word ''sponsorship'']),
      (''sponsorship_required'', cat [word ''sponsorship'', up_to 40 ''?'' False, word_of [''required'', ''needed'']]),
      (''unable_without_sponsorship'', cat [word ''unable to work'', up_to 60 ''?'' False, word ''without'', up_to 40 ''?'' False, word ''sponsorship''])]"

definition ethnic :: re where
  "ethnic = cat [Edge, Str ''ethnic'', either_of [''ity'', '' background''], Edge]"

definition gender :: re where
  "gender = cat [Edge, Str ''gender'', Maybe (Str '' identity''), Edge]"

definition disability :: re where
  "disability = cat [Edge, Str ''disabilit'', either_of [''y'', ''ies''], Edge]"

definition criminal :: re where
  "criminal = cat [Edge, Str ''criminal '', either_of [''history'', ''record''], Edge]"

definition intent_patterns :: "(string \<times> string \<times> string \<times> rat \<times> re list) list" where
  "intent_patterns =
     [(''criminal_history'', ''sensitive'', ''blocked_sensitive'', 98/100, [criminal, maybe_s ''conviction'', maybe_s ''criminal offence'']),
      (''health_information'', ''sensitive'', ''blocked_sensitive'', 98/100, [word ''health'', maybe_s ''medical condition'', word ''medical history'']),
      (''demographic_identity'', ''sensitive'', ''blocked_sensitive'', 98/100, [ethnic, word ''race'', gender, word ''sex assigned'']),
      (''disability_information'', ''sensitive'', ''blocked_sensitive'', 98/100, [disability]),
      (''salary_expectation'', ''negotiable'', ''needs_user_review'', 96/100,
         [word ''salary'', word ''compensation'', word ''remuneration'', maybe_s ''pay expectation'']),
      (''relocation_willingness'', ''consequential'', ''needs_user_review'', 95/100,
         [cat [Edge, Str ''relocat'', either_of [''e'', ''ion'', ''ing''], Edge]])]"

definition visa_patterns :: "re list" where
  "visa_patterns =
     [cat [Edge, Str ''visa'', Maybe (any_of [Str '' status'', Str '' type'', Then (Str '' condition'') (Maybe (Str ''s'')),
         Then (Str '' requirement'') (Maybe (Str ''s''))]), Edge],
      word ''work permit'', maybe_s ''sponsorship requirement'']"

definition open_prompt :: re where
  "open_prompt = cat [Start, either_of [''tell'', ''describe'', ''explain'', ''why'', ''what'', ''how'', ''please describe''], Edge]"

definition profile_patterns :: "re list" where
  "profile_patterns =
     [cat [Edge, either_of [''first'', ''given'', ''preferred'', ''last'', ''family''], Str '' name'', Edge], word ''surname'',
      cat [Edge, Str ''email'', Maybe (Str '' address''), Edge],
      cat [Edge, either_of [''phone'', ''mobile''], Maybe (Str '' number''), Edge]]"

section \<open>What the question asks\<close>

definition evidence_item :: "string \<Rightarrow> string \<Rightarrow> (string \<times> pyval) list \<Rightarrow> pyval" where
  "evidence_item name matched more = PDict ([(''evidence_type'', PStr ''matched_pattern''), (''pattern_id'', PStr name),
     (''matched_text'', PStr matched)] @ more)"

type_synonym spotted = "string \<times> nat \<times> nat"

definition pattern_evidence :: "string \<Rightarrow> (string \<times> re) list \<Rightarrow> spotted list" where
  "pattern_evidence label patterns = concat (map (\<lambda>(name, r). map (\<lambda>(a, b). (name, a, b)) (matches_from r label 0)) patterns)"

definition without_overlapping :: "spotted list \<Rightarrow> spotted list \<Rightarrow> spotted list" where
  "without_overlapping evidence exclusions =
     filter (\<lambda>(_, a, b). \<not> list_ex (\<lambda>(_, c, d). a < d \<and> c < b) exclusions) evidence"

definition spotted_item :: "string \<Rightarrow> spotted \<Rightarrow> pyval" where
  "spotted_item label e = (case e of (name, a, b) \<Rightarrow>
     evidence_item name (slice label (a, b)) [(''match_span'', PList [PInt (int a), PInt (int b)])])"

definition compiled_evidence :: "string \<Rightarrow> string \<Rightarrow> re list \<Rightarrow> pyval list" where
  "compiled_evidence label name rs = List.map_filter (\<lambda>r. case re_search r label of None \<Rightarrow> None
     | Some ab \<Rightarrow> Some (evidence_item name (slice label ab) [])) rs"

definition open_types :: "string list" where
  "open_types = [''textarea'', ''multiline'', ''long_text'']"

definition answer_shape :: "pyval \<Rightarrow> string" where
  "answer_shape contract =
     (let options = plist (pget contract ''options''); labels = map (\<lambda>v. casefold (form_clean (pget v ''label''))) options;
          field_type = casefold (form_clean (pget contract ''field_type'')) in
      if ''yes'' \<in> set labels \<and> ''no'' \<in> set labels then ''boolean''
      else if field_type \<in> set open_types then ''open_text''
      else if options \<noteq> [] then ''choice''
      else if field_type \<in> {''text'', ''email'', ''phone'', ''url''} then ''text'' else ''unknown'')"

definition intent_result ::
    "pyval \<Rightarrow> string \<Rightarrow> string \<Rightarrow> string \<Rightarrow> rat \<Rightarrow> string \<Rightarrow> pyval list \<Rightarrow> string list \<Rightarrow> pyval" where
  "intent_result contract intent polarity risk confidence policy evidence blockers = PDict
     [(''contract_version'', PStr ''normalized_question_intent_v1''), (''source_contract'', pget contract ''contract_version''),
      (''question_id'', pget contract ''question_id''), (''intent'', PStr intent), (''polarity'', PStr polarity), (''risk'', PStr risk),
      (''confidence'', PFloat (Fin (near64 confidence))), (''answer_shape'', PStr (answer_shape contract)),
      (''recommended_policy'', PStr policy), (''evidence'', PList evidence), (''blockers'', PList (map PStr blockers)),
      (''artifact_is_authorization'', PBool False)]"

definition work_auth_result :: "pyval \<Rightarrow> string \<Rightarrow> spotted list \<Rightarrow> spotted list \<Rightarrow> pyval" where
  "work_auth_result contract label positive negative =
     (if positive \<noteq> [] \<and> negative \<noteq> [] then
        intent_result contract ''authorized_to_work_without_sponsorship'' ''ambiguous'' ''controlled_review'' 0 ''needs_user_review''
          (map (spotted_item label) (positive @ negative)) [''conflicting_polarity_evidence'']
      else intent_result contract ''authorized_to_work_without_sponsorship''
          (if positive \<noteq> [] then ''affirmative_means_intent_true'' else ''affirmative_means_intent_false'') ''controlled_review''
          (96/100) ''needs_user_review'' (map (spotted_item label) (if positive \<noteq> [] then positive else negative)) [''reviewed_answer_required''])"

definition first_intent :: "string \<Rightarrow> (string \<times> string \<times> string \<times> rat \<times> re list) option" where
  "first_intent label = find (\<lambda>(intent, risk, policy, confidence, rs). list_ex (\<lambda>r. re_found r label) rs) intent_patterns"

definition other_intent :: "pyval \<Rightarrow> string \<Rightarrow> pyval" where
  "other_intent contract label =
     (case first_intent label of
        Some (intent, risk, policy, confidence, rs) \<Rightarrow> intent_result contract intent ''neutral'' risk confidence policy (compiled_evidence label intent rs)
          [if policy = ''blocked_sensitive'' then ''sensitive_question_requires_human_control'' else ''reviewed_answer_required'']
      | None \<Rightarrow>
        let visa = compiled_evidence label ''visa_status'' visa_patterns; profile = compiled_evidence label ''profile_field'' profile_patterns in
        if visa \<noteq> [] then intent_result contract ''visa_status'' ''neutral'' ''complex'' (82/100) ''needs_user_review'' visa [''reviewed_answer_required'']
        else if profile \<noteq> [] then
          intent_result contract ''reviewed_profile_field'' ''neutral'' ''ordinary'' (90/100) ''policy_lookup_allowed'' profile []
        else intent_result contract
          (if casefold (form_clean (pget contract ''field_type'')) \<in> set open_types \<or> re_found open_prompt label
           then ''unknown_open_text'' else ''unknown_question'')
          ''unknown'' ''unknown'' (20/100) ''needs_user_review'' [] [''unrecognized_question_intent''])"

definition normalize_question_intent :: "pyval \<Rightarrow> pyval res" where
  "normalize_question_intent question =
     rbind (build_question_contract question) (\<lambda>contract.
     let label = casefold (form_clean (pget contract ''label''));
         negated = pattern_evidence label work_auth_negated_requirement;
         positive = pattern_evidence label work_auth_positive @ negated;
         negative = without_overlapping (pattern_evidence label work_auth_negative) negated in
     Inr (if positive \<noteq> [] \<or> negative \<noteq> [] then work_auth_result contract label positive negative
          else other_intent contract label))"

section \<open>The answer\<close>

definition sensitive_patterns :: "re list" where
  "sensitive_patterns = [ethnic, word ''race'', gender, word ''sex assigned'', disability, word ''health'', word ''medical condition'',
     criminal, word ''conviction'']"

definition negotiable_patterns :: "re list" where
  "negotiable_patterns = [word ''salary'', word ''compensation'', word ''remuneration'',
     cat [Edge, Str ''relocat'', either_of [''e'', ''ion''], Edge], word ''visa'', word ''sponsorship'', word ''right to work'',
     cat [Edge, Str ''work right'', Maybe (Str ''s''), Edge]]"

definition final_labels :: "string list" where
  "final_labels = [''submit'', ''submit application'', ''send'', ''send application'', ''complete'', ''complete application'', ''confirm'',
     ''confirm application'', ''review and submit'']"

definition matches_any :: "string \<Rightarrow> re list \<Rightarrow> bool" where
  "matches_any t rs = list_ex (\<lambda>r. re_found r t) rs"

definition derived_evidence :: "string \<Rightarrow> pyval list \<Rightarrow> pyval option" where
  "derived_evidence question evidence = find (\<lambda>v. pget v ''reviewed'' = PBool True
     \<and> casefold (form_clean (pget v ''kind'')) = ''derived_answer'' \<and> form_clean (pget v ''question_id'') = question
     \<and> form_clean (pget v ''evidence_id'') \<noteq> [] \<and> form_clean (pget v ''value'') \<noteq> []) evidence"

definition file_evidence :: "string \<Rightarrow> pyval list \<Rightarrow> pyval option" where
  "file_evidence question evidence = find (\<lambda>v. pget v ''contract_version'' = PStr ''reviewed_file_evidence_v1''
     \<and> casefold (form_clean (pget v ''kind'')) = ''reviewed_file'' \<and> pget v ''reviewed'' = PBool True
     \<and> pget v ''human_approved'' = PBool True \<and> pget v ''single_use'' = PBool True
     \<and> form_clean (pget v ''question_id'') = question \<and> form_clean (pget v ''evidence_id'') \<noteq> []) evidence"

definition profile_evidence :: "string \<Rightarrow> pyval list \<Rightarrow> pyval option" where
  "profile_evidence key evidence = find (\<lambda>v. pget v ''reviewed'' = PBool True
     \<and> casefold (form_clean (pget v ''field_key'')) = key
     \<and> form_clean (pget v ''evidence_id'') \<noteq> [] \<and> form_clean (pget v ''value'') \<noteq> []) evidence"

definition profile_key :: "string \<Rightarrow> string \<Rightarrow> string option" where
  "profile_key label field_type =
     (if occurs ''preferred name'' label then Some ''preferred_name''
      else if occurs ''first name'' label \<or> occurs ''given name'' label then Some ''first_name''
      else if occurs ''last name'' label \<or> occurs ''family name'' label \<or> occurs ''surname'' label then Some ''last_name''
      else if field_type = ''email'' \<or> occurs ''email'' label then Some ''email''
      else if field_type = ''phone'' \<or> occurs ''phone'' label \<or> occurs ''mobile'' label then Some ''phone''
      else None)"

definition lookup_answer :: "string \<Rightarrow> string \<Rightarrow> string \<Rightarrow> string \<Rightarrow> pyval list \<Rightarrow> string \<times> string \<times> pyval option" where
  "lookup_answer question label field_type policy evidence =
     (case derived_evidence question evidence of
        Some v \<Rightarrow> (''derived_with_evidence'', ''reviewed_question_specific_answer'', Some v)
      | None \<Rightarrow> if policy = ''needs_user_review'' then (''needs_user_review'', ''unknown_or_unmapped_question'', None)
          else case Option.bind (profile_key label field_type) (\<lambda>key. profile_evidence key evidence) of
            Some v \<Rightarrow> (''auto_fill'', ''reviewed_profile_evidence_available'', Some v)
          | None \<Rightarrow> (''needs_user_review'', ''unknown_or_unmapped_question'', None))"

definition classify_answer :: "pyval \<Rightarrow> pyval list \<Rightarrow> pyval \<Rightarrow> string \<times> string \<times> pyval option" where
  "classify_answer contract evidence understanding =
     (let label = casefold (form_clean (pget contract ''label'')); risk = casefold (form_clean (pget contract ''risk''));
          field_type = casefold (form_clean (pget contract ''field_type'')); question = form_clean (pget contract ''question_id'');
          policy = casefold (form_clean (pget understanding ''recommended_policy'')); intent = casefold (form_clean (pget understanding ''intent'')) in
      if risk = ''final_submit'' \<or> label \<in> set final_labels then (''final_submit'', ''final_submit_is_not_answerable'', None)
      else if risk = ''unsupported_file_upload'' \<or> field_type = ''file_upload'' then
        (case file_evidence question evidence of
           Some v \<Rightarrow> (''reviewed_file_upload'', ''human_reviewed_single_use_file_available'', Some v)
         | None \<Rightarrow> (''unsupported'', ''file_upload_requires_user_review'', None))
      else if policy = ''blocked_sensitive'' then (''blocked_sensitive'', ''sensitive_question_requires_human_control'', None)
      else if policy = ''needs_user_review'' \<and> intent \<notin> {''unknown_open_text'', ''unknown_question''}
        then (''needs_user_review'', ''normalized_question_requires_review'', None)
      else if matches_any label sensitive_patterns then (''blocked_sensitive'', ''sensitive_question_requires_human_control'', None)
      else if matches_any label negotiable_patterns then (''needs_user_review'', ''negotiable_or_complex_question'', None)
      else if pget contract ''disabled'' = PBool True then (''needs_user_review'', ''field_disabled'', None)
      else lookup_answer question label field_type policy evidence)"

definition redacted_preview :: "string \<Rightarrow> string \<Rightarrow> string" where
  "redacted_preview val field_type = ''<redacted:'' @ (if field_type \<in> {''email'', ''phone''} then field_type else ''profile_value'')
     @ '':len='' @ nat_text (length val) @ ''>''"

definition answer_decision :: "pyval \<Rightarrow> pyval \<Rightarrow> string \<times> string \<times> pyval option \<Rightarrow> pyval" where
  "answer_decision contract understanding verdict = (case verdict of (policy, reason, selected) \<Rightarrow>
     let answer = (case selected of None \<Rightarrow> [] | Some v \<Rightarrow> form_clean (pget v ''value''));
         evidence_id = (case selected of None \<Rightarrow> [] | Some v \<Rightarrow> form_clean (pget v ''evidence_id'')) in
     PDict [(''contract_version'', PStr ''form_answer_decision_v1''), (''question_id'', pget contract ''question_id''),
       (''label'', pget contract ''label''), (''field_type'', pget contract ''field_type''), (''question_understanding'', understanding),
       (''policy'', PStr policy), (''reason'', PStr reason), (''evidence_refs'', PList (if evidence_id = [] then [] else [PStr evidence_id])),
       (''value_reference'', clean_or_none evidence_id), (''proposed_value'', PNone),
       (''value_preview'', if answer = [] then PNone else PStr (redacted_preview answer (text_or_empty (pget contract ''field_type'')))),
       (''value_length'', PInt (int (length answer))),
       (''value_hash'', if answer = [] then PNone else PStr (sha256_hex (utf8 answer))),
       (''pii_redacted'', PBool True), (''artifact_is_authorization'', PBool False)])"

definition plan_form_answer :: "pyval list \<Rightarrow> pyval \<Rightarrow> pyval res" where
  "plan_form_answer evidence question =
     rbind (build_question_contract question) (\<lambda>contract.
     rbind (normalize_question_intent contract) (\<lambda>understanding.
     Inr (answer_decision contract understanding (classify_answer contract (filter is_dict evidence) understanding))))"

section \<open>The plan\<close>

definition add_item :: "(pyval \<Rightarrow> string) \<Rightarrow> pyval \<Rightarrow> string list \<times> pyval list \<Rightarrow> string list \<times> pyval list" where
  "add_item name v st = (case st of (seen, ordered) \<Rightarrow>
     if \<not> is_dict v \<or> (name v \<noteq> [] \<and> name v \<in> set seen) then (seen, ordered)
     else (if name v = [] then seen else name v # seen, ordered @ [v]))"

definition action_name :: "pyval \<Rightarrow> string" where
  "action_name v = form_clean (py_or (pget v ''action_id'') (pget v ''id''))"

definition inventory_items :: "pyval \<Rightarrow> pyval list res" where
  "inventory_items inventory =
     rbind (py_iter (py_or (pget inventory ''questions'') (PList []))) (\<lambda>questions.
     rbind (py_iter (py_or (pget inventory ''fields'') (PList []))) (\<lambda>fields.
     rbind (py_iter (py_or (pget inventory ''danger_actions'') (PList []))) (\<lambda>actions.
     Inr (snd (fold (add_item action_name) actions (fold (add_item form_question_id) (questions @ fields) ([], [])))))))"

definition count_policies :: "pyval list \<Rightarrow> pydict" where
  "count_policies decisions = fold (\<lambda>d counts. let policy = py_str (pget d ''policy'') in
     dput policy (PInt ((case dict_get counts policy of PInt n \<Rightarrow> n | _ \<Rightarrow> 0) + 1)) counts) decisions []"

definition build_form_answer_plan :: "pyval \<Rightarrow> pyval \<Rightarrow> pyval res" where
  "build_form_answer_plan inventory evidence =
     rbind (inventory_items inventory) (\<lambda>questions.
     rbind (map_res (\<lambda>q. rbind (py_iter (py_or evidence (PList []))) (\<lambda>given. plan_form_answer given q)) questions) (\<lambda>decisions.
     Inr (PDict [(''contract_version'', PStr answer_plan_contract), (''source_contract'', pget inventory ''contract_version''),
       (''capture_id'', pget inventory ''capture_id''), (''decisions'', PList decisions), (''policy_counts'', PDict (count_policies decisions)),
       (''pii_redacted'', PBool True), (''fill_attempted'', PBool False), (''submit_attempted'', PBool False),
       (''artifact_is_authorization'', PBool False)])))"

section \<open>Which answers are filled in\<close>

text \<open>The evidence that supports filling in an answer under a policy: a derived answer to this very question, the field of the
  profile its label asks for, or a file a person approved for a single use on this question.\<close>

definition supports :: "string \<Rightarrow> string \<Rightarrow> string \<Rightarrow> string \<Rightarrow> pyval \<Rightarrow> bool" where
  "supports policy question label field_type v = (is_dict v \<and> pget v ''reviewed'' = PBool True \<and> form_clean (pget v ''evidence_id'') \<noteq> []
     \<and> (if policy = ''derived_with_evidence'' then casefold (form_clean (pget v ''kind'')) = ''derived_answer''
           \<and> form_clean (pget v ''question_id'') = question \<and> form_clean (pget v ''value'') \<noteq> []
        else if policy = ''auto_fill'' then profile_key label field_type = Some (casefold (form_clean (pget v ''field_key'')))
           \<and> form_clean (pget v ''value'') \<noteq> []
        else policy = ''reviewed_file_upload'' \<and> pget v ''contract_version'' = PStr ''reviewed_file_evidence_v1''
           \<and> pget v ''human_approved'' = PBool True \<and> pget v ''single_use'' = PBool True
           \<and> form_clean (pget v ''question_id'') = question))"

text \<open>What a label that may be filled in says: nothing final, and nothing sensitive or negotiable unless a reviewed file answers it.\<close>

definition answerable :: "string \<Rightarrow> string \<Rightarrow> bool" where
  "answerable policy label = (label \<notin> set final_labels
     \<and> (policy = ''reviewed_file_upload'' \<or> \<not> matches_any label sensitive_patterns \<and> \<not> matches_any label negotiable_patterns))"

lemma policies_apart:
  "''final_submit'' \<notin> set auto_fill_policies" "''unsupported'' \<notin> set auto_fill_policies" "''blocked_sensitive'' \<notin> set auto_fill_policies"
  "''needs_user_review'' \<notin> set auto_fill_policies"
  by code_simp+

lemma evidence_found:
  "derived_evidence q evidence = Some v \<Longrightarrow> v \<in> set evidence \<and> pget v ''reviewed'' = PBool True \<and> form_clean (pget v ''evidence_id'') \<noteq> []
     \<and> form_clean (pget v ''question_id'') = q \<and> casefold (form_clean (pget v ''kind'')) = ''derived_answer''
     \<and> form_clean (pget v ''value'') \<noteq> []"
  "file_evidence q evidence = Some v \<Longrightarrow> v \<in> set evidence \<and> pget v ''reviewed'' = PBool True \<and> form_clean (pget v ''evidence_id'') \<noteq> []
     \<and> form_clean (pget v ''question_id'') = q \<and> pget v ''human_approved'' = PBool True \<and> pget v ''single_use'' = PBool True
     \<and> pget v ''contract_version'' = PStr ''reviewed_file_evidence_v1''"
  "profile_evidence k evidence = Some v \<Longrightarrow> v \<in> set evidence \<and> pget v ''reviewed'' = PBool True \<and> form_clean (pget v ''evidence_id'') \<noteq> []
     \<and> casefold (form_clean (pget v ''field_key'')) = k \<and> form_clean (pget v ''value'') \<noteq> []"
  unfolding derived_evidence_def file_evidence_def profile_evidence_def by (drule find_found, blast)+

lemma looked_up:
  assumes "lookup_answer q label field_type normalized evidence = (policy, reason, selected)" and "policy \<in> set auto_fill_policies"
    and "list_all is_dict evidence"
  obtains v where "selected = Some v" "v \<in> set evidence" "supports policy q label field_type v"
proof (cases "derived_evidence q evidence")
  case (Some v)
  with assms(1) have "policy = ''derived_with_evidence''" "selected = Some v" by (simp_all add: lookup_answer_def)
  then show ?thesis using evidence_found(1)[OF Some] assms(3) that by (simp add: supports_def list_all_iff)
next
  case none: None
  show ?thesis
  proof (cases "Option.bind (profile_key label field_type) (\<lambda>key. profile_evidence key evidence)")
    case None
    with assms(1) none have "policy = ''needs_user_review''" by (simp add: lookup_answer_def split: if_split_asm)
    with assms(2) policies_apart(4) show ?thesis by simp
  next
    case (Some v)
    then obtain key where key: "profile_evidence key evidence = Some v" "profile_key label field_type = Some key"
      by (auto simp: bind_eq_Some_conv)
    have "policy = ''auto_fill'' \<and> selected = Some v"
      using assms(1,2) none Some policies_apart(4) by (auto simp: lookup_answer_def split: if_split_asm)
    then show ?thesis using evidence_found(3)[OF key(1)] key(2) assms(3) that by (simp add: supports_def list_all_iff)
  qed
qed

lemma classified:
  assumes "classify_answer contract evidence understanding = (policy, reason, selected)" and "policy \<in> set auto_fill_policies"
    and "list_all is_dict evidence"
  obtains v where "selected = Some v" "v \<in> set evidence"
    "supports policy (form_clean (pget contract ''question_id'')) (casefold (form_clean (pget contract ''label'')))
       (casefold (form_clean (pget contract ''field_type''))) v"
    "answerable policy (casefold (form_clean (pget contract ''label'')))"
proof -
  let ?label = "casefold (form_clean (pget contract ''label''))" and ?question = "form_clean (pget contract ''question_id'')"
    and ?type = "casefold (form_clean (pget contract ''field_type''))"
  have not_final: "?label \<notin> set final_labels"
    using assms(1,2) policies_apart(1) by (auto simp: classify_answer_def Let_def)
  consider (upload) v where "file_evidence ?question evidence = Some v" "policy = ''reviewed_file_upload''" "selected = Some v"
    | (looked) "lookup_answer ?question ?label ?type
         (casefold (form_clean (pget understanding ''recommended_policy''))) evidence = (policy, reason, selected)"
       "\<not> matches_any ?label sensitive_patterns" "\<not> matches_any ?label negotiable_patterns"
    using assms(1,2) policies_apart unfolding classify_answer_def Let_def by (auto split: if_split_asm option.split_asm)
  then show ?thesis
  proof cases
    case upload
    then show ?thesis using evidence_found(2)[OF upload(1)] assms(3) not_final that by (simp add: supports_def answerable_def list_all_iff)
  next
    case looked
    obtain v where "selected = Some v" "v \<in> set evidence" "supports policy ?question ?label ?type v"
      by (rule looked_up[OF looked(1) assms(2,3)])
    with looked(2,3) not_final show ?thesis by (intro that) (simp_all add: answerable_def)
  qed
qed

lemma decision_simps:
  "pget (answer_decision contract understanding (policy, reason, selected)) ''policy'' = PStr policy"
  "pget (answer_decision contract understanding (policy, reason, selected)) ''question_id'' = pget contract ''question_id''"
  "pget (answer_decision contract understanding (policy, reason, selected)) ''label'' = pget contract ''label''"
  "pget (answer_decision contract understanding (policy, reason, selected)) ''field_type'' = pget contract ''field_type''"
  "pget (answer_decision contract understanding (policy, reason, Some v)) ''value_reference'' = clean_or_none (form_clean (pget v ''evidence_id''))"
  "pget (answer_decision contract understanding (policy, reason, Some v)) ''value_hash'' =
     (if form_clean (pget v ''value'') = [] then PNone else PStr (sha256_hex (utf8 (form_clean (pget v ''value'')))))"
  by (simp_all add: answer_decision_def Let_def dict_get_def)

definition verdicts :: "string list" where
  "verdicts = [''final_submit'', ''reviewed_file_upload'', ''unsupported'', ''blocked_sensitive'', ''needs_user_review'', ''derived_with_evidence'',
     ''auto_fill'']"

lemma verdict_text:
  assumes "policy \<in> set verdicts"
  shows "casefold (form_clean (PStr policy)) = policy"
proof -
  have "list_all (\<lambda>p. casefold (form_clean (PStr p)) = p) verdicts" by code_simp
  from this[unfolded list_all_iff] assms show ?thesis by (rule bspec)
qed

lemma looked_up_known: "fst (lookup_answer q label field_type normalized evidence) \<in> set verdicts"
  unfolding lookup_answer_def verdicts_def by (simp split: option.split)

lemma classified_known: "fst (classify_answer contract evidence understanding) \<in> set verdicts"
proof -
  have "''final_submit'' \<in> set verdicts" "''reviewed_file_upload'' \<in> set verdicts" "''unsupported'' \<in> set verdicts"
    "''blocked_sensitive'' \<in> set verdicts" "''needs_user_review'' \<in> set verdicts"
    by (simp_all add: verdicts_def)
  then show ?thesis
    unfolding classify_answer_def Let_def using looked_up_known by (simp split: option.split)
qed

text \<open>A decision rests on a piece of evidence: it supports the answer, the decision refers to it, and holds the digest of its value.\<close>

definition rests_on :: "pyval \<Rightarrow> pyval \<Rightarrow> bool" where
  "rests_on d v = (supports (policy_of d) (form_clean (pget d ''question_id'')) (casefold (form_clean (pget d ''label'')))
       (casefold (form_clean (pget d ''field_type''))) v
     \<and> pget d ''value_reference'' = PStr (form_clean (pget v ''evidence_id''))
     \<and> pget d ''value_hash'' =
         (if form_clean (pget v ''value'') = [] then PNone else PStr (sha256_hex (utf8 (form_clean (pget v ''value''))))))"

lemma planned_answer:
  assumes "plan_form_answer evidence question = Inr d" and "policy_of d \<in> set auto_fill_policies"
  shows "\<exists>v. v \<in> set evidence \<and> rests_on d v
     \<and> answerable (policy_of d) (casefold (form_clean (pget d ''label'')))"
proof -
  from assms(1) obtain contract understanding where "build_question_contract question = Inr contract"
    and made: "d = answer_decision contract understanding (classify_answer contract (filter is_dict evidence) understanding)"
    unfolding plan_form_answer_def rbind_eq_Inr_iff by blast
  obtain policy reason selected where verdict: "classify_answer contract (filter is_dict evidence) understanding = (policy, reason, selected)"
    by (cases "classify_answer contract (filter is_dict evidence) understanding")
  then have "policy \<in> set verdicts" using classified_known by (metis fst_conv)
  then have policy: "policy_of d = policy"
    unfolding policy_of_def made verdict decision_simps by (rule verdict_text)
  obtain v where v: "selected = Some v" "v \<in> set (filter is_dict evidence)"
      "supports policy (form_clean (pget contract ''question_id'')) (casefold (form_clean (pget contract ''label'')))
         (casefold (form_clean (pget contract ''field_type''))) v"
      "answerable policy (casefold (form_clean (pget contract ''label'')))"
  proof (rule classified[OF verdict])
    show "policy \<in> set auto_fill_policies" using assms(2) policy by simp
    show "list_all is_dict (filter is_dict evidence)" by (simp add: list_all_iff)
  qed
  moreover have "form_clean (pget v ''evidence_id'') \<noteq> []" using v(3) unfolding supports_def by blast
  ultimately show ?thesis
    unfolding rests_on_def policy unfolding made verdict v(1) decision_simps by (intro exI[of _ v]) (simp add: clean_or_none_def)
qed

lemma planned_answers:
  assumes "build_form_answer_plan inventory evidence = Inr plan" and "decisions = plist (pget plan ''decisions'')" and "d \<in> set decisions"
  obtains given q where "py_iter (py_or evidence (PList [])) = Inr given" "plan_form_answer given q = Inr d"
proof -
  from assms(1) obtain questions ds where ds: "map_res (\<lambda>q. rbind (py_iter (py_or evidence (PList []))) (\<lambda>given. plan_form_answer given q)) questions = Inr ds"
    and plan: "pget plan ''decisions'' = PList ds"
    unfolding build_form_answer_plan_def rbind_eq_Inr_iff by (auto simp: dict_get_def)
  have "d \<in> set ds" using assms(2,3) plan by simp
  from map_res_set[OF ds] this obtain q where "rbind (py_iter (py_or evidence (PList []))) (\<lambda>given. plan_form_answer given q) = Inr d" by blast
  then show ?thesis using that unfolding rbind_eq_Inr_iff by blast
qed


section \<open>Properties of the answers\<close>

text \<open>An answer of the plan that may be filled in rests on a reviewed piece of evidence, and its label is not that of a final
  action nor, unless a reviewed file answers it, a sensitive or negotiable one.\<close>

theorem form_answer_is_reviewed:
  assumes "plan_form_answer evidence question = Inr d" and "policy_of d \<in> set auto_fill_policies"
  shows "\<exists>v. v \<in> set evidence \<and> rests_on d v
     \<and> answerable (policy_of d) (casefold (form_clean (pget d ''label'')))"
  by (rule planned_answer[OF assms])

text \<open>C5: When the answers of a form are planned from the evidence and the turn from those answers, an operation on a field names
  reviewed evidence: the decision on its question refers to it and holds the digest of its value, and by the policy of that
  decision it is a derived answer to this very question, the field of the profile that the label asks for, or a file that a
  person approved for a single use on this question. The label is not that of a final action nor, unless a reviewed file answers
  it, a sensitive or negotiable one.\<close>

theorem form_operation_rests_on_review:
  assumes answers: "build_form_answer_plan inventory evidence = Inr plan"
    and turn: "plan_form_workflow_turn interface surface observed inventory plan completed previous = Inr turn"
    and op: "pget turn ''operation_count'' = PInt 1" and fills: "pget turn ''action_type'' \<noteq> PStr ''continue_next_step''"
  shows "\<exists>given question d v. py_iter (py_or evidence (PList [])) = Inr given \<and> v \<in> set given
     \<and> pget turn ''question_id'' = PStr question \<and> decision_on (plist (pget plan ''decisions'')) question = Some d
     \<and> form_clean (pget d ''question_id'') = question \<and> policy_of d \<in> set auto_fill_policies \<and> rests_on d v
     \<and> answerable (policy_of d) (casefold (form_clean (pget d ''label'')))
     \<and> pget (pget turn ''operation'') ''value_reference'' = PStr (form_clean (pget v ''evidence_id''))"
proof -
  have "question_justified inventory plan completed turn"
    using turn
  proof (cases rule: planned_turn)
    case (act action)
    then show ?thesis unfolding turn_justified_def by blast
  qed (use op turn_shapes in blast)+
  then obtain done_now decisions questions where its: "py_iter (py_or (pget plan ''decisions'') (PList [])) = Inr decisions"
    and first: "case find (\<lambda>q. form_question_id q \<notin> set (completed_questions done_now)) questions of
          None \<Rightarrow> pget turn ''action_type'' = PStr ''continue_next_step''
        | Some q \<Rightarrow> pget turn ''question_id'' = PStr (form_question_id q) \<and> pget turn ''action_type'' \<noteq> PStr ''continue_next_step''
            \<and> (case decision_on decisions (form_question_id q) of None \<Rightarrow> False
              | Some d \<Rightarrow> policy_of d \<in> set auto_fill_policies
                  \<and> pget (pget turn ''operation'') ''value_reference'' = pget d ''value_reference'')"
    unfolding question_justified_def by blast
  then obtain q where named: "pget turn ''question_id'' = PStr (form_question_id q)"
    and decided: "case decision_on decisions (form_question_id q) of None \<Rightarrow> False
              | Some d \<Rightarrow> policy_of d \<in> set auto_fill_policies \<and> pget (pget turn ''operation'') ''value_reference'' = pget d ''value_reference''"
    using fills by (auto split: option.split_asm)
  then obtain d where d: "decision_on decisions (form_question_id q) = Some d" "policy_of d \<in> set auto_fill_policies"
      "pget (pget turn ''operation'') ''value_reference'' = pget d ''value_reference''"
    by (cases "decision_on decisions (form_question_id q)") auto
  then have member: "d \<in> set decisions" "form_clean (pget d ''question_id'') = form_question_id q"
    unfolding decision_on_def by (auto dest!: map_of_SomeD)
  obtain ds where "pget plan ''decisions'' = PList ds"
    using answers unfolding build_form_answer_plan_def rbind_eq_Inr_iff by (auto simp: dict_get_def)
  then have same: "decisions = plist (pget plan ''decisions'')"
    using its by (simp add: py_or_def split: if_split_asm)
  obtain given asked where from_evidence: "py_iter (py_or evidence (PList [])) = Inr given" "plan_form_answer given asked = Inr d"
    by (rule planned_answers[OF answers same member(1)])
  obtain v where "v \<in> set given" and v: "rests_on d v" "answerable (policy_of d) (casefold (form_clean (pget d ''label'')))"
    using planned_answer[OF from_evidence(2) d(2)] by blast
  moreover have "pget d ''value_reference'' = PStr (form_clean (pget v ''evidence_id''))" using v(1) unfolding rests_on_def by blast
  ultimately show ?thesis
    using from_evidence(1) named d member(2) unfolding same[symmetric]
    by (intro exI[of _ given] exI[of _ "form_question_id q"] exI[of _ d] exI[of _ v]) simp
qed

section \<open>An answer and its turn\<close>

definition sample_question :: pyval where
  "sample_question = PDict [(''question_id'', PStr ''q2''), (''label'', PStr ''Resume''), (''field_type'', PStr ''file_upload'')]"

definition sample_contract :: pyval where
  "sample_contract = PDict [(''contract_version'', PStr ''form_question_contract_v1''), (''question_id'', PStr ''q2''), (''label'', PStr ''Resume''),
     (''field_type'', PStr ''file_upload''), (''required'', PBool False), (''disabled'', PBool False), (''risk'', PStr ''ordinary_field''),
     (''options'', PList []), (''source_capture_id'', PNone)]"

definition sample_file :: pyval where
  "sample_file = PDict [(''contract_version'', PStr ''reviewed_file_evidence_v1''), (''kind'', PStr ''reviewed_file''), (''reviewed'', PBool True),
     (''human_approved'', PBool True), (''single_use'', PBool True), (''question_id'', PStr ''q2''), (''evidence_id'', PStr ''e1'')]"

definition sample_form :: pyval where
  "sample_form = PDict [(''contract_version'', PStr inventory_contract), (''capture_id'', PStr ''cap-1''), (''questions'', PList [sample_question])]"

definition sample_understanding :: pyval where
  "sample_understanding = (case normalize_question_intent sample_contract of Inl e \<Rightarrow> PNone | Inr u \<Rightarrow> u)"

definition sample_decision :: pyval where
  "sample_decision = answer_decision sample_contract sample_understanding
     (''reviewed_file_upload'', ''human_reviewed_single_use_file_available'', Some sample_file)"

lemma sample_contract_built: "build_question_contract sample_question = Inr sample_contract"
  by code_simp

lemma sample_understood: "normalize_question_intent sample_contract = Inr sample_understanding"
proof -
  have "build_question_contract sample_contract = Inr sample_contract" by code_simp
  then show ?thesis unfolding sample_understanding_def normalize_question_intent_def Let_def by simp
qed

lemma sample_texts: "casefold (form_clean (PStr ''Resume'')) = ''resume''" "casefold (form_clean (PStr ''ordinary_field'')) = ''ordinary_field''"
  "casefold (form_clean (PStr ''file_upload'')) = ''file_upload''" "form_clean (PStr ''q2'') = ''q2''" "form_clean (PStr ''cap-1'') = ''cap-1''"
  "form_clean (PStr ''form'') = ''form''" "casefold (form_clean (PStr ''ready'')) = ''ready''" "form_clean (PStr ''ready'') = ''ready''"
  "casefold ''ready'' = ''ready''"
  by code_simp+

lemma sample_classified: "classify_answer sample_contract [sample_file] u =
    (''reviewed_file_upload'', ''human_reviewed_single_use_file_available'', Some sample_file)"
proof -
  have upload: "file_evidence ''q2'' [sample_file] = Some sample_file" by code_simp
  have fields: "pget sample_contract ''label'' = PStr ''Resume''" "pget sample_contract ''risk'' = PStr ''ordinary_field''"
    "pget sample_contract ''field_type'' = PStr ''file_upload''" "pget sample_contract ''question_id'' = PStr ''q2''"
    by code_simp+
  have "''resume'' \<notin> set final_labels" by code_simp
  then show ?thesis unfolding classify_answer_def Let_def fields sample_texts upload by simp
qed

lemma sample_answer: "plan_form_answer [sample_file] sample_question = Inr sample_decision"
  unfolding plan_form_answer_def sample_contract_built rbind_Inr sample_understood sample_decision_def
  using sample_classified by (simp add: sample_file_def)

lemma sample_decision_fields: "is_dict sample_decision" "pget sample_decision ''policy'' = PStr ''reviewed_file_upload''"
  "pget sample_decision ''question_id'' = PStr ''q2''" "pget sample_decision ''field_type'' = PStr ''file_upload''"
  by (simp_all add: sample_decision_def answer_decision_def Let_def dict_get_def sample_contract_def)

lemma sample_policy: "policy_of sample_decision = ''reviewed_file_upload''"
  unfolding policy_of_def sample_decision_fields by (rule verdict_text) (simp add: verdicts_def)

definition sample_form_plan :: pyval where
  "sample_form_plan = PDict [(''contract_version'', PStr answer_plan_contract), (''source_contract'', PStr inventory_contract),
     (''capture_id'', PStr ''cap-1''), (''decisions'', PList [sample_decision]), (''policy_counts'', PDict (count_policies [sample_decision])),
     (''pii_redacted'', PBool True), (''fill_attempted'', PBool False), (''submit_attempted'', PBool False),
     (''artifact_is_authorization'', PBool False)]"

lemma sample_plan_built: "build_form_answer_plan sample_form (PList [sample_file]) = Inr sample_form_plan"
proof -
  have items: "inventory_items sample_form = Inr [sample_question]" by code_simp
  have fields: "pget sample_form ''contract_version'' = PStr inventory_contract" "pget sample_form ''capture_id'' = PStr ''cap-1''" by code_simp+
  have given: "py_iter (py_or (PList [sample_file]) (PList [])) = Inr [sample_file]" by (simp add: py_or_def)
  show ?thesis unfolding build_form_answer_plan_def items fields given rbind_Inr map_res.simps sample_answer sample_form_plan_def by simp
qed

definition sample_upload :: "pyval res" where
  "sample_upload = plan_form_workflow_turn (PStr ''form'') (PStr ''ready'') sample_captured sample_form sample_form_plan PNone PNone"

lemma sample_uploads: "\<exists>turn. sample_upload = Inr turn \<and> pget turn ''operation_count'' = PInt 1 \<and> pget turn ''action_type'' = PStr ''upload_file''"
proof -
  have asked: "ordered_questions sample_form = Inr [sample_question]" "form_question_id sample_question = ''q2''"
    "pget sample_form ''capture_id'' = PStr ''cap-1''" "pget sample_form ''danger_actions'' = PNone"
    "pget sample_form ''contract_version'' = PStr inventory_contract" "form_clean (pget sample_captured ''capture_id'') = ''cap-1''"
    by code_simp+
  have chosen: "py_or (PStr ''file_upload'') x = PStr ''file_upload''" for x
    by (simp add: py_or_def)
  have planned: "pget sample_form_plan ''decisions'' = PList [sample_decision]" "pget sample_form_plan ''capture_id'' = PStr ''cap-1''"
    "pget sample_form_plan ''contract_version'' = PStr answer_plan_contract"
    by (simp_all add: sample_form_plan_def dict_get_def)
  have on: "decision_on [sample_decision] ''q2'' = Some sample_decision"
    by (simp add: decision_on_def sample_decision_fields sample_texts)
  have "''reviewed_file_upload'' \<in> set auto_fill_policies" "''reviewed_file_upload'' \<notin> set review_policies" by code_simp+
  then have "answer_question ''form'' ''cap-1'' [sample_decision] sample_question =
      form_operation ''form'' ''cap-1'' ''upload_file'' (PStr ''q2'') ''file_upload'' (pget sample_decision ''value_reference'')
        [''capture'', ''grounding''] (PStr ''form'') PNone"
    unfolding answer_question_def Let_def asked on option.case
    using sample_policy by (simp add: policy_of_def field_type_of_def sample_decision_fields chosen sample_texts fill_action_def)
  then have turned: "sample_upload = form_operation ''form'' ''cap-1'' ''upload_file'' (PStr ''q2'') ''file_upload''
      (pget sample_decision ''value_reference'') [''capture'', ''grounding''] (PStr ''form'') PNone"
    unfolding sample_upload_def plan_form_workflow_turn_def next_form_action_def form_required_def Let_def asked planned sample_texts
    by (simp add: py_or_def asked planned sample_texts completed_questions_def)
  have known: "''upload_file'' \<in> set form_actions" by code_simp
  obtain turn where turn: "sample_upload = Inr turn"
    unfolding turned form_operation_def form_base_def by (simp add: turn_actions_def)
  note shape = operation_shape[OF known turn[unfolded turned]]
  have "pget turn ''operation_count'' = PInt 1 \<and> pget turn ''action_type'' = PStr ''upload_file''"
    using conjunct1[OF shape] known unfolding turn_shape_def by simp
  with turn show ?thesis by blast
qed

theorem form_answer_is_reviewed_witness:
  "\<exists>v. v \<in> set [sample_file] \<and> rests_on sample_decision v"
proof -
  have "policy_of sample_decision \<in> set auto_fill_policies" unfolding sample_policy by code_simp
  from form_answer_is_reviewed[OF sample_answer this] show ?thesis by blast
qed

theorem form_operation_rests_on_review_witness:
  "\<exists>turn v. sample_upload = Inr turn \<and> v = sample_file
     \<and> pget (pget turn ''operation'') ''value_reference'' = PStr (form_clean (pget v ''evidence_id''))"
proof -
  obtain turn where turn: "sample_upload = Inr turn" "pget turn ''operation_count'' = PInt 1" "pget turn ''action_type'' = PStr ''upload_file''"
    using sample_uploads by blast
  have "pget turn ''action_type'' \<noteq> PStr ''continue_next_step''" using turn(3) by simp
  from form_operation_rests_on_review[OF sample_plan_built turn(1)[unfolded sample_upload_def] turn(2) this] show ?thesis
    using turn(1) by (auto simp: py_or_def)
qed

end
