(* ===== verification/Spec2Isabelle.thy ===== *)
theory Spec2Isabelle
  imports ActionGate ContinuousSession LearningWorkflow SessionResources CommandQueue ConditionTemplates
    TaskPlan ProgramReview TrialRuns RunnerRuns NavigationRuns FormAnswers
begin

text \<open>
  \<^bold>\<open>The agent GUI runtime, modelled and verified.\<close>

  The runtime lets an agent operate a Windows desktop: it observes an interface, lets a model or a person decide among
  reviewed choices, sends one input through a gate, and keeps evidence of what happened. The development models the part
  that decides: which action may be chosen, on which evidence, when it is carried out, and what counts as success. The
  sources are under \<^verbatim>\<open>src/app/\<close>; every definition translates a function, a method or a part of one, and every exception
  is a value (\<open>res\<close> is an exception or a result).

  \<^bold>\<open>The parts and how they interact.\<close>

  An agent task runs in a \<^emph>\<open>continuous session\<close>, a dictionary that operations observe, decide and record in
  (\<open>ContinuousSession\<close>, \<^verbatim>\<open>agent/continuous_task_session.py\<close>). Two controllers drive it. The \<^emph>\<open>navigation controller\<close>
  (\<open>NavigationReading\<close>, \<open>NavigationController\<close>, \<open>NavigationRuns\<close>; \<^verbatim>\<open>agent/navigation_reading.py\<close> and
  \<^verbatim>\<open>agent/navigation_reading_controller.py\<close>) offers choices, asks for one decision, has the operation carried out and
  records its result. The \<^emph>\<open>form workflow\<close> plans the answers of a form from reviewed evidence (\<open>FormAnswers\<close>;
  \<^verbatim>\<open>agent/form_question_contracts.py\<close>, \<^verbatim>\<open>agent/form_question_understanding.py\<close>, \<^verbatim>\<open>agent/form_answer_planner.py\<close>) and the
  next turn from those answers (\<open>FormWorkflow\<close>; \<^verbatim>\<open>agent/form_workflow_controller.py\<close>); the session records the turn.

  A learned task is a \<^emph>\<open>task program\<close>: steps, branches, references to outputs (\<open>WorkflowProgram\<close>;
  \<^verbatim>\<open>learning_memory/workflow_program.py\<close>), whose reviews an edit invalidates (\<open>ProgramReview\<close>). A \<^emph>\<open>trial\<close> carries its steps
  out one at a time and judges each (\<open>WorkflowTrial\<close>, \<open>TrialRuns\<close>; \<^verbatim>\<open>learning_memory/workflow_trial.py\<close>) with the rules of
  \<open>StepVerification\<close> (\<^verbatim>\<open>learning_memory/workflow_verification.py\<close> and the modules it calls). The \<^emph>\<open>runner\<close> takes step after
  step from a trial, hands each command over to the input queue and settles the results (\<open>WorkflowRunner\<close>, \<open>RunnerMoves\<close>,
  \<open>RunnerRuns\<close>; \<^verbatim>\<open>learning_memory/workflow_runner.py\<close>). The queue is \<open>CommandQueue\<close> (\<^verbatim>\<open>core/instant_command_queue.py\<close>),
  with the two callers that write a command file past its check: \<^verbatim>\<open>stop\<close> of \<^verbatim>\<open>instant_mcp.py\<close> and \<^verbatim>\<open>_cancel_unsubmitted\<close> of
  \<^verbatim>\<open>learning_memory/workflow_runtime.py\<close>.

  The decisions these use are contracts between components: the \<^emph>\<open>task plan\<close> of a caller (\<open>TaskPlan\<close>;
  \<^verbatim>\<open>execution/task_plan_contract.py\<close> and the contracts it reads), the \<^emph>\<open>gate\<close> before an input (\<open>ActionGate\<close>; \<^verbatim>\<open>gate/\<close>),
  the three-way \<^emph>\<open>choice\<close> of a judgment and its decision profile (\<open>ChoiceContract\<close>), the \<^emph>\<open>adaptive review\<close> policy
  (\<open>AdaptivePolicy\<close>), the \<^emph>\<open>target identity\<close> (\<open>TargetIdentity\<close>) and the \<^emph>\<open>condition templates\<close> (\<open>ConditionTemplates\<close>), all of
  \<^verbatim>\<open>judgment/\<close>. Learning itself is a workflow with persisted events (\<open>LearningWorkflow\<close>; \<^verbatim>\<open>learn/workflow_state.py\<close>), and the
  model processes a session started are kept in a journal (\<open>SessionResources\<close>; \<^verbatim>\<open>execution/session_resources.py\<close>).

  \<^bold>\<open>How the model reads.\<close>

  \<^item> Data. A Python value is \<open>pyval\<close> (\<open>PyPrelude\<close>): dictionaries keep their insertion order, integers are unbounded, floats are
    binary64 values with infinities and NaN, texts hold the code points 0 to 255. \<open>PyText\<close> has the string methods, number
    formatting and \<^verbatim>\<open>int()\<close>; \<open>PyJson\<close> the JSON encodings and SHA-256, computed; \<open>PyChecks\<close> the tests the validators repeat, and
    the sums of probabilities rounded as Python rounds them; \<open>PyRegex\<close> the regular expressions, with a backtracking matcher that
    is proved to find exactly the matches of a declarative definition (\<open>re_ends_spans\<close>).
  \<^item> State. Operations of the session, the journal and the learning workflow return the new state or raise; \<open>Machines\<close> holds the
    interfaces: a machine with an invariant, one with a log that only grows, one that stops; each is interpreted on the step
    function of a component. \<open>keyed_store\<close> in \<open>CommandQueue\<close> is the contract of the files of a queue, \<open>idempotent_check\<close> in
    \<open>PyChecks\<close> that of a validator whose output it accepts unchanged.
  \<^item> Effects. The runner and the navigation controller call back into code they are given. The callbacks are parameters on an
    environment of their own that may change it and may raise; computations over such a world and the rules to follow them
    (\<open>triple\<close>) are in \<open>Actions\<close>. What was saved before an exception stays saved; a process that ends in a callback is an exception
    there (\<open>Interrupted\<close>). What is logged beside the state -- commands handed over, observations, operations -- serves the statements
    only.
  \<^item> Files. Other processes' writes are events or inputs of a run, a failing write is a result; the lock makes an operation one
    step.

  \<^bold>\<open>What is shown.\<close>

  \<^item> Safety of actions. A runner hands each command over after writing that it does so, none after a cancel, at most one per start
    in the mode \<^verbatim>\<open>single\<close>; between two interventions on a caller plan (\<open>intervenes\<close>), and always on other runs, a step is handed
    over again only after a refusal of the busy queue, and an end is final. A navigation run asks only for offered, allowed
    operations on the capture it observed last, and goes on only after one that was allowed, carried out and verified. A form
    operation fills in reviewed evidence only. The session never records a submission, and waits for an operation only on a
    decision made on its current capture. The gate lets a click through only on an allowed, fresh target.
  \<^item> Evidence of success. A verified step rests on an observation made after the input, a recorded one on an image with the digest of
    the receipt, a completed learning on its evidence; a trial's outputs can be recomputed from its reviews.
  \<^item> Well-formedness kept by every operation: the session, the learning workflow, the journal, trials and runs; the last events of a
    run are final.
  \<^item> Contracts: accepted records validate again to themselves (round trips), the projections and adoptions depend on what they should,
    the cycle check of programs is exact and runs of a program end, the order of descriptions does not matter to grounding.
  \<^item> Refinement and liveness: the learning workflow refines a typed machine with an ordered contract, and can always be completed from
    its start.

  \<^bold>\<open>Bounds.\<close> Loops of the sources are recursion on their data, or functions with a termination proof where the source recurses over a
  graph (\<open>visit_step\<close>, whose path grows within the steps; \<open>spread_affected\<close>, whose set grows within the references). Three have a
  bound: \<open>drive_loop\<close>, which the source runs 257 times at most (\<open>drive_rounds\<close>), and \<open>runner_drive_within_budget\<close> shows that more
  rounds change nothing for runs that are no caller plans, at most 256 steps being prepared in one; \<open>nav_loop\<close>, the source's \<^verbatim>\<open>for\<close> over \<^verbatim>\<open>max(1, max_steps)\<close>; and
  \<open>shortest\<close>, as 17 digits identify a binary64 number.

  \<^bold>\<open>Not modelled.\<close>

  \<^item> Code points above 255 (also the Chinese terms of the gate), surrogates, and the order of Python sets: where a redaction has
    several secrets of equal length their order is unspecified, and the model takes the listed one.
  \<^item> Input and output: windows, mouse and keyboard, screenshots, accessibility trees, OCR and vision models, HTTP services, Qt views,
    subprocesses, timers and threads. The code there mostly calls libraries outside the repository; where modelled code relies on it,
    it is a callback or an argument.
  \<^item> The larger services over these decisions (\<^verbatim>\<open>api/\<close>, \<^verbatim>\<open>learn/workflow_service.py\<close>, \<^verbatim>\<open>learn/workflow_worker.py\<close>, the stores of
    runtime intents and receipts, the live controllers): they compose file access, processes and model calls around the contracts
    above. The recognition pipeline and the benchmarks under \<^verbatim>\<open>learn/\<close> measure images and models.
  \<^item> Of partly modelled components: all of \<^verbatim>\<open>judgment/ordinary_review.py\<close> but its effective choice, pydantic's parsing and the endpoint syntax of the decision profile, the service that loads and saves
    programs, the import of a recovered run, and the geometry of row selections that reads accessibility data.
\<close>

end
